(* ===== verification/Prelude.thy ===== *)
theory Prelude
  imports
    Main
    "HOL-Library.Word"
    "HOL-Library.AList"
    "HOL-Library.Char_ord"
    "HOL-Library.List_Lexorder"
begin

text \<open>
  Shared notions of the development: Go maps as association lists (the list order is the order in
  which one \<^verbatim>\<open>range\<close> loop visits the map), nilable slices, the functions of Go's
  \<^verbatim>\<open>strings\<close> and \<^verbatim>\<open>strconv\<close> packages that the program calls, and reachability of step
  relations with the \<open>machine\<close> interface used for every event loop. Strings are byte
  strings; the white-space functions treat the ASCII white space of \<^verbatim>\<open>unicode.IsSpace\<close>.
\<close>

named_theorems go_map \<open>facts on Go maps modelled as association lists\<close>
named_theorems go_str \<open>facts on Go string functions\<close>

type_synonym u8 = "8 word"
type_synonym u16 = "16 word"
type_synonym u32 = "32 word"
type_synonym ('k, 'v) gomap = "('k \<times> 'v) list"
type_synonym 'a slice = "'a list option"

lemma foldl_invariant:
  assumes "P b" "\<And>b x. P b \<Longrightarrow> x \<in> set xs \<Longrightarrow> P (f b x)"
  shows "P (foldl f b xs)"
  using assms by (induction xs arbitrary: b) auto

section \<open>Go maps\<close>

abbreviation gm_get :: "('k, 'v) gomap \<Rightarrow> 'k \<Rightarrow> 'v option" where
  "gm_get m k \<equiv> map_of m k"

abbreviation gm_put :: "'k \<Rightarrow> 'v \<Rightarrow> ('k, 'v) gomap \<Rightarrow> ('k, 'v) gomap" where
  "gm_put k v m \<equiv> AList.update k v m"

abbreviation gm_del :: "'k \<Rightarrow> ('k, 'v) gomap \<Rightarrow> ('k, 'v) gomap" where
  "gm_del k m \<equiv> AList.delete k m"

definition gm_wf :: "('k, 'v) gomap \<Rightarrow> bool" where
  "gm_wf m \<longleftrightarrow> distinct (map fst m)"

lemma gm_wf_Nil [simp]: "gm_wf []"
  by (simp add: gm_wf_def)

lemma gm_wf_put [simp, intro]: "gm_wf m \<Longrightarrow> gm_wf (gm_put k v m)"
  by (simp add: gm_wf_def distinct_update)

lemma gm_wf_del [simp, intro]: "gm_wf m \<Longrightarrow> gm_wf (gm_del k m)"
  by (simp add: gm_wf_def distinct_delete)

lemma gm_get_put [simp]: "gm_get (gm_put k v m) k' = (if k' = k then Some v else gm_get m k')"
  by (simp add: update_conv)

lemma gm_get_del [simp]: "gm_get (gm_del k m) k' = (if k' = k then None else gm_get m k')"
  by (simp add: delete_conv')

lemma gm_get_iff_mem: "gm_wf m \<Longrightarrow> gm_get m k = Some v \<longleftrightarrow> (k, v) \<in> set m"
  by (simp add: gm_wf_def)

lemma gm_set_del [go_map]: "set (gm_del k m) = {p \<in> set m. fst p \<noteq> k}"
  by (induction m) auto

lemma gm_mem_put:
  "gm_wf m \<Longrightarrow> p \<in> set (gm_put k v m) \<longleftrightarrow> p = (k, v) \<or> (p \<in> set m \<and> fst p \<noteq> k)"
  by (induction m) (auto simp: gm_wf_def image_iff)

lemma gm_set_put [go_map]:
  assumes "gm_wf m"
  shows "set (gm_put k v m) = insert (k, v) {p \<in> set m. fst p \<noteq> k}"
  using gm_mem_put [OF assms] by blast

lemma gm_wf_filter [simp, intro]: "gm_wf m \<Longrightarrow> gm_wf (filter P m)"
  by (simp add: gm_wf_def distinct_map inj_on_def)

lemma gm_get_None_iff [go_map]: "gm_get m k = None \<longleftrightarrow> k \<notin> fst ` set m"
  by (simp add: map_of_eq_None_iff)

text \<open>Two maps are the same Go map, visited in different orders, when they have the same entries.\<close>

definition gm_same :: "('k, 'v) gomap \<Rightarrow> ('k, 'v) gomap \<Rightarrow> bool" where
  "gm_same m m' \<longleftrightarrow> gm_wf m \<and> gm_wf m' \<and> set m = set m'"

lemma gm_same_get: "gm_same m m' \<Longrightarrow> gm_get m k = gm_get m' k"
proof (cases "gm_get m' k")
  case None
  assume "gm_same m m'"
  then have "set m = set m'" by (simp add: gm_same_def)
  with None show ?thesis by (metis map_of_eq_None_iff)
next
  case (Some v)
  assume s: "gm_same m m'"
  with Some have "(k, v) \<in> set m'" by (simp add: gm_same_def gm_get_iff_mem)
  with s have "gm_get m k = Some v" by (simp add: gm_same_def gm_get_iff_mem)
  with Some show ?thesis by simp
qed

lemma gm_same_put: "gm_same m m' \<Longrightarrow> gm_same (gm_put k v m) (gm_put k v m')"
  by (simp add: gm_same_def go_map)

lemma gm_same_del: "gm_same m m' \<Longrightarrow> gm_same (gm_del k m) (gm_del k m')"
  by (simp add: gm_same_def go_map)

section \<open>Nilable slices\<close>

definition slice_list :: "'a slice \<Rightarrow> 'a list" where
  "slice_list s = (case s of None \<Rightarrow> [] | Some xs \<Rightarrow> xs)"

definition slice_len :: "'a slice \<Rightarrow> nat" where
  "slice_len s = length (slice_list s)"

text \<open>The expression \<^verbatim>\<open>append(s, x...)\<close>: nil stays nil when nothing is appended.\<close>

definition slice_append :: "'a slice \<Rightarrow> 'a list \<Rightarrow> 'a slice" where
  "slice_append s xs = (if xs = [] then s else Some (slice_list s @ xs))"

text \<open>The expression \<^verbatim>\<open>s[:0:0]\<close>: an empty slice without capacity, nil when \<^verbatim>\<open>s\<close> is.\<close>

definition slice_zero :: "'a slice \<Rightarrow> 'a slice" where
  "slice_zero s = map_option (\<lambda>_. []) s"

lemma slice_list_simps [simp]: "slice_list None = []" "slice_list (Some xs) = xs"
  by (simp_all add: slice_list_def)

lemma slice_copy_id [simp]: "slice_append (slice_zero s) (slice_list s) = s"
  by (cases s) (auto simp: slice_append_def slice_zero_def)

section \<open>Strings\<close>

text \<open>\<^verbatim>\<open>strings.Split\<close> with a separator of one byte.\<close>

fun split_char :: "char \<Rightarrow> string \<Rightarrow> string list" where
  "split_char c [] = [[]]"
| "split_char c (x # xs) =
     (if x = c then [] # split_char c xs
      else (case split_char c xs of [] \<Rightarrow> [[x]] | y # ys \<Rightarrow> (x # y) # ys))"

text \<open>
  \<^verbatim>\<open>strings.Cut\<close> with a separator of one byte, and so \<^verbatim>\<open>strings.SplitN(s, sep, 2)\<close>,
  which has two parts exactly when the separator occurs.
\<close>

fun cut_char :: "char \<Rightarrow> string \<Rightarrow> (string \<times> string) option" where
  "cut_char c [] = None"
| "cut_char c (x # xs) =
     (if x = c then Some ([], xs)
      else (case cut_char c xs of None \<Rightarrow> None | Some (a, b) \<Rightarrow> Some (x # a, b)))"

definition has_prefix :: "string \<Rightarrow> string \<Rightarrow> bool" where
  "has_prefix s p \<longleftrightarrow> take (length p) s = p"

definition trim_chars :: "string \<Rightarrow> string \<Rightarrow> string" where
  "trim_chars cutset s =
     rev (dropWhile (\<lambda>c. c \<in> set cutset) (rev (dropWhile (\<lambda>c. c \<in> set cutset) s)))"

definition trim_prefix :: "string \<Rightarrow> string \<Rightarrow> string" where
  "trim_prefix s p = (if has_prefix s p then drop (length p) s else s)"

definition trim_suffix :: "string \<Rightarrow> string \<Rightarrow> string" where
  "trim_suffix s p =
     (if length p \<le> length s \<and> drop (length s - length p) s = p
      then take (length s - length p) s else s)"

definition ascii_space :: "char \<Rightarrow> bool" where
  "ascii_space c \<longleftrightarrow> c \<in> {CHR 0x09, CHR 0x0A, CHR 0x0B, CHR 0x0C, CHR 0x0D, CHR 0x20}"

definition trim_space :: "string \<Rightarrow> string" where
  "trim_space s = rev (dropWhile ascii_space (rev (dropWhile ascii_space s)))"

text \<open>\<^verbatim>\<open>strings.Fields\<close>: the maximal runs of bytes that are not white space.\<close>

fun fields_acc :: "string \<Rightarrow> string \<Rightarrow> string list" where
  "fields_acc acc [] = (if acc = [] then [] else [rev acc])"
| "fields_acc acc (c # cs) =
     (if ascii_space c then (if acc = [] then fields_acc [] cs else rev acc # fields_acc [] cs)
      else fields_acc (c # acc) cs)"

definition fields :: "string \<Rightarrow> string list" where
  "fields s = fields_acc [] s"

lemma split_char_nonempty [simp]: "split_char c s \<noteq> []"
  by (induction s) (auto split: list.splits)

lemma split_char_append_sep [go_str]:
  "split_char c (xs @ c # ys) = split_char c xs @ split_char c ys"
  by (induction xs) (auto split: list.splits)

lemma split_char_free [go_str]: "c \<notin> set s \<Longrightarrow> split_char c s = [s]"
  by (induction s) auto

lemma cut_char_append [go_str]: "c \<notin> set xs \<Longrightarrow> cut_char c (xs @ c # ys) = Some (xs, ys)"
  by (induction xs) auto

lemma cut_char_None_iff [go_str]: "cut_char c s = None \<longleftrightarrow> c \<notin> set s"
  by (induction s) (auto split: option.splits)

lemma cut_char_SomeD: "cut_char c s = Some (a, b) \<Longrightarrow> s = a @ c # b \<and> c \<notin> set a"
proof (induction s arbitrary: a)
  case (Cons x xs)
  show ?case
  proof (cases "x = c")
    case False
    with Cons.prems obtain a' where "cut_char c xs = Some (a', b)" "a = x # a'"
      by (auto split: option.splits)
    with False Cons.IH [of a'] show ?thesis by simp
  qed (use Cons.prems in simp)
qed simp

lemma fields_acc_nonempty: "w \<in> set (fields_acc acc s) \<Longrightarrow> w \<noteq> []"
  by (induction acc s rule: fields_acc.induct) (auto split: if_splits)

lemma fields_nonempty: "w \<in> set (fields s) \<Longrightarrow> w \<noteq> []"
  by (simp add: fields_def fields_acc_nonempty)

section \<open>Numbers as text\<close>

definition digit_chars :: "char set" where
  "digit_chars = set ''0123456789abcdef''"

definition digit_char :: "nat \<Rightarrow> char" where
  "digit_char n = (''0123456789abcdef'' ! n)"

text \<open>The digits of a number, without leading zeros: \<^verbatim>\<open>strconv.Itoa\<close> and \<^verbatim>\<open>appendHex\<close>.\<close>

function show_base :: "nat \<Rightarrow> nat \<Rightarrow> string" where
  "show_base b n =
     (if n < b \<or> b < 2 then [digit_char (n mod 16)]
      else show_base b (n div b) @ [digit_char (n mod b mod 16)])"
  by pat_completeness auto
termination
  by (relation "measure (\<lambda>(b, n). n)") (auto simp: div_less_dividend)

declare show_base.simps [simp del]

abbreviation show_dec :: "nat \<Rightarrow> string" where
  "show_dec n \<equiv> show_base 10 n"

abbreviation show_hex :: "nat \<Rightarrow> string" where
  "show_hex n \<equiv> show_base 16 n"

text \<open>\<^verbatim>\<open>fmt.Sprintf("%d", i)\<close>.\<close>

definition show_int :: "int \<Rightarrow> string" where
  "show_int i = (if i < 0 then CHR ''-'' # show_dec (nat (- i)) else show_dec (nat i))"

definition char_digit :: "char \<Rightarrow> nat option" where
  "char_digit c =
     (let n = of_char c :: nat in
      if 48 \<le> n \<and> n \<le> 57 then Some (n - 48)
      else if 97 \<le> n \<and> n \<le> 102 then Some (n - 87)
      else if 65 \<le> n \<and> n \<le> 70 then Some (n - 55)
      else None)"

text \<open>The value of a digit string in a base; nothing for the empty string or another byte.\<close>

definition read_digit :: "nat \<Rightarrow> nat option \<Rightarrow> char \<Rightarrow> nat option" where
  "read_digit b acc c =
     (case acc of None \<Rightarrow> None
      | Some a \<Rightarrow> (case char_digit c of None \<Rightarrow> None
                  | Some d \<Rightarrow> if d < b then Some (a * b + d) else None))"

definition read_base :: "nat \<Rightarrow> string \<Rightarrow> nat option" where
  "read_base b s = (if s = [] then None else foldl (read_digit b) (Some 0) s)"

text \<open>
  \<^verbatim>\<open>strconv.ParseUint(s, b, w)\<close> for the explicit bases 8 and 10: no sign, no underscore,
  the value below \<open>2 ^ w\<close>. \<^verbatim>\<open>strconv.Atoi\<close> takes one optional sign and a 64-bit value.
\<close>

definition ParseUint :: "string \<Rightarrow> nat \<Rightarrow> nat \<Rightarrow> nat option" where
  "ParseUint s b w =
     (case read_base b s of None \<Rightarrow> None | Some n \<Rightarrow> if int n < 2 ^ w then Some n else None)"

definition Atoi :: "string \<Rightarrow> int option" where
  "Atoi s =
     (case s of [] \<Rightarrow> None
      | c # cs \<Rightarrow>
          (if c = CHR ''-'' then
             (case read_base 10 cs of None \<Rightarrow> None
              | Some n \<Rightarrow> if int n \<le> 2 ^ 63 then Some (- int n) else None)
           else
             (case read_base 10 (if c = CHR ''+'' then cs else s) of None \<Rightarrow> None
              | Some n \<Rightarrow> if int n < 2 ^ 63 then Some (int n) else None)))"

lemma digit_char_set: "n < 16 \<Longrightarrow> digit_char n \<in> digit_chars"
  unfolding digit_char_def digit_chars_def by (rule nth_mem) simp

lemma separators_not_digit [simp]:
  "CHR '':'' \<notin> digit_chars" "CHR ''.'' \<notin> digit_chars" "CHR ''/'' \<notin> digit_chars"
  "CHR ''%'' \<notin> digit_chars" "CHR '' '' \<notin> digit_chars"
  by (simp_all add: digit_chars_def)

lemma upto_16: "n < 16 \<Longrightarrow> n \<in> {0, 1, 2, 3, 4, 5, 6, 7, 8, 9, 10, 11, 12, 13, 14, 15 :: nat}"
  by simp arith

lemma char_digit_digit_char [simp]: "n < 16 \<Longrightarrow> char_digit (digit_char n) = Some n"
  by (drule upto_16) (auto simp: digit_char_def char_digit_def)

lemma show_base_nonempty [simp]: "show_base b n \<noteq> []"
  by (subst show_base.simps) simp

lemma show_base_chars: "set (show_base b n) \<subseteq> digit_chars"
proof (induction b n rule: show_base.induct)
  case (1 b n)
  have d: "digit_char (k mod 16) \<in> digit_chars" for k
    by (rule digit_char_set) simp
  show ?case
  proof (cases "n < b \<or> b < 2")
    case True
    with d [of n] show ?thesis by (subst show_base.simps) simp
  next
    case False
    with 1 d [of "n mod b"] show ?thesis by (subst show_base.simps) simp
  qed
qed

lemma show_base_no_sep [go_str]: "c \<notin> digit_chars \<Longrightarrow> c \<notin> set (show_base b n)"
  using show_base_chars [of b n] by blast

lemma read_base_show_base [simp]:
  assumes "2 \<le> b" "b \<le> 16"
  shows "read_base b (show_base b n) = Some n"
proof -
  have "foldl (read_digit b) (Some 0) (show_base b n) = Some n"
    using assms
  proof (induction b n rule: show_base.induct)
    case (1 b n)
    show ?case
    proof (cases "n < b")
      case True
      with 1 show ?thesis by (subst show_base.simps) (simp add: read_digit_def)
    next
      case False
      with 1 have IH: "foldl (read_digit b) (Some 0) (show_base b (n div b)) = Some (n div b)"
        by simp
      have "n mod b < b" using 1 by simp
      with 1 have "n mod b < 16" by linarith
      with False 1 IH show ?thesis
        by (subst show_base.simps) (simp add: read_digit_def)
    qed
  qed
  then show ?thesis by (simp add: read_base_def)
qed

lemma show_base_inj: "2 \<le> b \<Longrightarrow> b \<le> 16 \<Longrightarrow> show_base b m = show_base b n \<longleftrightarrow> m = n"
  by (metis option.inject read_base_show_base)

section \<open>Outcomes\<close>

text \<open>
  A call of a Go method returns, panics or blocks forever. The latter two are the fates of a
  method that closes a closed channel and of one that waits for a goroutine that never ran.
\<close>

datatype 'a outcome = Returns 'a | Panics | Blocks

text \<open>
  The life of a component with a goroutine and the channels \<^verbatim>\<open>done\<close>, closed by
  \<^verbatim>\<open>Stop\<close>, and \<^verbatim>\<open>closed\<close>, closed when the goroutine ends and awaited by
  \<^verbatim>\<open>Stop\<close>. The goroutine of some components ends by itself.
\<close>

datatype life = NotStarted | Running | Ended | Stopped

definition life_Stop :: "life \<Rightarrow> life outcome" where
  "life_Stop l =
     (case l of NotStarted \<Rightarrow> Blocks | Running \<Rightarrow> Returns Stopped
      | Ended \<Rightarrow> Returns Stopped | Stopped \<Rightarrow> Panics)"

text \<open>Changes of a file's content, owner and permissions.\<close>

datatype file_op = WriteFile string string nat | Chown string int int | Chmod string nat

text \<open>Results with errors: the first error ends a sequence of calls.\<close>

fun ebind :: "'e + 'a \<Rightarrow> ('a \<Rightarrow> 'e + 'b) \<Rightarrow> 'e + 'b" where
  "ebind (Inl e) f = Inl e"
| "ebind (Inr x) f = f x"

lemma ebind_Inr_iff: "ebind x f = Inr y \<longleftrightarrow> (\<exists>z. x = Inr z \<and> f z = Inr y)"
  by (cases x) auto

section \<open>Step relations\<close>

text \<open>States reachable from an initial state by a labelled step relation.\<close>

inductive reach :: "('s \<Rightarrow> bool) \<Rightarrow> ('s \<Rightarrow> 'e \<Rightarrow> 's \<Rightarrow> bool) \<Rightarrow> 's \<Rightarrow> bool"
  for init step where
  reach_init [intro]: "init s \<Longrightarrow> reach init step s"
| reach_step [intro]: "reach init step s \<Longrightarrow> step s e s' \<Longrightarrow> reach init step s'"

text \<open>The runs of a step relation: the states after each label of a list.\<close>

inductive run :: "('s \<Rightarrow> 'e \<Rightarrow> 's \<Rightarrow> bool) \<Rightarrow> 's \<Rightarrow> 'e list \<Rightarrow> 's \<Rightarrow> bool" for step where
  run_Nil [intro!]: "run step s [] s"
| run_Cons [intro]: "step s e s' \<Longrightarrow> run step s' es s'' \<Longrightarrow> run step s (e # es) s''"

inductive_simps run_Nil_iff [simp]: "run step s [] s'"
inductive_simps run_Cons_iff: "run step s (e # es) s'"

text \<open>
  The interface every event loop of the program is proved against: an invariant that holds
  initially and that every step keeps.
\<close>

locale machine =
  fixes init :: "'s \<Rightarrow> bool"
    and step :: "'s \<Rightarrow> 'e \<Rightarrow> 's \<Rightarrow> bool"
    and inv :: "'s \<Rightarrow> bool"
  assumes inv_init: "init s \<Longrightarrow> inv s"
    and inv_step: "inv s \<Longrightarrow> step s e s' \<Longrightarrow> inv s'"
begin

lemma reach_inv: "reach init step s \<Longrightarrow> inv s"
  by (induction rule: reach.induct) (auto intro: inv_init inv_step)

lemma run_inv: "run step s es s' \<Longrightarrow> inv s \<Longrightarrow> inv s'"
  by (induction rule: run.induct) (auto intro: inv_step)

lemma run_reach: "run step s es s' \<Longrightarrow> reach init step s \<Longrightarrow> reach init step s'"
  by (induction rule: run.induct) auto

end

end
