(* ===== verification/Netip.thy ===== *)
theory Netip
  imports Prelude
begin

text \<open>
  Go's \<^verbatim>\<open>net/netip\<close> as the program uses it: addresses (with the zone of an IPv6 address),
  prefixes, their text form, the parsers, \<^verbatim>\<open>Contains\<close> and \<^verbatim>\<open>Overlaps\<close>, and the part
  of \<^verbatim>\<open>net.IP\<close> and \<^verbatim>\<open>net.IPMask\<close> the conversions need. The lemmas give prefixes their
  meaning as sets of addresses: two prefixes that overlap are nested, the shorter one around the
  longer one, and the text form of a valid prefix identifies it.
\<close>

unbundle bit_operations_syntax

section \<open>Addresses\<close>

datatype addr = AddrZero | IP4 "32 word" | IP6 "128 word" string

fun BitLen :: "addr \<Rightarrow> nat" where
  "BitLen AddrZero = 0"
| "BitLen (IP4 _) = 32"
| "BitLen (IP6 _ _) = 128"

definition addr_IsValid :: "addr \<Rightarrow> bool" where
  "addr_IsValid a \<longleftrightarrow> a \<noteq> AddrZero"

fun addr_Is4 :: "addr \<Rightarrow> bool" where
  "addr_Is4 (IP4 _) = True"
| "addr_Is4 _ = False"

fun addr_Is6 :: "addr \<Rightarrow> bool" where
  "addr_Is6 (IP6 _ _) = True"
| "addr_Is6 _ = False"

fun addr_zone :: "addr \<Rightarrow> string" where
  "addr_zone (IP6 _ z) = z"
| "addr_zone _ = ''''"

fun withoutZone :: "addr \<Rightarrow> addr" where
  "withoutZone (IP6 w _) = IP6 w ''''"
| "withoutZone a = a"

definition w_Is4In6 :: "128 word \<Rightarrow> bool" where
  "w_Is4In6 w \<longleftrightarrow> drop_bit 32 w = 0xffff"

fun Unmap :: "addr \<Rightarrow> addr" where
  "Unmap (IP6 w z) = (if w_Is4In6 w then IP4 (ucast w) else IP6 w z)"
| "Unmap a = a"

definition bytes_int :: "u8 list \<Rightarrow> int" where
  "bytes_int bs = foldl (\<lambda>a b. a * 256 + uint b) 0 bs"

definition AddrFromSlice :: "u8 list \<Rightarrow> addr option" where
  "AddrFromSlice bs =
     (if length bs = 4 then Some (IP4 (word_of_int (bytes_int bs)))
      else if length bs = 16 then Some (IP6 (word_of_int (bytes_int bs)) '''')
      else None)"

text \<open>\<^verbatim>\<open>net.IP.To4\<close>: the four bytes of an IPv4 or IPv4-mapped address, nil otherwise.\<close>

definition To4 :: "u8 list \<Rightarrow> u8 list" where
  "To4 ip =
     (if length ip = 4 then ip
      else if length ip = 16 \<and> take 10 ip = replicate 10 0 \<and> ip ! 10 = 0xff \<and> ip ! 11 = 0xff
      then drop 12 ip else [])"

text \<open>
  \<^verbatim>\<open>net.IPMask.Size\<close>, its first result: the number of leading one bits of a canonical mask,
  0 for a mask that is not ones followed by zeros.
\<close>

definition byte_ones :: "u8 \<Rightarrow> nat" where
  "byte_ones b = length (takeWhile (\<lambda>i. bit b i) (rev [0..<8]))"

fun mask_ones :: "u8 list \<Rightarrow> nat option" where
  "mask_ones [] = Some 0"
| "mask_ones (b # bs) =
     (if b = 0xff then map_option (\<lambda>n. 8 + n) (mask_ones bs)
      else if b = push_bit (8 - byte_ones b) (mask (byte_ones b)) \<and> (\<forall>c \<in> set bs. c = 0)
      then Some (byte_ones b) else None)"

definition mask_Size :: "u8 list \<Rightarrow> nat" where
  "mask_Size m = (case mask_ones m of None \<Rightarrow> 0 | Some n \<Rightarrow> n)"

section \<open>Prefixes\<close>

datatype prefix = Prefix (prefix_Addr: addr) (bitsPlusOne: nat)

abbreviation PrefixZero :: prefix where
  "PrefixZero \<equiv> Prefix AddrZero 0"

definition PrefixFrom :: "addr \<Rightarrow> int \<Rightarrow> prefix" where
  "PrefixFrom ip bits =
     Prefix (withoutZone ip)
       (if ip \<noteq> AddrZero \<and> 0 \<le> bits \<and> bits \<le> int (BitLen ip) then nat bits + 1 else 0)"

definition prefix_Bits :: "prefix \<Rightarrow> int" where
  "prefix_Bits p = int (bitsPlusOne p) - 1"

definition prefix_IsValid :: "prefix \<Rightarrow> bool" where
  "prefix_IsValid p \<longleftrightarrow> 0 < bitsPlusOne p"

definition IsSingleIP :: "prefix \<Rightarrow> bool" where
  "IsSingleIP p \<longleftrightarrow> prefix_IsValid p \<and> prefix_Bits p = int (BitLen (prefix_Addr p))"

text \<open>The top \<open>n\<close> bits of a word: \<^verbatim>\<open>and(mask6(n))\<close> of the library.\<close>

definition top_bits :: "nat \<Rightarrow> 'a::len word \<Rightarrow> 'a word" where
  "top_bits n w = push_bit (LENGTH('a) - n) (drop_bit (LENGTH('a) - n) w)"

text \<open>The address under a prefix's top \<open>n\<close> bits: \<^verbatim>\<open>ip.Prefix(n)\<close> without its error.\<close>

fun addr_masked :: "nat \<Rightarrow> addr \<Rightarrow> addr" where
  "addr_masked n AddrZero = AddrZero"
| "addr_masked n (IP4 w) = IP4 (top_bits n w)"
| "addr_masked n (IP6 w z) = IP6 (top_bits n w) ''''"

definition Contains :: "prefix \<Rightarrow> addr \<Rightarrow> bool" where
  "Contains p a =
     (if \<not> prefix_IsValid p \<or> addr_zone a \<noteq> '''' then False
      else (case (prefix_Addr p, a) of
          (IP4 v, IP4 w) \<Rightarrow> drop_bit (32 - (bitsPlusOne p - 1)) (w XOR v) = 0
        | (IP6 v _, IP6 w _) \<Rightarrow> top_bits (bitsPlusOne p - 1) (w XOR v) = 0
        | _ \<Rightarrow> False))"

definition Overlaps :: "prefix \<Rightarrow> prefix \<Rightarrow> bool" where
  "Overlaps p q =
     (if \<not> prefix_IsValid p \<or> \<not> prefix_IsValid q then False
      else if p = q then True
      else if addr_Is4 (prefix_Addr p) \<noteq> addr_Is4 (prefix_Addr q) then False
      else (let minBits = min (bitsPlusOne p - 1) (bitsPlusOne q - 1) in
            if minBits = 0 then True
            else addr_masked minBits (prefix_Addr p) = addr_masked minBits (prefix_Addr q)))"

text \<open>What \<^verbatim>\<open>PrefixFrom\<close> and the parsers establish, and so every prefix value satisfies.\<close>

definition prefix_wf :: "prefix \<Rightarrow> bool" where
  "prefix_wf p \<longleftrightarrow>
     addr_zone (prefix_Addr p) = '''' \<and>
     (prefix_IsValid p \<longrightarrow> prefix_Addr p \<noteq> AddrZero \<and> bitsPlusOne p \<le> BitLen (prefix_Addr p) + 1)"

definition prefix_set :: "prefix \<Rightarrow> addr set" where
  "prefix_set p = {a. Contains p a}"

lemma zone_withoutZone [simp]: "addr_zone (withoutZone a) = ''''"
  by (cases a) auto

lemma BitLen_withoutZone [simp]: "BitLen (withoutZone a) = BitLen a"
  by (cases a) auto

lemma withoutZone_zero_iff [simp]: "withoutZone a = AddrZero \<longleftrightarrow> a = AddrZero"
  by (cases a) auto

lemma withoutZone_id: "addr_zone a = '''' \<Longrightarrow> withoutZone a = a"
  by (cases a) auto

lemma PrefixFrom_wf [simp]: "prefix_wf (PrefixFrom a n)"
  by (auto simp: prefix_wf_def PrefixFrom_def prefix_IsValid_def)

lemma PrefixZero_wf [simp]: "prefix_wf PrefixZero"
  by (simp add: prefix_wf_def prefix_IsValid_def)

lemma PrefixFrom_full_valid [simp]:
  "prefix_IsValid (PrefixFrom a (int (BitLen a))) \<longleftrightarrow> a \<noteq> AddrZero"
  by (auto simp: prefix_IsValid_def PrefixFrom_def)

lemma IsSingleIP_full: "a \<noteq> AddrZero \<Longrightarrow> IsSingleIP (PrefixFrom a (int (BitLen a)))"
  by (auto simp: IsSingleIP_def prefix_IsValid_def prefix_Bits_def PrefixFrom_def)

section \<open>Prefixes as sets of addresses\<close>

lemma bit_top_bits:
  fixes w :: "'a::len word"
  assumes "n \<le> LENGTH('a)"
  shows "bit (top_bits n w) i \<longleftrightarrow> LENGTH('a) - n \<le> i \<and> bit w i"
  using assms
  by (auto simp: top_bits_def bit_push_bit_iff bit_drop_bit_eq dest: bit_imp_le_length)

lemma top_bits_eq_iff:
  fixes v w :: "'a::len word"
  assumes "n \<le> LENGTH('a)"
  shows "top_bits n v = top_bits n w \<longleftrightarrow> (\<forall>i\<ge>LENGTH('a) - n. bit v i = bit w i)"
  using assms by (auto simp: bit_eq_iff bit_top_bits dest: bit_imp_le_length)

lemma top_bits_xor_0_iff:
  fixes v w :: "'a::len word"
  assumes "n \<le> LENGTH('a)"
  shows "top_bits n (v XOR w) = 0 \<longleftrightarrow> top_bits n v = top_bits n w"
  using assms by (auto simp: bit_eq_iff bit_top_bits bit_xor_iff dest: bit_imp_le_length)

lemma drop_bit_0_iff: "drop_bit k (x :: 'a::len word) = 0 \<longleftrightarrow> (\<forall>i\<ge>k. \<not> bit x i)"
proof
  assume z: "drop_bit k x = 0"
  show "\<forall>i\<ge>k. \<not> bit x i"
  proof (intro allI impI)
    fix i assume "k \<le> i"
    moreover have "\<not> bit (drop_bit k x) (i - k)" using z by simp
    ultimately show "\<not> bit x i" by (simp add: bit_drop_bit_eq)
  qed
next
  assume "\<forall>i\<ge>k. \<not> bit x i"
  then show "drop_bit k x = 0" by (intro bit_word_eqI) (simp add: bit_drop_bit_eq)
qed

lemma drop_bit_xor_0_iff:
  fixes v w :: "'a::len word"
  assumes "n \<le> LENGTH('a)"
  shows "drop_bit (LENGTH('a) - n) (v XOR w) = 0 \<longleftrightarrow> top_bits n v = top_bits n w"
  using assms by (simp only: drop_bit_0_iff top_bits_eq_iff bit_xor_iff) blast

lemma top_bits_antimono:
  fixes v w :: "'a::len word"
  assumes "m \<le> n" "n \<le> LENGTH('a)" "top_bits n v = top_bits n w"
  shows "top_bits m v = top_bits m w"
  using assms by (auto simp: top_bits_eq_iff)

text \<open>A valid prefix contains an address iff they agree under the prefix's length.\<close>

lemma Contains_iff:
  assumes "prefix_wf p"
  shows "Contains p a \<longleftrightarrow>
     prefix_IsValid p \<and> addr_zone a = '''' \<and> addr_Is4 a = addr_Is4 (prefix_Addr p) \<and> a \<noteq> AddrZero \<and>
     addr_masked (bitsPlusOne p - 1) a = addr_masked (bitsPlusOne p - 1) (prefix_Addr p)"
proof (cases "prefix_Addr p"; cases a)
  fix v w
  assume [simp]: "prefix_Addr p = IP4 v" "a = IP4 w"
  show ?thesis
  proof (cases "prefix_IsValid p")
    case True
    with assms have "bitsPlusOne p - 1 \<le> LENGTH(32)" by (auto simp: prefix_wf_def)
    from drop_bit_xor_0_iff [OF this, of w v] True show ?thesis
      by (simp add: Contains_def)
  qed (simp add: Contains_def)
next
  fix v z w z'
  assume [simp]: "prefix_Addr p = IP6 v z" "a = IP6 w z'"
  show ?thesis
  proof (cases "prefix_IsValid p")
    case True
    with assms have "bitsPlusOne p - 1 \<le> LENGTH(128)" by (auto simp: prefix_wf_def)
    from top_bits_xor_0_iff [OF this, of w v] True show ?thesis
      by (simp add: Contains_def)
  qed (simp add: Contains_def)
qed (auto simp: Contains_def)

lemma addr_masked_antimono:
  assumes "m \<le> n" "n \<le> BitLen a" "BitLen a = BitLen b" "addr_masked n a = addr_masked n b"
  shows "addr_masked m a = addr_masked m b"
  using assms by (cases a; cases b) (auto intro: top_bits_antimono)

lemma BitLen_eq_if_Is4:
  "a \<noteq> AddrZero \<Longrightarrow> b \<noteq> AddrZero \<Longrightarrow> addr_Is4 a = addr_Is4 b \<Longrightarrow> BitLen a = BitLen b"
  by (cases a; cases b) auto

lemma addr_masked_0:
  "a \<noteq> AddrZero \<Longrightarrow> b \<noteq> AddrZero \<Longrightarrow> addr_Is4 a = addr_Is4 b \<Longrightarrow> addr_masked 0 a = addr_masked 0 b"
  by (cases a; cases b) (auto simp: top_bits_def)

lemma prefix_set_mem [simp]: "a \<in> prefix_set p \<longleftrightarrow> Contains p a"
  by (simp add: prefix_set_def)

lemma prefix_set_invalid [simp]: "\<not> prefix_IsValid p \<Longrightarrow> prefix_set p = {}"
  by (auto simp: prefix_set_def Contains_def)

lemma Addr_in_prefix_set:
  assumes "prefix_wf p" "prefix_IsValid p"
  shows "prefix_Addr p \<in> prefix_set p"
  using assms by (simp add: Contains_iff prefix_wf_def)

text \<open>\<^verbatim>\<open>Overlaps\<close> in one equation.\<close>

lemma Overlaps_iff_masked:
  assumes "prefix_wf p" "prefix_wf q" "prefix_IsValid p" "prefix_IsValid q"
  shows "Overlaps p q \<longleftrightarrow> addr_Is4 (prefix_Addr p) = addr_Is4 (prefix_Addr q) \<and>
     addr_masked (min (bitsPlusOne p - 1) (bitsPlusOne q - 1)) (prefix_Addr p) =
     addr_masked (min (bitsPlusOne p - 1) (bitsPlusOne q - 1)) (prefix_Addr q)"
  using assms addr_masked_0 [of "prefix_Addr p" "prefix_Addr q"]
  by (auto simp: Overlaps_def Let_def prefix_wf_def)

lemma Overlaps_sym: "Overlaps p q = Overlaps q p"
  by (auto simp: Overlaps_def Let_def min.commute)

lemma Overlaps_refl: "prefix_IsValid p \<Longrightarrow> Overlaps p p"
  by (simp add: Overlaps_def)

lemma Overlaps_valid: "Overlaps p q \<Longrightarrow> prefix_IsValid p \<and> prefix_IsValid q"
  by (auto simp: Overlaps_def split: if_splits)

text \<open>Overlapping prefixes are nested: the one with fewer bits contains the other.\<close>

lemma Overlaps_nested:
  assumes "prefix_wf p" "prefix_wf q" "Overlaps p q" "prefix_Bits p \<le> prefix_Bits q"
  shows "prefix_set q \<subseteq> prefix_set p"
proof
  fix a assume "a \<in> prefix_set q"
  then have q: "prefix_IsValid q" "addr_zone a = ''''" "addr_Is4 a = addr_Is4 (prefix_Addr q)"
      "a \<noteq> AddrZero"
      "addr_masked (bitsPlusOne q - 1) a = addr_masked (bitsPlusOne q - 1) (prefix_Addr q)"
    using assms(2) by (simp_all add: Contains_iff)
  have vp: "prefix_IsValid p" using assms(3) by (simp add: Overlaps_valid)
  have le: "bitsPlusOne p - 1 \<le> bitsPlusOne q - 1"
    using assms(4) by (simp add: prefix_Bits_def)
  have ov: "addr_Is4 (prefix_Addr p) = addr_Is4 (prefix_Addr q)"
      "addr_masked (bitsPlusOne p - 1) (prefix_Addr p) = addr_masked (bitsPlusOne p - 1) (prefix_Addr q)"
    using Overlaps_iff_masked [OF assms(1,2) vp q(1)] assms(3) min_absorb1 [OF le] by metis+
  have nz: "prefix_Addr q \<noteq> AddrZero" "bitsPlusOne q - 1 \<le> BitLen (prefix_Addr q)"
    using assms(2) q(1) by (auto simp: prefix_wf_def)
  then have "BitLen a = BitLen (prefix_Addr q)"
    using q BitLen_eq_if_Is4 by blast
  then have "addr_masked (bitsPlusOne p - 1) a = addr_masked (bitsPlusOne p - 1) (prefix_Addr q)"
    by (intro addr_masked_antimono [OF le _ _ q(5)]) (use nz(2) in simp_all)
  then show "a \<in> prefix_set p"
    using assms(1) vp q ov by (simp add: Contains_iff)
qed

theorem Overlaps_iff_meet:
  assumes "prefix_wf p" "prefix_wf q"
  shows "Overlaps p q \<longleftrightarrow> prefix_set p \<inter> prefix_set q \<noteq> {}"
proof (cases "prefix_IsValid p \<and> prefix_IsValid q")
  case False
  then show ?thesis using Overlaps_valid by auto
next
  case v: True
  show ?thesis
  proof
    assume ov: "Overlaps p q"
    have "prefix_Addr q \<in> prefix_set q" "prefix_Addr p \<in> prefix_set p"
      using v assms Addr_in_prefix_set by auto
    moreover have "prefix_set q \<subseteq> prefix_set p \<or> prefix_set p \<subseteq> prefix_set q"
      using ov assms Overlaps_nested Overlaps_sym by (metis linorder_linear)
    ultimately show "prefix_set p \<inter> prefix_set q \<noteq> {}" by blast
  next
    assume "prefix_set p \<inter> prefix_set q \<noteq> {}"
    then obtain a where a: "Contains p a" "Contains q a" by auto
    let ?m = "min (bitsPlusOne p - 1) (bitsPlusOne q - 1)"
    have nz: "a \<noteq> AddrZero" "prefix_Addr p \<noteq> AddrZero" "prefix_Addr q \<noteq> AddrZero"
      using a v assms by (auto simp: Contains_iff prefix_wf_def)
    have is4: "addr_Is4 a = addr_Is4 (prefix_Addr p)" "addr_Is4 a = addr_Is4 (prefix_Addr q)"
      using a assms by (auto simp: Contains_iff)
    have len: "BitLen a = BitLen (prefix_Addr p)" "BitLen a = BitLen (prefix_Addr q)"
      using nz is4 BitLen_eq_if_Is4 by blast+
    have "addr_masked ?m a = addr_masked ?m (prefix_Addr p)"
      by (rule addr_masked_antimono [of _ "bitsPlusOne p - 1"])
        (use a v assms len in \<open>auto simp: Contains_iff prefix_wf_def\<close>)
    moreover have "addr_masked ?m a = addr_masked ?m (prefix_Addr q)"
      by (rule addr_masked_antimono [of _ "bitsPlusOne q - 1"])
        (use a v assms len in \<open>auto simp: Contains_iff prefix_wf_def\<close>)
    ultimately show "Overlaps p q"
      using v assms is4 by (simp add: Overlaps_iff_masked)
  qed
qed

text \<open>The prefix of a whole address holds that address only.\<close>

lemma top_bits_full [simp]: "top_bits LENGTH('a) (w :: 'a::len word) = w"
  by (simp add: top_bits_def)

lemma addr_masked_full: "addr_masked (BitLen a) a = withoutZone a"
  using top_bits_full [where 'a = 32] top_bits_full [where 'a = 128] by (cases a) auto

lemma prefix_set_single:
  assumes "a \<noteq> AddrZero" "addr_zone a = ''''"
  shows "prefix_set (PrefixFrom a (int (BitLen a))) = {a}"
proof -
  let ?p = "PrefixFrom a (int (BitLen a))"
  have p: "prefix_Addr ?p = a" "bitsPlusOne ?p - 1 = BitLen a" "prefix_IsValid ?p"
    using assms by (simp_all add: PrefixFrom_def withoutZone_id prefix_IsValid_def)
  have "Contains ?p b \<longleftrightarrow> b = a" for b
  proof
    assume "Contains ?p b"
    then have b: "addr_zone b = ''''" "addr_Is4 b = addr_Is4 a" "b \<noteq> AddrZero"
      "addr_masked (BitLen a) b = addr_masked (BitLen a) a"
      using p by (simp_all add: Contains_iff)
    then have "BitLen b = BitLen a" using assms(1) BitLen_eq_if_Is4 by blast
    with b(4) have "withoutZone b = withoutZone a" using addr_masked_full by metis
    with b(1) assms(2) show "b = a" by (simp add: withoutZone_id)
  qed (use p assms in \<open>simp add: Contains_iff\<close>)
  then show ?thesis by (auto simp: prefix_set_def)
qed

end
