(* ===== verification/NetipText.thy ===== *)
theory NetipText
  imports Netip
begin

text \<open>
  The text form of addresses and prefixes (\<^verbatim>\<open>Addr.String\<close>, \<^verbatim>\<open>Prefix.String\<close>) and the
  parsers \<^verbatim>\<open>ParseAddr\<close> and \<^verbatim>\<open>ParsePrefix\<close> of Go's \<^verbatim>\<open>net/netip\<close>. The program
  uses prefix strings as map keys; the main lemma is that the string of a valid prefix
  determines the prefix.
\<close>

section \<open>Text form\<close>

fun join_with :: "char \<Rightarrow> string list \<Rightarrow> string" where
  "join_with c [] = []"
| "join_with c [x] = x"
| "join_with c (x # y # ys) = x @ c # join_with c (y # ys)"

definition v4_octets :: "32 word \<Rightarrow> nat list" where
  "v4_octets w = map (\<lambda>i. unat (take_bit 8 (drop_bit (24 - 8 * i) w))) [0..<4]"

definition string4 :: "32 word \<Rightarrow> string" where
  "string4 w = join_with CHR ''.'' (map show_dec (v4_octets w))"

definition v6_groups :: "128 word \<Rightarrow> nat list" where
  "v6_groups w = map (\<lambda>i. unat (take_bit 16 (drop_bit (112 - 16 * i) w))) [0..<8]"

text \<open>The run of zero groups that \<^verbatim>\<open>::\<close> replaces: the first longest one of two or more.\<close>

definition zrun_len :: "nat list \<Rightarrow> nat \<Rightarrow> nat" where
  "zrun_len g i = length (takeWhile (\<lambda>x. x = 0) (drop i g))"

definition zrun_step :: "nat list \<Rightarrow> (nat \<times> nat) option \<Rightarrow> nat \<Rightarrow> (nat \<times> nat) option" where
  "zrun_step g best i =
     (let l = zrun_len g i; cur = (case best of None \<Rightarrow> 0 | Some (s, e) \<Rightarrow> e - s) in
      if 2 \<le> l \<and> cur < l then Some (i, i + l) else best)"

definition zero_run :: "nat list \<Rightarrow> (nat \<times> nat) option" where
  "zero_run g = foldl (zrun_step g) None [0..<8]"

definition groups_text :: "nat list \<Rightarrow> string" where
  "groups_text g =
     (let h = (\<lambda>xs. join_with CHR '':'' (map show_hex xs)) in
      case zero_run g of
        None \<Rightarrow> h g
      | Some (s, e) \<Rightarrow> h (take s g) @ ''::'' @ h (drop e g))"

definition zone_text :: "string \<Rightarrow> string" where
  "zone_text z = (if z = [] then [] else CHR ''%'' # z)"

fun addr_String :: "addr \<Rightarrow> string" where
  "addr_String AddrZero = ''invalid IP''"
| "addr_String (IP4 w) = string4 w"
| "addr_String (IP6 w z) =
     (if w_Is4In6 w then ''::ffff:'' @ string4 (ucast w) @ zone_text z
      else groups_text (v6_groups w) @ zone_text z)"

definition prefix_String :: "prefix \<Rightarrow> string" where
  "prefix_String p =
     (if \<not> prefix_IsValid p then ''invalid Prefix''
      else addr_String (prefix_Addr p) @ CHR ''/'' # show_dec (bitsPlusOne p - 1))"

section \<open>Parsers\<close>

definition parse_octet :: "string \<Rightarrow> nat option" where
  "parse_octet s =
     (if s = [] \<or> (1 < length s \<and> hd s = CHR ''0'') then None
      else (case read_base 10 s of None \<Rightarrow> None | Some n \<Rightarrow> if n \<le> 255 then Some n else None))"

text \<open>\<^verbatim>\<open>parseIPv4Fields\<close>: four decimal octets without leading zeros.\<close>

definition parse_v4 :: "string \<Rightarrow> nat list option" where
  "parse_v4 s =
     (let os = map parse_octet (split_char CHR ''.'' s) in
      if length os = 4 \<and> (\<forall>x \<in> set os. x \<noteq> None) then Some (map the os) else None)"

definition octets_value :: "nat list \<Rightarrow> int" where
  "octets_value os = foldl (\<lambda>a b. a * 256 + int b) 0 os"

text \<open>
  The loop of \<^verbatim>\<open>parseIPv6\<close>: fuel counts the 16-bit groups still free, \<open>acc\<close> holds the
  groups read so far and \<open>ell\<close> the position of the ellipsis. The result is the groups, the
  ellipsis and the unread rest.
\<close>

definition is_hex :: "char \<Rightarrow> bool" where
  "is_hex c \<longleftrightarrow> char_digit c \<noteq> None"

fun parse_v6_loop ::
  "nat \<Rightarrow> nat list \<Rightarrow> nat option \<Rightarrow> string \<Rightarrow> (nat list \<times> nat option \<times> string) option" where
  "parse_v6_loop 0 acc ell s = Some (acc, ell, s)"
| "parse_v6_loop (Suc n) acc ell s =
     (let ds = takeWhile is_hex s; rest = dropWhile is_hex s in
      if ds = [] \<or> 4 < length ds then None
      else if rest \<noteq> [] \<and> hd rest = CHR ''.'' then
        (if (ell = None \<and> length acc \<noteq> 6) \<or> 6 < length acc then None
         else (case parse_v4 s of None \<Rightarrow> None
           | Some os \<Rightarrow>
               Some (acc @ [os ! 0 * 256 + os ! 1, os ! 2 * 256 + os ! 3], ell, [])))
      else (let acc' = acc @ [the (read_base 16 ds)] in
        case rest of
          [] \<Rightarrow> Some (acc', ell, [])
        | c # s1 \<Rightarrow>
            (if c \<noteq> CHR '':'' \<or> s1 = [] then None
             else if hd s1 = CHR '':'' then
               (if ell \<noteq> None then None
                else if tl s1 = [] then Some (acc', Some (length acc'), [])
                else parse_v6_loop n acc' (Some (length acc')) (tl s1))
             else parse_v6_loop n acc' ell s1)))"

definition groups_value :: "nat list \<Rightarrow> int" where
  "groups_value gs = foldl (\<lambda>a b. a * 65536 + int b) 0 gs"

definition parse_v6_body :: "string \<Rightarrow> nat list option" where
  "parse_v6_body s =
     (if s = ''::'' then Some (replicate 8 0)
      else (case (if has_prefix s ''::'' then parse_v6_loop 8 [] (Some 0) (drop 2 s)
                  else parse_v6_loop 8 [] None s) of
          None \<Rightarrow> None
        | Some (gs, ell, rest) \<Rightarrow>
            (if rest \<noteq> [] then None
             else if length gs < 8 then
               (case ell of None \<Rightarrow> None
                | Some e \<Rightarrow> Some (take e gs @ replicate (8 - length gs) 0 @ drop e gs))
             else if ell \<noteq> None then None else Some gs)))"

definition parse_v6 :: "string \<Rightarrow> addr option" where
  "parse_v6 s =
     (case cut_char CHR ''%'' s of
        None \<Rightarrow> map_option (\<lambda>gs. IP6 (word_of_int (groups_value gs)) '''') (parse_v6_body s)
      | Some (a, z) \<Rightarrow>
          (if z = [] then None
           else map_option (\<lambda>gs. IP6 (word_of_int (groups_value gs)) z) (parse_v6_body a)))"

fun ParseAddr_scan :: "string \<Rightarrow> string \<Rightarrow> addr option" where
  "ParseAddr_scan s [] = None"
| "ParseAddr_scan s (c # cs) =
     (if c = CHR ''.'' then map_option (\<lambda>os. IP4 (word_of_int (octets_value os))) (parse_v4 s)
      else if c = CHR '':'' then parse_v6 s
      else if c = CHR ''%'' then None
      else ParseAddr_scan s cs)"

definition ParseAddr :: "string \<Rightarrow> addr option" where
  "ParseAddr s = ParseAddr_scan s s"

definition ParsePrefix :: "string \<Rightarrow> prefix option" where
  "ParsePrefix s =
     (case cut_char CHR ''/'' (rev s) of None \<Rightarrow> None
      | Some (rbits, raddr) \<Rightarrow>
          (case ParseAddr (rev raddr) of None \<Rightarrow> None
           | Some ip \<Rightarrow>
               (let b = rev rbits in
                if addr_zone ip \<noteq> [] then None
                else if 1 < length b \<and> hd b \<notin> set ''123456789'' then None
                else (case Atoi b of None \<Rightarrow> None
                  | Some n \<Rightarrow>
                      if n < 0 \<or> int (BitLen ip) < n then None else Some (PrefixFrom ip n)))))"

section \<open>The text form identifies a prefix\<close>

lemma split_char_join:
  assumes "xs \<noteq> []" "\<forall>x \<in> set xs. c \<notin> set x"
  shows "split_char c (join_with c xs) = xs"
  using assms by (induction c xs rule: join_with.induct) (auto simp: go_str)

lemma set_join_with: "set (join_with c xs) \<subseteq> insert c (\<Union>(set ` set xs))"
  by (induction c xs rule: join_with.induct) auto

lemma unat_take_drop_eq:
  fixes v w :: "'a::len word"
  assumes "unat (take_bit m (drop_bit k v)) = unat (take_bit m (drop_bit k w))" "k \<le> n" "n < k + m"
  shows "bit v n = bit w n"
proof -
  from assms(1) have "take_bit m (drop_bit k v) = take_bit m (drop_bit k w)"
    by (simp only: word_unat_eq_iff)
  then have "bit (take_bit m (drop_bit k v)) (n - k) = bit (take_bit m (drop_bit k w)) (n - k)"
    by simp
  moreover have "n - k < m" using assms(2,3) by arith
  ultimately show ?thesis using assms(2) by (simp add: bit_take_bit_iff bit_drop_bit_eq)
qed

lemma v6_groups_nth: "i < 8 \<Longrightarrow> v6_groups w ! i = unat (take_bit 16 (drop_bit (112 - 16 * i) w))"
  unfolding v6_groups_def by (subst nth_map) simp_all

lemma v4_octets_nth: "i < 4 \<Longrightarrow> v4_octets w ! i = unat (take_bit 8 (drop_bit (24 - 8 * i) w))"
  unfolding v4_octets_def by (subst nth_map) simp_all

lemma v6_groups_inj: "v6_groups v = v6_groups w \<Longrightarrow> v = w"
proof (rule bit_word_eqI)
  fix n assume eq: "v6_groups v = v6_groups w" and n: "n < LENGTH(128)"
  let ?i = "7 - n div 16"
  have i: "?i < 8" by simp
  with eq have "v6_groups v ! ?i = v6_groups w ! ?i" by simp
  with i have "unat (take_bit 16 (drop_bit (112 - 16 * ?i) v)) =
      unat (take_bit 16 (drop_bit (112 - 16 * ?i) w))"
    by (simp only: v6_groups_nth)
  moreover have "112 - 16 * ?i \<le> n" "n < 112 - 16 * ?i + 16" using n by simp_all
  ultimately show "bit v n = bit w n" by (rule unat_take_drop_eq)
qed

lemma v4_octets_inj: "v4_octets v = v4_octets w \<Longrightarrow> v = w"
proof (rule bit_word_eqI)
  fix n assume eq: "v4_octets v = v4_octets w" and n: "n < LENGTH(32)"
  let ?i = "3 - n div 8"
  have i: "?i < 4" by simp
  with eq have "v4_octets v ! ?i = v4_octets w ! ?i" by simp
  with i have "unat (take_bit 8 (drop_bit (24 - 8 * ?i) v)) =
      unat (take_bit 8 (drop_bit (24 - 8 * ?i) w))"
    by (simp only: v4_octets_nth)
  moreover have "24 - 8 * ?i \<le> n" "n < 24 - 8 * ?i + 8" using n by simp_all
  ultimately show "bit v n = bit w n" by (rule unat_take_drop_eq)
qed

lemma map_show_inj: "2 \<le> b \<Longrightarrow> b \<le> 16 \<Longrightarrow> map (show_base b) xs = map (show_base b) ys \<Longrightarrow> xs = ys"
  by (rule map_inj_on [of "show_base b"]) (auto simp: inj_on_def show_base_inj)

lemma string4_inj: "string4 v = string4 w \<Longrightarrow> v = w"
proof -
  assume eq: "string4 v = string4 w"
  have s: "split_char CHR ''.'' (string4 u) = map show_dec (v4_octets u)" for u
    unfolding string4_def by (rule split_char_join) (auto simp: v4_octets_def go_str)
  from eq s [of v] s [of w] have "map show_dec (v4_octets v) = map show_dec (v4_octets w)" by simp
  then have "v4_octets v = v4_octets w" by (rule map_show_inj [rotated 2]) simp_all
  then show "v = w" by (rule v4_octets_inj)
qed

lemma set_string4: "set (string4 w) \<subseteq> insert CHR ''.'' (digit_chars)"
  unfolding string4_def using set_join_with [of "CHR ''.''" "map show_dec (v4_octets w)"] show_base_chars
  by fastforce

lemma dot_in_string4: "CHR ''.'' \<in> set (string4 w)"
  by (simp add: string4_def v4_octets_def upt_rec)

text \<open>The zero run lies inside the list and is zero.\<close>

lemma zero_run_zeros:
  assumes "zero_run g = Some (s, e)" "length g = 8"
  shows "s \<le> e \<and> e \<le> 8 \<and> take (e - s) (drop s g) = replicate (e - s) 0 \<and> s < e"
proof -
  let ?ok = "\<lambda>best. \<forall>s e. best = Some (s, e) \<longrightarrow> s < e \<and> e - s = zrun_len g s \<and> s \<le> 8"
  have "?ok (zero_run g)" unfolding zero_run_def
    by (rule foldl_invariant) (auto simp: zrun_step_def Let_def split: if_splits)
  with assms(1) have ok: "s < e" "e - s = zrun_len g s" "s \<le> 8" by auto
  let ?d = "drop s g" and ?l = "zrun_len g s"
  have "?l \<le> length ?d" unfolding zrun_len_def by (rule length_takeWhile_le)
  moreover have "take ?l ?d = takeWhile (\<lambda>x. x = 0) ?d"
    unfolding zrun_len_def by (rule takeWhile_eq_take [symmetric])
  moreover have "takeWhile (\<lambda>x. x = 0) ?d = replicate ?l 0"
    unfolding zrun_len_def by (rule replicate_length_same [symmetric]) (auto dest: set_takeWhileD)
  ultimately have "take (e - s) ?d = replicate (e - s) 0" "e - s \<le> length ?d"
    using ok(2) by simp_all
  with ok(1,3) assms(2) show ?thesis by simp
qed

text \<open>A left inverse of the group text: read the parts before and after the \<^verbatim>\<open>::\<close>.\<close>

definition read_groups :: "string \<Rightarrow> nat list" where
  "read_groups s =
     (let ts = split_char CHR '':'' s;
          pre = takeWhile (\<lambda>t. t \<noteq> []) ts; post = filter (\<lambda>t. t \<noteq> []) (dropWhile (\<lambda>t. t \<noteq> []) ts);
          rd = map (\<lambda>t. the (read_base 16 t)) in
      rd pre @ replicate (8 - length pre - length post) 0 @ rd post)"

abbreviation hex_join :: "nat list \<Rightarrow> string" where
  "hex_join xs \<equiv> join_with CHR '':'' (map show_hex xs)"

lemma split_hex_join:
  "split_char CHR '':'' (hex_join xs) = (if xs = [] then [[]] else map show_hex xs)"
  using split_char_join [of "map show_hex xs" "CHR '':''"] by (auto simp: go_str)

lemma takeWhile_map_show: "takeWhile (\<lambda>t. t \<noteq> []) (map show_hex xs @ [] # ts) = map show_hex xs"
  by (induction xs) auto

lemma dropWhile_map_show: "dropWhile (\<lambda>t. t \<noteq> []) (map show_hex xs @ [] # ts) = [] # ts"
  by (induction xs) auto

lemma filter_map_show: "filter (\<lambda>t. t \<noteq> []) (map show_hex xs) = map show_hex xs"
  by (induction xs) auto

lemma takeWhile_show_all: "takeWhile (\<lambda>t. t \<noteq> []) (map show_hex xs) = map show_hex xs"
  by (induction xs) auto

lemma dropWhile_show_all: "dropWhile (\<lambda>t. t \<noteq> []) (map show_hex xs) = []"
  by (induction xs) auto

lemmas show_tokens = takeWhile_map_show dropWhile_map_show filter_map_show
  takeWhile_show_all dropWhile_show_all

lemma read_groups_plain: "length g = 8 \<Longrightarrow> read_groups (hex_join g) = g"
  by (auto simp: read_groups_def split_hex_join Let_def o_def show_tokens)

lemma read_groups_run:
  "read_groups (hex_join a @ CHR '':'' # CHR '':'' # hex_join b) =
     a @ replicate (8 - length a - length b) 0 @ b"
proof -
  have s: "split_char CHR '':'' (hex_join a @ CHR '':'' # CHR '':'' # hex_join b) =
      split_char CHR '':'' (hex_join a) @ [] # split_char CHR '':'' (hex_join b)"
    by (simp add: split_char_append_sep)
  show ?thesis
  proof (cases "a = []")
    case True
    then show ?thesis
      by (simp add: read_groups_def s split_hex_join Let_def o_def show_tokens)
  next
    case False
    then show ?thesis
      by (simp add: read_groups_def s split_hex_join Let_def o_def show_tokens)
  qed
qed

lemma read_groups_text:
  assumes "length g = 8"
  shows "read_groups (groups_text g) = g"
proof (cases "zero_run g")
  case None
  with assms show ?thesis by (simp add: groups_text_def Let_def read_groups_plain)
next
  case (Some r)
  obtain s e where r: "r = (s, e)" by (cases r)
  with Some assms have z: "s \<le> e" "e \<le> 8" "take (e - s) (drop s g) = replicate (e - s) 0"
    using zero_run_zeros by auto
  have "g = take s g @ take (e - s) (drop s g) @ drop e g"
    using z(1) by (metis append_take_drop_id drop_drop le_add_diff_inverse2)
  moreover have "8 - length (take s g) - length (drop e g) = e - s"
    using z(1,2) assms by simp
  ultimately have "take s g @ replicate (8 - length (take s g) - length (drop e g)) 0 @ drop e g = g"
    using z(3) by simp
  then show ?thesis
    by (simp add: groups_text_def Some r Let_def read_groups_run)
qed

lemma set_hex_join: "set (hex_join xs) \<subseteq> insert CHR '':'' (digit_chars)"
  using set_join_with [of "CHR '':''" "map show_hex xs"] show_base_chars by fastforce

lemma set_groups_text: "set (groups_text g) \<subseteq> insert CHR '':'' (digit_chars)"
  using set_hex_join by (fastforce simp: groups_text_def Let_def split: option.splits)

lemma colon_in_groups_text: "length g = 8 \<Longrightarrow> CHR '':'' \<in> set (groups_text g)"
proof -
  assume "length g = 8"
  then obtain a b c where "g = a # b # c"
    by (cases g; cases "tl g") auto
  then show ?thesis by (auto simp: groups_text_def Let_def split: option.splits)
qed

lemma Is4In6_inj:
  assumes "w_Is4In6 v" "w_Is4In6 w" "(ucast v :: 32 word) = ucast w"
  shows "v = w"
proof (rule bit_word_eqI)
  fix n assume n: "n < LENGTH(128)"
  show "bit v n = bit w n"
  proof (cases "n < 32")
    case True
    from assms(3) have "bit (ucast v :: 32 word) n = bit (ucast w :: 32 word) n" by simp
    with True show ?thesis by (simp add: bit_ucast_iff)
  next
    case False
    from assms(1,2) have "bit (drop_bit 32 v) (n - 32) = bit (drop_bit 32 w) (n - 32)"
      by (simp add: w_Is4In6_def)
    with False show ?thesis by (simp add: bit_drop_bit_eq)
  qed
qed

lemma addr_String_inj:
  assumes "addr_String a = addr_String b" "a \<noteq> AddrZero" "b \<noteq> AddrZero"
    "addr_zone a = ''''" "addr_zone b = ''''"
  shows "a = b"
proof -
  have v6: "length (v6_groups w) = 8" for w by (simp add: v6_groups_def)
  have no_colon: "CHR '':'' \<notin> set (string4 w)" for w using set_string4 [of w] by auto
  have no_dot: "CHR ''.'' \<notin> set (groups_text g)" for g using set_groups_text [of g] by auto
  show ?thesis
  proof (cases a; cases b)
    fix v w assume "a = IP4 v" "b = IP4 w"
    with assms(1) show ?thesis using string4_inj by simp
  next
    fix v w z assume ab: "a = IP4 v" "b = IP6 w z"
    have "CHR '':'' \<in> set (addr_String b)" using ab v6 colon_in_groups_text by simp
    then have "CHR '':'' \<in> set (string4 v)" using assms(1) ab(1) by (metis addr_String.simps(2))
    with no_colon show ?thesis by blast
  next
    fix v w z assume ab: "a = IP6 w z" "b = IP4 v"
    have "CHR '':'' \<in> set (addr_String a)" using ab v6 colon_in_groups_text by simp
    then have "CHR '':'' \<in> set (string4 v)" using assms(1) ab(2) by (metis addr_String.simps(2))
    with no_colon show ?thesis by blast
  next
    fix v z w z' assume ab: "a = IP6 v z" "b = IP6 w z'"
    with assms have z: "z = ''''" "z' = ''''" by simp_all
    have "CHR ''.'' \<in> set (addr_String (IP6 u '''')) \<longleftrightarrow> w_Is4In6 u" for u
      using no_dot dot_in_string4 by (simp add: zone_text_def)
    then have mixed: "w_Is4In6 v = w_Is4In6 w" using assms(1) ab z by metis
    show ?thesis
    proof (cases "w_Is4In6 v")
      case True
      with mixed assms(1) ab z have "string4 (ucast v) = string4 (ucast w)"
        by (simp add: zone_text_def)
      with True mixed show ?thesis using Is4In6_inj string4_inj ab z by blast
    next
      case False
      with mixed assms(1) ab z have "groups_text (v6_groups v) = groups_text (v6_groups w)"
        by (simp add: zone_text_def)
      then have "v6_groups v = v6_groups w" using read_groups_text v6 by metis
      then show ?thesis using v6_groups_inj ab z by simp
    qed
  qed (use assms in auto)
qed

lemma slash_free_addr_String: "addr_zone a = '''' \<Longrightarrow> CHR ''/'' \<notin> set (addr_String a)"
proof -
  assume z: "addr_zone a = ''''"
  have "CHR ''/'' \<notin> set (string4 w)" for w using set_string4 [of w] by auto
  moreover have "CHR ''/'' \<notin> set (groups_text g)" for g using set_groups_text [of g] by auto
  ultimately show ?thesis using z by (cases a) (simp_all add: zone_text_def)
qed

text \<open>Valid prefixes with the same text are the same prefix.\<close>

theorem prefix_String_inj:
  assumes "prefix_wf p" "prefix_wf q" "prefix_IsValid p" "prefix_IsValid q"
    "prefix_String p = prefix_String q"
  shows "p = q"
proof -
  obtain a m b n where pq: "p = Prefix a (Suc m)" "q = Prefix b (Suc n)"
    using assms(3,4) by (cases p; cases q) (auto simp: prefix_IsValid_def gr0_conv_Suc)
  from assms pq have eq: "addr_String a @ CHR ''/'' # show_dec m = addr_String b @ CHR ''/'' # show_dec n"
    and z: "addr_zone a = ''''" "addr_zone b = ''''" and nz: "a \<noteq> AddrZero" "b \<noteq> AddrZero"
    by (simp_all add: prefix_String_def prefix_wf_def)
  from eq have "cut_char CHR ''/'' (addr_String a @ CHR ''/'' # show_dec m) =
      cut_char CHR ''/'' (addr_String b @ CHR ''/'' # show_dec n)" by simp
  then have "addr_String a = addr_String b" "show_dec m = show_dec n"
    using z by (simp_all add: cut_char_append slash_free_addr_String)
  then show ?thesis using pq addr_String_inj z nz by (simp add: show_base_inj)
qed

lemma prefix_String_valid_neq_invalid:
  assumes "prefix_wf p" "prefix_IsValid p"
  shows "prefix_String p \<noteq> ''invalid Prefix''"
proof
  assume "prefix_String p = ''invalid Prefix''"
  moreover have "CHR ''/'' \<in> set (prefix_String p)" using assms by (simp add: prefix_String_def)
  ultimately show False by simp
qed

end
