(* ===== verification/Monitors.thy ===== *)
theory Monitors
  imports NetipText
begin

text \<open>
  The monitors that turn events of the operating system into updates for the other components:
  \<^verbatim>\<open>internal/devmon\<close>, \<^verbatim>\<open>internal/addrmon\<close>, \<^verbatim>\<open>internal/dnsmon\<close>,
  \<^verbatim>\<open>internal/sleepmon\<close> and \<^verbatim>\<open>internal/profilemon\<close>, and the report record of the DNS
  proxy. Each event loop is a function from its state and one event to the updates it sends and
  the next state; what the kernel, the file system and the registration of event sources
  answer is an argument. Sending an update waits for the receiver, so updates are not lost.
\<close>

section \<open>File paths\<close>

text \<open>\<^verbatim>\<open>filepath.Clean\<close>, \<^verbatim>\<open>Join\<close> of two elements and \<^verbatim>\<open>Dir\<close> on Unix.\<close>

definition clean_step :: "bool \<Rightarrow> string list \<Rightarrow> string \<Rightarrow> string list" where
  "clean_step rooted acc c =
     (if c = '''' \<or> c = ''.'' then acc
      else if c = ''..'' then
        (case acc of [] \<Rightarrow> if rooted then [] else [c]
         | x # xs \<Rightarrow> if x = ''..'' then c # acc else xs)
      else c # acc)"

fun join_slash :: "string list \<Rightarrow> string" where
  "join_slash [] = ''''"
| "join_slash [c] = c"
| "join_slash (c # cs) = c @ ''/'' @ join_slash cs"

definition filepath_Clean :: "string \<Rightarrow> string" where
  "filepath_Clean path =
     (let rooted = (case path of [] \<Rightarrow> False | c # _ \<Rightarrow> c = CHR ''/'');
          cs = rev (foldl (clean_step rooted) [] (split_char (CHR ''/'') path))
      in if rooted then ''/'' @ join_slash cs else if cs = [] then ''.'' else join_slash cs)"

definition filepath_Join :: "string \<Rightarrow> string \<Rightarrow> string" where
  "filepath_Join a b =
     (if a = '''' \<and> b = '''' then ''''
      else if a = '''' then filepath_Clean b
      else if b = '''' then filepath_Clean a
      else filepath_Clean (a @ ''/'' @ b))"

definition filepath_Dir :: "string \<Rightarrow> string" where
  "filepath_Dir path =
     filepath_Clean (rev (dropWhile (\<lambda>c. c \<noteq> CHR ''/'') (rev path)))"

section \<open>Device monitor\<close>

record dev_Update =
  du_Add :: bool
  du_Device :: string
  du_Type :: string
  du_Index :: int

text \<open>What the code reads of a netlink link: its attributes and its type.\<close>

record netlink_Link =
  link_Name :: string
  link_Index :: int
  link_Flags :: "64 word"
  link_Type :: string

definition FlagLoopback :: "64 word" where
  "FlagLoopback = 4"

definition handleLink :: "(string \<Rightarrow> string option) \<Rightarrow> bool \<Rightarrow> netlink_Link \<Rightarrow> dev_Update" where
  "handleLink evalSymlinks add link =
     (let typ = link_Type link;
          typ = (if and (link_Flags link) FlagLoopback \<noteq> 0 then ''loopback'' else typ);
          typ = (if add \<and> typ = ''device'' then
                   (case evalSymlinks (filepath_Join ''/sys/class/net'' (link_Name link)) of
                      None \<Rightarrow> typ
                    | Some path \<Rightarrow>
                        if path = filepath_Join ''/sys/devices/virtual/net'' (link_Name link)
                        then ''virtual'' else typ)
                 else typ)
      in \<lparr>du_Add = add, du_Device = link_Name link, du_Type = typ, du_Index = link_Index link\<rparr>)"

text \<open>
  The loop's events: a link event with its netlink message type, or the close of the event
  channel with the outcome of the new registration, after whose failure the channel is nil
  and delivers nothing.
\<close>

datatype devmon_event =
    LinkEvent nat netlink_Link
  | LinkEventsClosed bool

record DevMon =
  dm_subscribed :: bool
  dm_life :: life

definition RTM_NEWLINK :: nat where
  "RTM_NEWLINK = 16"

definition RTM_DELLINK :: nat where
  "RTM_DELLINK = 17"

fun DevMon_step ::
  "(string \<Rightarrow> string option) \<Rightarrow> devmon_event \<Rightarrow> DevMon \<Rightarrow> dev_Update list \<times> DevMon" where
  "DevMon_step fs (LinkEvent typ link) d =
     (if dm_life d \<noteq> Running \<or> \<not> dm_subscribed d then ([], d)
      else if typ = RTM_NEWLINK then ([handleLink fs True link], d)
      else if typ = RTM_DELLINK then ([handleLink fs False link], d)
      else ([], d))"
| "DevMon_step fs (LinkEventsClosed reg) d =
     (if dm_life d \<noteq> Running \<or> \<not> dm_subscribed d then ([], d)
      else ([], d\<lparr>dm_subscribed := reg\<rparr>))"

definition NewDevMon :: DevMon where
  "NewDevMon = \<lparr>dm_subscribed = False, dm_life = NotStarted\<rparr>"

definition DevMon_Start :: "bool \<Rightarrow> DevMon \<Rightarrow> bool \<times> DevMon" where
  "DevMon_Start reg d =
     (if \<not> reg then (False, d) else (True, d\<lparr>dm_subscribed := True, dm_life := Running\<rparr>))"

definition DevMon_Stop :: "DevMon \<Rightarrow> DevMon outcome" where
  "DevMon_Stop d =
     (case life_Stop (dm_life d) of Returns l \<Rightarrow> Returns (d\<lparr>dm_life := l\<rparr>)
      | Panics \<Rightarrow> Panics | Blocks \<Rightarrow> Blocks)"

section \<open>Address monitor\<close>

record addr_Update =
  au_Add :: bool
  au_Address :: prefix
  au_Index :: int

text \<open>What the code reads of a netlink address update.\<close>

record netlink_AddrUpdate =
  nau_IP :: "u8 list"
  nau_Mask :: "u8 list"
  nau_LinkIndex :: int
  nau_NewAddr :: bool

datatype addrmon_event =
    AddrEvent netlink_AddrUpdate
  | AddrEventsClosed bool

record AddrMon =
  am_subscribed :: bool
  am_life :: life

fun AddrMon_step :: "addrmon_event \<Rightarrow> AddrMon \<Rightarrow> addr_Update list \<times> AddrMon" where
  "AddrMon_step (AddrEvent e) a =
     (if am_life a \<noteq> Running \<or> \<not> am_subscribed a then ([], a)
      else (case AddrFromSlice (nau_IP e) of
          None \<Rightarrow> ([], a)
        | Some ip \<Rightarrow>
            if \<not> addr_IsValid ip then ([], a)
            else ([\<lparr>au_Add = nau_NewAddr e,
                    au_Address = PrefixFrom (Unmap ip) (int (mask_Size (nau_Mask e))),
                    au_Index = nau_LinkIndex e\<rparr>], a)))"
| "AddrMon_step (AddrEventsClosed reg) a =
     (if am_life a \<noteq> Running \<or> \<not> am_subscribed a then ([], a)
      else ([], a\<lparr>am_subscribed := reg\<rparr>))"

definition NewAddrMon :: AddrMon where
  "NewAddrMon = \<lparr>am_subscribed = False, am_life = NotStarted\<rparr>"

definition AddrMon_Start :: "bool \<Rightarrow> AddrMon \<Rightarrow> bool \<times> AddrMon" where
  "AddrMon_Start reg a =
     (if \<not> reg then (False, a) else (True, a\<lparr>am_subscribed := True, am_life := Running\<rparr>))"

definition AddrMon_Stop :: "AddrMon \<Rightarrow> AddrMon outcome" where
  "AddrMon_Stop a =
     (case life_Stop (am_life a) of Returns l \<Rightarrow> Returns (a\<lparr>am_life := l\<rparr>)
      | Panics \<Rightarrow> Panics | Blocks \<Rightarrow> Blocks)"

section \<open>DNS monitor\<close>

definition ETCResolvConf :: string where
  "ETCResolvConf = ''/etc/resolv.conf''"

definition StubResolvConf :: string where
  "StubResolvConf = ''/run/systemd/resolve/stub-resolv.conf''"

definition SystemdResolvConf :: string where
  "SystemdResolvConf = ''/run/systemd/resolve/resolv.conf''"

record DNSMonConfig =
  dmc_ETCResolvConf :: string
  dmc_StubResolvConf :: string
  dmc_SystemdResolvConf :: string

definition resolvConfDirs :: "DNSMonConfig \<Rightarrow> string list" where
  "resolvConfDirs c =
     map fst (foldl (\<lambda>m conf. gm_put (filepath_Dir conf) () m) []
       [dmc_ETCResolvConf c, dmc_StubResolvConf c, dmc_SystemdResolvConf c])"

definition NewDNSMonConfig :: DNSMonConfig where
  "NewDNSMonConfig =
     \<lparr>dmc_ETCResolvConf = ETCResolvConf,
      dmc_StubResolvConf = StubResolvConf,
      dmc_SystemdResolvConf = SystemdResolvConf\<rparr>"

text \<open>The events of a file watcher: a changed file, an error, or the close of its channels.\<close>

datatype fs_event = FileEvent string | WatcherError | WatcherClosed

definition isResolvConfEvent :: "DNSMonConfig \<Rightarrow> string \<Rightarrow> bool" where
  "isResolvConfEvent c name =
     (if name = dmc_ETCResolvConf c then True
      else if name = dmc_StubResolvConf c then True
      else if name = dmc_SystemdResolvConf c then True
      else False)"

record DNSMon =
  dnm_config :: DNSMonConfig
  dnm_dirs :: "string list"
  dnm_life :: life

definition NewDNSMon :: "DNSMonConfig \<Rightarrow> DNSMon" where
  "NewDNSMon c = \<lparr>dnm_config = c, dnm_dirs = [], dnm_life = NotStarted\<rparr>"

text \<open>The number of updates sent is the first component; starting sends one.\<close>

definition DNSMon_Start :: "bool \<Rightarrow> (string \<Rightarrow> bool) \<Rightarrow> DNSMon \<Rightarrow> (bool \<times> nat) \<times> DNSMon" where
  "DNSMon_Start newWatcher addOk d =
     (if \<not> newWatcher then ((False, 0), d)
      else ((True, 1), d\<lparr>dnm_dirs := filter addOk (resolvConfDirs (dnm_config d)),
              dnm_life := Running\<rparr>))"

fun DNSMon_step :: "fs_event \<Rightarrow> DNSMon \<Rightarrow> nat \<times> DNSMon" where
  "DNSMon_step (FileEvent name) d =
     (if dnm_life d = Running \<and> isResolvConfEvent (dnm_config d) name then (1, d) else (0, d))"
| "DNSMon_step WatcherError d = (0, d)"
| "DNSMon_step WatcherClosed d =
     (0, if dnm_life d = Running then d\<lparr>dnm_life := Ended\<rparr> else d)"

definition DNSMon_Stop :: "DNSMon \<Rightarrow> DNSMon outcome" where
  "DNSMon_Stop d =
     (case life_Stop (dnm_life d) of Returns l \<Rightarrow> Returns (d\<lparr>dnm_life := l\<rparr>)
      | Panics \<Rightarrow> Panics | Blocks \<Rightarrow> Blocks)"

section \<open>Sleep monitor\<close>

text \<open>A D-Bus signal: its name and body, of whose first element the code asks whether it is a bool.\<close>

datatype dbus_value = DBool bool | DOther

record dbus_Signal =
  sig_Name :: string
  sig_Body :: "dbus_value list"

definition prepareForSleep :: string where
  "prepareForSleep = ''org.freedesktop.login1.Manager.PrepareForSleep''"

definition handleSignal :: "dbus_Signal \<Rightarrow> bool list" where
  "handleSignal signal =
     (if sig_Name signal = prepareForSleep then
        (case sig_Body signal of [] \<Rightarrow> []
         | DBool sleep # _ \<Rightarrow> [sleep]
         | DOther # _ \<Rightarrow> [])
      else [])"

text \<open>One event of the loop: a signal, or nothing when the signal channel was closed.\<close>

definition SleepMon_step :: "dbus_Signal option \<Rightarrow> life \<Rightarrow> bool list \<times> life" where
  "SleepMon_step sig l =
     (if l \<noteq> Running then ([], l)
      else (case sig of None \<Rightarrow> ([], Ended) | Some s \<Rightarrow> (handleSignal s, l)))"

definition SleepMon_Start :: "bool \<Rightarrow> bool \<Rightarrow> life \<Rightarrow> bool \<times> life" where
  "SleepMon_Start connectOk matchOk l =
     (if \<not> connectOk then (False, l) else if \<not> matchOk then (False, l) else (True, Running))"

section \<open>Profile monitor\<close>

text \<open>The hash function and the outcome of reading the file are arguments.\<close>

record 'h ProfileMon =
  pm_file :: string
  pm_hash :: 'h
  pm_life :: life

definition ProfileMon_handleEvent ::
  "(u8 list \<Rightarrow> 'h) \<Rightarrow> u8 list option \<Rightarrow> 'h ProfileMon \<Rightarrow> nat \<times> 'h ProfileMon" where
  "ProfileMon_handleEvent sum256 readFile p =
     (case readFile of None \<Rightarrow> (0, p)
      | Some b \<Rightarrow>
        (let hash = sum256 b in
         if hash = pm_hash p then (0, p) else (1, p\<lparr>pm_hash := hash\<rparr>)))"

fun ProfileMon_step ::
  "(u8 list \<Rightarrow> 'h) \<Rightarrow> fs_event \<times> u8 list option \<Rightarrow> 'h ProfileMon \<Rightarrow> nat \<times> 'h ProfileMon" where
  "ProfileMon_step sum256 (FileEvent name, readFile) p =
     (if pm_life p = Running \<and> name = pm_file p then ProfileMon_handleEvent sum256 readFile p
      else (0, p))"
| "ProfileMon_step sum256 (WatcherError, _) p = (0, p)"
| "ProfileMon_step sum256 (WatcherClosed, _) p =
     (0, if pm_life p = Running then p\<lparr>pm_life := Ended\<rparr> else p)"

definition NewProfileMon :: "'h \<Rightarrow> string \<Rightarrow> 'h ProfileMon" where
  "NewProfileMon zero file = \<lparr>pm_file = file, pm_hash = zero, pm_life = NotStarted\<rparr>"

definition ProfileMon_Start :: "bool \<Rightarrow> 'h ProfileMon \<Rightarrow> bool \<times> 'h ProfileMon" where
  "ProfileMon_Start newWatcher p =
     (if \<not> newWatcher then (False, p) else (True, p\<lparr>pm_life := Running\<rparr>))"

section \<open>Reports of the DNS proxy\<close>

text \<open>
  A report waits for its consumer: the proxy sends a reply to its client once the report is
  closed. Closing it twice would panic.
\<close>

record Report =
  rep_Name :: string
  rep_IP :: addr
  rep_TTL :: u32
  rep_done :: bool

definition NewReport :: "string \<Rightarrow> addr \<Rightarrow> u32 \<Rightarrow> Report" where
  "NewReport name ip ttl = \<lparr>rep_Name = name, rep_IP = ip, rep_TTL = ttl, rep_done = False\<rparr>"

definition Report_String :: "Report \<Rightarrow> string" where
  "Report_String r =
     rep_Name r @ '' -> '' @ addr_String (rep_IP r) @ '' (ttl: '' @ show_dec (unat (rep_TTL r)) @ '')''"

definition Report_Close :: "Report \<Rightarrow> Report outcome" where
  "Report_Close r = (if rep_done r then Panics else Returns (r\<lparr>rep_done := True\<rparr>))"

section \<open>Lemmas\<close>

text \<open>Every address update carries a well-formed prefix whose address is not an IPv4-mapped one.\<close>

lemma Unmap_not_4in6: "Unmap a = IP6 w z \<Longrightarrow> \<not> w_Is4In6 w"
  by (cases a) (auto split: if_splits)

lemma AddrMon_step_wf: "u \<in> set (fst (AddrMon_step e a)) \<Longrightarrow> prefix_wf (au_Address u)"
  by (cases e) (auto split: if_splits option.splits)

lemma AddrMon_step_unmapped:
  assumes "u \<in> set (fst (AddrMon_step e a))" "prefix_Addr (au_Address u) = IP6 w z"
  shows "\<not> w_Is4In6 w"
proof (cases e)
  case (AddrEvent n)
  with assms obtain ip where "withoutZone (Unmap ip) = IP6 w z"
    by (auto simp: PrefixFrom_def split: if_splits option.splits)
  then obtain z' where "Unmap ip = IP6 w z'" by (cases "Unmap ip") auto
  then show ?thesis by (rule Unmap_not_4in6)
qed (use assms in \<open>simp split: if_splits\<close>)

lemma handleLink_loopback:
  "and (link_Flags l) FlagLoopback \<noteq> 0 \<Longrightarrow> du_Type (handleLink fs add l) = ''loopback''"
  by (simp add: handleLink_def Let_def)

text \<open>A sequence of events through the profile monitor.\<close>

lemma ProfileMon_handleEvent_hash:
  "snd (ProfileMon_handleEvent h (Some b) p) = p\<lparr>pm_hash := h b\<rparr>"
  "fst (ProfileMon_handleEvent h (Some b) p) = (if h b = pm_hash p then 0 else 1)"
  by (simp_all add: ProfileMon_handleEvent_def Let_def)

end
