(* ===== verification/Coalesce.thy ===== *)
theory Coalesce
  imports Prelude
begin

text \<open>
  The interface shared by the two components that run one background job at a time, the captive
  portal detection (\<^verbatim>\<open>cpd.CPD\<close>, job: probe) and the resolver (\<^verbatim>\<open>trafpol.Resolver\<close>,
  job: update): a request starts the job, or, while one runs, is remembered so that another job
  runs after it. The counter of started jobs is part of the state for the sake of the laws.
\<close>

locale coalescing =
  fixes init :: "'s \<Rightarrow> bool"
    and step :: "'s \<Rightarrow> 'e \<Rightarrow> 's \<Rightarrow> bool"
    and request :: "'e \<Rightarrow> bool"
    and busy :: "'s \<Rightarrow> bool"
    and again :: "'s \<Rightarrow> bool"
    and jobs :: "'s \<Rightarrow> nat"
    and started :: "'s \<Rightarrow> nat"
  assumes init_idle: "init s \<Longrightarrow> \<not> busy s \<and> \<not> again s \<and> jobs s = 0"
    and step_jobs: "(busy s \<longleftrightarrow> jobs s = 1) \<and> jobs s \<le> 1 \<and> (again s \<longrightarrow> busy s) \<Longrightarrow> step s e s' \<Longrightarrow>
      (busy s' \<longleftrightarrow> jobs s' = 1) \<and> jobs s' \<le> 1 \<and> (again s' \<longrightarrow> busy s')"
    and request_idle: "step s e s' \<Longrightarrow> request e \<Longrightarrow> \<not> busy s \<Longrightarrow> jobs s = 0 \<Longrightarrow>
      busy s' \<and> started s < started s'"
    and request_busy: "step s e s' \<Longrightarrow> request e \<Longrightarrow> busy s \<Longrightarrow> busy s' \<and> again s'"
    and step_started: "step s e s' \<Longrightarrow> started s \<le> started s'"
    and step_again: "step s e s' \<Longrightarrow> busy s \<Longrightarrow> again s \<Longrightarrow> (busy s' \<and> again s') \<or> started s < started s'"
begin

definition coalesce_inv :: "'s \<Rightarrow> bool" where
  "coalesce_inv s \<longleftrightarrow> (busy s \<longleftrightarrow> jobs s = 1) \<and> jobs s \<le> 1 \<and> (again s \<longrightarrow> busy s)"

sublocale machine init step coalesce_inv
proof
  show "coalesce_inv s" if "init s" for s
    using init_idle [OF that] by (simp add: coalesce_inv_def)
  show "coalesce_inv s'" if "coalesce_inv s" "step s e s'" for s e s'
    using step_jobs that unfolding coalesce_inv_def by blast
qed

lemma one_job: "reach init step s \<Longrightarrow> jobs s \<le> 1 \<and> (busy s \<longleftrightarrow> jobs s = 1)"
  using reach_inv [of s] by (simp add: coalesce_inv_def)

lemma run_started: "run step s es s' \<Longrightarrow> started s \<le> started s'"
  by (induction rule: run.induct) (auto dest: step_started)

lemma run_pending:
  "run step s es s' \<Longrightarrow> busy s \<Longrightarrow> again s \<Longrightarrow> (busy s' \<and> again s') \<or> started s < started s'"
proof (induction rule: run.induct)
  case (run_Cons s e s1 es s2)
  from step_again [OF run_Cons.hyps(1)] run_Cons.prems
  consider "busy s1" "again s1" | "started s < started s1" by blast
  then show ?case
  proof cases
    case 1
    with run_Cons.IH step_started [OF run_Cons.hyps(1)] show ?thesis by auto
  next
    case 2
    with run_started [OF run_Cons.hyps(2)] show ?thesis by auto
  qed
qed simp

text \<open>No request is lost: before the component is idle again, a job that started after it has run.\<close>

lemma no_lost_request:
  assumes "step s e s'" "request e" "run step s' es s''" "\<not> busy s''" "reach init step s"
  shows "started s < started s''"
proof (cases "busy s")
  case True
  then have "busy s'" "again s'" using request_busy assms(1,2) by blast+
  with run_pending [OF assms(3)] assms(4) step_started [OF assms(1)] show ?thesis by auto
next
  case False
  then have "jobs s = 0" using one_job [OF assms(5)] by auto
  with False request_idle assms(1,2) have "started s < started s'" by blast
  with run_started [OF assms(3)] show ?thesis by simp
qed

end

end
