(* ===== verification/VPNConfig.thy ===== *)
theory VPNConfig
  imports NetipText
begin

text \<open>
  The VPN configuration exchanged with \<^verbatim>\<open>oc-daemon-vpncscript\<close>
  (\<^verbatim>\<open>pkg/vpnconfig/config.go\<close>). Byte slices are nilable, so that the code's
  \<^verbatim>\<open>reflect.DeepEqual\<close> is equality of the model's values. The pointers of the exclude
  lists are options; dereferencing a nil one is the result \<open>None\<close> of an operation.
\<close>

section \<open>Model\<close>

type_synonym net_IP = "u8 slice"
type_synonym net_IPMask = "u8 slice"

record net_IPNet =
  IPNet_IP :: net_IP
  IPNet_Mask :: net_IPMask

text \<open>\<^verbatim>\<open>net.IP.String\<close>.\<close>

definition hex_byte :: "u8 \<Rightarrow> string" where
  "hex_byte b = [digit_char (unat b div 16), digit_char (unat b mod 16)]"

definition net_IP_String :: "net_IP \<Rightarrow> string" where
  "net_IP_String ip =
     (let bs = slice_list ip in
      if bs = [] then ''<nil>''
      else if length bs \<noteq> 4 \<and> length bs \<noteq> 16 then CHR ''?'' # concat (map hex_byte bs)
      else if length (To4 bs) = 4 then addr_String (IP4 (word_of_int (bytes_int (To4 bs))))
      else addr_String (IP6 (word_of_int (bytes_int bs)) ''''))"

record vc_Device =
  vc_Device_Name :: string
  vc_Device_MTU :: int

record vc_Address =
  vc_Address_Address :: net_IP
  vc_Address_Netmask :: net_IPMask

record vc_DNS =
  vc_DNS_DefaultDomain :: string
  vc_DNS_ServersIPv4 :: "net_IP slice"
  vc_DNS_ServersIPv6 :: "net_IP slice"

record vc_Split =
  vc_Split_ExcludeIPv4 :: "net_IPNet option slice"
  vc_Split_ExcludeIPv6 :: "net_IPNet option slice"
  vc_Split_ExcludeDNS :: "string slice"
  vc_Split_ExcludeVirtualSubnetsOnlyIPv4 :: bool

record vc_Flags =
  vc_Flags_DisableAlwaysOnVPN :: bool

record vc_Config =
  vc_Gateway :: net_IP
  vc_PID :: int
  vc_Timeout :: int
  vc_Device :: vc_Device
  vc_IPv4 :: vc_Address
  vc_IPv6 :: vc_Address
  vc_DNS :: vc_DNS
  vc_Split :: vc_Split
  vc_Flags :: vc_Flags

text \<open>The expression \<^verbatim>\<open>append(s[:0:0], s...)\<close> and the loops that copy a slice element-wise.\<close>

definition slice_copy :: "'a slice \<Rightarrow> 'a slice" where
  "slice_copy s = slice_append (slice_zero s) (slice_list s)"

definition slice_copy_each :: "('a \<Rightarrow> 'a) \<Rightarrow> 'a slice \<Rightarrow> 'a slice" where
  "slice_copy_each f s =
     foldl (\<lambda>acc x. slice_append acc [f x]) (if s = None then None else Some []) (slice_list s)"

definition vc_Device_Copy :: "vc_Device \<Rightarrow> vc_Device" where
  "vc_Device_Copy d = \<lparr>vc_Device_Name = vc_Device_Name d, vc_Device_MTU = vc_Device_MTU d\<rparr>"

definition vc_Address_Copy :: "vc_Address \<Rightarrow> vc_Address" where
  "vc_Address_Copy a =
     \<lparr>vc_Address_Address = slice_copy (vc_Address_Address a),
      vc_Address_Netmask = slice_copy (vc_Address_Netmask a)\<rparr>"

definition vc_DNS_Copy :: "vc_DNS \<Rightarrow> vc_DNS" where
  "vc_DNS_Copy d =
     \<lparr>vc_DNS_DefaultDomain = vc_DNS_DefaultDomain d,
      vc_DNS_ServersIPv4 = slice_copy_each slice_copy (vc_DNS_ServersIPv4 d),
      vc_DNS_ServersIPv6 = slice_copy_each slice_copy (vc_DNS_ServersIPv6 d)\<rparr>"

text \<open>Appending to the entry of a map of slices, \<^verbatim>\<open>m[k] = append(m[k], x)\<close>.\<close>

definition gm_append :: "'k \<Rightarrow> 'v \<Rightarrow> ('k, 'v list) gomap \<Rightarrow> ('k, 'v list) gomap" where
  "gm_append k x m = gm_put k ((case gm_get m k of None \<Rightarrow> [] | Some xs \<Rightarrow> xs) @ [x]) m"

definition vc_DNS_Remotes :: "vc_DNS \<Rightarrow> (string, string list) gomap" where
  "vc_DNS_Remotes d =
     foldl (\<lambda>r s. gm_append ''.'' (''['' @ net_IP_String s @ '']:53'') r)
       (foldl (\<lambda>r s. gm_append ''.'' (net_IP_String s @ '':53'') r) []
          (slice_list (vc_DNS_ServersIPv4 d)))
       (slice_list (vc_DNS_ServersIPv6 d))"

definition IPNet_copy :: "net_IPNet \<Rightarrow> net_IPNet" where
  "IPNet_copy e = \<lparr>IPNet_IP = slice_copy (IPNet_IP e), IPNet_Mask = slice_copy (IPNet_Mask e)\<rparr>"

text \<open>A loop over a slice of pointers that dereferences each of them.\<close>

definition deref_all :: "'a option slice \<Rightarrow> 'a list option" where
  "deref_all s = those (slice_list s)"

definition vc_Split_Copy :: "vc_Split \<Rightarrow> vc_Split option" where
  "vc_Split_Copy s =
     (case deref_all (vc_Split_ExcludeIPv4 s) of None \<Rightarrow> None
      | Some _ \<Rightarrow>
     (case deref_all (vc_Split_ExcludeIPv6 s) of None \<Rightarrow> None
      | Some _ \<Rightarrow> Some
          \<lparr>vc_Split_ExcludeIPv4 =
             slice_copy_each (map_option IPNet_copy) (vc_Split_ExcludeIPv4 s),
           vc_Split_ExcludeIPv6 =
             slice_copy_each (map_option IPNet_copy) (vc_Split_ExcludeIPv6 s),
           vc_Split_ExcludeDNS = slice_copy (vc_Split_ExcludeDNS s),
           vc_Split_ExcludeVirtualSubnetsOnlyIPv4 = vc_Split_ExcludeVirtualSubnetsOnlyIPv4 s\<rparr>))"

definition vc_Split_DNSExcludes :: "vc_Split \<Rightarrow> string list" where
  "vc_Split_DNSExcludes s = map (\<lambda>e. e @ ''.'') (slice_list (vc_Split_ExcludeDNS s))"

definition vc_Flags_Copy :: "vc_Flags \<Rightarrow> vc_Flags" where
  "vc_Flags_Copy f = \<lparr>vc_Flags_DisableAlwaysOnVPN = vc_Flags_DisableAlwaysOnVPN f\<rparr>"

text \<open>The outer option of the result is a panic, the inner one the nil pointer.\<close>

definition vc_Config_Copy :: "vc_Config option \<Rightarrow> vc_Config option option" where
  "vc_Config_Copy p =
     (case p of None \<Rightarrow> Some None
      | Some c \<Rightarrow>
        (case vc_Split_Copy (vc_Split c) of None \<Rightarrow> None
         | Some split \<Rightarrow> Some (Some
             \<lparr>vc_Gateway = slice_copy (vc_Gateway c),
              vc_PID = vc_PID c,
              vc_Timeout = vc_Timeout c,
              vc_Device = vc_Device_Copy (vc_Device c),
              vc_IPv4 = vc_Address_Copy (vc_IPv4 c),
              vc_IPv6 = vc_Address_Copy (vc_IPv6 c),
              vc_DNS = vc_DNS_Copy (vc_DNS c),
              vc_Split = split,
              vc_Flags = vc_Flags_Copy (vc_Flags c)\<rparr>)))"

definition vc_New :: vc_Config where
  "vc_New =
     \<lparr>vc_Gateway = None, vc_PID = 0, vc_Timeout = 0,
      vc_Device = \<lparr>vc_Device_Name = '''', vc_Device_MTU = 0\<rparr>,
      vc_IPv4 = \<lparr>vc_Address_Address = None, vc_Address_Netmask = None\<rparr>,
      vc_IPv6 = \<lparr>vc_Address_Address = None, vc_Address_Netmask = None\<rparr>,
      vc_DNS = \<lparr>vc_DNS_DefaultDomain = '''', vc_DNS_ServersIPv4 = None, vc_DNS_ServersIPv6 = None\<rparr>,
      vc_Split = \<lparr>vc_Split_ExcludeIPv4 = None, vc_Split_ExcludeIPv6 = None,
        vc_Split_ExcludeDNS = None, vc_Split_ExcludeVirtualSubnetsOnlyIPv4 = False\<rparr>,
      vc_Flags = \<lparr>vc_Flags_DisableAlwaysOnVPN = False\<rparr>\<rparr>"

definition vc_Equal :: "vc_Config option \<Rightarrow> vc_Config option \<Rightarrow> bool" where
  "vc_Equal c other \<longleftrightarrow> c = other"

definition vc_Empty :: "vc_Config option \<Rightarrow> bool" where
  "vc_Empty c = vc_Equal c (Some vc_New)"

text \<open>The loop over the list of checks stops at the first check that fails.\<close>

definition vc_Valid :: "vc_Config \<Rightarrow> bool" where
  "vc_Valid c =
     (if vc_Empty (Some c) then True
      else \<not> (\<exists>invalid \<in> set [
        vc_Gateway c = None,
        vc_Device_Name (vc_Device c) = '''',
        length (vc_Device_Name (vc_Device c)) > 15,
        vc_Device_MTU (vc_Device c) < 68,
        vc_Device_MTU (vc_Device c) > 16384,
        slice_len (vc_Address_Address (vc_IPv4 c)) = 0 \<and> slice_len (vc_Address_Address (vc_IPv6 c)) = 0,
        slice_len (vc_Address_Netmask (vc_IPv4 c)) = 0 \<and> slice_len (vc_Address_Netmask (vc_IPv6 c)) = 0,
        slice_len (vc_DNS_ServersIPv4 (vc_DNS c)) = 0 \<and> slice_len (vc_DNS_ServersIPv6 (vc_DNS c)) = 0
      ]. invalid))"

text \<open>A configuration without nil pointers in its exclude lists.\<close>

definition vc_no_nil :: "vc_Config \<Rightarrow> bool" where
  "vc_no_nil c \<longleftrightarrow>
     None \<notin> set (slice_list (vc_Split_ExcludeIPv4 (vc_Split c))) \<and>
     None \<notin> set (slice_list (vc_Split_ExcludeIPv6 (vc_Split c)))"

section \<open>Lemmas\<close>

lemma slice_copy_eq [simp]: "slice_copy s = s"
  by (simp add: slice_copy_def)

lemma slice_append_each:
  "foldl (\<lambda>acc x. slice_append acc [f x]) (Some ys) xs = Some (ys @ map f xs)"
  by (induction xs arbitrary: ys) (auto simp: slice_append_def)

lemma slice_copy_each_eq: "slice_copy_each f s = map_option (map f) s"
  by (cases s) (auto simp: slice_copy_each_def slice_append_each)

lemma slice_copy_each_id: "(\<And>x. f x = x) \<Longrightarrow> slice_copy_each f s = s"
  by (cases s) (auto simp: slice_copy_each_eq map_idI)

lemma IPNet_copy_id [simp]: "IPNet_copy e = e"
  by (simp add: IPNet_copy_def)

lemma vc_copies_id [simp]:
  "vc_Device_Copy d = d" "vc_Address_Copy a = a" "vc_DNS_Copy n = n" "vc_Flags_Copy f = f"
  by (simp_all add: vc_Device_Copy_def vc_Address_Copy_def vc_DNS_Copy_def vc_Flags_Copy_def
      slice_copy_each_id)

lemma those_None_iff: "those xs = None \<longleftrightarrow> None \<in> set xs"
  by (induction xs) (auto split: option.splits)

lemma those_eq_Some: "those xs = Some ys \<Longrightarrow> xs = map Some ys"
  by (induction xs arbitrary: ys) (auto split: option.splits)

lemma deref_all_None_iff: "deref_all s = None \<longleftrightarrow> None \<in> set (slice_list s)"
  by (simp add: deref_all_def those_None_iff)

lemma deref_all_Some: "None \<notin> set (slice_list s) \<Longrightarrow> \<exists>ys. deref_all s = Some ys"
  using deref_all_None_iff [of s] by auto

text \<open>A copy is equal to its original, nil slices included, and the only panic is a nil exclude.\<close>

lemma vc_Config_Copy_eq:
  "vc_Config_Copy p = (case p of None \<Rightarrow> Some None
     | Some c \<Rightarrow> if vc_no_nil c then Some (Some c) else None)"
proof (cases p)
  case (Some c)
  have "map_option IPNet_copy e = e" for e by (cases e) auto
  then have "slice_copy_each (map_option IPNet_copy) s = s" for s by (rule slice_copy_each_id)
  then show ?thesis
    using Some
    by (auto simp: vc_Config_Copy_def vc_Split_Copy_def vc_no_nil_def
        deref_all_None_iff [symmetric] split: option.splits)
qed (simp add: vc_Config_Copy_def)

lemma gm_append_get [simp]:
  "gm_get (gm_append k x m) k' =
     (if k' = k then Some ((case gm_get m k of None \<Rightarrow> [] | Some xs \<Rightarrow> xs) @ [x]) else gm_get m k')"
  by (simp add: gm_append_def)

lemma gm_append_fold:
  "gm_get (foldl (\<lambda>r s. gm_append k (f s) r) m xs) k' =
     (if k' = k \<and> xs \<noteq> [] then Some ((case gm_get m k of None \<Rightarrow> [] | Some ys \<Rightarrow> ys) @ map f xs)
      else gm_get m k')"
  by (induction xs arbitrary: m) (auto split: option.splits)

end
