(* ===== verification/LoginInfo.thy ===== *)
theory LoginInfo
  imports Prelude
begin

text \<open>
  The login information for OpenConnect (\<^verbatim>\<open>pkg/logininfo/logininfo.go\<close>): validity and
  the parser of the lines that \<^verbatim>\<open>openconnect --authenticate\<close> prints.
\<close>

section \<open>Model\<close>

record LoginInfo =
  li_Server :: string
  li_Cookie :: string
  li_Host :: string
  li_ConnectURL :: string
  li_Fingerprint :: string
  li_Resolve :: string

definition LoginInfo_zero :: LoginInfo where
  "LoginInfo_zero = \<lparr>li_Server = '''', li_Cookie = '''', li_Host = '''', li_ConnectURL = '''',
     li_Fingerprint = '''', li_Resolve = ''''\<rparr>"

definition LoginInfo_Copy :: "LoginInfo option \<Rightarrow> LoginInfo option" where
  "LoginInfo_Copy l = (case l of None \<Rightarrow> None | Some cp \<Rightarrow> Some cp)"

definition LoginInfo_Valid :: "LoginInfo option \<Rightarrow> bool" where
  "LoginInfo_Valid l =
     (case l of None \<Rightarrow> False
      | Some l \<Rightarrow>
        (if li_Server l = '''' \<or> li_Cookie l = '''' \<or> li_Host l = '''' \<or> li_Fingerprint l = ''''
         then False else True))"

definition ParseLine :: "string \<Rightarrow> LoginInfo \<Rightarrow> LoginInfo" where
  "ParseLine line l =
     (case cut_char (CHR ''='') line of None \<Rightarrow> l
      | Some (key, value) \<Rightarrow>
        (let value = trim_suffix (trim_prefix value [CHR 0x27]) [CHR 0x27] in
         if key = ''COOKIE'' then l\<lparr>li_Cookie := value\<rparr>
         else if key = ''HOST'' then l\<lparr>li_Host := value\<rparr>
         else if key = ''CONNECT_URL'' then l\<lparr>li_ConnectURL := value\<rparr>
         else if key = ''FINGERPRINT'' then l\<lparr>li_Fingerprint := value\<rparr>
         else if key = ''RESOLVE'' then l\<lparr>li_Resolve := value\<rparr>
         else l))"

text \<open>How the client reads openconnect's output: every line in order.\<close>

definition ParseLines :: "string list \<Rightarrow> LoginInfo \<Rightarrow> LoginInfo" where
  "ParseLines lines l = foldl (\<lambda>l line. ParseLine line l) l lines"

text \<open>The line that names a value, quoted as openconnect prints it.\<close>

definition quoted_line :: "string \<Rightarrow> string \<Rightarrow> string" where
  "quoted_line key value = key @ ''='' @ [CHR 0x27] @ value @ [CHR 0x27]"

section \<open>Lemmas\<close>

lemma trim_quotes [simp]: "trim_suffix (trim_prefix (CHR 0x27 # v @ [CHR 0x27]) [CHR 0x27]) [CHR 0x27] = v"
  by (simp add: trim_prefix_def trim_suffix_def has_prefix_def)

lemma ParseLine_quoted:
  assumes "CHR ''='' \<notin> set key"
  shows "ParseLine (quoted_line key v) l =
     (if key = ''COOKIE'' then l\<lparr>li_Cookie := v\<rparr>
      else if key = ''HOST'' then l\<lparr>li_Host := v\<rparr>
      else if key = ''CONNECT_URL'' then l\<lparr>li_ConnectURL := v\<rparr>
      else if key = ''FINGERPRINT'' then l\<lparr>li_Fingerprint := v\<rparr>
      else if key = ''RESOLVE'' then l\<lparr>li_Resolve := v\<rparr>
      else l)"
proof -
  have "cut_char (CHR ''='') (quoted_line key v) = Some (key, CHR 0x27 # v @ [CHR 0x27])"
    using cut_char_append [OF assms, of "CHR 0x27 # v @ [CHR 0x27]"] by (simp add: quoted_line_def)
  then show ?thesis by (simp only: ParseLine_def trim_quotes Let_def option.case prod.case)
qed

lemma ParseLine_Server [simp]: "li_Server (ParseLine line l) = li_Server l"
  by (simp add: ParseLine_def Let_def split: option.splits prod.splits)

lemma ParseLines_Server [simp]: "li_Server (ParseLines lines l) = li_Server l"
  unfolding ParseLines_def by (induction lines arbitrary: l) auto

end
