(* ===== verification/DaemonCfg.thy ===== *)
theory DaemonCfg
  imports VPNConfig LoginInfo
begin

text \<open>
  The configuration of the daemon (\<^verbatim>\<open>internal/daemoncfg/config.go\<close>): one record per
  section with its defaults, \<^verbatim>\<open>Copy\<close> and \<^verbatim>\<open>Valid\<close>, and the conversion of the VPN
  configuration received from the script into the daemon's own form. Pointers to sections are
  options; an operation that dereferences a nil pointer has the result \<open>None\<close>. The
  configuration of trusted network detection belongs to another module and is a type parameter,
  its functions are arguments.
\<close>

section \<open>Default values\<close>

text \<open>A \<^verbatim>\<open>time.Duration\<close> counts nanoseconds.\<close>

type_synonym duration = int

definition Second :: duration where
  "Second = 1000000000"

definition SocketServerSocketFile :: string where
  "SocketServerSocketFile = ''/run/oc-daemon/daemon.sock''"

definition SocketServerSocketOwner :: string where
  "SocketServerSocketOwner = ''''"

definition SocketServerSocketGroup :: string where
  "SocketServerSocketGroup = ''''"

definition SocketServerSocketPermissions :: string where
  "SocketServerSocketPermissions = ''0700''"

definition SocketServerRequestTimeout :: duration where
  "SocketServerRequestTimeout = 30 * Second"

definition CPDHost :: string where
  "CPDHost = ''connectivity-check.ubuntu.com''"

definition CPDHTTPTimeout :: duration where
  "CPDHTTPTimeout = 5 * Second"

definition CPDProbeCount :: int where
  "CPDProbeCount = 3"

definition CPDProbeWait :: duration where
  "CPDProbeWait = Second"

definition CPDProbeTimer :: duration where
  "CPDProbeTimer = 300 * Second"

definition CPDProbeTimerDetected :: duration where
  "CPDProbeTimerDetected = 15 * Second"

definition CPDSetFirewallMark :: bool where
  "CPDSetFirewallMark = True"

definition DNSProxyAddress :: string where
  "DNSProxyAddress = ''127.0.0.1:4253''"

definition DNSProxyListenUDP :: bool where
  "DNSProxyListenUDP = True"

definition DNSProxyListenTCP :: bool where
  "DNSProxyListenTCP = True"

definition OpenConnectOpenConnect :: string where
  "OpenConnectOpenConnect = ''openconnect''"

definition OpenConnectXMLProfile :: string where
  "OpenConnectXMLProfile = ''/var/lib/oc-daemon/profile.xml''"

definition OpenConnectVPNCScript :: string where
  "OpenConnectVPNCScript = ''/usr/bin/oc-daemon-vpncscript''"

definition OpenConnectVPNDevice :: string where
  "OpenConnectVPNDevice = ''oc-daemon-tun0''"

definition OpenConnectPIDFile :: string where
  "OpenConnectPIDFile = ''/run/oc-daemon/openconnect.pid''"

definition OpenConnectPIDOwner :: string where
  "OpenConnectPIDOwner = ''''"

definition OpenConnectPIDGroup :: string where
  "OpenConnectPIDGroup = ''''"

definition OpenConnectPIDPermissions :: string where
  "OpenConnectPIDPermissions = ''0600''"

definition OpenConnectNoProxy :: bool where
  "OpenConnectNoProxy = True"

definition OpenConnectExtraEnv :: "string slice" where
  "OpenConnectExtraEnv = Some []"

definition OpenConnectExtraArgs :: "string slice" where
  "OpenConnectExtraArgs = Some []"

definition ExecutablesIP :: string where
  "ExecutablesIP = ''ip''"

definition ExecutablesNft :: string where
  "ExecutablesNft = ''nft''"

definition ExecutablesResolvectl :: string where
  "ExecutablesResolvectl = ''resolvectl''"

definition ExecutablesSysctl :: string where
  "ExecutablesSysctl = ''sysctl''"

definition SplitRoutingRoutingTable :: string where
  "SplitRoutingRoutingTable = ''42111''"

definition SplitRoutingRulePriority1 :: string where
  "SplitRoutingRulePriority1 = ''2111''"

definition SplitRoutingRulePriority2 :: string where
  "SplitRoutingRulePriority2 = ''2112''"

definition SplitRoutingFirewallMark :: string where
  "SplitRoutingFirewallMark = SplitRoutingRoutingTable"

definition AllowedHosts :: "string slice" where
  "AllowedHosts = Some [
     ''connectivity-check.ubuntu.com'',
     ''detectportal.firefox.com'',
     ''www.gstatic.com'',
     ''clients3.google.com'',
     ''nmcheck.gnome.org'',
     ''networkcheck.kde.org'']"

definition PortalPorts :: "u16 slice" where
  "PortalPorts = Some [80, 443]"

definition ResolveTimeout :: duration where
  "ResolveTimeout = 2 * Second"

definition ResolveTries :: int where
  "ResolveTries = 3"

definition ResolveTriesSleep :: duration where
  "ResolveTriesSleep = Second"

definition ResolveTimer :: duration where
  "ResolveTimer = 30 * Second"

definition ResolveTTL :: duration where
  "ResolveTTL = 300 * Second"

definition configDir :: string where
  "configDir = ''/var/lib/oc-daemon''"

definition ConfigFile :: string where
  "ConfigFile = configDir @ ''/oc-daemon.json''"

definition CommandListsListsFile :: string where
  "CommandListsListsFile = configDir @ ''/command-lists.json''"

definition CommandListsTemplatesFile :: string where
  "CommandListsTemplatesFile = configDir @ ''/command-lists.tmpl''"

section \<open>Sections of the configuration\<close>

record SocketServer =
  ss_SocketFile :: string
  ss_SocketOwner :: string
  ss_SocketGroup :: string
  ss_SocketPermissions :: string
  ss_RequestTimeout :: duration

text \<open>The expression \<^verbatim>\<open>n := *c; return &n\<close>: a panic for a nil pointer, a copy otherwise.\<close>

definition deref_copy :: "'a option \<Rightarrow> 'a option" where
  "deref_copy c = (case c of None \<Rightarrow> None | Some s \<Rightarrow> Some s)"

definition SocketServer_Copy :: "SocketServer option \<Rightarrow> SocketServer option" where
  "SocketServer_Copy c = deref_copy c"

text \<open>The check of octal file permissions that two of the sections share.\<close>

definition perm_ok :: "string \<Rightarrow> bool" where
  "perm_ok s =
     (if s \<noteq> '''' then (case ParseUint s 8 32 of None \<Rightarrow> False | Some perm \<Rightarrow> \<not> perm > 511)
      else True)"

definition SocketServer_Valid :: "SocketServer option \<Rightarrow> bool" where
  "SocketServer_Valid c =
     (case c of None \<Rightarrow> False
      | Some c \<Rightarrow>
        (if ss_SocketFile c = '''' \<or> ss_RequestTimeout c < 0 then False
         else perm_ok (ss_SocketPermissions c)))"

definition NewSocketServer :: SocketServer where
  "NewSocketServer =
     \<lparr>ss_SocketFile = SocketServerSocketFile,
      ss_SocketOwner = SocketServerSocketOwner,
      ss_SocketGroup = SocketServerSocketGroup,
      ss_SocketPermissions = SocketServerSocketPermissions,
      ss_RequestTimeout = SocketServerRequestTimeout\<rparr>"

record CPDConfig =
  cpd_Host :: string
  cpd_HTTPTimeout :: duration
  cpd_ProbeCount :: int
  cpd_ProbeWait :: duration
  cpd_ProbeTimer :: duration
  cpd_ProbeTimerDetected :: duration
  cpd_SetFirewallMark :: bool

definition CPDConfig_Copy :: "CPDConfig option \<Rightarrow> CPDConfig option" where
  "CPDConfig_Copy c = deref_copy c"

definition CPDConfig_Valid :: "CPDConfig option \<Rightarrow> bool" where
  "CPDConfig_Valid c =
     (case c of None \<Rightarrow> False
      | Some c \<Rightarrow> \<not> (cpd_Host c = '''' \<or> cpd_HTTPTimeout c \<le> 0 \<or> cpd_ProbeCount c \<le> 0 \<or>
          cpd_ProbeWait c \<le> 0 \<or> cpd_ProbeTimer c \<le> 0 \<or> cpd_ProbeTimerDetected c \<le> 0))"

definition NewCPDConfig :: CPDConfig where
  "NewCPDConfig =
     \<lparr>cpd_Host = CPDHost,
      cpd_HTTPTimeout = CPDHTTPTimeout,
      cpd_ProbeCount = CPDProbeCount,
      cpd_ProbeWait = CPDProbeWait,
      cpd_ProbeTimer = CPDProbeTimer,
      cpd_ProbeTimerDetected = CPDProbeTimerDetected,
      cpd_SetFirewallMark = CPDSetFirewallMark\<rparr>"

record DNSProxyConfig =
  dp_Address :: string
  dp_ListenUDP :: bool
  dp_ListenTCP :: bool

definition DNSProxyConfig_Copy :: "DNSProxyConfig option \<Rightarrow> DNSProxyConfig option" where
  "DNSProxyConfig_Copy c = deref_copy c"

definition DNSProxyConfig_Valid :: "DNSProxyConfig option \<Rightarrow> bool" where
  "DNSProxyConfig_Valid c =
     (case c of None \<Rightarrow> False
      | Some c \<Rightarrow> \<not> (dp_Address c = '''' \<or> (\<not> dp_ListenUDP c \<and> \<not> dp_ListenTCP c)))"

definition NewDNSProxyConfig :: DNSProxyConfig where
  "NewDNSProxyConfig =
     \<lparr>dp_Address = DNSProxyAddress,
      dp_ListenUDP = DNSProxyListenUDP,
      dp_ListenTCP = DNSProxyListenTCP\<rparr>"

record OpenConnect =
  oc_OpenConnect :: string
  oc_XMLProfile :: string
  oc_VPNCScript :: string
  oc_VPNDevice :: string
  oc_PIDFile :: string
  oc_PIDOwner :: string
  oc_PIDGroup :: string
  oc_PIDPermissions :: string
  oc_NoProxy :: bool
  oc_ExtraEnv :: "string slice"
  oc_ExtraArgs :: "string slice"

definition OpenConnect_Copy :: "OpenConnect option \<Rightarrow> OpenConnect option" where
  "OpenConnect_Copy c =
     (case deref_copy c of None \<Rightarrow> None
      | Some openConnect \<Rightarrow> Some (openConnect
          \<lparr>oc_ExtraEnv := slice_copy (oc_ExtraEnv openConnect),
           oc_ExtraArgs := slice_copy (oc_ExtraArgs openConnect)\<rparr>))"

definition OpenConnect_Valid :: "OpenConnect option \<Rightarrow> bool" where
  "OpenConnect_Valid c =
     (case c of None \<Rightarrow> False
      | Some c \<Rightarrow>
        (if oc_OpenConnect c = '''' \<or> oc_XMLProfile c = '''' \<or> oc_VPNCScript c = '''' \<or>
            oc_VPNDevice c = '''' \<or> oc_PIDFile c = '''' \<or> oc_PIDPermissions c = ''''
         then False else perm_ok (oc_PIDPermissions c)))"

definition NewOpenConnect :: OpenConnect where
  "NewOpenConnect =
     \<lparr>oc_OpenConnect = OpenConnectOpenConnect,
      oc_XMLProfile = OpenConnectXMLProfile,
      oc_VPNCScript = OpenConnectVPNCScript,
      oc_VPNDevice = OpenConnectVPNDevice,
      oc_PIDFile = OpenConnectPIDFile,
      oc_PIDOwner = OpenConnectPIDOwner,
      oc_PIDGroup = OpenConnectPIDGroup,
      oc_PIDPermissions = OpenConnectPIDPermissions,
      oc_NoProxy = OpenConnectNoProxy,
      oc_ExtraEnv = slice_copy OpenConnectExtraEnv,
      oc_ExtraArgs = slice_copy OpenConnectExtraArgs\<rparr>"

record Executables =
  exe_IP :: string
  exe_Nft :: string
  exe_Resolvectl :: string
  exe_Sysctl :: string

definition Executables_Copy :: "Executables option \<Rightarrow> Executables option" where
  "Executables_Copy c = deref_copy c"

definition Executables_Valid :: "Executables option \<Rightarrow> bool" where
  "Executables_Valid c =
     (case c of None \<Rightarrow> False
      | Some c \<Rightarrow> \<not> (exe_IP c = '''' \<or> exe_Nft c = '''' \<or> exe_Resolvectl c = '''' \<or> exe_Sysctl c = ''''))"

text \<open>
  The first executable that \<^verbatim>\<open>exec.LookPath\<close>, the argument, does not find is the error.
\<close>

definition CheckExecutables :: "(string \<Rightarrow> 'err option) \<Rightarrow> Executables \<Rightarrow> 'err option" where
  "CheckExecutables lookPath c =
     foldr (\<lambda>f err. case lookPath f of Some e \<Rightarrow> Some e | None \<Rightarrow> err)
       [exe_IP c, exe_Nft c, exe_Resolvectl c, exe_Sysctl c] None"

definition NewExecutables :: Executables where
  "NewExecutables =
     \<lparr>exe_IP = ExecutablesIP,
      exe_Nft = ExecutablesNft,
      exe_Resolvectl = ExecutablesResolvectl,
      exe_Sysctl = ExecutablesSysctl\<rparr>"

record SplitRoutingConfig =
  sr_RoutingTable :: string
  sr_RulePriority1 :: string
  sr_RulePriority2 :: string
  sr_FirewallMark :: string

definition SplitRoutingConfig_Copy :: "SplitRoutingConfig option \<Rightarrow> SplitRoutingConfig option" where
  "SplitRoutingConfig_Copy c = deref_copy c"

definition SplitRoutingConfig_Valid :: "SplitRoutingConfig option \<Rightarrow> bool" where
  "SplitRoutingConfig_Valid c =
     (case c of None \<Rightarrow> False
      | Some c \<Rightarrow>
        (if sr_RoutingTable c = '''' \<or> sr_RulePriority1 c = '''' \<or> sr_RulePriority2 c = '''' \<or>
            sr_FirewallMark c = '''' then False
         else (case ParseUint (sr_RoutingTable c) 10 32 of None \<Rightarrow> False
           | Some rtTable \<Rightarrow>
         if rtTable = 0 \<or> rtTable \<ge> 0xFFFFFFFF then False
         else (case ParseUint (sr_RulePriority1 c) 10 16 of None \<Rightarrow> False
           | Some prio1 \<Rightarrow> (case ParseUint (sr_RulePriority2 c) 10 16 of None \<Rightarrow> False
           | Some prio2 \<Rightarrow>
         if prio1 = 0 \<or> prio2 = 0 \<or> prio1 \<ge> 32766 \<or> prio2 \<ge> 32766 \<or> prio1 \<ge> prio2 then False
         else (case ParseUint (sr_FirewallMark c) 10 32 of None \<Rightarrow> False | Some _ \<Rightarrow> True))))))"

definition NewSplitRoutingConfig :: SplitRoutingConfig where
  "NewSplitRoutingConfig =
     \<lparr>sr_RoutingTable = SplitRoutingRoutingTable,
      sr_RulePriority1 = SplitRoutingRulePriority1,
      sr_RulePriority2 = SplitRoutingRulePriority2,
      sr_FirewallMark = SplitRoutingFirewallMark\<rparr>"

record TrafficPolicing =
  tp_AllowedHosts :: "string slice"
  tp_PortalPorts :: "u16 slice"
  tp_ResolveTimeout :: duration
  tp_ResolveTries :: int
  tp_ResolveTriesSleep :: duration
  tp_ResolveTimer :: duration
  tp_ResolveTTL :: duration

definition TrafficPolicing_Copy :: "TrafficPolicing option \<Rightarrow> TrafficPolicing option" where
  "TrafficPolicing_Copy c =
     (case deref_copy c of None \<Rightarrow> None
      | Some trafpol \<Rightarrow> Some (trafpol
          \<lparr>tp_AllowedHosts := slice_copy (tp_AllowedHosts trafpol),
           tp_PortalPorts := slice_copy (tp_PortalPorts trafpol)\<rparr>))"

definition TrafficPolicing_Valid :: "TrafficPolicing option \<Rightarrow> bool" where
  "TrafficPolicing_Valid c =
     (case c of None \<Rightarrow> False
      | Some c \<Rightarrow> \<not> (slice_len (tp_PortalPorts c) = 0 \<or> tp_ResolveTimeout c < 0 \<or>
          tp_ResolveTries c < 1 \<or> tp_ResolveTriesSleep c < 0 \<or> tp_ResolveTimer c < 0 \<or>
          tp_ResolveTTL c < 0))"

definition NewTrafficPolicing :: TrafficPolicing where
  "NewTrafficPolicing =
     \<lparr>tp_AllowedHosts = slice_copy AllowedHosts,
      tp_PortalPorts = slice_copy PortalPorts,
      tp_ResolveTimeout = ResolveTimeout,
      tp_ResolveTries = ResolveTries,
      tp_ResolveTriesSleep = ResolveTriesSleep,
      tp_ResolveTimer = ResolveTimer,
      tp_ResolveTTL = ResolveTTL\<rparr>"

record CommandListsConfig =
  cl_ListsFile :: string
  cl_TemplatesFile :: string

definition CommandListsConfig_Copy :: "CommandListsConfig option \<Rightarrow> CommandListsConfig option" where
  "CommandListsConfig_Copy c = deref_copy c"

definition CommandListsConfig_Valid :: "CommandListsConfig option \<Rightarrow> bool" where
  "CommandListsConfig_Valid c =
     (case c of None \<Rightarrow> False | Some c \<Rightarrow> \<not> (cl_ListsFile c = '''' \<or> cl_TemplatesFile c = ''''))"

definition NewCommandListsConfig :: CommandListsConfig where
  "NewCommandListsConfig =
     \<lparr>cl_ListsFile = CommandListsListsFile, cl_TemplatesFile = CommandListsTemplatesFile\<rparr>"

section \<open>The VPN configuration\<close>

record VPNDevice =
  vd_Name :: string
  vd_MTU :: int

definition VPNDevice_Copy :: "VPNDevice \<Rightarrow> VPNDevice" where
  "VPNDevice_Copy d = \<lparr>vd_Name = vd_Name d, vd_MTU = vd_MTU d\<rparr>"

record VPNDNS =
  vn_DefaultDomain :: string
  vn_ServersIPv4 :: "addr slice"
  vn_ServersIPv6 :: "addr slice"

definition VPNDNS_Copy :: "VPNDNS \<Rightarrow> VPNDNS" where
  "VPNDNS_Copy d =
     \<lparr>vn_DefaultDomain = vn_DefaultDomain d,
      vn_ServersIPv4 = slice_copy (vn_ServersIPv4 d),
      vn_ServersIPv6 = slice_copy (vn_ServersIPv6 d)\<rparr>"

definition VPNDNS_Remotes :: "VPNDNS \<Rightarrow> (string, string list) gomap" where
  "VPNDNS_Remotes d =
     foldl (\<lambda>r s. gm_append ''.'' (''['' @ addr_String s @ '']:53'') r)
       (foldl (\<lambda>r s. gm_append ''.'' (addr_String s @ '':53'') r) []
          (slice_list (vn_ServersIPv4 d)))
       (slice_list (vn_ServersIPv6 d))"

record VPNSplit =
  vs_ExcludeIPv4 :: "prefix slice"
  vs_ExcludeIPv6 :: "prefix slice"
  vs_ExcludeDNS :: "string slice"
  vs_ExcludeVirtualSubnetsOnlyIPv4 :: bool

definition VPNSplit_Copy :: "VPNSplit \<Rightarrow> VPNSplit" where
  "VPNSplit_Copy s =
     \<lparr>vs_ExcludeIPv4 = slice_copy (vs_ExcludeIPv4 s),
      vs_ExcludeIPv6 = slice_copy (vs_ExcludeIPv6 s),
      vs_ExcludeDNS = slice_copy (vs_ExcludeDNS s),
      vs_ExcludeVirtualSubnetsOnlyIPv4 = vs_ExcludeVirtualSubnetsOnlyIPv4 s\<rparr>"

definition VPNSplit_DNSExcludes :: "VPNSplit \<Rightarrow> string list" where
  "VPNSplit_DNSExcludes s = map (\<lambda>e. e @ ''.'') (slice_list (vs_ExcludeDNS s))"

record VPNFlags =
  vf_DisableAlwaysOnVPN :: bool

definition VPNFlags_Copy :: "VPNFlags \<Rightarrow> VPNFlags" where
  "VPNFlags_Copy f = \<lparr>vf_DisableAlwaysOnVPN = vf_DisableAlwaysOnVPN f\<rparr>"

record VPNConfig =
  vpn_Gateway :: addr
  vpn_PID :: int
  vpn_Timeout :: int
  vpn_Device :: VPNDevice
  vpn_IPv4 :: prefix
  vpn_IPv6 :: prefix
  vpn_DNS :: VPNDNS
  vpn_Split :: VPNSplit
  vpn_Flags :: VPNFlags

definition VPNConfig_Copy :: "VPNConfig option \<Rightarrow> VPNConfig option" where
  "VPNConfig_Copy p =
     (case p of None \<Rightarrow> None
      | Some c \<Rightarrow> Some
          \<lparr>vpn_Gateway = vpn_Gateway c,
           vpn_PID = vpn_PID c,
           vpn_Timeout = vpn_Timeout c,
           vpn_Device = VPNDevice_Copy (vpn_Device c),
           vpn_IPv4 = vpn_IPv4 c,
           vpn_IPv6 = vpn_IPv6 c,
           vpn_DNS = VPNDNS_Copy (vpn_DNS c),
           vpn_Split = VPNSplit_Copy (vpn_Split c),
           vpn_Flags = VPNFlags_Copy (vpn_Flags c)\<rparr>)"

definition VPNConfig_zero :: VPNConfig where
  "VPNConfig_zero =
     \<lparr>vpn_Gateway = AddrZero, vpn_PID = 0, vpn_Timeout = 0,
      vpn_Device = \<lparr>vd_Name = '''', vd_MTU = 0\<rparr>,
      vpn_IPv4 = PrefixZero, vpn_IPv6 = PrefixZero,
      vpn_DNS = \<lparr>vn_DefaultDomain = '''', vn_ServersIPv4 = None, vn_ServersIPv6 = None\<rparr>,
      vpn_Split = \<lparr>vs_ExcludeIPv4 = None, vs_ExcludeIPv6 = None, vs_ExcludeDNS = None,
        vs_ExcludeVirtualSubnetsOnlyIPv4 = False\<rparr>,
      vpn_Flags = \<lparr>vf_DisableAlwaysOnVPN = False\<rparr>\<rparr>"

definition VPNConfig_Empty :: "VPNConfig option \<Rightarrow> bool" where
  "VPNConfig_Empty c \<longleftrightarrow> c = Some VPNConfig_zero"

definition VPNConfig_Valid :: "VPNConfig option \<Rightarrow> bool option" where
  "VPNConfig_Valid p =
     (if VPNConfig_Empty p then Some True
      else (case p of None \<Rightarrow> None
        | Some c \<Rightarrow> Some (\<not> (\<exists>invalid \<in> set [
            \<not> addr_IsValid (vpn_Gateway c),
            vd_Name (vpn_Device c) = '''',
            length (vd_Name (vpn_Device c)) > 15,
            vd_MTU (vpn_Device c) < 68,
            vd_MTU (vpn_Device c) > 16384,
            \<not> prefix_IsValid (vpn_IPv4 c) \<and> \<not> prefix_IsValid (vpn_IPv6 c),
            slice_len (vn_ServersIPv4 (vpn_DNS c)) = 0 \<and> slice_len (vn_ServersIPv6 (vpn_DNS c)) = 0
          ]. invalid))))"

text \<open>The loops of the conversion: the converted entries, the others skipped; nil when none.\<close>

definition collect :: "('a \<Rightarrow> 'b option) \<Rightarrow> 'a list \<Rightarrow> 'b slice" where
  "collect f xs =
     foldl (\<lambda>acc x. case f x of None \<Rightarrow> acc | Some y \<Rightarrow> slice_append acc [y]) None xs"

definition IPNet_prefix4 :: "net_IPNet \<Rightarrow> prefix option" where
  "IPNet_prefix4 a =
     (case AddrFromSlice (To4 (slice_list (IPNet_IP a))) of None \<Rightarrow> None
      | Some ipv4 \<Rightarrow> Some (PrefixFrom ipv4 (int (mask_Size (slice_list (IPNet_Mask a))))))"

definition IPNet_prefix6 :: "net_IPNet \<Rightarrow> prefix option" where
  "IPNet_prefix6 a =
     (case AddrFromSlice (slice_list (IPNet_IP a)) of None \<Rightarrow> None
      | Some ipv6 \<Rightarrow> Some (PrefixFrom ipv6 (int (mask_Size (slice_list (IPNet_Mask a))))))"

definition GetVPNConfig :: "vc_Config \<Rightarrow> VPNConfig option" where
  "GetVPNConfig vpnconf =
     (let gateway = (case AddrFromSlice (slice_list (vc_Gateway vpnconf)) of
            Some g \<Rightarrow> Unmap g | None \<Rightarrow> AddrZero);
          pre4 = (case AddrFromSlice (To4 (slice_list (vc_Address_Address (vc_IPv4 vpnconf)))) of
            Some ipv4 \<Rightarrow>
              PrefixFrom ipv4 (int (mask_Size (slice_list (vc_Address_Netmask (vc_IPv4 vpnconf)))))
          | None \<Rightarrow> PrefixZero);
          pre6 = (case AddrFromSlice (slice_list (vc_Address_Address (vc_IPv6 vpnconf))) of
            Some ipv6 \<Rightarrow>
              PrefixFrom ipv6 (int (mask_Size (slice_list (vc_Address_Netmask (vc_IPv6 vpnconf)))))
          | None \<Rightarrow> PrefixZero);
          dns4 = collect (\<lambda>a. AddrFromSlice (To4 (slice_list a)))
            (slice_list (vc_DNS_ServersIPv4 (vc_DNS vpnconf)));
          dns6 = collect (\<lambda>a. AddrFromSlice (slice_list a))
            (slice_list (vc_DNS_ServersIPv6 (vc_DNS vpnconf)))
      in case deref_all (vc_Split_ExcludeIPv4 (vc_Split vpnconf)) of None \<Rightarrow> None
      | Some nets4 \<Rightarrow> (case deref_all (vc_Split_ExcludeIPv6 (vc_Split vpnconf)) of None \<Rightarrow> None
      | Some nets6 \<Rightarrow> Some
          \<lparr>vpn_Gateway = gateway,
           vpn_PID = vc_PID vpnconf,
           vpn_Timeout = vc_Timeout vpnconf,
           vpn_Device = \<lparr>vd_Name = vc_Device_Name (vc_Device vpnconf),
             vd_MTU = vc_Device_MTU (vc_Device vpnconf)\<rparr>,
           vpn_IPv4 = pre4,
           vpn_IPv6 = pre6,
           vpn_DNS = \<lparr>vn_DefaultDomain = vc_DNS_DefaultDomain (vc_DNS vpnconf),
             vn_ServersIPv4 = dns4, vn_ServersIPv6 = dns6\<rparr>,
           vpn_Split = \<lparr>vs_ExcludeIPv4 = collect IPNet_prefix4 nets4,
             vs_ExcludeIPv6 = collect IPNet_prefix6 nets6,
             vs_ExcludeDNS = vc_Split_ExcludeDNS (vc_Split vpnconf),
             vs_ExcludeVirtualSubnetsOnlyIPv4 =
               vc_Split_ExcludeVirtualSubnetsOnlyIPv4 (vc_Split vpnconf)\<rparr>,
           vpn_Flags = \<lparr>vf_DisableAlwaysOnVPN = vc_Flags_DisableAlwaysOnVPN (vc_Flags vpnconf)\<rparr>\<rparr>))"

section \<open>The whole configuration\<close>

record 't Config =
  cfg_Config :: string
  cfg_Verbose :: bool
  cfg_SocketServer :: "SocketServer option"
  cfg_CPD :: "CPDConfig option"
  cfg_DNSProxy :: "DNSProxyConfig option"
  cfg_OpenConnect :: "OpenConnect option"
  cfg_Executables :: "Executables option"
  cfg_SplitRouting :: "SplitRoutingConfig option"
  cfg_TrafficPolicing :: "TrafficPolicing option"
  cfg_TND :: "'t option"
  cfg_CommandLists :: "CommandListsConfig option"
  cfg_LoginInfo :: "LoginInfo option"
  cfg_VPNConfig :: "VPNConfig option"

text \<open>\<^verbatim>\<open>Copy\<close> of the trusted network detection's configuration is the argument.\<close>

definition Config_Copy :: "('t option \<Rightarrow> 't option) \<Rightarrow> 't Config \<Rightarrow> 't Config option" where
  "Config_Copy tnd_Copy c =
     (case SocketServer_Copy (cfg_SocketServer c) of None \<Rightarrow> None | Some ss \<Rightarrow>
      case CPDConfig_Copy (cfg_CPD c) of None \<Rightarrow> None | Some cpd \<Rightarrow>
      case DNSProxyConfig_Copy (cfg_DNSProxy c) of None \<Rightarrow> None | Some dp \<Rightarrow>
      case OpenConnect_Copy (cfg_OpenConnect c) of None \<Rightarrow> None | Some oc \<Rightarrow>
      case Executables_Copy (cfg_Executables c) of None \<Rightarrow> None | Some exe \<Rightarrow>
      case SplitRoutingConfig_Copy (cfg_SplitRouting c) of None \<Rightarrow> None | Some sr \<Rightarrow>
      case TrafficPolicing_Copy (cfg_TrafficPolicing c) of None \<Rightarrow> None | Some tp \<Rightarrow>
      case CommandListsConfig_Copy (cfg_CommandLists c) of None \<Rightarrow> None | Some cl \<Rightarrow>
      Some \<lparr>cfg_Config = cfg_Config c,
        cfg_Verbose = cfg_Verbose c,
        cfg_SocketServer = Some ss,
        cfg_CPD = Some cpd,
        cfg_DNSProxy = Some dp,
        cfg_OpenConnect = Some oc,
        cfg_Executables = Some exe,
        cfg_SplitRouting = Some sr,
        cfg_TrafficPolicing = Some tp,
        cfg_TND = tnd_Copy (cfg_TND c),
        cfg_CommandLists = Some cl,
        cfg_LoginInfo = LoginInfo_Copy (cfg_LoginInfo c),
        cfg_VPNConfig = VPNConfig_Copy (cfg_VPNConfig c)\<rparr>)"

definition loginInfoEmpty :: "LoginInfo option \<Rightarrow> bool" where
  "loginInfoEmpty l \<longleftrightarrow> l = Some LoginInfo_zero"

definition Config_Valid :: "('t option \<Rightarrow> bool) \<Rightarrow> 't Config option \<Rightarrow> bool option" where
  "Config_Valid tnd_Valid p =
     (case p of None \<Rightarrow> Some False
      | Some c \<Rightarrow>
        (if \<not> SocketServer_Valid (cfg_SocketServer c) \<or>
            \<not> CPDConfig_Valid (cfg_CPD c) \<or>
            \<not> DNSProxyConfig_Valid (cfg_DNSProxy c) \<or>
            \<not> OpenConnect_Valid (cfg_OpenConnect c) \<or>
            \<not> Executables_Valid (cfg_Executables c) \<or>
            \<not> SplitRoutingConfig_Valid (cfg_SplitRouting c) \<or>
            \<not> TrafficPolicing_Valid (cfg_TrafficPolicing c) \<or>
            \<not> tnd_Valid (cfg_TND c) \<or>
            \<not> CommandListsConfig_Valid (cfg_CommandLists c) \<or>
            \<not> loginInfoEmpty (cfg_LoginInfo c) \<and> \<not> LoginInfo_Valid (cfg_LoginInfo c)
         then Some False
         else VPNConfig_Valid (cfg_VPNConfig c)))"

definition NewConfig :: "'t \<Rightarrow> 't Config" where
  "NewConfig tnd_NewConfig =
     \<lparr>cfg_Config = ConfigFile,
      cfg_Verbose = False,
      cfg_SocketServer = Some NewSocketServer,
      cfg_CPD = Some NewCPDConfig,
      cfg_DNSProxy = Some NewDNSProxyConfig,
      cfg_OpenConnect = Some NewOpenConnect,
      cfg_Executables = Some NewExecutables,
      cfg_SplitRouting = Some NewSplitRoutingConfig,
      cfg_TrafficPolicing = Some NewTrafficPolicing,
      cfg_TND = Some tnd_NewConfig,
      cfg_CommandLists = Some NewCommandListsConfig,
      cfg_LoginInfo = Some LoginInfo_zero,
      cfg_VPNConfig = Some VPNConfig_zero\<rparr>"

section \<open>Lemmas\<close>

lemma VPN_copies_id [simp]:
  "VPNDevice_Copy d = d" "VPNDNS_Copy n = n" "VPNSplit_Copy s = s" "VPNFlags_Copy f = f"
  by (simp_all add: VPNDevice_Copy_def VPNDNS_Copy_def VPNSplit_Copy_def VPNFlags_Copy_def)

lemma VPNConfig_Copy_id [simp]: "VPNConfig_Copy p = p"
  by (cases p) (simp_all add: VPNConfig_Copy_def)

lemma LoginInfo_Copy_id [simp]: "LoginInfo_Copy l = l"
  by (cases l) (simp_all add: LoginInfo_Copy_def)

lemma section_copies_id [simp]:
  "SocketServer_Copy a = a" "CPDConfig_Copy b = b" "DNSProxyConfig_Copy c = c"
  "OpenConnect_Copy d = d" "Executables_Copy e = e" "SplitRoutingConfig_Copy f = f"
  "TrafficPolicing_Copy g = g" "CommandListsConfig_Copy h = h"
  by (auto simp: SocketServer_Copy_def CPDConfig_Copy_def DNSProxyConfig_Copy_def
      OpenConnect_Copy_def Executables_Copy_def SplitRoutingConfig_Copy_def
      TrafficPolicing_Copy_def CommandListsConfig_Copy_def deref_copy_def split: option.splits)

lemma ParseUint_show [simp]:
  "2 \<le> b \<Longrightarrow> b \<le> 16 \<Longrightarrow> ParseUint (show_base b n) b w = (if int n < 2 ^ w then Some n else None)"
  by (simp add: ParseUint_def)

lemma perm_ok_octal: "perm_ok (show_base 8 n) \<longleftrightarrow> n \<le> 511"
  by (auto simp: perm_ok_def)

text \<open>Every section of a valid configuration is present, so the configuration can be copied.\<close>

lemma sections_nil_invalid [simp]:
  "\<not> SocketServer_Valid None" "\<not> CPDConfig_Valid None" "\<not> DNSProxyConfig_Valid None"
  "\<not> OpenConnect_Valid None" "\<not> Executables_Valid None" "\<not> SplitRoutingConfig_Valid None"
  "\<not> TrafficPolicing_Valid None" "\<not> CommandListsConfig_Valid None"
  by (simp_all add: SocketServer_Valid_def CPDConfig_Valid_def DNSProxyConfig_Valid_def
      OpenConnect_Valid_def Executables_Valid_def SplitRoutingConfig_Valid_def
      TrafficPolicing_Valid_def CommandListsConfig_Valid_def)

lemma Config_Valid_sections:
  assumes "Config_Valid tv (Some c) = Some True"
  shows "SocketServer_Valid (cfg_SocketServer c)" "CPDConfig_Valid (cfg_CPD c)"
    "DNSProxyConfig_Valid (cfg_DNSProxy c)" "OpenConnect_Valid (cfg_OpenConnect c)"
    "Executables_Valid (cfg_Executables c)" "SplitRoutingConfig_Valid (cfg_SplitRouting c)"
    "TrafficPolicing_Valid (cfg_TrafficPolicing c)" "CommandListsConfig_Valid (cfg_CommandLists c)"
    "VPNConfig_Valid (cfg_VPNConfig c) = Some True"
  using assms by (auto simp: Config_Valid_def split: if_splits)

lemma Config_Copy_present:
  assumes "cfg_SocketServer c \<noteq> None" "cfg_CPD c \<noteq> None" "cfg_DNSProxy c \<noteq> None"
    "cfg_OpenConnect c \<noteq> None" "cfg_Executables c \<noteq> None" "cfg_SplitRouting c \<noteq> None"
    "cfg_TrafficPolicing c \<noteq> None" "cfg_CommandLists c \<noteq> None"
    and "tnd_Copy (cfg_TND c) = cfg_TND c"
  shows "Config_Copy tnd_Copy c = Some c"
  using assms by (auto simp: Config_Copy_def)

lemma collect_snoc:
  "foldl (\<lambda>acc x. case f x of None \<Rightarrow> acc | Some y \<Rightarrow> slice_append acc [y]) acc xs =
     slice_append acc (List.map_filter f xs)"
  by (induction xs arbitrary: acc)
    (auto simp: slice_append_def List.map_filter_def split: option.splits)

lemma collect_list: "slice_list (collect f xs) = List.map_filter f xs"
  by (simp add: collect_def collect_snoc slice_append_def)

lemma To4_length: "length (To4 bs) = 4 \<or> To4 bs = []"
  by (auto simp: To4_def)

lemma AddrFromSlice_To4: "AddrFromSlice (To4 bs) = Some a \<Longrightarrow> addr_Is4 a"
  using To4_length [of bs] by (auto simp: AddrFromSlice_def)

lemma AddrFromSlice_valid: "AddrFromSlice bs = Some a \<Longrightarrow> a \<noteq> AddrZero \<and> addr_zone a = ''''"
  by (auto simp: AddrFromSlice_def split: if_splits)

lemma Unmap_valid: "a \<noteq> AddrZero \<Longrightarrow> Unmap a \<noteq> AddrZero"
  by (cases a) auto

lemma IPNet_prefix4_Is4: "IPNet_prefix4 n = Some p \<Longrightarrow> prefix_wf p \<and> addr_Is4 (prefix_Addr p)"
  by (auto simp: IPNet_prefix4_def PrefixFrom_wf split: option.splits dest!: AddrFromSlice_To4)
    (auto simp: PrefixFrom_def elim!: addr_Is4.elims)

lemma IPNet_prefix6_wf: "IPNet_prefix6 n = Some p \<Longrightarrow> prefix_wf p"
  by (auto simp: IPNet_prefix6_def PrefixFrom_wf split: option.splits)

text \<open>What the rest of the program relies on of a converted configuration.\<close>

definition VPNConfig_wf :: "VPNConfig \<Rightarrow> bool" where
  "VPNConfig_wf c \<longleftrightarrow>
     addr_zone (vpn_Gateway c) = '''' \<and> prefix_wf (vpn_IPv4 c) \<and> prefix_wf (vpn_IPv6 c) \<and>
     (\<forall>p \<in> set (slice_list (vs_ExcludeIPv4 (vpn_Split c))). prefix_wf p \<and> addr_Is4 (prefix_Addr p)) \<and>
     (\<forall>p \<in> set (slice_list (vs_ExcludeIPv6 (vpn_Split c))). prefix_wf p)"


lemma Unmap_zone: "addr_zone a = '''' \<Longrightarrow> addr_zone (Unmap a) = ''''"
  by (cases a) auto

lemma map_filter_mem: "y \<in> set (List.map_filter f xs) \<longleftrightarrow> (\<exists>x \<in> set xs. f x = Some y)"
  by (force simp: List.map_filter_def)

lemma GetVPNConfig_total: "(\<exists>c. GetVPNConfig v = Some c) \<longleftrightarrow> vc_no_nil v"
  by (auto simp: GetVPNConfig_def Let_def vc_no_nil_def deref_all_None_iff [symmetric]
      split: option.splits)

lemma GetVPNConfig_wf:
  assumes "GetVPNConfig v = Some c"
  shows "VPNConfig_wf c"
proof -
  obtain n4 n6 where
    n: "deref_all (vc_Split_ExcludeIPv4 (vc_Split v)) = Some n4"
       "deref_all (vc_Split_ExcludeIPv6 (vc_Split v)) = Some n6"
    using assms by (auto simp: GetVPNConfig_def Let_def split: option.splits)
  have "addr_zone (vpn_Gateway c) = ''''"
    using assms n
    by (auto simp: GetVPNConfig_def Let_def split: option.splits
        dest!: AddrFromSlice_valid intro!: Unmap_zone)
  moreover have "prefix_wf (vpn_IPv4 c)" "prefix_wf (vpn_IPv6 c)"
    using assms n by (auto simp: GetVPNConfig_def Let_def PrefixFrom_wf split: option.splits)
  moreover have
    "slice_list (vs_ExcludeIPv4 (vpn_Split c)) = List.map_filter IPNet_prefix4 n4"
    "slice_list (vs_ExcludeIPv6 (vpn_Split c)) = List.map_filter IPNet_prefix6 n6"
    using assms n by (auto simp: GetVPNConfig_def Let_def collect_list)
  ultimately show ?thesis
    by (auto simp: VPNConfig_wf_def map_filter_mem dest: IPNet_prefix4_Is4 IPNet_prefix6_wf)
qed

lemma byte_ones_le: "byte_ones b \<le> 8"
  using length_takeWhile_le [of "\<lambda>i. bit b i" "rev [0..<8]"] by (simp add: byte_ones_def)

lemma mask_ones_le: "mask_ones m = Some n \<Longrightarrow> n \<le> 8 * length m"
proof (induction m arbitrary: n)
  case (Cons b bs)
  then show ?case using byte_ones_le [of b] by (auto split: if_splits)
qed simp

lemma mask_Size_le: "mask_Size m \<le> 8 * length m"
  by (auto simp: mask_Size_def dest: mask_ones_le split: option.splits)

lemma AddrFromSlice_4: "length bs = 4 \<Longrightarrow> \<exists>w. AddrFromSlice bs = Some (IP4 w)"
  by (simp add: AddrFromSlice_def)

lemma AddrFromSlice_16: "length bs = 16 \<Longrightarrow> \<exists>w. AddrFromSlice bs = Some (IP6 w '''')"
  by (simp add: AddrFromSlice_def)

lemma PrefixFrom_valid:
  "a \<noteq> AddrZero \<Longrightarrow> n \<le> BitLen a \<Longrightarrow> prefix_IsValid (PrefixFrom a (int n))"
  by (simp add: prefix_IsValid_def PrefixFrom_def)

text \<open>
  The addresses of a configuration are IPv4 or IPv6 addresses where the code expects them: what
  the script's parser of openconnect's environment produces.
\<close>

definition vc_addrs_ok :: "vc_Config \<Rightarrow> bool" where
  "vc_addrs_ok v \<longleftrightarrow>
     (length (slice_list (vc_Gateway v)) = 4 \<or> length (slice_list (vc_Gateway v)) = 16) \<and>
     (slice_len (vc_Address_Address (vc_IPv4 v)) \<noteq> 0 \<longrightarrow>
        length (To4 (slice_list (vc_Address_Address (vc_IPv4 v)))) = 4 \<and>
        slice_len (vc_Address_Netmask (vc_IPv4 v)) \<le> 4) \<and>
     (slice_len (vc_Address_Address (vc_IPv6 v)) \<noteq> 0 \<longrightarrow>
        slice_len (vc_Address_Address (vc_IPv6 v)) = 16 \<and>
        slice_len (vc_Address_Netmask (vc_IPv6 v)) \<le> 16) \<and>
     (\<forall>s \<in> set (slice_list (vc_DNS_ServersIPv4 (vc_DNS v))). length (To4 (slice_list s)) = 4) \<and>
     (\<forall>s \<in> set (slice_list (vc_DNS_ServersIPv6 (vc_DNS v))). slice_len s = 16)"

lemma collect_total:
  assumes "\<forall>x \<in> set xs. \<exists>y. f x = Some y"
  shows "length (slice_list (collect f xs)) = length xs"
  unfolding collect_list using assms
  by (induction xs) (auto simp: List.map_filter_def)

lemma GetVPNConfig_fields:
  assumes "GetVPNConfig v = Some c"
  shows "vpn_Gateway c = (case AddrFromSlice (slice_list (vc_Gateway v)) of
      Some g \<Rightarrow> Unmap g | None \<Rightarrow> AddrZero)"
    and "vpn_IPv4 c = (case AddrFromSlice (To4 (slice_list (vc_Address_Address (vc_IPv4 v)))) of
      Some a \<Rightarrow> PrefixFrom a (int (mask_Size (slice_list (vc_Address_Netmask (vc_IPv4 v)))))
    | None \<Rightarrow> PrefixZero)"
    and "vpn_IPv6 c = (case AddrFromSlice (slice_list (vc_Address_Address (vc_IPv6 v))) of
      Some a \<Rightarrow> PrefixFrom a (int (mask_Size (slice_list (vc_Address_Netmask (vc_IPv6 v)))))
    | None \<Rightarrow> PrefixZero)"
    and "vn_ServersIPv4 (vpn_DNS c) = collect (\<lambda>a. AddrFromSlice (To4 (slice_list a)))
      (slice_list (vc_DNS_ServersIPv4 (vc_DNS v)))"
    and "vn_ServersIPv6 (vpn_DNS c) = collect (\<lambda>a. AddrFromSlice (slice_list a))
      (slice_list (vc_DNS_ServersIPv6 (vc_DNS v)))"
    and "vpn_Device c = \<lparr>vd_Name = vc_Device_Name (vc_Device v), vd_MTU = vc_Device_MTU (vc_Device v)\<rparr>"
proof -
  obtain n4 n6 where
    "deref_all (vc_Split_ExcludeIPv4 (vc_Split v)) = Some n4"
    "deref_all (vc_Split_ExcludeIPv6 (vc_Split v)) = Some n6"
    using assms GetVPNConfig_total [of v] deref_all_Some unfolding vc_no_nil_def by blast
  note n = this
  have "the (GetVPNConfig v) = c" using assms by simp
  note c = this [unfolded GetVPNConfig_def Let_def n option.case option.sel, symmetric]
  show "vpn_Gateway c = (case AddrFromSlice (slice_list (vc_Gateway v)) of
      Some g \<Rightarrow> Unmap g | None \<Rightarrow> AddrZero)"
    "vpn_IPv4 c = (case AddrFromSlice (To4 (slice_list (vc_Address_Address (vc_IPv4 v)))) of
      Some a \<Rightarrow> PrefixFrom a (int (mask_Size (slice_list (vc_Address_Netmask (vc_IPv4 v)))))
    | None \<Rightarrow> PrefixZero)"
    "vpn_IPv6 c = (case AddrFromSlice (slice_list (vc_Address_Address (vc_IPv6 v))) of
      Some a \<Rightarrow> PrefixFrom a (int (mask_Size (slice_list (vc_Address_Netmask (vc_IPv6 v)))))
    | None \<Rightarrow> PrefixZero)"
    "vn_ServersIPv4 (vpn_DNS c) = collect (\<lambda>a. AddrFromSlice (To4 (slice_list a)))
      (slice_list (vc_DNS_ServersIPv4 (vc_DNS v)))"
    "vn_ServersIPv6 (vpn_DNS c) = collect (\<lambda>a. AddrFromSlice (slice_list a))
      (slice_list (vc_DNS_ServersIPv6 (vc_DNS v)))"
    "vpn_Device c = \<lparr>vd_Name = vc_Device_Name (vc_Device v), vd_MTU = vc_Device_MTU (vc_Device v)\<rparr>"
    unfolding c by (simp_all only: VPNConfig.select_convs VPNDNS.select_convs)
qed

lemma GetVPNConfig_prefixes:
  assumes ok: "vc_addrs_ok v" and c: "GetVPNConfig v = Some c"
  shows "slice_len (vc_Address_Address (vc_IPv4 v)) \<noteq> 0 \<Longrightarrow> prefix_IsValid (vpn_IPv4 c)"
    and "slice_len (vc_Address_Address (vc_IPv6 v)) \<noteq> 0 \<Longrightarrow> prefix_IsValid (vpn_IPv6 c)"
proof -
  let ?m4 = "slice_list (vc_Address_Netmask (vc_IPv4 v))"
  let ?m6 = "slice_list (vc_Address_Netmask (vc_IPv6 v))"
  show "prefix_IsValid (vpn_IPv4 c)" if "slice_len (vc_Address_Address (vc_IPv4 v)) \<noteq> 0"
  proof -
    have "length (To4 (slice_list (vc_Address_Address (vc_IPv4 v)))) = 4"
      using that ok by (simp add: vc_addrs_ok_def)
    then obtain w where w: "AddrFromSlice (To4 (slice_list (vc_Address_Address (vc_IPv4 v)))) = Some (IP4 w)"
      using AddrFromSlice_4 by blast
    have "mask_Size ?m4 \<le> 32"
      using that ok mask_Size_le [of ?m4] by (simp add: vc_addrs_ok_def slice_len_def)
    then show ?thesis
      unfolding GetVPNConfig_fields(2) [OF c] w by (simp add: PrefixFrom_valid)
  qed
  show "prefix_IsValid (vpn_IPv6 c)" if "slice_len (vc_Address_Address (vc_IPv6 v)) \<noteq> 0"
  proof -
    have "length (slice_list (vc_Address_Address (vc_IPv6 v))) = 16"
      using that ok by (simp add: vc_addrs_ok_def slice_len_def)
    then obtain w where w: "AddrFromSlice (slice_list (vc_Address_Address (vc_IPv6 v))) = Some (IP6 w '''')"
      using AddrFromSlice_16 by blast
    have "mask_Size ?m6 \<le> 128"
      using that ok mask_Size_le [of ?m6] by (simp add: vc_addrs_ok_def slice_len_def)
    then show ?thesis
      unfolding GetVPNConfig_fields(3) [OF c] w by (simp add: PrefixFrom_valid)
  qed
qed

lemma GetVPNConfig_gateway:
  assumes "vc_addrs_ok v" "GetVPNConfig v = Some c"
  shows "addr_IsValid (vpn_Gateway c)"
proof -
  obtain g where "AddrFromSlice (slice_list (vc_Gateway v)) = Some g"
    using assms(1) AddrFromSlice_4 AddrFromSlice_16 unfolding vc_addrs_ok_def by blast
  moreover from this have "Unmap g \<noteq> AddrZero" using AddrFromSlice_valid Unmap_valid by blast
  ultimately show ?thesis by (simp add: GetVPNConfig_fields(1) [OF assms(2)] addr_IsValid_def)
qed

lemma GetVPNConfig_servers:
  assumes "vc_addrs_ok v" "GetVPNConfig v = Some c"
  shows "slice_len (vn_ServersIPv4 (vpn_DNS c)) = slice_len (vc_DNS_ServersIPv4 (vc_DNS v))"
    and "slice_len (vn_ServersIPv6 (vpn_DNS c)) = slice_len (vc_DNS_ServersIPv6 (vc_DNS v))"
proof -
  have "\<forall>s \<in> set (slice_list (vc_DNS_ServersIPv4 (vc_DNS v))).
      \<exists>y. AddrFromSlice (To4 (slice_list s)) = Some y"
    using assms(1) AddrFromSlice_4 unfolding vc_addrs_ok_def by blast
  from collect_total [OF this]
  show "slice_len (vn_ServersIPv4 (vpn_DNS c)) = slice_len (vc_DNS_ServersIPv4 (vc_DNS v))"
    by (simp add: GetVPNConfig_fields(4) [OF assms(2)] slice_len_def)
  have "\<forall>s \<in> set (slice_list (vc_DNS_ServersIPv6 (vc_DNS v))).
      \<exists>y. AddrFromSlice (slice_list s) = Some y"
    using assms(1) AddrFromSlice_16 unfolding vc_addrs_ok_def slice_len_def by blast
  from collect_total [OF this]
  show "slice_len (vn_ServersIPv6 (vpn_DNS c)) = slice_len (vc_DNS_ServersIPv6 (vc_DNS v))"
    by (simp add: GetVPNConfig_fields(5) [OF assms(2)] slice_len_def)
qed

lemma NewConfig_sections:
  "SocketServer_Valid (Some NewSocketServer)" "CPDConfig_Valid (Some NewCPDConfig)"
  "DNSProxyConfig_Valid (Some NewDNSProxyConfig)" "OpenConnect_Valid (Some NewOpenConnect)"
  "Executables_Valid (Some NewExecutables)" "TrafficPolicing_Valid (Some NewTrafficPolicing)"
  "CommandListsConfig_Valid (Some NewCommandListsConfig)"
  by code_simp+

lemma NewConfig_split_routing: "SplitRoutingConfig_Valid (Some NewSplitRoutingConfig)"
  by (simp add: SplitRoutingConfig_Valid_def NewSplitRoutingConfig_def SplitRoutingRoutingTable_def
      SplitRoutingRulePriority1_def SplitRoutingRulePriority2_def SplitRoutingFirewallMark_def
      ParseUint_def read_base_def read_digit_def char_digit_def Let_def)

text \<open>The default configuration is valid, and the check does not dereference a nil pointer.\<close>

lemma NewConfig_Config_Valid:
  "tnd_Valid (Some t) \<Longrightarrow> Config_Valid tnd_Valid (Some (NewConfig t)) = Some True"
  by (simp add: Config_Valid_def NewConfig_def loginInfoEmpty_def VPNConfig_Valid_def
        VPNConfig_Empty_def NewConfig_sections NewConfig_split_routing)

section \<open>Properties\<close>

text \<open>
  A configuration that passed validation can be copied without dereferencing a nil pointer,
  and the copy equals the original in every field, nil and empty slices kept apart, when the
  copy of trusted network detection's configuration does.
\<close>

lemma Config_Valid_Copy:
  assumes "Config_Valid tnd_Valid (Some c) = Some True" "tnd_Copy (cfg_TND c) = cfg_TND c"
  shows "Config_Copy tnd_Copy c = Some c"
proof (rule Config_Copy_present)
  note v = Config_Valid_sections [OF assms(1)]
  show "cfg_SocketServer c \<noteq> None" "cfg_CPD c \<noteq> None" "cfg_DNSProxy c \<noteq> None"
    "cfg_OpenConnect c \<noteq> None" "cfg_Executables c \<noteq> None" "cfg_SplitRouting c \<noteq> None"
    "cfg_TrafficPolicing c \<noteq> None" "cfg_CommandLists c \<noteq> None"
    using v sections_nil_invalid by metis+
qed (rule assms(2))

text \<open>
  Split routing settings written as decimal numbers are valid exactly when the routing table
  is neither 0 nor the largest 32-bit value, both rule priorities are positive, below the main
  rule's 32766 and in increasing order, and the firewall mark fits 32 bits.
\<close>

lemma SplitRoutingConfig_Valid_iff:
  "SplitRoutingConfig_Valid (Some \<lparr>sr_RoutingTable = show_dec t, sr_RulePriority1 = show_dec p1,
      sr_RulePriority2 = show_dec p2, sr_FirewallMark = show_dec m\<rparr>) \<longleftrightarrow>
     0 < t \<and> t < 0xFFFFFFFF \<and> 0 < p1 \<and> p1 < p2 \<and> p2 < 32766 \<and> m < 2 ^ 32"
  by (auto simp: SplitRoutingConfig_Valid_def)


text \<open>
  A valid configuration from the script whose addresses are IPv4 and IPv6 addresses stays
  valid when it is converted into the daemon's form.
\<close>

lemma GetVPNConfig_Valid:
  assumes "vc_Valid v" "v \<noteq> vc_New" "vc_addrs_ok v" "GetVPNConfig v = Some c"
  shows "VPNConfig_Valid (Some c) = Some True"
  using assms(1,2) GetVPNConfig_gateway [OF assms(3,4)] GetVPNConfig_prefixes [OF assms(3,4)]
    GetVPNConfig_servers [OF assms(3,4)] GetVPNConfig_fields(6) [OF assms(4)]
  by (auto simp: vc_Valid_def VPNConfig_Valid_def vc_Empty_def vc_Equal_def)

definition example_vc :: vc_Config where
  "example_vc = vc_New
     \<lparr>vc_Gateway := Some [192, 0, 2, 1],
      vc_Device := \<lparr>vc_Device_Name = ''oc-daemon-tun0'', vc_Device_MTU = 1300\<rparr>,
      vc_IPv4 := \<lparr>vc_Address_Address = Some [10, 0, 0, 5], vc_Address_Netmask = Some [255, 255, 255, 0]\<rparr>,
      vc_DNS := \<lparr>vc_DNS_DefaultDomain = ''example.com'',
        vc_DNS_ServersIPv4 = Some [Some [10, 0, 0, 53]], vc_DNS_ServersIPv6 = None\<rparr>,
      vc_Split := \<lparr>vc_Split_ExcludeIPv4 =
          Some [Some \<lparr>IPNet_IP = Some [10, 1, 0, 0], IPNet_Mask = Some [255, 255, 0, 0]\<rparr>],
        vc_Split_ExcludeIPv6 = None, vc_Split_ExcludeDNS = Some [''example.org''],
        vc_Split_ExcludeVirtualSubnetsOnlyIPv4 = False\<rparr>\<rparr>"

end
