(* ===== verification/CPD.thy ===== *)
theory CPD
  imports Coalesce DaemonCfg
begin

text \<open>
  Captive portal detection (\<^verbatim>\<open>internal/cpd/cpd.go\<close>): one probe checks an HTTP server a number
  of times, the main loop runs at most one probe at a time, remembers requests that arrive
  meanwhile, and repeats probes with a timer. The answers of the HTTP client are arguments.
\<close>

section \<open>Probes\<close>

record cpd_Report =
  cr_Detected :: bool
  cr_Host :: string

definition cpd_Report_zero :: cpd_Report where
  "cpd_Report_zero = \<lparr>cr_Detected = False, cr_Host = ''''\<rparr>"

text \<open>
  What the HTTP client answers: an error of the request or while reading the body, or a status
  code with the host name of the location header, if it can be read.
\<close>

datatype http_result = GetError | ReadError | Response int "string option"

definition check :: "http_result \<Rightarrow> cpd_Report" where
  "check res =
     (case res of
        GetError \<Rightarrow> cpd_Report_zero
      | ReadError \<Rightarrow> cpd_Report_zero
      | Response code location \<Rightarrow>
          if code = 204 then cpd_Report_zero
          else if code = 302 then
            \<lparr>cr_Detected = True, cr_Host = (case location of None \<Rightarrow> '''' | Some h \<Rightarrow> h)\<rparr>
          else \<lparr>cr_Detected = True, cr_Host = ''''\<rparr>)"

text \<open>The loop of a probe from check \<open>i\<close> on, with the report of the check before.\<close>

function probe_loop :: "int \<Rightarrow> (int \<Rightarrow> http_result) \<Rightarrow> int \<Rightarrow> cpd_Report \<Rightarrow> cpd_Report" where
  "probe_loop count answer i r =
     (if i < count then
        (let r = check (answer i) in
         if cr_Detected r then r else probe_loop count answer (i + 1) r)
      else r)"
  by pat_completeness auto
termination
  by (relation "measure (\<lambda>(count, _, i, _). nat (count - i))") auto

declare probe_loop.simps [simp del]

definition probe :: "CPDConfig \<Rightarrow> (int \<Rightarrow> http_result) \<Rightarrow> cpd_Report" where
  "probe config answer = probe_loop (cpd_ProbeCount config) answer 0 cpd_Report_zero"

section \<open>Main loop\<close>

text \<open>
  The state of the loop: the flags of the code, the report that \<^verbatim>\<open>handleProbeReport\<close> is
  sending, the duration the timer was last set to, the number of probes that run
  and, for the laws, of those started so far.
\<close>

record CPD =
  cpd_config :: CPDConfig
  cpd_detected :: bool
  cpd_running :: bool
  cpd_runAgain :: bool
  cpd_sending :: "cpd_Report option"
  cpd_timer :: duration
  cpd_probes :: nat
  cpd_started :: nat
  cpd_life :: life

definition NewCPD :: "CPDConfig \<Rightarrow> CPD" where
  "NewCPD config =
     \<lparr>cpd_config = config, cpd_detected = False, cpd_running = False, cpd_runAgain = False,
      cpd_sending = None, cpd_timer = 0, cpd_probes = 0, cpd_started = 0, cpd_life = NotStarted\<rparr>"

definition CPD_Start :: "CPD \<Rightarrow> CPD" where
  "CPD_Start c = c\<lparr>cpd_life := Running, cpd_timer := cpd_ProbeTimer (cpd_config c)\<rparr>"

definition CPD_Stop :: "CPD \<Rightarrow> CPD outcome" where
  "CPD_Stop c =
     (case life_Stop (cpd_life c) of Returns l \<Rightarrow> Returns (c\<lparr>cpd_life := l, cpd_sending := None\<rparr>)
      | Panics \<Rightarrow> Panics | Blocks \<Rightarrow> Blocks)"

definition CPD_Hosts :: "CPD \<Rightarrow> string list" where
  "CPD_Hosts c = [cpd_Host (cpd_config c)]"

definition go_probe :: "CPD \<Rightarrow> CPD" where
  "go_probe c = c\<lparr>cpd_probes := Suc (cpd_probes c), cpd_started := Suc (cpd_started c)\<rparr>"

definition handleProbeRequest :: "CPD \<Rightarrow> CPD" where
  "handleProbeRequest c =
     (if cpd_running c then c\<lparr>cpd_runAgain := True\<rparr>
      else go_probe (c\<lparr>cpd_running := True\<rparr>))"

text \<open>The branches of \<^verbatim>\<open>handleProbeReport\<close>: entered with a report, a request meanwhile, the report sent.\<close>

definition handleProbeReport_enter :: "cpd_Report \<Rightarrow> CPD \<Rightarrow> CPD" where
  "handleProbeReport_enter r c = c\<lparr>cpd_sending := Some r\<rparr>"

definition handleProbeReport_request :: "CPD \<Rightarrow> CPD" where
  "handleProbeReport_request c = c\<lparr>cpd_runAgain := True\<rparr>"

definition handleProbeReport_sent :: "cpd_Report \<Rightarrow> CPD \<Rightarrow> CPD" where
  "handleProbeReport_sent r c =
     (let c = c\<lparr>cpd_running := False\<rparr>;
          c = (if cpd_runAgain c
               then go_probe (c\<lparr>cpd_runAgain := False, cpd_running := True\<rparr>) else c)
      in c\<lparr>cpd_detected := cr_Detected r, cpd_sending := None\<rparr>)"

definition CPD_handleTimer :: "CPD \<Rightarrow> CPD" where
  "CPD_handleTimer c =
     (let c = (if \<not> cpd_running c \<and> \<not> cpd_runAgain c
               then go_probe (c\<lparr>cpd_running := True\<rparr>) else c)
      in c\<lparr>cpd_timer := (if cpd_detected c then cpd_ProbeTimerDetected (cpd_config c)
                         else cpd_ProbeTimer (cpd_config c))\<rparr>)"

text \<open>
  A probe ends by handing its report to the loop. The label of a step is the request of
  \<^verbatim>\<open>Probe\<close>, the report handed over, the report sent to the reader of \<^verbatim>\<open>Results\<close>, or the
  timer.
\<close>

datatype cpd_event = ProbeRequest | ProbeReport cpd_Report | ResultSent cpd_Report | CPDTimer

inductive cpd_step :: "CPD \<Rightarrow> cpd_event \<Rightarrow> CPD \<Rightarrow> bool" where
  request: "cpd_life c = Running \<Longrightarrow> cpd_sending c = None \<Longrightarrow>
    cpd_step c ProbeRequest (handleProbeRequest c)"
| request_sending: "cpd_life c = Running \<Longrightarrow> cpd_sending c = Some r \<Longrightarrow>
    cpd_step c ProbeRequest (handleProbeReport_request c)"
| report: "cpd_life c = Running \<Longrightarrow> cpd_sending c = None \<Longrightarrow> 0 < cpd_probes c \<Longrightarrow>
    r = probe (cpd_config c) answer \<Longrightarrow>
    cpd_step c (ProbeReport r) (handleProbeReport_enter r (c\<lparr>cpd_probes := cpd_probes c - 1\<rparr>))"
| sent: "cpd_life c = Running \<Longrightarrow> cpd_sending c = Some r \<Longrightarrow>
    cpd_step c (ResultSent r) (handleProbeReport_sent r c)"
| timer: "cpd_life c = Running \<Longrightarrow> cpd_sending c = None \<Longrightarrow>
    cpd_step c CPDTimer (CPD_handleTimer c)"

inductive_cases cpd_stepE: "cpd_step c e c'"

definition cpd_init :: "CPD \<Rightarrow> bool" where
  "cpd_init c \<longleftrightarrow> (\<exists>config. c = CPD_Start (NewCPD config))"

text \<open>The jobs in progress: running probes and the report being sent.\<close>

definition cpd_jobs :: "CPD \<Rightarrow> nat" where
  "cpd_jobs c = cpd_probes c + (case cpd_sending c of None \<Rightarrow> 0 | Some _ \<Rightarrow> 1)"

section \<open>Lemmas\<close>

lemmas cpd_defs = handleProbeRequest_def handleProbeReport_enter_def handleProbeReport_request_def
  handleProbeReport_sent_def CPD_handleTimer_def go_probe_def Let_def

lemma probe_loop_detected:
  assumes "\<not> cr_Detected r"
  shows "cr_Detected (probe_loop n answer i r) \<longleftrightarrow> (\<exists>j. i \<le> j \<and> j < n \<and> cr_Detected (check (answer j)))"
  using assms
proof (induction n answer i r rule: probe_loop.induct)
  case (1 n answer i r)
  show ?case
  proof (cases "i < n \<and> \<not> cr_Detected (check (answer i))")
    case True
    then have "cr_Detected (probe_loop n answer i r) \<longleftrightarrow>
        (\<exists>j. i + 1 \<le> j \<and> j < n \<and> cr_Detected (check (answer j)))"
      using 1 by (subst probe_loop.simps) (simp add: Let_def)
    also have "\<dots> \<longleftrightarrow> (\<exists>j. i \<le> j \<and> j < n \<and> cr_Detected (check (answer j)))"
      using True by (metis add1_zle_eq nless_le zle_add1_eq_le zless_add1_eq order.strict_iff_not)
    finally show ?thesis .
  next
    case False
    with "1.prems" show ?thesis by (subst probe_loop.simps) (auto simp: Let_def)
  qed
qed

lemma check_detected: "cr_Detected (check res) \<longleftrightarrow> (\<exists>code loc. res = Response code loc \<and> code \<noteq> 204)"
  by (cases res) (auto simp: check_def cpd_Report_zero_def)

interpretation cpd: coalescing cpd_init cpd_step "\<lambda>e. e = ProbeRequest"
  cpd_running cpd_runAgain cpd_jobs cpd_started
proof (unfold_locales, goal_cases)
  case (2 s e s')
  from 2(2,1) show ?case by cases (auto simp: cpd_jobs_def cpd_defs)
next
  case (3 s e s')
  then show ?case by (auto elim!: cpd_stepE simp: cpd_defs cpd_jobs_def)
next
  case (4 s e s')
  from 4 show ?case by (auto elim!: cpd_stepE simp: cpd_defs)
next
  case (5 s e s')
  then show ?case by cases (auto simp: cpd_defs)
next
  case (6 s e s')
  then show ?case by cases (auto simp: cpd_defs)
qed (auto simp: cpd_init_def CPD_Start_def NewCPD_def cpd_jobs_def)

section \<open>Properties\<close>

text \<open>
  A probe reports a captive portal exactly when one of its \<^verbatim>\<open>ProbeCount\<close> checks got a
  response with a status code other than 204; errors of the client are not a portal.
\<close>

lemma probe_detects:
  "cr_Detected (probe config answer) \<longleftrightarrow>
     (\<exists>i code loc. 0 \<le> i \<and> i < cpd_ProbeCount config \<and> answer i = Response code loc \<and> code \<noteq> 204)"
  by (auto simp: probe_def probe_loop_detected cpd_Report_zero_def check_detected)

text \<open>
  In every reachable state at most one probe is in progress, running or with its report being
  sent, and the running flag tells whether there is one.
\<close>

lemma cpd_one_probe:
  assumes "reach cpd_init cpd_step c"
  shows "cpd_jobs c \<le> 1 \<and> (cpd_running c \<longleftrightarrow> cpd_jobs c = 1)"
  using assms by (rule cpd.one_job)

definition cpd0 :: CPD where
  "cpd0 = CPD_Start (NewCPD NewCPDConfig)"

lemma cpd0_init: "cpd_init cpd0"
  by (auto simp: cpd_init_def cpd0_def)

lemma cpd0_step: "cpd_step cpd0 ProbeRequest (handleProbeRequest cpd0)"
  by (rule request) (simp_all add: cpd0_def CPD_Start_def NewCPD_def)

lemma cpd0_reach: "reach cpd_init cpd_step cpd0"
  using cpd0_init by auto

text \<open>
  C25: No request for a probe is lost: when the detection is idle again after a request, a probe
  that was started after the request has run.
\<close>

theorem cpd_no_lost_request:
  assumes "reach cpd_init cpd_step c" "cpd_step c ProbeRequest c1" "run cpd_step c1 es c2"
    "\<not> cpd_running c2"
  shows "cpd_started c < cpd_started c2"
  using cpd.no_lost_request [OF assms(2) _ assms(3,4,1)] by simp

definition cpd2 :: CPD where
  "cpd2 = handleProbeReport_sent cpd_Report_zero
     (handleProbeReport_enter cpd_Report_zero ((handleProbeRequest cpd0)\<lparr>cpd_probes := 0\<rparr>))"

lemma probe_errors: "probe NewCPDConfig (\<lambda>_. GetError) = cpd_Report_zero"
  by (simp add: probe_def NewCPDConfig_def CPDProbeCount_def probe_loop.simps check_def cpd_Report_zero_def)

theorem cpd_no_lost_request_witness: "cpd_started cpd0 < cpd_started cpd2"
proof (rule cpd_no_lost_request [OF cpd0_reach cpd0_step])
  let ?c1 = "handleProbeRequest cpd0"
  let ?c2 = "handleProbeReport_enter cpd_Report_zero (?c1\<lparr>cpd_probes := 0\<rparr>)"
  have "cpd_step ?c1 (ProbeReport cpd_Report_zero) (handleProbeReport_enter cpd_Report_zero (?c1\<lparr>cpd_probes := cpd_probes ?c1 - 1\<rparr>))"
    by (rule report [where answer = "\<lambda>_. GetError"])
      (simp_all add: cpd0_def CPD_Start_def NewCPD_def cpd_defs probe_errors)
  moreover have "cpd_step ?c2 (ResultSent cpd_Report_zero) cpd2"
    unfolding cpd2_def by (rule sent) (simp_all add: cpd0_def CPD_Start_def NewCPD_def cpd_defs)
  moreover have "cpd_probes ?c1 = 1" by (simp add: cpd0_def CPD_Start_def NewCPD_def cpd_defs)
  ultimately show "run cpd_step ?c1 [ProbeReport cpd_Report_zero, ResultSent cpd_Report_zero] cpd2"
    by auto
  show "\<not> cpd_running cpd2" by (simp add: cpd2_def cpd0_def CPD_Start_def NewCPD_def cpd_defs)
qed

end
