(* ===== verification/Resolver.thy ===== *)
theory Resolver
  imports Coalesce DaemonCfg
begin

text \<open>
  The resolver of the allowed host names (\<^verbatim>\<open>internal/trafpol/resolver.go\<close>). The results of the
  DNS lookups are arguments. The workers of one update resolve distinct names and
  each changes its own name only, so one update is modelled as a pass over the names; the order
  of the updates it sends is one of the possible ones.
\<close>

section \<open>Resolving one name\<close>

record ResolvedName =
  rn_Name :: string
  rn_IPs :: "addr list"
  rn_TTL :: duration

text \<open>A failed lookup says whether the error is a DNS error for a name that does not exist.\<close>

datatype lookup_error = NotFound | OtherError

type_synonym lookup = "lookup_error + addr list"

definition lookup_ips :: "lookup \<Rightarrow> addr list" where
  "lookup_ips l = (case l of Inl _ \<Rightarrow> [] | Inr ips \<Rightarrow> ips)"

text \<open>
  The tries of \<^verbatim>\<open>resolve\<close> from try \<open>i\<close> on, with the IPv4 and IPv6 lookups of every try. The
  second result is the update sent.
\<close>

function resolve_loop ::
  "TrafficPolicing \<Rightarrow> (int \<Rightarrow> lookup \<times> lookup) \<Rightarrow> int \<Rightarrow> ResolvedName \<Rightarrow> ResolvedName \<times> ResolvedName option" where
  "resolve_loop config lookups i r =
     (if i < tp_ResolveTries config then
        (case lookups i of
           (Inl e4, Inl e6) \<Rightarrow>
             if e4 = NotFound \<and> e6 = NotFound then (r\<lparr>rn_TTL := tp_ResolveTTL config\<rparr>, None)
             else resolve_loop config lookups (i + 1) r
         | (l4, l6) \<Rightarrow>
             (let r = r\<lparr>rn_TTL := tp_ResolveTTL config\<rparr>;
                  ips = sort_key addr_String (lookup_ips l4 @ lookup_ips l6)
              in if rn_IPs r = ips then (r, None)
                 else (let r = r\<lparr>rn_IPs := ips\<rparr> in (r, Some r))))
      else (r, None))"
  by pat_completeness auto
termination
  by (relation "measure (\<lambda>(config, _, i, _). nat (tp_ResolveTries config - i))") auto

declare resolve_loop.simps [simp del]

definition resolve ::
  "TrafficPolicing \<Rightarrow> (int \<Rightarrow> lookup \<times> lookup) \<Rightarrow> ResolvedName \<Rightarrow> ResolvedName \<times> ResolvedName option" where
  "resolve config lookups r = resolve_loop config lookups 0 r"

section \<open>Updating all names\<close>

record Resolver =
  res_config :: TrafficPolicing
  res_names :: "(string, ResolvedName) gomap"
  res_updating :: bool
  res_upAgain :: bool
  res_jobs :: nat
  res_started :: nat
  res_life :: life

definition NewResolver :: "TrafficPolicing \<Rightarrow> string list \<Rightarrow> Resolver" where
  "NewResolver config names =
     \<lparr>res_config = config,
      res_names = foldl (\<lambda>n name. gm_put name \<lparr>rn_Name = name, rn_IPs = [], rn_TTL = 0\<rparr> n) [] names,
      res_updating = False, res_upAgain = False, res_jobs = 0, res_started = 0, res_life = NotStarted\<rparr>"

text \<open>Whether an update resolves a name, and the ageing of a name it does not resolve.\<close>

definition due :: "TrafficPolicing \<Rightarrow> bool \<Rightarrow> ResolvedName \<Rightarrow> bool" where
  "due config force n \<longleftrightarrow> \<not> (\<not> force \<and> rn_TTL n > tp_ResolveTimer config)"

fun update_names ::
  "TrafficPolicing \<Rightarrow> bool \<Rightarrow> (string \<Rightarrow> int \<Rightarrow> lookup \<times> lookup) \<Rightarrow> (string, ResolvedName) gomap \<Rightarrow>
   (string, ResolvedName) gomap \<times> ResolvedName list" where
  "update_names config force lookups [] = ([], [])"
| "update_names config force lookups ((k, n) # r) =
     (let (r', ups) = update_names config force lookups r in
      if due config force n then
        (case resolve config (lookups (rn_Name n)) n of (n', up) \<Rightarrow>
           ((k, n') # r', (case up of None \<Rightarrow> ups | Some u \<Rightarrow> u # ups)))
      else ((k, n\<lparr>rn_TTL := rn_TTL n - tp_ResolveTimer config\<rparr>) # r', ups))"

definition Resolver_update ::
  "bool \<Rightarrow> (string \<Rightarrow> int \<Rightarrow> lookup \<times> lookup) \<Rightarrow> Resolver \<Rightarrow> Resolver \<times> ResolvedName list" where
  "Resolver_update force lookups r =
     (case update_names (res_config r) force lookups (res_names r) of
        (names, ups) \<Rightarrow> (r\<lparr>res_names := names\<rparr>, ups))"

text \<open>The number of workers of an update.\<close>

definition update_workers :: "nat \<Rightarrow> nat" where
  "update_workers n = n div 10 + 1"

section \<open>Main loop\<close>

definition go_update :: "Resolver \<Rightarrow> Resolver" where
  "go_update r = r\<lparr>res_jobs := Suc (res_jobs r), res_started := Suc (res_started r)\<rparr>"

definition handleResolve :: "Resolver \<Rightarrow> Resolver" where
  "handleResolve r =
     (if res_updating r then r\<lparr>res_upAgain := True\<rparr>
      else go_update (r\<lparr>res_updating := True\<rparr>))"

definition handleUpDone :: "Resolver \<Rightarrow> Resolver" where
  "handleUpDone r =
     (let r = r\<lparr>res_jobs := res_jobs r - 1\<rparr> in
      if res_upAgain r then go_update (r\<lparr>res_upAgain := False\<rparr>)
      else r\<lparr>res_updating := False\<rparr>)"

definition handleResolveTimer :: "Resolver \<Rightarrow> Resolver" where
  "handleResolveTimer r =
     (if res_updating r then r else go_update (r\<lparr>res_updating := True\<rparr>))"

datatype resolver_event = ResolveRequest | UpDone "ResolvedName list" | ResolveTimer

inductive resolver_step :: "Resolver \<Rightarrow> resolver_event \<Rightarrow> Resolver \<Rightarrow> bool" where
  res_request: "res_life r = Running \<Longrightarrow> resolver_step r ResolveRequest (handleResolve r)"
| res_done: "res_life r = Running \<Longrightarrow> 0 < res_jobs r \<Longrightarrow> Resolver_update force lookups r = (r', ups) \<Longrightarrow>
    resolver_step r (UpDone ups) (handleUpDone r')"
| res_timer: "res_life r = Running \<Longrightarrow> resolver_step r ResolveTimer (handleResolveTimer r)"

definition resolver_init :: "Resolver \<Rightarrow> bool" where
  "resolver_init r \<longleftrightarrow> (\<exists>config names. r = (NewResolver config names)\<lparr>res_life := Running\<rparr>)"

definition Resolver_Start :: "Resolver \<Rightarrow> Resolver" where
  "Resolver_Start r = r\<lparr>res_life := Running\<rparr>"

text \<open>Stopping cancels a running update and waits for it.\<close>

definition Resolver_Stop :: "Resolver \<Rightarrow> Resolver outcome" where
  "Resolver_Stop r =
     (case life_Stop (res_life r) of Returns l \<Rightarrow> Returns (r\<lparr>res_life := l, res_jobs := 0\<rparr>)
      | Panics \<Rightarrow> Panics | Blocks \<Rightarrow> Blocks)"

section \<open>Lemmas\<close>

lemmas resolver_defs = handleResolve_def handleUpDone_def handleResolveTimer_def go_update_def
  Resolver_update_def Let_def

interpretation res: coalescing resolver_init resolver_step "\<lambda>e. e = ResolveRequest"
  res_updating res_upAgain res_jobs res_started
proof (unfold_locales, goal_cases)
  case (2 s e s')
  from 2(2,1) show ?case by cases (auto simp: resolver_defs split: prod.splits)
next
  case (3 s e s')
  from 3(1) 3(2-) show ?case by cases (auto simp: resolver_defs)
next
  case (4 s e s')
  from 4(1) 4(2-) show ?case by cases (auto simp: resolver_defs)
next
  case (5 s e s')
  then show ?case by cases (auto simp: resolver_defs split: prod.splits)
next
  case (6 s e s')
  then show ?case by cases (auto simp: resolver_defs split: prod.splits)
qed (auto simp: resolver_init_def NewResolver_def)

lemma resolve_loop_sent:
  "resolve_loop config lookups i r = (r', Some u) \<Longrightarrow>
     u = r' \<and> rn_Name u = rn_Name r \<and> rn_TTL u = tp_ResolveTTL config \<and> rn_IPs u \<noteq> rn_IPs r \<and>
     sorted (map addr_String (rn_IPs u)) \<and>
     (\<exists>j \<ge> i. j < tp_ResolveTries config \<and>
        set (rn_IPs u) = set (lookup_ips (fst (lookups j))) \<union> set (lookup_ips (snd (lookups j))))"
proof (induction config lookups i r rule: resolve_loop.induct)
  case (1 config lookups i r)
  obtain l4 l6 where l: "lookups i = (l4, l6)" by (cases "lookups i")
  have lt: "i < tp_ResolveTries config" using 1(2) by (subst (asm) resolve_loop.simps) (auto split: if_splits)
  show ?case
  proof (cases "(\<exists>e4. l4 = Inl e4) \<and> (\<exists>e6. l6 = Inl e6)")
    case True
    then obtain e4 e6 where e: "l4 = Inl e4" "l6 = Inl e6" by blast
    have "\<not> (e4 = NotFound \<and> e6 = NotFound)"
      using 1(2) lt l e by (subst (asm) resolve_loop.simps) auto
    moreover from this have "resolve_loop config lookups (i + 1) r = (r', Some u)"
      using 1(2) lt l e by (subst (asm) resolve_loop.simps) auto
    ultimately have "u = r' \<and> rn_Name u = rn_Name r \<and> rn_TTL u = tp_ResolveTTL config \<and> rn_IPs u \<noteq> rn_IPs r \<and>
       sorted (map addr_String (rn_IPs u)) \<and>
       (\<exists>j \<ge> i + 1. j < tp_ResolveTries config \<and>
        set (rn_IPs u) = set (lookup_ips (fst (lookups j))) \<union> set (lookup_ips (snd (lookups j))))"
      using 1(1) [OF lt l [symmetric] e] by blast
    then obtain j where "u = r' \<and> rn_Name u = rn_Name r \<and> rn_TTL u = tp_ResolveTTL config \<and>
        rn_IPs u \<noteq> rn_IPs r \<and> sorted (map addr_String (rn_IPs u))"
      "i + 1 \<le> j" "j < tp_ResolveTries config"
      "set (rn_IPs u) = set (lookup_ips (fst (lookups j))) \<union> set (lookup_ips (snd (lookups j)))"
      by blast
    then show ?thesis by (auto intro!: exI [of _ j])
  next
    case False
    have eq: "resolve_loop config lookups i r =
       (let r = r\<lparr>rn_TTL := tp_ResolveTTL config\<rparr>;
            ips = sort_key addr_String (lookup_ips l4 @ lookup_ips l6)
        in if rn_IPs r = ips then (r, None) else (let r = r\<lparr>rn_IPs := ips\<rparr> in (r, Some r)))"
      using False lt l by (subst resolve_loop.simps) (cases l4; cases l6; simp)
    with 1(2) have "r' = r\<lparr>rn_TTL := tp_ResolveTTL config, rn_IPs := sort_key addr_String (lookup_ips l4 @ lookup_ips l6)\<rparr>"
      "u = r'" "rn_IPs r \<noteq> sort_key addr_String (lookup_ips l4 @ lookup_ips l6)"
      by (auto simp: Let_def split: if_splits)
    then show ?thesis using lt l by (auto intro!: exI [of _ i])
  qed
qed

lemma resolve_loop_silent:
  "resolve_loop config lookups i r = (r', None) \<Longrightarrow> rn_IPs r' = rn_IPs r \<and> rn_Name r' = rn_Name r"
proof (induction config lookups i r rule: resolve_loop.induct)
  case (1 config lookups i r)
  obtain l4 l6 where l: "lookups i = (l4, l6)" by (cases "lookups i")
  show ?case
  proof (cases "i < tp_ResolveTries config \<and> (\<exists>e4 e6. l4 = Inl e4 \<and> l6 = Inl e6 \<and> \<not> (e4 = NotFound \<and> e6 = NotFound))")
    case True
    then obtain e4 e6 where e: "i < tp_ResolveTries config" "l4 = Inl e4" "l6 = Inl e6"
      "\<not> (e4 = NotFound \<and> e6 = NotFound)" by blast
    from e have "resolve_loop config lookups (i + 1) r = (r', None)"
      using 1(2) l by (subst (asm) resolve_loop.simps) auto
    then show ?thesis using 1(1) [OF e(1) l [symmetric] e(2-4)] by blast
  next
    case False
    with 1(2) l show ?thesis
      by (subst (asm) resolve_loop.simps)
        (auto simp: Let_def split: if_splits sum.splits)
  qed
qed

lemma resolve_Name: "resolve config lookups r = (r', up) \<Longrightarrow> rn_Name r' = rn_Name r"
  using resolve_loop_sent resolve_loop_silent unfolding resolve_def by (cases up) fastforce+

text \<open>
  What a receiver of the updates knows: every name is stored under itself, and the receiver's
  map of addresses follows the names of the resolver.
\<close>

definition names_keyed :: "(string, ResolvedName) gomap \<Rightarrow> bool" where
  "names_keyed names \<longleftrightarrow> gm_wf names \<and> (\<forall>(k, n) \<in> set names. rn_Name n = k)"

definition apply_updates :: "ResolvedName list \<Rightarrow> (string \<Rightarrow> addr list) \<Rightarrow> string \<Rightarrow> addr list" where
  "apply_updates ups f = foldl (\<lambda>f u. f(rn_Name u := rn_IPs u)) f ups"

lemma apply_updates_other: "\<forall>u \<in> set ups. rn_Name u \<noteq> k \<Longrightarrow> apply_updates ups f k = f k"
  unfolding apply_updates_def by (induction ups arbitrary: f) auto

lemma update_names_keys:
  "update_names config force lookups names = (names', ups) \<Longrightarrow> names_keyed names \<Longrightarrow>
     map fst names' = map fst names \<and> names_keyed names' \<and> (\<forall>u \<in> set ups. rn_Name u \<in> fst ` set names)"
proof (induction names arbitrary: names' ups)
  case (Cons kn names)
  obtain k n where kn: "kn = (k, n)" by (cases kn)
  obtain r' us where r: "update_names config force lookups names = (r', us)" by (cases "update_names config force lookups names")
  have keyed: "names_keyed names" "rn_Name n = k" "k \<notin> fst ` set names"
    using Cons.prems(2) by (auto simp: names_keyed_def gm_wf_def kn)
  note IH = Cons.IH [OF r keyed(1)]
  obtain n' up where res: "resolve config (lookups (rn_Name n)) n = (n', up)" by (cases "resolve config (lookups (rn_Name n)) n")
  have n': "rn_Name n' = k" using resolve_Name [OF res] keyed by simp
  moreover have "rn_Name u = k" if "up = Some u" for u
    using resolve_loop_sent [of config _ 0 n n' u] res that keyed unfolding resolve_def by blast
  moreover have "set (map fst r') = fst ` set names" using IH by (metis set_map)
  ultimately show ?case
    using Cons.prems(1) IH keyed(2,3) r res
    by (auto simp: kn names_keyed_def gm_wf_def split: if_splits option.splits)
qed (simp add: names_keyed_def)

lemma update_names_track:
  "update_names config force lookups names = (names', ups) \<Longrightarrow> names_keyed names \<Longrightarrow>
     gm_get names' k = Some n' \<Longrightarrow> map_option rn_IPs (gm_get names k) = Some (f k) \<Longrightarrow>
     apply_updates ups f k = rn_IPs n'"
proof (induction names arbitrary: names' ups f)
  case (Cons kn names)
  obtain k0 n where kn: "kn = (k0, n)" by (cases kn)
  obtain r' us where r: "update_names config force lookups names = (r', us)" by (cases "update_names config force lookups names")
  have keyed: "names_keyed names" "rn_Name n = k0" "k0 \<notin> fst ` set names"
    using Cons.prems(2) by (auto simp: names_keyed_def gm_wf_def kn)
  have us: "\<forall>u \<in> set us. rn_Name u \<noteq> k0" using update_names_keys [OF r keyed(1)] keyed(3) by blast
  note IH = Cons.IH [OF r keyed(1)]
  show ?case
  proof (cases "due config force n")
    case False
    with Cons.prems IH us r show ?thesis
      by (auto simp: kn apply_updates_other split: if_splits)
  next
    case True
    obtain n1 up where res: "resolve config (lookups (rn_Name n)) n = (n1, up)" by (cases "resolve config (lookups (rn_Name n)) n")
    have eqs: "names' = (k0, n1) # r'" "ups = (case up of None \<Rightarrow> us | Some u \<Rightarrow> u # us)"
      using Cons.prems(1) True res r by (auto simp: kn)
    show ?thesis
    proof (cases up)
      case None
      then have "rn_IPs n1 = rn_IPs n" using resolve_loop_silent [of config _ 0 n n1] res unfolding resolve_def by blast
      with None Cons.prems(3,4) IH us show ?thesis
        by (auto simp: kn eqs apply_updates_other split: if_splits)
    next
      case (Some u)
      then have u: "u = n1" "rn_Name u = k0"
        using resolve_loop_sent [of config _ 0 n n1 u] res keyed(2) unfolding resolve_def by blast+
      have "apply_updates ups f = apply_updates us (f(k0 := rn_IPs n1))"
        using Some u by (simp add: eqs apply_updates_def)
      moreover have "apply_updates us (f(k0 := rn_IPs n1)) k = rn_IPs n'" if "k \<noteq> k0"
        using Cons.prems(3,4) that by (intro IH) (simp_all add: kn eqs)
      ultimately show ?thesis
        using Cons.prems(3) us by (auto simp: kn eqs apply_updates_other split: if_splits)
    qed
  qed
qed simp

lemma NewResolver_keyed: "names_keyed (res_names (NewResolver config names))"
proof -
  have "names_keyed (foldl (\<lambda>n name. gm_put name \<lparr>rn_Name = name, rn_IPs = [], rn_TTL = 0\<rparr> n) [] names)"
    by (rule foldl_invariant) (auto simp: names_keyed_def go_map)
  then show ?thesis by (simp add: NewResolver_def)
qed

lemma Resolver_update_keyed:
  "Resolver_update force lookups r = (r', ups) \<Longrightarrow> names_keyed (res_names r) \<Longrightarrow> names_keyed (res_names r')"
  using update_names_keys unfolding Resolver_update_def by (auto split: prod.splits)

section \<open>Properties\<close>

text \<open>
  C26: The receiver of the resolver's updates always has its addresses: if its map agrees with the
  resolver's names before an update, applying the updates that were sent makes it agree after,
  whichever names were due, failed or changed.
\<close>

theorem updates_track_names:
  assumes "names_keyed (res_names r)" "Resolver_update force lookups r = (r', ups)"
    and "\<And>k n. gm_get (res_names r) k = Some n \<Longrightarrow> f k = rn_IPs n"
    and "gm_get (res_names r') k = Some n"
  shows "apply_updates ups f k = rn_IPs n"
proof -
  from assms(2) have u: "update_names (res_config r) force lookups (res_names r) = (res_names r', ups)"
    by (auto simp: Resolver_update_def split: prod.splits)
  have "k \<in> fst ` set (res_names r)"
    using update_names_keys [OF u assms(1)] assms(4) by (metis map_of_SomeD fst_conv image_eqI set_map)
  then obtain n0 where "gm_get (res_names r) k = Some n0" by (metis gm_get_None_iff not_None_eq)
  with assms(3) update_names_track [OF u assms(1,4)] show ?thesis by simp
qed

definition example_lookups :: "string \<Rightarrow> int \<Rightarrow> lookup \<times> lookup" where
  "example_lookups name i = (Inr [IP4 2, IP4 1], Inl OtherError)"

definition example_resolver :: Resolver where
  "example_resolver = NewResolver NewTrafficPolicing [''example.org'']"

theorem updates_track_names_witness:
  "apply_updates (snd (Resolver_update True example_lookups example_resolver)) (\<lambda>_. []) ''example.org'' =
     [IP4 1, IP4 2]"
proof -
  have n: "gm_get (res_names (fst (Resolver_update True example_lookups example_resolver))) ''example.org'' =
     Some \<lparr>rn_Name = ''example.org'', rn_IPs = [IP4 1, IP4 2], rn_TTL = 300000000000\<rparr>"
    by code_simp
  have names: "res_names example_resolver = [(''example.org'', \<lparr>rn_Name = ''example.org'', rn_IPs = [], rn_TTL = 0\<rparr>)]"
    by code_simp
  have "apply_updates (snd (Resolver_update True example_lookups example_resolver)) (\<lambda>_. []) ''example.org'' =
     rn_IPs \<lparr>rn_Name = ''example.org'', rn_IPs = [IP4 1, IP4 2], rn_TTL = 300000000000\<rparr>"
  proof (rule updates_track_names [where r = example_resolver, OF _ prod.collapse [symmetric] _ n])
    show "names_keyed (res_names example_resolver)" by (simp add: names names_keyed_def gm_wf_def)
    show "[] = rn_IPs n" if "gm_get (res_names example_resolver) k = Some n" for k n
      using that by (auto simp: names split: if_splits)
  qed
  then show ?thesis by simp
qed

text \<open>
  The resolver runs at most one update at a time and loses no request: when it is idle
  again after a request, an update that was started after the request has run.
\<close>

lemma resolver_no_lost_request:
  assumes "reach resolver_init resolver_step r" "resolver_step r ResolveRequest r1"
    "run resolver_step r1 es r2" "\<not> res_updating r2"
  shows "res_jobs r \<le> 1 \<and> res_started r < res_started r2"
  using res.one_job [OF assms(1)] res.no_lost_request [OF assms(2) _ assms(3,4,1)] by simp

definition res0 :: Resolver where
  "res0 = (NewResolver NewTrafficPolicing [])\<lparr>res_life := Running\<rparr>"

text \<open>
  The addresses of a name change only by a successful lookup: the new addresses are
  those of the IPv4 and IPv6 lookups of one of the tries, in a canonical order; when all tries fail,
  or the name does not exist, the old ones are kept.
\<close>

lemma resolve_changes:
  "case resolve config lookups r of
     (r', None) \<Rightarrow> rn_IPs r' = rn_IPs r \<and> rn_Name r' = rn_Name r
   | (r', Some u) \<Rightarrow> u = r' \<and> rn_Name u = rn_Name r \<and> rn_IPs u \<noteq> rn_IPs r \<and>
       sorted (map addr_String (rn_IPs u)) \<and>
       (\<exists>i \<ge> 0. i < tp_ResolveTries config \<and>
          set (rn_IPs u) = set (lookup_ips (fst (lookups i))) \<union> set (lookup_ips (snd (lookups i))))"
proof (cases "resolve config lookups r")
  case (Pair r' up)
  show ?thesis
  proof (cases up)
    case None
    with Pair have "resolve_loop config lookups 0 r = (r', None)" by (simp add: resolve_def)
    from resolve_loop_silent [OF this] show ?thesis by (simp only: Pair None prod.case option.case)
  next
    case (Some u)
    with Pair have "resolve_loop config lookups 0 r = (r', Some u)" by (simp add: resolve_def)
    from resolve_loop_sent [OF this] show ?thesis
      unfolding Pair Some prod.case option.case by blast
  qed
qed

end
