(* ===== verification/Policer.thy ===== *)
theory Policer
  imports Netip
begin

text \<open>
  The part of the interface \<^verbatim>\<open>trafpol.Policer\<close> that the daemon uses while a VPN connection is
  made: adding an address to the allowed ones and removing it again. The laws are those of a set
  with a result that tells whether the operation changed it.
\<close>

locale policer =
  fixes inv :: "'s \<Rightarrow> bool"
    and allowed :: "'s \<Rightarrow> prefix set"
    and add :: "addr \<Rightarrow> 's \<Rightarrow> bool \<times> 's"
    and remove :: "addr \<Rightarrow> 's \<Rightarrow> bool \<times> 's"
  assumes add_inv: "inv s \<Longrightarrow> inv (snd (add a s))"
    and remove_inv: "inv s \<Longrightarrow> inv (snd (remove a s))"
    and add_flag: "inv s \<Longrightarrow> fst (add a s) \<longleftrightarrow> PrefixFrom a (int (BitLen a)) \<notin> allowed s"
    and remove_flag: "inv s \<Longrightarrow> fst (remove a s) \<longleftrightarrow> PrefixFrom a (int (BitLen a)) \<in> allowed s"
    and add_allowed: "inv s \<Longrightarrow> allowed (snd (add a s)) = insert (PrefixFrom a (int (BitLen a))) (allowed s)"
    and remove_allowed: "inv s \<Longrightarrow> allowed (snd (remove a s)) = allowed s - {PrefixFrom a (int (BitLen a))}"
begin

text \<open>
  What the daemon relies on: it remembers the result of adding, and removes the address only if
  it was added, which restores the allowed addresses, so configured ones are never lost.
\<close>

definition release :: "bool \<Rightarrow> addr \<Rightarrow> 's \<Rightarrow> 's" where
  "release added a s = (if added then snd (remove a s) else s)"

lemma add_release:
  assumes "inv s"
  shows "allowed (release (fst (add a s)) a (snd (add a s))) = allowed s"
  using assms add_flag [OF assms, of a] add_allowed [OF assms, of a] remove_allowed [OF add_inv [OF assms]]
  by (auto simp: release_def)

lemma add_twice: "inv s \<Longrightarrow> \<not> fst (add a (snd (add a s)))"
  by (simp add: add_flag add_inv add_allowed)

end

end
