(* ===== verification/TrafPol.thy ===== *)
theory TrafPol
  imports Monitors CPD Resolver Policer
begin

text \<open>
  Traffic policing (\<^verbatim>\<open>internal/trafpol\<close>): the allowed devices, addresses and names, the handlers
  of the main loop, start and stop, and the packet filter that the commands of
  \<^verbatim>\<open>filter.go\<close> maintain. A handler returns the commands it runs and the requests it sends to the
  resolver and the captive portal detection. The packet filter is the state that the command
  lists of \<^verbatim>\<open>internal/cmdtmpl\<close> produce when each of their commands succeeds.
\<close>

section \<open>Allowed devices, addresses and names\<close>

type_synonym AllowDevs = "(string, string) gomap"
type_synonym AllowAddrs = "(string, prefix) gomap"
type_synonym AllowNames = "(string, addr list) gomap"

definition NewAllowDevs :: AllowDevs where
  "NewAllowDevs = []"

text \<open>Indexing a map of strings: the empty string for a missing key.\<close>

definition str_at :: "(string, string) gomap \<Rightarrow> string \<Rightarrow> string" where
  "str_at m k = (case gm_get m k of None \<Rightarrow> '''' | Some v \<Rightarrow> v)"

definition AllowDevs_Add :: "string \<Rightarrow> AllowDevs \<Rightarrow> bool \<times> AllowDevs" where
  "AllowDevs_Add device a =
     (if str_at a device \<noteq> device then (True, gm_put device device a) else (False, a))"

definition AllowDevs_Remove :: "string \<Rightarrow> AllowDevs \<Rightarrow> bool \<times> AllowDevs" where
  "AllowDevs_Remove device a =
     (if str_at a device = device then (True, gm_del device a) else (False, a))"

definition AllowDevs_List :: "AllowDevs \<Rightarrow> string list" where
  "AllowDevs_List a = map snd a"

definition NewAllowAddrs :: AllowAddrs where
  "NewAllowAddrs = []"

definition AllowAddrs_Add :: "prefix \<Rightarrow> AllowAddrs \<Rightarrow> bool \<times> AllowAddrs" where
  "AllowAddrs_Add p a =
     (let s = prefix_String p in
      if gm_get a s \<noteq> None then (False, a) else (True, gm_put s p a))"

definition AllowAddrs_Remove :: "prefix \<Rightarrow> AllowAddrs \<Rightarrow> bool \<times> AllowAddrs" where
  "AllowAddrs_Remove p a =
     (let s = prefix_String p in
      if gm_get a s = None then (False, a) else (True, gm_del s a))"

definition AllowAddrs_List :: "AllowAddrs \<Rightarrow> prefix list" where
  "AllowAddrs_List a = map snd a"

definition NewAllowNames :: AllowNames where
  "NewAllowNames = []"

definition AllowNames_Add :: "string \<Rightarrow> addr list \<Rightarrow> AllowNames \<Rightarrow> AllowNames" where
  "AllowNames_Add name addrs a = gm_put name addrs a"

definition AllowNames_GetAll :: "AllowNames \<Rightarrow> AllowNames" where
  "AllowNames_GetAll a =
     foldl (\<lambda>names (k, v). gm_put k ((case gm_get names k of None \<Rightarrow> [] | Some w \<Rightarrow> w) @ v) names) [] a"

section \<open>Commands and the packet filter\<close>

datatype tp_effect =
    SetFilterRules
  | UnsetFilterRules
  | SetAllowedDevices "string list"
  | SetAllowedIPs "prefix list"
  | SetAllowedPorts "u16 list"
  | CleanupFilterRules
  | ResolveNames
  | TriggerProbe

text \<open>
  The table \<^verbatim>\<open>oc-daemon-filter\<close>: whether it exists and the elements of its four sets. The list
  \<^verbatim>\<open>TrafPolSetFilterRules\<close> creates it with the device \<^verbatim>\<open>lo\<close>; each of the other lists
  flushes a set and adds the given elements.
\<close>

record Filter =
  fw_table :: bool
  fw_devs :: "string set"
  fw_hosts4 :: "prefix set"
  fw_hosts6 :: "prefix set"
  fw_ports :: "u16 set"

definition no_filter :: Filter where
  "no_filter = \<lparr>fw_table = False, fw_devs = {}, fw_hosts4 = {}, fw_hosts6 = {}, fw_ports = {}\<rparr>"

fun fw_apply :: "tp_effect \<Rightarrow> Filter \<Rightarrow> Filter" where
  "fw_apply SetFilterRules f = no_filter\<lparr>fw_table := True, fw_devs := {''lo''}\<rparr>"
| "fw_apply UnsetFilterRules f = no_filter"
| "fw_apply CleanupFilterRules f = no_filter"
| "fw_apply (SetAllowedDevices ds) f = f\<lparr>fw_devs := set ds\<rparr>"
| "fw_apply (SetAllowedIPs ps) f =
     f\<lparr>fw_hosts4 := {p \<in> set ps. addr_Is4 (prefix_Addr p)},
       fw_hosts6 := {p \<in> set ps. \<not> addr_Is4 (prefix_Addr p)}\<rparr>"
| "fw_apply (SetAllowedPorts ports) f = f\<lparr>fw_ports := set ports\<rparr>"
| "fw_apply ResolveNames f = f"
| "fw_apply TriggerProbe f = f"

definition fw_run :: "tp_effect list \<Rightarrow> Filter \<Rightarrow> Filter" where
  "fw_run es f = foldl (\<lambda>f e. fw_apply e f) f es"

section \<open>The traffic policing component\<close>

record TrafPol =
  tp_portalPorts :: "u16 list"
  tp_dialer :: "int option"
  tp_capPortal :: bool
  tp_sendStatus :: bool
  tp_allowDevs :: AllowDevs
  tp_allowAddrs :: AllowAddrs
  tp_allowNames :: AllowNames
  tp_devmon :: life
  tp_dnsmon :: life
  tp_cpd :: life
  tp_resolver :: life
  tp_life :: life

definition TP_handleDeviceUpdate :: "dev_Update \<Rightarrow> TrafPol \<Rightarrow> tp_effect list \<times> TrafPol" where
  "TP_handleDeviceUpdate u t =
     (if du_Add u \<and> du_Type u \<noteq> ''device'' then
        (let (ok, devs) = AllowDevs_Add (du_Device u) (tp_allowDevs t) in
         (if ok then [SetAllowedDevices (AllowDevs_List devs)] else [], t\<lparr>tp_allowDevs := devs\<rparr>))
      else
        (let (ok, devs) = AllowDevs_Remove (du_Device u) (tp_allowDevs t) in
         (if ok then [SetAllowedDevices (AllowDevs_List devs)] else [], t\<lparr>tp_allowDevs := devs\<rparr>)))"

definition handleDNSUpdate :: "TrafPol \<Rightarrow> tp_effect list \<times> TrafPol" where
  "handleDNSUpdate t = ([ResolveNames, TriggerProbe], t)"

definition handleCPDReport :: "cpd_Report \<Rightarrow> TrafPol \<Rightarrow> bool \<times> tp_effect list \<times> TrafPol" where
  "handleCPDReport report t =
     (if \<not> cr_Detected report then
        (if tp_capPortal t
         then (True, [ResolveNames, SetAllowedPorts []], t\<lparr>tp_capPortal := False\<rparr>)
         else (False, [], t))
      else if \<not> tp_capPortal t
      then (True, [SetAllowedPorts (tp_portalPorts t)], t\<lparr>tp_capPortal := True\<rparr>)
      else (False, [], t))"

definition ipset_put :: "prefix \<Rightarrow> (string, prefix) gomap \<Rightarrow> (string, prefix) gomap" where
  "ipset_put p m = gm_put (prefix_String p) p m"

definition getAllowedHostsIPs :: "TrafPol \<Rightarrow> prefix list" where
  "getAllowedHostsIPs t =
     (let ipset = foldl (\<lambda>m (_, n). foldl (\<lambda>m ip. ipset_put (PrefixFrom ip (int (BitLen ip))) m) m n)
            [] (AllowNames_GetAll (tp_allowNames t));
          ipset = foldl (\<lambda>m a. ipset_put a m) ipset (AllowAddrs_List (tp_allowAddrs t))
      in map snd ipset)"

definition handleResolverUpdate :: "ResolvedName \<Rightarrow> TrafPol \<Rightarrow> tp_effect list \<times> TrafPol" where
  "handleResolverUpdate update t =
     (let t = t\<lparr>tp_allowNames := AllowNames_Add (rn_Name update) (rn_IPs update) (tp_allowNames t)\<rparr>
      in ([SetAllowedIPs (getAllowedHostsIPs t)], t))"

record trafpol_State =
  tps_CaptivePortal :: bool
  tps_AllowedDevices :: "string list"
  tps_AllowedAddresses :: "prefix list"
  tps_AllowedNames :: AllowNames

datatype trafPolCmd = AddAddress addr | RemoveAddress addr | GetState

text \<open>The answer of a command: its \<^verbatim>\<open>ok\<close> and \<^verbatim>\<open>state\<close> fields.\<close>

type_synonym trafPolReply = "bool \<times> trafpol_State option"

definition handleAddressCommand :: "bool \<Rightarrow> addr \<Rightarrow> TrafPol \<Rightarrow> bool \<times> tp_effect list \<times> TrafPol" where
  "handleAddressCommand add ip t =
     (let p = PrefixFrom ip (int (BitLen ip));
          (ok, addrs) = (if add then AllowAddrs_Add p (tp_allowAddrs t)
                         else AllowAddrs_Remove p (tp_allowAddrs t));
          t = t\<lparr>tp_allowAddrs := addrs\<rparr>
      in if \<not> ok then (False, [], t) else (True, [SetAllowedIPs (getAllowedHostsIPs t)], t))"

definition handleGetStateCommand :: "TrafPol \<Rightarrow> trafpol_State" where
  "handleGetStateCommand t =
     \<lparr>tps_CaptivePortal = tp_capPortal t,
      tps_AllowedDevices = AllowDevs_List (tp_allowDevs t),
      tps_AllowedAddresses = AllowAddrs_List (tp_allowAddrs t),
      tps_AllowedNames = AllowNames_GetAll (tp_allowNames t)\<rparr>"

fun handleCommand :: "trafPolCmd \<Rightarrow> TrafPol \<Rightarrow> trafPolReply \<times> tp_effect list \<times> TrafPol" where
  "handleCommand (AddAddress ip) t =
     (let (ok, es, t) = handleAddressCommand True ip t in ((ok, None), es, t))"
| "handleCommand (RemoveAddress ip) t =
     (let (ok, es, t) = handleAddressCommand False ip t in ((ok, None), es, t))"
| "handleCommand GetState t = ((False, Some (handleGetStateCommand t)), [], t)"

text \<open>The callers' side: each sends a command to the running loop and returns its answer.\<close>

definition AddAllowedAddr :: "addr \<Rightarrow> TrafPol \<Rightarrow> bool \<times> tp_effect list \<times> TrafPol" where
  "AddAllowedAddr addr t = (let (r, es, t) = handleCommand (AddAddress addr) t in (fst r, es, t))"

definition RemoveAllowedAddr :: "addr \<Rightarrow> TrafPol \<Rightarrow> bool \<times> tp_effect list \<times> TrafPol" where
  "RemoveAllowedAddr addr t = (let (r, es, t) = handleCommand (RemoveAddress addr) t in (fst r, es, t))"

definition TrafPol_GetState :: "TrafPol \<Rightarrow> trafpol_State option" where
  "TrafPol_GetState t = snd (fst (handleCommand GetState t))"

text \<open>
  The arguments are the outcomes of starting the monitors. The errors' cleanup stops what was
  started, in reverse order, and removes the filter.
\<close>

datatype trafpol_error = TPDevMonError | TPDNSMonError

definition TrafPol_Start :: "bool \<Rightarrow> bool \<Rightarrow> TrafPol \<Rightarrow> (trafpol_error + unit) \<times> tp_effect list \<times> TrafPol" where
  "TrafPol_Start devmonOk dnsmonOk t =
     (let es = [SetFilterRules, SetAllowedIPs (getAllowedHostsIPs t)];
          t = t\<lparr>tp_resolver := Running, tp_cpd := Running\<rparr>
      in if \<not> devmonOk then
           (Inl TPDevMonError, es @ [UnsetFilterRules], t\<lparr>tp_cpd := Stopped, tp_resolver := Stopped\<rparr>)
         else
           (let t = t\<lparr>tp_devmon := Running\<rparr> in
            if \<not> dnsmonOk then
              (Inl TPDNSMonError, es @ [UnsetFilterRules],
               t\<lparr>tp_devmon := Stopped, tp_cpd := Stopped, tp_resolver := Stopped\<rparr>)
            else (Inr (), es, t\<lparr>tp_dnsmon := Running, tp_life := Running\<rparr>)))"

definition TrafPol_Stop :: "TrafPol \<Rightarrow> (tp_effect list \<times> TrafPol) outcome" where
  "TrafPol_Stop t =
     (case life_Stop (tp_life t) of
        Returns l \<Rightarrow> Returns ([UnsetFilterRules],
          t\<lparr>tp_life := l, tp_dnsmon := Stopped, tp_devmon := Stopped, tp_cpd := Stopped,
            tp_resolver := Stopped\<rparr>)
      | Panics \<Rightarrow> Panics | Blocks \<Rightarrow> Blocks)"

definition parseAllowedHosts :: "string list \<Rightarrow> prefix list \<times> string list" where
  "parseAllowedHosts hosts =
     foldl (\<lambda>(addrs, names) h.
       case ParseAddr h of
         Some ip \<Rightarrow> (addrs @ [PrefixFrom ip (int (BitLen ip))], names)
       | None \<Rightarrow>
           (case ParsePrefix h of
              Some p \<Rightarrow> (addrs @ [p], names)
            | None \<Rightarrow> (addrs, names @ [h]))) ([], []) hosts"

text \<open>The dialer sets the firewall mark, a number, on the sockets of the detection.\<close>

definition getCPDDialerFWMark :: "SplitRoutingConfig \<Rightarrow> int option" where
  "getCPDDialerFWMark config = Atoi (sr_FirewallMark config)"

definition NewTrafPol :: "'t Config \<Rightarrow> TrafPol option" where
  "NewTrafPol config =
     (case (cfg_CPD config, cfg_TrafficPolicing config) of
        (Some cpdc, Some tpc) \<Rightarrow>
          (let c = NewCPD cpdc;
               hosts = slice_list (tp_AllowedHosts tpc) @ CPD_Hosts c;
               (a, n) = parseAllowedHosts hosts;
               addrs = foldl (\<lambda>addrs addr. snd (AllowAddrs_Add addr addrs)) NewAllowAddrs a;
               names = foldl (\<lambda>names name. AllowNames_Add name [] names) NewAllowNames n;
               t = (\<lambda>dialer. Some
                 \<lparr>tp_portalPorts = slice_list (tp_PortalPorts tpc), tp_dialer = dialer, tp_capPortal = False,
                  tp_sendStatus = False, tp_allowDevs = NewAllowDevs, tp_allowAddrs = addrs,
                  tp_allowNames = names, tp_devmon = NotStarted, tp_dnsmon = NotStarted,
                  tp_cpd = NotStarted, tp_resolver = NotStarted, tp_life = NotStarted\<rparr>)
           in if cpd_SetFirewallMark cpdc
              then (case cfg_SplitRouting config of None \<Rightarrow> None | Some sr \<Rightarrow> t (getCPDDialerFWMark sr))
              else t None)
      | _ \<Rightarrow> None)"

definition TrafPol_Cleanup :: "tp_effect list" where
  "TrafPol_Cleanup = [CleanupFilterRules]"

section \<open>Main loop\<close>

text \<open>
  The labels of the loop's steps. Captive portal results are read only while no status
  waits to be sent, and a status is sent only then.
\<close>

datatype trafpol_event =
    TPDevice dev_Update
  | TPDNS
  | TPCPDResult cpd_Report
  | TPStatus bool
  | TPResolved ResolvedName
  | TPCommand trafPolCmd trafPolReply

text \<open>The loop together with the packet filter and the last status its reader received.\<close>

record trafpol_conf =
  tc_t :: TrafPol
  tc_fw :: Filter
  tc_status :: bool

inductive trafpol_step :: "trafpol_conf \<Rightarrow> trafpol_event \<Rightarrow> trafpol_conf \<Rightarrow> bool" where
  tp_device: "tp_life (tc_t c) = Running \<Longrightarrow> TP_handleDeviceUpdate u (tc_t c) = (es, t) \<Longrightarrow>
    trafpol_step c (TPDevice u) (c\<lparr>tc_t := t, tc_fw := fw_run es (tc_fw c)\<rparr>)"
| tp_dns: "tp_life (tc_t c) = Running \<Longrightarrow> handleDNSUpdate (tc_t c) = (es, t) \<Longrightarrow>
    trafpol_step c TPDNS (c\<lparr>tc_t := t, tc_fw := fw_run es (tc_fw c)\<rparr>)"
| tp_result: "tp_life (tc_t c) = Running \<Longrightarrow> \<not> tp_sendStatus (tc_t c) \<Longrightarrow>
    handleCPDReport r (tc_t c) = (changed, es, t) \<Longrightarrow>
    trafpol_step c (TPCPDResult r)
      (c\<lparr>tc_t := t\<lparr>tp_sendStatus := changed\<rparr>, tc_fw := fw_run es (tc_fw c)\<rparr>)"
| tp_status: "tp_life (tc_t c) = Running \<Longrightarrow> tp_sendStatus (tc_t c) \<Longrightarrow> b = tp_capPortal (tc_t c) \<Longrightarrow>
    trafpol_step c (TPStatus b) (c\<lparr>tc_t := (tc_t c)\<lparr>tp_sendStatus := False\<rparr>, tc_status := b\<rparr>)"
| tp_resolved: "tp_life (tc_t c) = Running \<Longrightarrow> handleResolverUpdate u (tc_t c) = (es, t) \<Longrightarrow>
    trafpol_step c (TPResolved u) (c\<lparr>tc_t := t, tc_fw := fw_run es (tc_fw c)\<rparr>)"
| tp_command: "tp_life (tc_t c) = Running \<Longrightarrow> handleCommand cmd (tc_t c) = (reply, es, t) \<Longrightarrow>
    trafpol_step c (TPCommand cmd reply) (c\<lparr>tc_t := t, tc_fw := fw_run es (tc_fw c)\<rparr>)"

definition trafpol_init :: "trafpol_conf \<Rightarrow> bool" where
  "trafpol_init c \<longleftrightarrow> (\<exists>config t0 es t f. NewTrafPol (config :: unit Config) = Some t0 \<and>
     TrafPol_Start True True t0 = (Inr (), es, t) \<and>
     c = \<lparr>tc_t = t, tc_fw = fw_run es f, tc_status = False\<rparr>)"

section \<open>Lemmas on the sets\<close>

text \<open>The prefixes that occur: valid ones, and the zero prefix of an invalid address.\<close>

definition host_ok :: "prefix \<Rightarrow> bool" where
  "host_ok p \<longleftrightarrow> prefix_wf p \<and> (prefix_IsValid p \<or> p = PrefixZero)"

abbreviation single :: "addr \<Rightarrow> prefix" where
  "single a \<equiv> PrefixFrom a (int (BitLen a))"

lemma host_ok_PrefixFrom: "0 \<le> n \<Longrightarrow> n \<le> int (BitLen a) \<Longrightarrow> host_ok (PrefixFrom a n)"
  by (cases a) (auto simp: host_ok_def PrefixFrom_def prefix_IsValid_def prefix_wf_def)

lemma host_ok_single [simp]: "host_ok (single a)"
  by (simp add: host_ok_PrefixFrom)

lemma ParsePrefix_host_ok: "ParsePrefix s = Some p \<Longrightarrow> host_ok p"
  by (auto simp: ParsePrefix_def Let_def host_ok_PrefixFrom split: option.splits prod.splits if_splits)

lemma host_String_inj: "host_ok p \<Longrightarrow> host_ok q \<Longrightarrow> prefix_String p = prefix_String q \<Longrightarrow> p = q"
proof -
  assume a: "host_ok p" "host_ok q" "prefix_String p = prefix_String q"
  have z: "prefix_String PrefixZero = ''invalid Prefix''" by (simp add: prefix_String_def prefix_IsValid_def)
  show "p = q"
  proof (cases "prefix_IsValid p \<and> prefix_IsValid q")
    case True
    then show ?thesis using a prefix_String_inj by (simp add: host_ok_def)
  next
    case False
    with a z show ?thesis unfolding host_ok_def using prefix_String_valid_neq_invalid by metis
  qed
qed

definition hosts_inv :: "(string, prefix) gomap \<Rightarrow> bool" where
  "hosts_inv m \<longleftrightarrow> gm_wf m \<and> (\<forall>(k, p) \<in> set m. k = prefix_String p \<and> host_ok p)"

lemma hosts_inv_Nil [simp]: "hosts_inv []"
  by (simp add: hosts_inv_def)

lemma hosts_inv_put: "hosts_inv m \<Longrightarrow> host_ok p \<Longrightarrow> hosts_inv (gm_put (prefix_String p) p m)"
  by (auto simp: hosts_inv_def go_map)

lemma hosts_inv_del: "hosts_inv m \<Longrightarrow> hosts_inv (gm_del k m)"
  by (auto simp: hosts_inv_def go_map)

lemma hosts_key_iff:
  assumes "hosts_inv m" "host_ok p"
  shows "gm_get m (prefix_String p) \<noteq> None \<longleftrightarrow> p \<in> snd ` set m"
proof
  assume "gm_get m (prefix_String p) \<noteq> None"
  then obtain q where q: "(prefix_String p, q) \<in> set m" by (auto dest: map_of_SomeD)
  then have "prefix_String p = prefix_String q" "host_ok q" using assms(1) by (auto simp: hosts_inv_def)
  then have "q = p" using host_String_inj assms(2) by metis
  with q show "p \<in> snd ` set m" by force
next
  assume "p \<in> snd ` set m"
  then obtain k where "(k, p) \<in> set m" by auto
  moreover from this have "k = prefix_String p" using assms(1) by (auto simp: hosts_inv_def)
  ultimately show "gm_get m (prefix_String p) \<noteq> None"
    unfolding gm_get_None_iff by (metis fst_conv image_eqI)
qed

lemma hosts_put_values:
  assumes "hosts_inv m" "host_ok p"
  shows "snd ` set (gm_put (prefix_String p) p m) = insert p (snd ` set m)"
proof -
  have "q = p" if "(prefix_String p, q) \<in> set m" for q
    using that assms host_String_inj [of q p] by (auto simp: hosts_inv_def)
  then have "snd ` {x \<in> set m. fst x \<noteq> prefix_String p} \<union> {p} = snd ` set m \<union> {p}" by force
  then show ?thesis using assms(1) by (simp add: hosts_inv_def gm_set_put)
qed

lemma hosts_del_values:
  assumes "hosts_inv m" "host_ok p"
  shows "snd ` set (gm_del (prefix_String p) m) = snd ` set m - {p}"
proof -
  have "fst x \<noteq> prefix_String p \<longleftrightarrow> snd x \<noteq> p" if "x \<in> set m" for x
  proof -
    have "fst x = prefix_String (snd x)" "host_ok (snd x)"
      using that assms(1) by (auto simp: hosts_inv_def)
    then show ?thesis using host_String_inj [OF _ assms(2), of "snd x"] by auto
  qed
  then have "{x \<in> set m. fst x \<noteq> prefix_String p} = {x \<in> set m. snd x \<noteq> p}" by blast
  then show ?thesis by (auto simp: gm_set_del)
qed

lemma ipset_fold:
  "hosts_inv m \<Longrightarrow> \<forall>p \<in> set ps. host_ok p \<Longrightarrow>
     hosts_inv (foldl (\<lambda>m p. ipset_put p m) m ps) \<and>
     snd ` set (foldl (\<lambda>m p. ipset_put p m) m ps) = snd ` set m \<union> set ps"
  by (induction ps arbitrary: m) (auto simp: ipset_put_def hosts_inv_put hosts_put_values)

lemma ipset_fold_map:
  "foldl (\<lambda>m ip. ipset_put (f ip) m) m xs = foldl (\<lambda>m p. ipset_put p m) m (map f xs)"
  by (induction xs arbitrary: m) auto

lemma ipset_fold_names:
  "hosts_inv m \<Longrightarrow>
     hosts_inv (foldl (\<lambda>m (_, n). foldl (\<lambda>m ip. ipset_put (single ip) m) m n) m ns) \<and>
     snd ` set (foldl (\<lambda>m (_, n). foldl (\<lambda>m ip. ipset_put (single ip) m) m n) m ns) =
       snd ` set m \<union> (\<Union>n \<in> snd ` set ns. single ` set n)"
proof (induction ns arbitrary: m)
  case (Cons kn ns)
  obtain k n where kn: "kn = (k, n)" by (cases kn)
  have "hosts_inv (foldl (\<lambda>m ip. ipset_put (single ip) m) m n) \<and>
      snd ` set (foldl (\<lambda>m ip. ipset_put (single ip) m) m n) = snd ` set m \<union> single ` set n"
    unfolding ipset_fold_map [where f = single] using ipset_fold [OF Cons.prems, of "map single n"] by simp
  with Cons.IH [of "foldl (\<lambda>m ip. ipset_put (single ip) m) m n"] show ?case by (auto simp: kn)
qed simp

lemma update_absent: "k \<notin> fst ` set m \<Longrightarrow> gm_put k v m = m @ [(k, v)]"
  by (induction m) auto

lemma copy_map_fold:
  "distinct (map fst (m @ a)) \<Longrightarrow>
   foldl (\<lambda>m (k, v). gm_put k ((case gm_get m k of None \<Rightarrow> [] | Some w \<Rightarrow> w) @ v) m) m a = m @ a"
proof (induction a arbitrary: m)
  case (Cons kv a)
  obtain k v where kv: "kv = (k, v)" by (cases kv)
  have "k \<notin> fst ` set m" using Cons.prems by (auto simp: kv)
  then have "gm_get m k = None" "gm_put k v m = m @ [(k, v)]"
    by (auto simp: gm_get_None_iff update_absent)
  with Cons.IH [of "m @ [(k, v)]"] Cons.prems show ?case by (simp add: kv)
qed simp

lemma AllowNames_GetAll_id: "gm_wf a \<Longrightarrow> AllowNames_GetAll a = a"
  using copy_map_fold [of "[]" a] by (simp add: AllowNames_GetAll_def gm_wf_def)

text \<open>The allowed hosts as a set: the addresses of the names and the allowed addresses.\<close>

definition allowed_hosts :: "TrafPol \<Rightarrow> prefix set" where
  "allowed_hosts t = (\<Union>n \<in> snd ` set (tp_allowNames t). single ` set n) \<union> snd ` set (tp_allowAddrs t)"

lemma allowed_hosts_frame [simp]:
  "allowed_hosts (t\<lparr>tp_capPortal := b\<rparr>) = allowed_hosts t"
  "allowed_hosts (t\<lparr>tp_sendStatus := b\<rparr>) = allowed_hosts t"
  "allowed_hosts (t\<lparr>tp_allowDevs := d\<rparr>) = allowed_hosts t"
  by (simp_all add: allowed_hosts_def)

lemma getAllowedHostsIPs_set:
  assumes "hosts_inv (tp_allowAddrs t)" "gm_wf (tp_allowNames t)"
  shows "set (getAllowedHostsIPs t) = allowed_hosts t"
proof -
  let ?m = "foldl (\<lambda>m (_, n). foldl (\<lambda>m ip. ipset_put (single ip) m) m n) [] (tp_allowNames t)"
  have m: "hosts_inv ?m" "snd ` set ?m = (\<Union>n \<in> snd ` set (tp_allowNames t). single ` set n)"
    using ipset_fold_names [of "[]" "tp_allowNames t"] by auto
  have "\<forall>p \<in> set (map snd (tp_allowAddrs t)). host_ok p" using assms(1) by (auto simp: hosts_inv_def)
  from ipset_fold [OF m(1) this] m(2) show ?thesis
    by (simp add: getAllowedHostsIPs_def Let_def AllowNames_GetAll_id [OF assms(2)]
        AllowAddrs_List_def allowed_hosts_def)
qed

section \<open>Invariant of the main loop\<close>

definition devs_inv :: "AllowDevs \<Rightarrow> bool" where
  "devs_inv a \<longleftrightarrow> gm_wf a \<and> (\<forall>(k, v) \<in> set a. v = k)"

definition tp_state_inv :: "TrafPol \<Rightarrow> bool" where
  "tp_state_inv t \<longleftrightarrow> devs_inv (tp_allowDevs t) \<and> hosts_inv (tp_allowAddrs t) \<and> gm_wf (tp_allowNames t)"

text \<open>The filter shows the state.\<close>

definition fw_shows :: "TrafPol \<Rightarrow> Filter \<Rightarrow> bool" where
  "fw_shows t f \<longleftrightarrow> fw_table f \<and>
     fw_hosts4 f = {p \<in> allowed_hosts t. addr_Is4 (prefix_Addr p)} \<and>
     fw_hosts6 f = {p \<in> allowed_hosts t. \<not> addr_Is4 (prefix_Addr p)} \<and>
     fw_ports f = (if tp_capPortal t then set (tp_portalPorts t) else {}) \<and>
     (fw_devs f = set (AllowDevs_List (tp_allowDevs t)) \<or> tp_allowDevs t = [] \<and> fw_devs f = {''lo''})"

definition tp_inv :: "trafpol_conf \<Rightarrow> bool" where
  "tp_inv c \<longleftrightarrow> tp_life (tc_t c) = Running \<and> tp_state_inv (tc_t c) \<and> fw_shows (tc_t c) (tc_fw c) \<and>
     tc_status c = (if tp_sendStatus (tc_t c) then \<not> tp_capPortal (tc_t c) else tp_capPortal (tc_t c))"

lemma AllowDevs_inv:
  "devs_inv a \<Longrightarrow> devs_inv (snd (AllowDevs_Add d a))" "devs_inv a \<Longrightarrow> devs_inv (snd (AllowDevs_Remove d a))"
  by (auto simp: devs_inv_def AllowDevs_Add_def AllowDevs_Remove_def go_map)

lemma AllowDevs_unchanged:
  "\<not> fst (AllowDevs_Add d a) \<Longrightarrow> snd (AllowDevs_Add d a) = a"
  "\<not> fst (AllowDevs_Remove d a) \<Longrightarrow> snd (AllowDevs_Remove d a) = a"
  by (auto simp: AllowDevs_Add_def AllowDevs_Remove_def split: if_splits)

lemma fw_run_simps [simp]: "fw_run [] f = f" "fw_run (e # es) f = fw_run es (fw_apply e f)"
  by (simp_all add: fw_run_def)

lemma fw_shows_ips:
  assumes "tp_state_inv t" "fw_shows t0 f" "tp_capPortal t = tp_capPortal t0"
    "tp_portalPorts t = tp_portalPorts t0" "tp_allowDevs t = tp_allowDevs t0"
  shows "fw_shows t (fw_apply (SetAllowedIPs (getAllowedHostsIPs t)) f)"
proof -
  have "set (getAllowedHostsIPs t) = allowed_hosts t"
    using assms(1) by (simp add: tp_state_inv_def getAllowedHostsIPs_set)
  then show ?thesis using assms(2-) by (auto simp: fw_shows_def)
qed

lemma device_update_shows:
  assumes "fw_shows t f" "tp_state_inv t" "TP_handleDeviceUpdate u t = (es, t')"
  shows "fw_shows t' (fw_run es f) \<and> tp_state_inv t' \<and> tp_life t' = tp_life t \<and>
     tp_capPortal t' = tp_capPortal t \<and> tp_sendStatus t' = tp_sendStatus t"
proof -
  obtain ok devs where d: "(if du_Add u \<and> du_Type u \<noteq> ''device'' then AllowDevs_Add (du_Device u) (tp_allowDevs t)
      else AllowDevs_Remove (du_Device u) (tp_allowDevs t)) = (ok, devs)" by fastforce
  have r: "t' = t\<lparr>tp_allowDevs := devs\<rparr>" "es = (if ok then [SetAllowedDevices (AllowDevs_List devs)] else [])"
    using assms(3) d by (auto simp: TP_handleDeviceUpdate_def split: if_splits)
  have "\<not> ok \<Longrightarrow> devs = tp_allowDevs t" using d AllowDevs_unchanged by (metis fst_conv snd_conv)
  moreover have "devs_inv devs" using d assms(2) AllowDevs_inv by (metis snd_conv tp_state_inv_def)
  ultimately show ?thesis
    using assms(1,2) by (auto simp: r fw_shows_def tp_state_inv_def)
qed

lemma cpd_report_shows:
  assumes "fw_shows t f" "tp_state_inv t" "handleCPDReport r t = (changed, es, t')"
  shows "fw_shows t' (fw_run es f) \<and> tp_state_inv t' \<and> tp_life t' = tp_life t \<and>
     tp_capPortal t' = cr_Detected r \<and> changed = (tp_capPortal t \<noteq> cr_Detected r)"
  using assms(3)
proof (cases "tp_capPortal t = cr_Detected r")
  case True
  then have "changed = False \<and> es = [] \<and> t' = t" using assms(3) by (simp add: handleCPDReport_def split: if_splits)
  with True assms(1,2) show ?thesis by simp
next
  case False
  then have "changed = True \<and> t' = t\<lparr>tp_capPortal := cr_Detected r\<rparr> \<and>
     es = (if cr_Detected r then [SetAllowedPorts (tp_portalPorts t)] else [ResolveNames, SetAllowedPorts []])"
    using assms(3) by (cases "cr_Detected r") (simp_all add: handleCPDReport_def)
  with False assms(1,2) show ?thesis by (simp add: fw_shows_def tp_state_inv_def)
qed

lemma resolver_update_shows:
  assumes "fw_shows t f" "tp_state_inv t" "handleResolverUpdate u t = (es, t')"
  shows "fw_shows t' (fw_run es f) \<and> tp_state_inv t' \<and> tp_life t' = tp_life t \<and>
     tp_capPortal t' = tp_capPortal t \<and> tp_sendStatus t' = tp_sendStatus t"
proof -
  let ?t = "t\<lparr>tp_allowNames := AllowNames_Add (rn_Name u) (rn_IPs u) (tp_allowNames t)\<rparr>"
  have inv: "tp_state_inv ?t" using assms(2) by (simp add: tp_state_inv_def AllowNames_Add_def)
  have r: "t' = ?t" "es = [SetAllowedIPs (getAllowedHostsIPs ?t)]"
    using assms(3) by (auto simp: handleResolverUpdate_def Let_def)
  show ?thesis
    unfolding r fw_run_simps using fw_shows_ips [OF inv assms(1)] inv by simp
qed

text \<open>The contract of the two address commands, with the filter that results.\<close>

lemma address_command:
  assumes "tp_state_inv t"
  shows "handleAddressCommand add ip t =
     (let changed = (if add then single ip \<notin> snd ` set (tp_allowAddrs t) else single ip \<in> snd ` set (tp_allowAddrs t));
          addrs = (if add then gm_put (prefix_String (single ip)) (single ip) (tp_allowAddrs t)
                   else gm_del (prefix_String (single ip)) (tp_allowAddrs t));
          t' = t\<lparr>tp_allowAddrs := addrs\<rparr>
      in if changed then (True, [SetAllowedIPs (getAllowedHostsIPs t')], t') else (False, [], t))"
proof -
  have "gm_get (tp_allowAddrs t) (prefix_String (single ip)) \<noteq> None \<longleftrightarrow> single ip \<in> snd ` set (tp_allowAddrs t)"
    using assms by (intro hosts_key_iff) (simp_all add: tp_state_inv_def)
  then show ?thesis
    by (cases add) (auto simp: handleAddressCommand_def Let_def AllowAddrs_Add_def AllowAddrs_Remove_def)
qed

lemma address_command_shows:
  assumes "fw_shows t f" "tp_state_inv t" "handleAddressCommand add ip t = (ok, es, t')"
  shows "fw_shows t' (fw_run es f) \<and> tp_state_inv t' \<and> tp_life t' = tp_life t \<and>
     tp_capPortal t' = tp_capPortal t \<and> tp_sendStatus t' = tp_sendStatus t"
proof -
  let ?t = "\<lambda>addrs. t\<lparr>tp_allowAddrs := addrs\<rparr>"
  let ?p = "gm_put (prefix_String (single ip)) (single ip) (tp_allowAddrs t)"
  let ?d = "gm_del (prefix_String (single ip)) (tp_allowAddrs t)"
  have "hosts_inv ?p" "hosts_inv ?d"
    using assms(2) by (auto simp: tp_state_inv_def hosts_inv_put hosts_inv_del)
  then have inv: "tp_state_inv (?t ?p)" "tp_state_inv (?t ?d)" using assms(2) by (simp_all add: tp_state_inv_def)
  note fw = fw_shows_ips [OF inv(1) assms(1)] fw_shows_ips [OF inv(2) assms(1)]
  from assms(3) consider "t' = t" "es = []"
    | "t' = ?t ?p" "es = [SetAllowedIPs (getAllowedHostsIPs (?t ?p))]"
    | "t' = ?t ?d" "es = [SetAllowedIPs (getAllowedHostsIPs (?t ?d))]"
    unfolding address_command [OF assms(2)] Let_def by (auto split: if_splits)
  then show ?thesis
  proof cases
    case 1
    with assms(1,2) show ?thesis by simp
  next
    case 2
    with fw(1) inv(1) show ?thesis by (simp del: fw_apply.simps)
  next
    case 3
    with fw(2) inv(2) show ?thesis by (simp del: fw_apply.simps)
  qed
qed

lemma command_shows:
  assumes "fw_shows t f" "tp_state_inv t" "handleCommand cmd t = (reply, es, t')"
  shows "fw_shows t' (fw_run es f) \<and> tp_state_inv t' \<and> tp_life t' = tp_life t \<and>
     tp_capPortal t' = tp_capPortal t \<and> tp_sendStatus t' = tp_sendStatus t"
proof (cases cmd)
  case (AddAddress ip)
  then show ?thesis using address_command_shows [OF assms(1,2), of True ip] assms(3) by (auto split: prod.splits)
next
  case (RemoveAddress ip)
  then show ?thesis using address_command_shows [OF assms(1,2), of False ip] assms(3) by (auto split: prod.splits)
next
  case GetState
  then show ?thesis using assms by auto
qed

lemma trafpol_step_inv:
  assumes "tp_inv c" "trafpol_step c e c'"
  shows "tp_inv c'"
  using assms(2)
proof cases
  case (tp_device u es t)
  then show ?thesis using assms(1) device_update_shows [of "tc_t c" "tc_fw c" u es t] by (simp add: tp_inv_def)
next
  case (tp_dns es t)
  then show ?thesis using assms(1) by (auto simp: tp_inv_def handleDNSUpdate_def)
next
  case (tp_result r changed es t)
  then have "fw_shows t (fw_run es (tc_fw c)) \<and> tp_state_inv t \<and> tp_life t = Running \<and>
     tp_capPortal t = cr_Detected r \<and> changed = (tp_capPortal (tc_t c) \<noteq> cr_Detected r)"
    using assms(1) cpd_report_shows [of "tc_t c" "tc_fw c" r changed es t] by (simp add: tp_inv_def)
  with tp_result assms(1) show ?thesis
    by (simp add: tp_inv_def fw_shows_def tp_state_inv_def)
next
  case (tp_status b)
  then show ?thesis using assms(1) by (simp add: tp_inv_def fw_shows_def tp_state_inv_def)
next
  case (tp_resolved u es t)
  then show ?thesis using assms(1) resolver_update_shows [of "tc_t c" "tc_fw c" u es t] by (simp add: tp_inv_def)
next
  case (tp_command cmd reply es t)
  then show ?thesis using assms(1) command_shows [of "tc_t c" "tc_fw c" cmd reply es t] by (simp add: tp_inv_def)
qed

lemma handleAddressCommand_add:
  assumes "tp_state_inv t"
  shows "fst (handleAddressCommand True a t) \<longleftrightarrow> single a \<notin> snd ` set (tp_allowAddrs t)"
    and "snd ` set (tp_allowAddrs (snd (snd (handleAddressCommand True a t)))) = insert (single a) (snd ` set (tp_allowAddrs t))"
  using assms hosts_put_values [of "tp_allowAddrs t" "single a"]
  by (auto simp: address_command Let_def tp_state_inv_def)

lemma handleAddressCommand_remove:
  assumes "tp_state_inv t"
  shows "fst (handleAddressCommand False a t) \<longleftrightarrow> single a \<in> snd ` set (tp_allowAddrs t)"
    and "snd ` set (tp_allowAddrs (snd (snd (handleAddressCommand False a t)))) = snd ` set (tp_allowAddrs t) - {single a}"
  using assms hosts_del_values [of "tp_allowAddrs t" "single a"]
  by (auto simp: address_command Let_def tp_state_inv_def)

lemma AddAllowedAddr_eq: "AddAllowedAddr a t = handleAddressCommand True a t"
  by (simp add: AddAllowedAddr_def split: prod.splits)

lemma RemoveAllowedAddr_eq: "RemoveAllowedAddr a t = handleAddressCommand False a t"
  by (simp add: RemoveAllowedAddr_def split: prod.splits)

text \<open>The component with its filter, as its client, the daemon, uses it.\<close>

definition tp_add :: "addr \<Rightarrow> trafpol_conf \<Rightarrow> bool \<times> trafpol_conf" where
  "tp_add a c = (let (ok, es, t) = AddAllowedAddr a (tc_t c) in (ok, c\<lparr>tc_t := t, tc_fw := fw_run es (tc_fw c)\<rparr>))"

definition tp_remove :: "addr \<Rightarrow> trafpol_conf \<Rightarrow> bool \<times> trafpol_conf" where
  "tp_remove a c = (let (ok, es, t) = RemoveAllowedAddr a (tc_t c) in (ok, c\<lparr>tc_t := t, tc_fw := fw_run es (tc_fw c)\<rparr>))"

definition tc_allowed :: "trafpol_conf \<Rightarrow> prefix set" where
  "tc_allowed c = snd ` set (tp_allowAddrs (tc_t c))"

lemma tp_inv_command:
  assumes "tp_inv c"
  shows "tp_inv (c\<lparr>tc_t := snd (snd (handleAddressCommand add a (tc_t c))),
     tc_fw := fw_run (fst (snd (handleAddressCommand add a (tc_t c)))) (tc_fw c)\<rparr>)"
proof -
  obtain ok es t where r: "handleAddressCommand add a (tc_t c) = (ok, es, t)"
    by (cases "handleAddressCommand add a (tc_t c)")
  from assms address_command_shows [of "tc_t c" "tc_fw c" add a ok es t] r show ?thesis
    by (simp add: tp_inv_def)
qed

lemma tp_add_eq:
  "tp_add a c = (let r = handleAddressCommand True a (tc_t c) in
     (fst r, c\<lparr>tc_t := snd (snd r), tc_fw := fw_run (fst (snd r)) (tc_fw c)\<rparr>))"
  by (simp add: tp_add_def AddAllowedAddr_eq split_beta Let_def)

lemma tp_remove_eq:
  "tp_remove a c = (let r = handleAddressCommand False a (tc_t c) in
     (fst r, c\<lparr>tc_t := snd (snd r), tc_fw := fw_run (fst (snd r)) (tc_fw c)\<rparr>))"
  by (simp add: tp_remove_def RemoveAllowedAddr_eq split_beta Let_def)

lemma tp_inv_state: "tp_inv c \<Longrightarrow> tp_state_inv (tc_t c)"
  by (simp add: tp_inv_def)

interpretation tp: policer tp_inv tc_allowed tp_add tp_remove
proof (unfold_locales, goal_cases)
  case (1 c a)
  show ?case using tp_inv_command [OF 1, of True a] by (simp add: tp_add_eq Let_def)
next
  case (2 c a)
  show ?case using tp_inv_command [OF 2, of False a] by (simp add: tp_remove_eq Let_def)
qed (simp_all add: tp_add_eq tp_remove_eq Let_def tc_allowed_def tp_inv_state
      handleAddressCommand_add handleAddressCommand_remove)

section \<open>Creating and starting\<close>

definition host_prefix :: "string \<Rightarrow> prefix option" where
  "host_prefix h = (case ParseAddr h of Some ip \<Rightarrow> Some (single ip) | None \<Rightarrow> ParsePrefix h)"

lemma parseAllowedHosts_eq:
  "parseAllowedHosts hosts = (List.map_filter host_prefix hosts, filter (\<lambda>h. host_prefix h = None) hosts)"
proof -
  have "foldl (\<lambda>(addrs, names) h.
       case ParseAddr h of
         Some ip \<Rightarrow> (addrs @ [single ip], names)
       | None \<Rightarrow> (case ParsePrefix h of Some p \<Rightarrow> (addrs @ [p], names) | None \<Rightarrow> (addrs, names @ [h]))) (as, ns) hosts =
     (as @ List.map_filter host_prefix hosts, ns @ filter (\<lambda>h. host_prefix h = None) hosts)" for as ns
    by (induction hosts arbitrary: as ns)
      (auto simp: host_prefix_def List.map_filter_def split: option.splits)
  then show ?thesis by (simp add: parseAllowedHosts_def)
qed

lemma host_prefix_ok: "host_prefix h = Some p \<Longrightarrow> host_ok p"
  by (auto simp: host_prefix_def ParsePrefix_host_ok split: option.splits)

lemma AllowAddrs_Add_inv:
  assumes "hosts_inv m" "host_ok p"
  shows "hosts_inv (snd (AllowAddrs_Add p m)) \<and> snd ` set (snd (AllowAddrs_Add p m)) = insert p (snd ` set m)"
  using assms hosts_key_iff [OF assms]
  by (auto simp: AllowAddrs_Add_def Let_def hosts_inv_put hosts_put_values)

lemma AllowAddrs_fold:
  "hosts_inv m \<Longrightarrow> \<forall>p \<in> set ps. host_ok p \<Longrightarrow>
     hosts_inv (foldl (\<lambda>m p. snd (AllowAddrs_Add p m)) m ps) \<and>
     snd ` set (foldl (\<lambda>m p. snd (AllowAddrs_Add p m)) m ps) = snd ` set m \<union> set ps"
  by (induction ps arbitrary: m) (auto simp: AllowAddrs_Add_inv)

lemma AllowNames_fold:
  "gm_wf m \<Longrightarrow> gm_wf (foldl (\<lambda>m n. AllowNames_Add n [] m) m ns) \<and>
     fst ` set (foldl (\<lambda>m n. AllowNames_Add n [] m) m ns) = fst ` set m \<union> set ns \<and>
     (snd ` set m \<subseteq> {[]} \<longrightarrow> snd ` set (foldl (\<lambda>m n. AllowNames_Add n [] m) m ns) \<subseteq> {[]})"
proof (induction ns arbitrary: m)
  case (Cons n ns)
  have wf: "gm_wf (AllowNames_Add n [] m)" using Cons.prems by (simp add: AllowNames_Add_def)
  have "snd ` set m \<subseteq> {[]} \<Longrightarrow> snd ` set (AllowNames_Add n [] m) \<subseteq> {[]}"
    using Cons.prems by (auto simp: AllowNames_Add_def gm_set_put)
  moreover have "fst ` set (AllowNames_Add n [] m) = insert n (fst ` set m)"
    by (simp add: AllowNames_Add_def dom_update)
  ultimately show ?case using Cons.IH [OF wf] by auto
qed simp

lemma NewTrafPol_props:
  assumes "NewTrafPol config = Some t" "cfg_TrafficPolicing config = Some tpc" "cfg_CPD config = Some cpdc"
  defines "hosts \<equiv> slice_list (tp_AllowedHosts tpc) @ [cpd_Host cpdc]"
  shows "tp_state_inv t" "tp_life t = NotStarted" "tp_capPortal t = False" "tp_sendStatus t = False"
    "tp_allowDevs t = []" "tp_portalPorts t = slice_list (tp_PortalPorts tpc)"
    "snd ` set (tp_allowAddrs t) = set (List.map_filter host_prefix hosts)"
    "fst ` set (tp_allowNames t) = {h \<in> set hosts. host_prefix h = None}"
    "snd ` set (tp_allowNames t) \<subseteq> {[]}"
proof -
  let ?a = "List.map_filter host_prefix hosts" and ?n = "filter (\<lambda>h. host_prefix h = None) hosts"
  obtain dialer where t: "t = \<lparr>tp_portalPorts = slice_list (tp_PortalPorts tpc), tp_dialer = dialer, tp_capPortal = False,
      tp_sendStatus = False, tp_allowDevs = NewAllowDevs,
      tp_allowAddrs = foldl (\<lambda>addrs addr. snd (AllowAddrs_Add addr addrs)) NewAllowAddrs ?a,
      tp_allowNames = foldl (\<lambda>names name. AllowNames_Add name [] names) NewAllowNames ?n,
      tp_devmon = NotStarted, tp_dnsmon = NotStarted,
      tp_cpd = NotStarted, tp_resolver = NotStarted, tp_life = NotStarted\<rparr>"
    using assms(1-3) unfolding hosts_def
    by (auto simp: NewTrafPol_def Let_def parseAllowedHosts_eq CPD_Hosts_def NewCPD_def split: if_splits option.splits)
  have "\<forall>p \<in> set ?a. host_ok p" by (auto simp: map_filter_mem host_prefix_ok)
  note a = AllowAddrs_fold [of NewAllowAddrs, OF _ this]
  note n = AllowNames_fold [of NewAllowNames ?n]
  show "tp_state_inv t" "tp_life t = NotStarted" "tp_capPortal t = False" "tp_sendStatus t = False"
    "tp_allowDevs t = []" "tp_portalPorts t = slice_list (tp_PortalPorts tpc)"
    "snd ` set (tp_allowAddrs t) = set ?a" "fst ` set (tp_allowNames t) = {h \<in> set hosts. host_prefix h = None}"
    "snd ` set (tp_allowNames t) \<subseteq> {[]}"
    using a n by (simp_all add: t tp_state_inv_def devs_inv_def NewAllowDevs_def NewAllowAddrs_def NewAllowNames_def)
qed

lemma NewTrafPol_present: "NewTrafPol config = Some t \<Longrightarrow> \<exists>tpc cpdc. cfg_TrafficPolicing config = Some tpc \<and> cfg_CPD config = Some cpdc"
  by (auto simp: NewTrafPol_def split: option.splits)

lemma TrafPol_Start_inv:
  assumes "tp_state_inv t" "tp_capPortal t = False" "tp_sendStatus t = False" "tp_allowDevs t = []"
    "TrafPol_Start True True t = (Inr (), es, t')"
  shows "tp_inv \<lparr>tc_t = t', tc_fw = fw_run es f, tc_status = False\<rparr>"
proof -
  have t': "t' = t\<lparr>tp_resolver := Running, tp_cpd := Running, tp_devmon := Running, tp_dnsmon := Running, tp_life := Running\<rparr>"
    and es: "es = [SetFilterRules, SetAllowedIPs (getAllowedHostsIPs t)]"
    using assms(5) by (simp_all add: TrafPol_Start_def Let_def)
  have "set (getAllowedHostsIPs t) = allowed_hosts t"
    using assms(1) by (simp add: tp_state_inv_def getAllowedHostsIPs_set)
  moreover have "allowed_hosts t' = allowed_hosts t" by (simp add: t' allowed_hosts_def)
  ultimately show ?thesis
    using assms by (simp add: tp_inv_def fw_shows_def es t' tp_state_inv_def no_filter_def)
qed

interpretation tpm: machine trafpol_init trafpol_step tp_inv
proof
  fix c
  assume "trafpol_init c"
  then obtain config t0 es t f where c: "NewTrafPol (config :: unit Config) = Some t0"
    "TrafPol_Start True True t0 = (Inr (), es, t)" "c = \<lparr>tc_t = t, tc_fw = fw_run es f, tc_status = False\<rparr>"
    unfolding trafpol_init_def by blast
  obtain tpc cpdc where "cfg_TrafficPolicing config = Some tpc" "cfg_CPD config = Some cpdc"
    using NewTrafPol_present [OF c(1)] by blast
  from NewTrafPol_props [OF c(1) this] TrafPol_Start_inv [OF _ _ _ _ c(2)] show "tp_inv c"
    unfolding c(3) by blast
qed (rule trafpol_step_inv)

lemma contains_allowed_hosts:
  "(\<exists>p \<in> allowed_hosts t. Contains p a) \<longleftrightarrow>
     (\<exists>n \<in> snd ` set (tp_allowNames t). \<exists>ip \<in> set n. Contains (single ip) a) \<or>
     (\<exists>p \<in> snd ` set (tp_allowAddrs t). Contains p a)"
  by (auto simp: allowed_hosts_def)

section \<open>Properties\<close>

text \<open>
  C23: In every reachable state of the main loop the packet filter shows the state: the table
  exists, a destination is admitted by its host sets exactly when it is an address of an allowed
  name or lies in an allowed address, the ports of a captive portal are open exactly while one is
  detected, and the devices are the allowed ones, or still the initial loopback device.
\<close>

theorem filter_shows_state:
  assumes "reach trafpol_init trafpol_step c"
  shows "fw_table (tc_fw c) \<and>
     (\<forall>a. (\<exists>p \<in> fw_hosts4 (tc_fw c) \<union> fw_hosts6 (tc_fw c). Contains p a) \<longleftrightarrow>
        (\<exists>n \<in> snd ` set (tp_allowNames (tc_t c)). \<exists>ip \<in> set n. Contains (single ip) a) \<or>
        (\<exists>p \<in> snd ` set (tp_allowAddrs (tc_t c)). Contains p a)) \<and>
     fw_ports (tc_fw c) = (if tp_capPortal (tc_t c) then set (tp_portalPorts (tc_t c)) else {}) \<and>
     (fw_devs (tc_fw c) = set (AllowDevs_List (tp_allowDevs (tc_t c))) \<or>
      tp_allowDevs (tc_t c) = [] \<and> fw_devs (tc_fw c) = {''lo''})"
proof -
  have f: "fw_shows (tc_t c) (tc_fw c)" using tpm.reach_inv [OF assms] by (simp add: tp_inv_def)
  then have "fw_hosts4 (tc_fw c) \<union> fw_hosts6 (tc_fw c) = allowed_hosts (tc_t c)"
    by (auto simp: fw_shows_def)
  with f show ?thesis unfolding fw_shows_def by (simp add: contains_allowed_hosts)
qed

definition example_config :: "unit Config" where
  "example_config = NewConfig ()"

definition example_trafpol :: TrafPol where
  "example_trafpol = the (NewTrafPol example_config)"

definition example_tc :: trafpol_conf where
  "example_tc = (let (_, es, t) = TrafPol_Start True True example_trafpol in
     \<lparr>tc_t = t, tc_fw = fw_run es no_filter, tc_status = False\<rparr>)"

lemma NewTrafPol_example: "NewTrafPol example_config = Some example_trafpol"
  by (simp add: example_trafpol_def NewTrafPol_def example_config_def NewConfig_def NewCPDConfig_def
      Let_def split: prod.splits)

lemma example_tc_init: "trafpol_init example_tc"
  using NewTrafPol_example by (force simp: trafpol_init_def example_tc_def TrafPol_Start_def Let_def)

lemma example_tc_reach: "reach trafpol_init trafpol_step example_tc"
  using example_tc_init by auto

definition portal_report :: cpd_Report where
  "portal_report = \<lparr>cr_Detected = True, cr_Host = ''''\<rparr>"

definition portal_tc :: trafpol_conf where
  "portal_tc = (let (changed, es, t) = handleCPDReport portal_report (tc_t example_tc) in
     example_tc\<lparr>tc_t := t\<lparr>tp_sendStatus := changed\<rparr>, tc_fw := fw_run es (tc_fw example_tc)\<rparr>)"

lemma example_tc_facts:
  "tp_life (tc_t example_tc) = Running" "\<not> tp_sendStatus (tc_t example_tc)"
  "\<not> tp_capPortal (tc_t example_tc)" "tp_portalPorts (tc_t example_tc) = [80, 443]"
proof -
  have "cfg_TrafficPolicing example_config = Some NewTrafficPolicing" "cfg_CPD example_config = Some NewCPDConfig"
    by (simp_all add: example_config_def NewConfig_def)
  note p = NewTrafPol_props [OF NewTrafPol_example this]
  show "tp_life (tc_t example_tc) = Running" "\<not> tp_sendStatus (tc_t example_tc)"
    "\<not> tp_capPortal (tc_t example_tc)" "tp_portalPorts (tc_t example_tc) = [80, 443]"
    using p(3,4,6)
    by (simp_all add: example_tc_def TrafPol_Start_def Let_def NewTrafficPolicing_def PortalPorts_def)
qed

lemma portal_tc_step: "trafpol_step example_tc (TPCPDResult portal_report) portal_tc"
proof -
  obtain changed es t where r: "handleCPDReport portal_report (tc_t example_tc) = (changed, es, t)"
    by (cases "handleCPDReport portal_report (tc_t example_tc)")
  from tp_result [OF example_tc_facts(1,2) r] show ?thesis by (simp add: portal_tc_def r)
qed

theorem filter_shows_state_witness: "fw_ports (tc_fw portal_tc) = {80, 443}"
proof -
  have "tp_capPortal (tc_t portal_tc)" "tp_portalPorts (tc_t portal_tc) = [80, 443]"
    using example_tc_facts by (simp_all add: portal_tc_def handleCPDReport_def portal_report_def)
  with filter_shows_state [OF reach_step [OF example_tc_reach portal_tc_step]] show ?thesis by simp
qed

text \<open>
  C24: The reader of the captive portal status misses no change and sees no repetition: whenever a
  status is delivered, it is the current one and differs from the one delivered before, and
  while none waits to be sent the reader knows the current status.
\<close>

theorem portal_status_delivered:
  assumes "reach trafpol_init trafpol_step c"
  shows "(trafpol_step c (TPStatus b) c' \<longrightarrow>
       b = tp_capPortal (tc_t c) \<and> b \<noteq> tc_status c \<and> tc_status c' = b \<and> \<not> tp_sendStatus (tc_t c')) \<and>
     (\<not> tp_sendStatus (tc_t c) \<longrightarrow> tc_status c = tp_capPortal (tc_t c))"
proof -
  have s: "tc_status c = (if tp_sendStatus (tc_t c) then \<not> tp_capPortal (tc_t c) else tp_capPortal (tc_t c))"
    using tpm.reach_inv [OF assms] by (simp add: tp_inv_def)
  have "b = tp_capPortal (tc_t c) \<and> b \<noteq> tc_status c \<and> tc_status c' = b \<and> \<not> tp_sendStatus (tc_t c')"
    if "trafpol_step c (TPStatus b) c'"
    using that by cases (use s in auto)
  with s show ?thesis by simp
qed

theorem portal_status_delivered_witness:
  "tp_sendStatus (tc_t portal_tc) \<and>
   tc_status (portal_tc\<lparr>tc_t := (tc_t portal_tc)\<lparr>tp_sendStatus := False\<rparr>, tc_status := True\<rparr>) = True \<and>
   tc_status portal_tc \<noteq> True"
proof -
  have c: "tp_sendStatus (tc_t portal_tc)" "tp_life (tc_t portal_tc) = Running" "True = tp_capPortal (tc_t portal_tc)"
    using example_tc_facts by (simp_all add: portal_tc_def handleCPDReport_def portal_report_def)
  from portal_status_delivered [OF reach_step [OF example_tc_reach portal_tc_step]] tp_status [OF c(2,1,3)] c(1)
  show ?thesis by blast
qed

text \<open>
  Allowing an address while the traffic is policed and releasing it again, when it was
  not allowed before, restores the allowed addresses, so that a configured address is
  never removed, and both keep the filter in line with the state.
\<close>

lemma allow_release_restores:
  assumes "tp_inv c"
  shows "let (added, c') = tp_add a c; c'' = (if added then snd (tp_remove a c') else c') in
     tc_allowed c'' = tc_allowed c \<and> tp_inv c'' \<and> single a \<in> tc_allowed c' \<and>
     (added \<longleftrightarrow> single a \<notin> tc_allowed c)"
  using tp.add_release [OF assms, of a] tp.add_inv [OF assms, of a] tp.remove_inv [OF tp.add_inv [OF assms, of a]]
    tp.add_allowed [OF assms, of a] tp.add_flag [OF assms, of a]
  by (auto simp: tp.release_def split_beta Let_def)

text \<open>
  When starting fails because a monitor cannot be started, no filter is left behind and
  everything that was started is stopped; stopping such a component blocks forever,
  because its loop never ran, while stopping a running one removes the filter.
\<close>

lemma TrafPol_Start_Stop:
  assumes "tp_life t = NotStarted" "tp_devmon t = NotStarted" "tp_dnsmon t = NotStarted"
    and "TrafPol_Start devOk dnsOk t = (r, es, t')"
  shows "if devOk \<and> dnsOk
     then r = Inr () \<and> fw_table (fw_run es f) \<and> tp_life t' = Running \<and>
       (\<exists>es' t''. TrafPol_Stop t' = Returns (es', t'') \<and> \<not> fw_table (fw_run es' f') \<and>
          {tp_devmon t'', tp_dnsmon t'', tp_cpd t'', tp_resolver t'', tp_life t''} = {Stopped})
     else isl r \<and> fw_run es f = no_filter \<and> TrafPol_Stop t' = Blocks \<and>
       Running \<notin> {tp_devmon t', tp_dnsmon t', tp_cpd t', tp_resolver t', tp_life t'}"
  using assms
  by (auto simp: TrafPol_Start_def TrafPol_Stop_def life_Stop_def Let_def no_filter_def split: if_splits)

text \<open>
  A new component allows exactly the configured hosts, and the host of the captive portal
  detection, that are addresses or networks, and tracks all others as names without addresses.
\<close>

lemma NewTrafPol_hosts:
  assumes "NewTrafPol config = Some t" "cfg_TrafficPolicing config = Some tpc" "cfg_CPD config = Some cpdc"
  shows "allowed_hosts t = {p. \<exists>h \<in> set (slice_list (tp_AllowedHosts tpc)) \<union> {cpd_Host cpdc}. host_prefix h = Some p} \<and>
     fst ` set (tp_allowNames t) =
       {h \<in> set (slice_list (tp_AllowedHosts tpc)) \<union> {cpd_Host cpdc}. host_prefix h = None}"
proof -
  note p = NewTrafPol_props [OF assms]
  have "(\<Union>n \<in> snd ` set (tp_allowNames t). single ` set n) = {}" using p(9) by auto
  then show ?thesis using p(7,8) by (auto simp: allowed_hosts_def map_filter_mem)
qed

end
