(* ===== verification/Aging.thy ===== *)
theory Aging
  imports Prelude
begin

text \<open>
  The interface shared by the two periodically cleaned tables of the program, the dynamic split
  excludes (\<^verbatim>\<open>splitrt.Excludes.cleanup\<close>) and the temporary DNS watches
  (\<^verbatim>\<open>dnsproxy.Watches.cleanTemp\<close>): entries carry a time to live and an "updated" mark, and
  every cleanup first unmarks an entry, then ages it by the cleaning interval, then drops it.
  The lemmas say how long an entry lives.
\<close>

text \<open>\<open>n\<close> cleanups of one entry; \<open>None\<close> once it is dropped.\<close>

primrec age_n :: "('v \<Rightarrow> 'v option) \<Rightarrow> nat \<Rightarrow> 'v \<Rightarrow> 'v option" where
  "age_n age 0 v = Some v"
| "age_n age (Suc n) v = (case age v of None \<Rightarrow> None | Some v' \<Rightarrow> age_n age n v')"

locale aging =
  fixes age :: "'v \<Rightarrow> 'v option"
    and ttl :: "'v \<Rightarrow> nat"
    and marked :: "'v \<Rightarrow> bool"
    and interval :: nat
  assumes interval_pos: "0 < interval"
    and age_marked: "marked v \<Longrightarrow> \<exists>v'. age v = Some v' \<and> ttl v' = ttl v \<and> \<not> marked v'"
    and age_expired: "\<not> marked v \<Longrightarrow> ttl v < interval \<Longrightarrow> age v = None"
    and age_live: "\<not> marked v \<Longrightarrow> interval \<le> ttl v \<Longrightarrow>
      \<exists>v'. age v = Some v' \<and> ttl v' = ttl v - interval \<and> \<not> marked v'"
begin

lemma unmarked_lifetime: "\<not> marked v \<Longrightarrow> age_n age n v \<noteq> None \<longleftrightarrow> n * interval \<le> ttl v"
proof (induction n arbitrary: v)
  case (Suc n)
  show ?case
  proof (cases "interval \<le> ttl v")
    case True
    with Suc.prems age_live obtain v' where
      v': "age v = Some v'" "ttl v' = ttl v - interval" "\<not> marked v'" by blast
    from Suc.IH [OF v'(3)] v' True show ?thesis by auto
  next
    case False
    with Suc.prems age_expired have "age v = None" by simp
    with False show ?thesis by simp
  qed
qed simp

lemma marked_lifetime: "marked v \<Longrightarrow> age_n age (Suc n) v \<noteq> None \<longleftrightarrow> n * interval \<le> ttl v"
  using age_marked [of v] unmarked_lifetime by fastforce

text \<open>
  An entry added at some moment before the first cleanup, with cleanups every \<open>interval\<close>
  seconds, is dropped by no cleanup within its time to live, and is gone two cleanups after it.
\<close>

lemma dropped_after_ttl: "marked v \<Longrightarrow> age_n age (Suc n) v = None \<Longrightarrow> ttl v < n * interval"
  using marked_lifetime [of v n] by (metis not_le)

lemma gone_after_ttl:
  assumes "marked v"
  shows "age_n age (ttl v div interval + 2) v = None"
proof -
  have "ttl v < Suc (ttl v div interval) * interval"
    using interval_pos dividend_less_div_times [of interval "ttl v"] by simp
  then have "\<not> Suc (ttl v div interval) * interval \<le> ttl v" by simp
  with marked_lifetime [OF assms, of "Suc (ttl v div interval)"] show ?thesis
    by (simp del: age_n.simps)
qed

end

text \<open>A whole table: one cleanup applies the entry's ageing to every key.\<close>

locale aging_table = aging age ttl marked interval
  for age :: "'v \<Rightarrow> 'v option" and ttl marked interval +
  fixes clean :: "('k, 'v) gomap \<Rightarrow> ('k, 'v) gomap"
  assumes clean_wf: "gm_wf m \<Longrightarrow> gm_wf (clean m)"
    and clean_get: "gm_wf m \<Longrightarrow> gm_get (clean m) k = Option.bind (gm_get m k) age"
begin

lemma clean_n_wf: "gm_wf m \<Longrightarrow> gm_wf ((clean ^^ n) m)"
  by (induction n) (auto intro: clean_wf)

lemma clean_n_get:
  "gm_wf m \<Longrightarrow> gm_get ((clean ^^ n) m) k = Option.bind (gm_get m k) (age_n age n)"
proof (induction n arbitrary: m)
  case (Suc n)
  have "gm_get ((clean ^^ Suc n) m) k = gm_get ((clean ^^ n) (clean m)) k"
    by (simp add: funpow_swap1)
  also have "\<dots> = Option.bind (Option.bind (gm_get m k) age) (age_n age n)"
    using Suc by (simp add: clean_wf clean_get)
  also have "\<dots> = Option.bind (gm_get m k) (age_n age (Suc n))"
    by (cases "gm_get m k") (auto split: option.splits)
  finally show ?case .
next
  case 0
  then show ?case by (cases "gm_get m k") auto
qed

lemma entry_kept:
  assumes "gm_wf m" "gm_get m k = Some v" "marked v"
  shows "gm_get ((clean ^^ Suc n) m) k \<noteq> None \<longleftrightarrow> n * interval \<le> ttl v"
  using marked_lifetime [OF assms(3), of n] clean_n_get [OF assms(1), of "Suc n" k] assms(2)
  by (simp del: funpow.simps age_n.simps)

end

end
