(* ===== verification/Excludes.thy ===== *)
theory Excludes
  imports NetipText Aging
begin

text \<open>
  The split excludes (\<^verbatim>\<open>internal/splitrt/excludes.go\<close>): the static excludes, a map from a
  prefix's text to the prefix, and the dynamic excludes, a map from an address to its time to
  live. The map of the code is iterated in an arbitrary order; the lists of the model are
  arbitrary too, and the results below do not depend on their order.
\<close>

section \<open>Model\<close>

definition excludesTimer :: u32 where
  "excludesTimer = 300"

record dynExclude =
  dx_ttl :: u32
  dx_updated :: bool

record Excludes =
  ex_s :: "(string, prefix) gomap"
  ex_d :: "(addr, dynExclude) gomap"

definition NewExcludes :: Excludes where
  "NewExcludes = \<lparr>ex_s = [], ex_d = []\<rparr>"

definition GetPrefixes :: "Excludes \<Rightarrow> prefix list" where
  "GetPrefixes e = map snd (ex_s e) @ map (\<lambda>(k, _). PrefixFrom k (int (BitLen k))) (ex_d e)"

text \<open>
  The loop of \<^verbatim>\<open>AddStatic\<close> over the entries still to visit; deleting the visited key changes
  the map, not the iteration. The flag is \<open>False\<close> when the loop returned early.
\<close>

fun AddStatic_loop ::
  "prefix \<Rightarrow> (string \<times> prefix) list \<Rightarrow> (string, prefix) gomap \<Rightarrow> bool \<times> (string, prefix) gomap" where
  "AddStatic_loop address [] s = (True, s)"
| "AddStatic_loop address ((k, v) # r) s =
     (if \<not> Overlaps v address then AddStatic_loop address r s
      else if prefix_Bits v \<le> prefix_Bits address then (False, s)
      else AddStatic_loop address r (gm_del k s))"

definition AddStatic :: "Excludes \<Rightarrow> prefix \<Rightarrow> bool \<times> Excludes" where
  "AddStatic e address =
     (case AddStatic_loop address (ex_s e) (ex_s e) of
        (False, s) \<Rightarrow> (False, e\<lparr>ex_s := s\<rparr>)
      | (True, s) \<Rightarrow> (True, e\<lparr>ex_s := gm_put (prefix_String address) address s\<rparr>))"

definition AddDynamic :: "Excludes \<Rightarrow> prefix \<Rightarrow> u32 \<Rightarrow> bool \<times> Excludes" where
  "AddDynamic e address ttl =
     (if \<not> IsSingleIP address then (False, e)
      else (let a = prefix_Addr address in
        if \<exists>v \<in> set (map snd (ex_s e)). Contains v a then (False, e)
        else (case gm_get (ex_d e) a of
            Some old \<Rightarrow>
              (False, e\<lparr>ex_d := gm_put a (old\<lparr>dx_ttl := ttl, dx_updated := True\<rparr>) (ex_d e)\<rparr>)
          | None \<Rightarrow>
              (True, e\<lparr>ex_d := gm_put a \<lparr>dx_ttl = ttl, dx_updated = True\<rparr> (ex_d e)\<rparr>))))"

definition RemoveStatic :: "Excludes \<Rightarrow> prefix \<Rightarrow> bool \<times> Excludes" where
  "RemoveStatic e address =
     (let addr = prefix_String address in
      if gm_get (ex_s e) addr = None then (False, e)
      else (True, e\<lparr>ex_s := gm_del addr (ex_s e)\<rparr>))"

fun cleanup_loop :: "(addr, dynExclude) gomap \<Rightarrow> bool \<times> (addr, dynExclude) gomap" where
  "cleanup_loop [] = (False, [])"
| "cleanup_loop ((k, v) # r) =
     (let (changed, r') = cleanup_loop r in
      if dx_updated v then (changed, (k, v\<lparr>dx_updated := False\<rparr>) # r')
      else if dx_ttl v < excludesTimer then (True, r')
      else (changed, (k, v\<lparr>dx_ttl := dx_ttl v - excludesTimer\<rparr>) # r'))"

definition cleanup :: "Excludes \<Rightarrow> bool \<times> Excludes" where
  "cleanup e = (case cleanup_loop (ex_d e) of (changed, d) \<Rightarrow> (changed, e\<lparr>ex_d := d\<rparr>))"

definition Excludes_List :: "Excludes \<Rightarrow> string list \<times> string list" where
  "Excludes_List e = (map fst (ex_s e), map (\<lambda>(k, _). addr_String k) (ex_d e))"

section \<open>Invariant and meaning\<close>

text \<open>
  Every static entry is stored under its text, and no two entries overlap: the sets of the
  kernel's packet filter that the excludes are written to reject overlapping intervals.
\<close>

definition static_inv :: "(string, prefix) gomap \<Rightarrow> bool" where
  "static_inv s \<longleftrightarrow> gm_wf s \<and>
     (\<forall>(k, v) \<in> set s. prefix_wf v \<and> k = prefix_String v) \<and>
     (\<forall>(k, v) \<in> set s. \<forall>(k', v') \<in> set s. k \<noteq> k' \<longrightarrow> \<not> Overlaps v v')"

text \<open>Dynamic entries are keyed by proper addresses without a zone.\<close>

definition excludes_inv :: "Excludes \<Rightarrow> bool" where
  "excludes_inv e \<longleftrightarrow> static_inv (ex_s e) \<and> gm_wf (ex_d e) \<and>
     (\<forall>a \<in> fst ` set (ex_d e). a \<noteq> AddrZero \<and> addr_zone a = '''')"

text \<open>The abstract value of the static excludes: the addresses they exclude from the tunnel.\<close>

definition static_cover :: "(string, prefix) gomap \<Rightarrow> addr set" where
  "static_cover s = (\<Union>v \<in> snd ` set s. prefix_set v)"

definition prefixes_cover :: "prefix list \<Rightarrow> addr set" where
  "prefixes_cover ps = (\<Union>p \<in> set ps. prefix_set p)"

lemma static_inv_Nil [simp]: "static_inv []"
  by (simp add: static_inv_def)

lemma NewExcludes_inv [simp]: "excludes_inv NewExcludes"
  by (simp add: excludes_inv_def NewExcludes_def)

lemma static_inv_wf: "static_inv s \<Longrightarrow> gm_wf s"
  by (simp add: static_inv_def)

lemma static_inv_key: "static_inv s \<Longrightarrow> (k, v) \<in> set s \<Longrightarrow> prefix_wf v \<and> k = prefix_String v"
  by (auto simp: static_inv_def)

lemma static_inv_disjoint:
  "static_inv s \<Longrightarrow> (k, v) \<in> set s \<Longrightarrow> (k', v') \<in> set s \<Longrightarrow> Overlaps v v' \<Longrightarrow> k = k'"
  by (fastforce simp: static_inv_def)

lemma static_inv_subset:
  "static_inv s \<Longrightarrow> gm_wf t \<Longrightarrow> set t \<subseteq> set s \<Longrightarrow> static_inv t"
  unfolding static_inv_def by (blast dest: subsetD)

lemma static_cover_mono: "set s \<subseteq> set t \<Longrightarrow> static_cover s \<subseteq> static_cover t"
  by (auto simp: static_cover_def)

section \<open>AddStatic\<close>

lemma AddStatic_loop_stop:
  assumes "\<forall>(k, v) \<in> set r. Overlaps v a \<longrightarrow> prefix_Bits v \<le> prefix_Bits a"
  shows "AddStatic_loop a r s = (\<not> (\<exists>(k, v) \<in> set r. Overlaps v a), s)"
  using assms by (induction a r s rule: AddStatic_loop.induct) auto

lemma gm_del_filter: "gm_del k m = filter (\<lambda>p. fst p \<noteq> k) m"
  by (induction m) auto

lemma AddStatic_loop_replace:
  assumes "\<forall>(k, v) \<in> set r. Overlaps v a \<longrightarrow> prefix_Bits a < prefix_Bits v"
  shows "AddStatic_loop a r s =
     (True, filter (\<lambda>p. fst p \<notin> fst ` {q \<in> set r. Overlaps (snd q) a}) s)"
  using assms
proof (induction a r s rule: AddStatic_loop.induct)
  case (2 a k v r s)
  show ?case
  proof (cases "Overlaps v a")
    case True
    with "2.prems" have "\<not> prefix_Bits v \<le> prefix_Bits a" by auto
    with True 2 have "AddStatic_loop a ((k, v) # r) s =
        (True, filter (\<lambda>p. fst p \<notin> fst ` {q \<in> set r. Overlaps (snd q) a}) (gm_del k s))"
      by simp
    also have "filter (\<lambda>p. fst p \<notin> fst ` {q \<in> set r. Overlaps (snd q) a}) (gm_del k s) =
        filter (\<lambda>p. fst p \<notin> insert k (fst ` {q \<in> set r. Overlaps (snd q) a})) s"
      by (simp add: gm_del_filter conj_commute)
    also have "insert k (fst ` {q \<in> set r. Overlaps (snd q) a}) =
        fst ` {q \<in> set ((k, v) # r). Overlaps (snd q) a}"
      using True by force
    finally show ?thesis .
  next
    case False
    with 2 have "AddStatic_loop a ((k, v) # r) s =
        (True, filter (\<lambda>p. fst p \<notin> fst ` {q \<in> set r. Overlaps (snd q) a}) s)"
      by simp
    moreover have "{q \<in> set ((k, v) # r). Overlaps (snd q) a} = {q \<in> set r. Overlaps (snd q) a}"
      using False by auto
    ultimately show ?thesis by simp
  qed
qed simp

text \<open>Under the invariant either one entry contains the new prefix, or the overlapping ones lie in it.\<close>

lemma overlap_cases:
  assumes inv: "static_inv s" and a: "prefix_wf a"
  obtains (contained) k v where "(k, v) \<in> set s" "Overlaps v a" "prefix_Bits v \<le> prefix_Bits a"
      "\<forall>(k, v) \<in> set s. Overlaps v a \<longrightarrow> prefix_Bits v \<le> prefix_Bits a"
  | (new) "\<forall>(k, v) \<in> set s. Overlaps v a \<longrightarrow> prefix_Bits a < prefix_Bits v"
proof (cases "\<exists>(k, v) \<in> set s. Overlaps v a \<and> prefix_Bits v \<le> prefix_Bits a")
  case True
  then obtain k v where v: "(k, v) \<in> set s" "Overlaps v a" "prefix_Bits v \<le> prefix_Bits a" by blast
  have "prefix_Bits v' \<le> prefix_Bits a" if v': "(k', v') \<in> set s" "Overlaps v' a" for k' v'
  proof (rule ccontr)
    assume lt: "\<not> prefix_Bits v' \<le> prefix_Bits a"
    have wf: "prefix_wf v" "prefix_wf v'" using inv v(1) v'(1) static_inv_key by blast+
    have "prefix_set v' \<subseteq> prefix_set a"
      by (rule Overlaps_nested) (use a wf v' lt Overlaps_sym in auto)
    moreover have "prefix_set a \<subseteq> prefix_set v"
      by (rule Overlaps_nested) (use a wf v in auto)
    moreover have "prefix_Addr v' \<in> prefix_set v'"
      using wf v'(2) Overlaps_valid Addr_in_prefix_set by blast
    ultimately have "Overlaps v v'" using Overlaps_iff_meet [OF wf] by blast
    then have "k = k'" using static_inv_disjoint inv v(1) v'(1) by blast
    then have "v = v'" using inv v(1) v'(1) by (metis gm_get_iff_mem option.inject static_inv_wf)
    with v(3) lt show False by simp
  qed
  then show ?thesis using contained [OF v] by blast
next
  case False
  then show ?thesis using new by force
qed

lemma AddStatic_contained:
  assumes "\<forall>(k, v) \<in> set (ex_s e). Overlaps v a \<longrightarrow> prefix_Bits v \<le> prefix_Bits a"
    "(k, v) \<in> set (ex_s e)" "Overlaps v a"
  shows "AddStatic e a = (False, e)"
proof -
  have "\<exists>(k, v) \<in> set (ex_s e). Overlaps v a" using assms(2,3) by blast
  then show ?thesis by (simp add: AddStatic_def AddStatic_loop_stop [OF assms(1)])
qed

lemma AddStatic_new:
  assumes inv: "static_inv (ex_s e)"
    and new: "\<forall>(k, v) \<in> set (ex_s e). Overlaps v a \<longrightarrow> prefix_Bits a < prefix_Bits v"
  shows "AddStatic e a =
     (True, e\<lparr>ex_s := gm_put (prefix_String a) a (filter (\<lambda>p. \<not> Overlaps (snd p) a) (ex_s e))\<rparr>)"
proof -
  have "fst p \<in> fst ` {q \<in> set (ex_s e). Overlaps (snd q) a} \<longleftrightarrow> Overlaps (snd p) a"
    if p: "p \<in> set (ex_s e)" for p
  proof
    assume "fst p \<in> fst ` {q \<in> set (ex_s e). Overlaps (snd q) a}"
    then obtain q where q: "q \<in> set (ex_s e)" "Overlaps (snd q) a" "fst p = fst q" by auto
    moreover have "distinct (map fst (ex_s e))" using inv by (simp add: static_inv_def gm_wf_def)
    ultimately have "p = q" using p eq_key_imp_eq_value by (metis prod.collapse)
    with q(2) show "Overlaps (snd p) a" by simp
  qed (use p in blast)
  then have "filter (\<lambda>p. fst p \<notin> fst ` {q \<in> set (ex_s e). Overlaps (snd q) a}) (ex_s e) =
      filter (\<lambda>p. \<not> Overlaps (snd p) a) (ex_s e)"
    by (intro filter_cong) auto
  then show ?thesis by (simp add: AddStatic_def AddStatic_loop_replace [OF new])
qed


lemma static_inv_put:
  assumes inv: "static_inv s" and a: "prefix_wf a"
    and dis: "\<forall>(k, v) \<in> set s. \<not> Overlaps v a"
  shows "static_inv (gm_put (prefix_String a) a s)"
proof -
  let ?t = "gm_put (prefix_String a) a s"
  have mem: "(k, v) \<in> set ?t \<longleftrightarrow> k = prefix_String a \<and> v = a \<or> (k, v) \<in> set s \<and> k \<noteq> prefix_String a"
    for k v using gm_mem_put [OF static_inv_wf [OF inv], of "(k, v)"] by simp
  have "prefix_wf v \<and> k = prefix_String v" if "(k, v) \<in> set ?t" for k v
    using that a static_inv_key [OF inv] by (auto simp: mem)
  moreover have "\<not> Overlaps v v'" if "(k, v) \<in> set ?t" "(k', v') \<in> set ?t" "k \<noteq> k'" for k v k' v'
    using that dis static_inv_disjoint [OF inv] Overlaps_sym [of a] unfolding mem by blast
  moreover have "gm_wf ?t" using static_inv_wf [OF inv] by simp
  ultimately show ?thesis unfolding static_inv_def by blast
qed

lemma AddStatic_static_inv:
  assumes inv: "static_inv (ex_s e)" and a: "prefix_wf a"
  shows "static_inv (ex_s (snd (AddStatic e a)))"
proof (cases rule: overlap_cases [OF inv a, case_names contained new])
  case (contained k v)
  then show ?thesis using inv by (simp add: AddStatic_contained)
next
  case new
  let ?t = "filter (\<lambda>p. \<not> Overlaps (snd p) a) (ex_s e)"
  have "static_inv ?t"
    using inv by (rule static_inv_subset) (use inv static_inv_wf in auto)
  then have "static_inv (gm_put (prefix_String a) a ?t)"
    by (rule static_inv_put) (use a in auto)
  then show ?thesis by (simp add: AddStatic_new [OF inv new])
qed

lemma AddStatic_frame [simp]: "ex_d (snd (AddStatic e a)) = ex_d e"
  by (auto simp: AddStatic_def split: prod.splits bool.splits)

lemma static_key_of_valid:
  assumes "static_inv s" "prefix_wf a" "prefix_IsValid a" "(prefix_String a, v) \<in> set s"
  shows "v = a"
proof -
  have v: "prefix_wf v" "prefix_String v = prefix_String a"
    using static_inv_key [OF assms(1,4)] by auto
  moreover have "prefix_IsValid v"
    using v assms(2,3) prefix_String_valid_neq_invalid by (metis prefix_String_def)
  ultimately show ?thesis using prefix_String_inj assms(2,3) by blast
qed

lemma static_cover_put:
  assumes "gm_wf t" "\<And>v. (k, v) \<in> set t \<Longrightarrow> prefix_set v = {}"
  shows "static_cover (gm_put k a t) = static_cover t \<union> prefix_set a"
proof -
  have "static_cover (gm_put k a t) = prefix_set a \<union> (\<Union>p \<in> {p \<in> set t. fst p \<noteq> k}. prefix_set (snd p))"
    unfolding static_cover_def gm_set_put [OF assms(1)] by simp
  moreover have "(\<Union>p \<in> {p \<in> set t. fst p \<noteq> k}. prefix_set (snd p)) = static_cover t"
    unfolding static_cover_def using assms(2) by fastforce
  ultimately show ?thesis by blast
qed

lemma AddStatic_cover:
  assumes inv: "static_inv (ex_s e)" and a: "prefix_wf a"
  shows "static_cover (ex_s (snd (AddStatic e a))) = static_cover (ex_s e) \<union> prefix_set a"
proof (cases rule: overlap_cases [OF inv a, case_names contained new])
  case (contained k v)
  then have "prefix_set a \<subseteq> prefix_set v"
    by (intro Overlaps_nested) (use a inv static_inv_key in auto)
  then have "prefix_set a \<subseteq> static_cover (ex_s e)"
    using contained(1) by (force simp: static_cover_def)
  moreover have "AddStatic e a = (False, e)" using contained by (simp add: AddStatic_contained)
  ultimately show ?thesis by auto
next
  case new
  let ?t = "filter (\<lambda>p. \<not> Overlaps (snd p) a) (ex_s e)"
  have inv': "static_inv ?t"
    using inv by (rule static_inv_subset) (use inv static_inv_wf in auto)
  have "prefix_set v \<subseteq> prefix_set a" if "(k, v) \<in> set (ex_s e)" "Overlaps v a" for k v
    by (rule Overlaps_nested) (use that new a inv static_inv_key Overlaps_sym in force)+
  then have drop: "static_cover (ex_s e) \<union> prefix_set a = static_cover ?t \<union> prefix_set a"
    by (force simp: static_cover_def)
  have "\<not> prefix_IsValid v" if v: "(prefix_String a, v) \<in> set ?t" for v
  proof (cases "prefix_IsValid a")
    case True
    then have "v = a" using v static_key_of_valid [OF inv' a] by blast
    with v True show ?thesis by (auto simp: Overlaps_refl)
  next
    case False
    have "prefix_wf v" "prefix_String v = prefix_String a" using static_inv_key [OF inv' v] by auto
    with False show ?thesis using prefix_String_valid_neq_invalid by (metis prefix_String_def)
  qed
  then have "static_cover (gm_put (prefix_String a) a ?t) = static_cover ?t \<union> prefix_set a"
    by (intro static_cover_put static_inv_wf [OF inv'] prefix_set_invalid)
  with drop show ?thesis by (simp add: AddStatic_new [OF inv new])
qed

text \<open>What the result flag of \<^verbatim>\<open>AddStatic\<close> tells its caller.\<close>

lemma AddStatic_flag:
  assumes inv: "static_inv (ex_s e)" and a: "prefix_wf a"
  shows "if fst (AddStatic e a)
     then (prefix_String a, a) \<in> set (ex_s (snd (AddStatic e a)))
     else snd (AddStatic e a) = e \<and> prefix_set a \<subseteq> static_cover (ex_s e)"
proof (cases rule: overlap_cases [OF inv a, case_names contained new])
  case (contained k v)
  then have "AddStatic e a = (False, e)" by (simp add: AddStatic_contained)
  with AddStatic_cover [OF inv a] show ?thesis by auto
next
  case new
  then show ?thesis
    using static_inv_wf [OF inv] by (simp add: AddStatic_new [OF inv new] gm_set_put)
qed

section \<open>RemoveStatic\<close>

lemma RemoveStatic_frame [simp]: "ex_d (snd (RemoveStatic e a)) = ex_d e"
  by (simp add: RemoveStatic_def Let_def)

lemma RemoveStatic_set:
  "set (ex_s (snd (RemoveStatic e a))) = {p \<in> set (ex_s e). fst p \<noteq> prefix_String a}"
  by (force simp: RemoveStatic_def Let_def go_map)

lemma RemoveStatic_static_inv:
  assumes "static_inv (ex_s e)"
  shows "static_inv (ex_s (snd (RemoveStatic e a)))"
  using assms
proof (rule static_inv_subset)
  show "gm_wf (ex_s (snd (RemoveStatic e a)))"
    using assms by (simp add: RemoveStatic_def Let_def static_inv_wf)
qed (auto simp: RemoveStatic_set)

lemma RemoveStatic_flag:
  assumes "static_inv (ex_s e)" "prefix_wf a" "prefix_IsValid a"
  shows "fst (RemoveStatic e a) \<longleftrightarrow> (prefix_String a, a) \<in> set (ex_s e)"
proof -
  have "fst (RemoveStatic e a) \<longleftrightarrow> (\<exists>v. gm_get (ex_s e) (prefix_String a) = Some v)"
    by (simp add: RemoveStatic_def Let_def)
  also have "\<dots> \<longleftrightarrow> (prefix_String a, a) \<in> set (ex_s e)"
    using static_key_of_valid [OF assms] static_inv_wf [OF assms(1)] gm_get_iff_mem by metis
  finally show ?thesis .
qed

text \<open>Because entries are disjoint, removing one removes exactly its addresses.\<close>

lemma RemoveStatic_cover:
  assumes inv: "static_inv (ex_s e)" and a: "prefix_wf a" "prefix_IsValid a"
    and mem: "(prefix_String a, a) \<in> set (ex_s e)"
  shows "static_cover (ex_s (snd (RemoveStatic e a))) = static_cover (ex_s e) - prefix_set a"
proof -
  have dis: "prefix_set v \<inter> prefix_set a = {}" if "(k, v) \<in> set (ex_s e)" "k \<noteq> prefix_String a" for k v
    using that mem static_inv_disjoint [OF inv] Overlaps_iff_meet static_inv_key [OF inv] a by metis
  have same: "v = a" if "(prefix_String a, v) \<in> set (ex_s e)" for v
    using that static_key_of_valid [OF inv a] by blast
  show ?thesis
    unfolding static_cover_def RemoveStatic_set using dis same by (fastforce simp: image_iff)
qed

section \<open>Dynamic excludes\<close>

definition dyn_addrs :: "Excludes \<Rightarrow> addr set" where
  "dyn_addrs e = fst ` set (ex_d e)"

lemma GetPrefixes_cover:
  assumes "excludes_inv e"
  shows "prefixes_cover (GetPrefixes e) = static_cover (ex_s e) \<union> dyn_addrs e"
proof -
  have "prefix_set (PrefixFrom k (int (BitLen k))) = {k}" if "(k, v) \<in> set (ex_d e)" for k v
    using that assms by (intro prefix_set_single) (force simp: excludes_inv_def)+
  then show ?thesis
    by (force simp: prefixes_cover_def GetPrefixes_def static_cover_def dyn_addrs_def)
qed

lemma AddDynamic_static [simp]: "ex_s (snd (AddDynamic e a t)) = ex_s e"
  by (auto simp: AddDynamic_def Let_def split: option.splits)

lemma AddDynamic_inv:
  assumes "excludes_inv e" "prefix_wf a"
  shows "excludes_inv (snd (AddDynamic e a t))"
  using assms
  by (auto simp: excludes_inv_def AddDynamic_def Let_def IsSingleIP_def prefix_wf_def go_map
      split: option.splits)

lemma AddDynamic_dyn:
  assumes "excludes_inv e" "a \<noteq> AddrZero" "addr_zone a = ''''"
  shows "dyn_addrs (snd (AddDynamic e (PrefixFrom a (int (BitLen a))) t)) =
     (if a \<in> static_cover (ex_s e) then dyn_addrs e else insert a (dyn_addrs e))"
proof -
  have "prefix_Addr (PrefixFrom a (int (BitLen a))) = a"
    using assms by (simp add: PrefixFrom_def withoutZone_id)
  moreover have "(\<exists>v \<in> set (map snd (ex_s e)). Contains v a) \<longleftrightarrow> a \<in> static_cover (ex_s e)"
    by (auto simp: static_cover_def)
  ultimately show ?thesis
    using assms IsSingleIP_full
    by (auto simp: AddDynamic_def Let_def dyn_addrs_def dom_update excludes_inv_def
        split: option.splits dest: map_of_SomeD)
qed

lemma AddDynamic_flag:
  assumes "excludes_inv e" "a \<noteq> AddrZero" "addr_zone a = ''''"
    "\<not> fst (AddDynamic e (PrefixFrom a (int (BitLen a))) t)"
  shows "a \<in> static_cover (ex_s e) \<union> dyn_addrs e"
proof -
  have "prefix_Addr (PrefixFrom a (int (BitLen a))) = a"
    using assms by (simp add: PrefixFrom_def withoutZone_id)
  with assms show ?thesis
    using IsSingleIP_full [of a]
    by (auto simp: AddDynamic_def Let_def dyn_addrs_def static_cover_def split: option.splits if_splits
        dest: map_of_SomeD intro: rev_image_eqI)
qed

section \<open>Lifetime of dynamic excludes\<close>

definition dx_age :: "dynExclude \<Rightarrow> dynExclude option" where
  "dx_age v =
     (if dx_updated v then Some (v\<lparr>dx_updated := False\<rparr>)
      else if dx_ttl v < excludesTimer then None
      else Some (v\<lparr>dx_ttl := dx_ttl v - excludesTimer\<rparr>))"

lemma cleanup_loop_keys: "fst ` set (snd (cleanup_loop m)) \<subseteq> fst ` set m"
proof (induction m rule: cleanup_loop.induct)
  case (2 k v r)
  then show ?case by (cases "cleanup_loop r") (simp, blast)
qed simp

lemma cleanup_loop_wf: "gm_wf m \<Longrightarrow> gm_wf (snd (cleanup_loop m))"
proof (induction m rule: cleanup_loop.induct)
  case (2 k v r)
  then have "k \<notin> fst ` set (snd (cleanup_loop r))" "gm_wf (snd (cleanup_loop r))"
    using cleanup_loop_keys [of r] by (auto simp: gm_wf_def)
  then show ?case by (auto simp: Let_def gm_wf_def split: prod.splits)
qed simp

lemma cleanup_loop_get:
  "gm_wf m \<Longrightarrow> gm_get (snd (cleanup_loop m)) k = Option.bind (gm_get m k) dx_age"
proof (induction m rule: cleanup_loop.induct)
  case (2 k' v r)
  have "k' \<notin> fst ` set (snd (cleanup_loop r))"
    using 2 cleanup_loop_keys [of r] by (auto simp: gm_wf_def)
  then have "gm_get (snd (cleanup_loop r)) k' = None" by (simp add: gm_get_None_iff)
  with 2 show ?case by (auto simp: Let_def gm_wf_def dx_age_def split: prod.splits)
qed simp

interpretation dx: aging_table dx_age "\<lambda>v. unat (dx_ttl v)" dx_updated 300 "\<lambda>m. snd (cleanup_loop m)"
proof (unfold_locales, goal_cases)
  case (3 v)
  then show ?case by (simp add: dx_age_def excludesTimer_def word_less_nat_alt)
next
  case (4 v)
  then have "(300 :: u32) \<le> dx_ttl v" by (simp add: word_le_nat_alt)
  with 4 show ?case by (auto simp: dx_age_def excludesTimer_def unat_sub word_less_nat_alt)
qed (auto simp: dx_age_def cleanup_loop_wf cleanup_loop_get)

lemma cleanup_eq: "cleanup e = (fst (cleanup_loop (ex_d e)), e\<lparr>ex_d := snd (cleanup_loop (ex_d e))\<rparr>)"
  by (simp add: cleanup_def split: prod.splits)

lemma cleanup_inv:
  assumes "excludes_inv e"
  shows "excludes_inv (snd (cleanup e))"
proof -
  have "\<forall>a \<in> fst ` set (snd (cleanup_loop (ex_d e))). a \<noteq> AddrZero \<and> addr_zone a = ''''"
    using assms cleanup_loop_keys [of "ex_d e"] unfolding excludes_inv_def by blast
  with assms show ?thesis by (simp add: excludes_inv_def cleanup_eq cleanup_loop_wf)
qed

section \<open>Independence of the iteration order\<close>

lemma static_inv_same: "gm_same s s' \<Longrightarrow> static_inv s \<Longrightarrow> static_inv s'"
  by (simp add: gm_same_def static_inv_def)

lemma gm_same_filter: "gm_same s s' \<Longrightarrow> gm_same (filter P s) (filter P s')"
  by (simp add: gm_same_def)

lemma AddStatic_same:
  assumes same: "gm_same (ex_s e) (ex_s e')" and inv: "static_inv (ex_s e)" and a: "prefix_wf a"
  shows "fst (AddStatic e a) = fst (AddStatic e' a) \<and>
     gm_same (ex_s (snd (AddStatic e a))) (ex_s (snd (AddStatic e' a)))"
proof -
  have eq: "set (ex_s e) = set (ex_s e')" using same by (simp add: gm_same_def)
  show ?thesis
  proof (cases rule: overlap_cases [OF inv a, case_names contained new])
    case (contained k v)
    then show ?thesis
      using AddStatic_contained [of e a k v] AddStatic_contained [of e' a k v] same
      by (simp add: eq)
  next
    case new
    then show ?thesis
      using AddStatic_new [OF inv new]
        AddStatic_new [OF static_inv_same [OF same inv], of a] same
      by (simp add: eq gm_same_put gm_same_filter)
  qed
qed

section \<open>Properties\<close>

text \<open>
  C3: Adding a static exclude refines set union: whatever entries overlap, afterwards exactly the
  old addresses and those of the new prefix are excluded, the entries are again pairwise
  disjoint and stored under their own text, the dynamic excludes are untouched, and the result
  is false only when nothing changed because the prefix was excluded already.
\<close>

theorem AddStatic_refines_union:
  assumes "static_inv (ex_s e)" "prefix_wf a"
  shows "static_inv (ex_s (snd (AddStatic e a))) \<and>
     static_cover (ex_s (snd (AddStatic e a))) = static_cover (ex_s e) \<union> prefix_set a \<and>
     ex_d (snd (AddStatic e a)) = ex_d e \<and>
     (if fst (AddStatic e a) then (prefix_String a, a) \<in> set (ex_s (snd (AddStatic e a)))
      else snd (AddStatic e a) = e \<and> prefix_set a \<subseteq> static_cover (ex_s e))"
  using AddStatic_static_inv [OF assms] AddStatic_cover [OF assms] AddStatic_flag [OF assms] by simp

definition net10_1 :: prefix where
  "net10_1 = PrefixFrom (IP4 0x0a010000) 16"

definition net10 :: prefix where
  "net10 = PrefixFrom (IP4 0x0a000000) 8"

definition example_excludes :: Excludes where
  "example_excludes = \<lparr>ex_s = [(prefix_String net10_1, net10_1)], ex_d = []\<rparr>"

lemma example_excludes_inv: "static_inv (ex_s example_excludes)"
  by (simp add: static_inv_def example_excludes_def gm_wf_def net10_1_def)

theorem AddStatic_refines_union_witness:
  "static_inv (ex_s (snd (AddStatic example_excludes net10))) \<and>
   static_cover (ex_s (snd (AddStatic example_excludes net10))) =
     static_cover (ex_s example_excludes) \<union> prefix_set net10 \<and>
   map snd (ex_s (snd (AddStatic example_excludes net10))) = [net10]"
proof -
  have "prefix_wf net10" by (simp add: net10_def)
  from AddStatic_refines_union [OF example_excludes_inv this]
  have "static_inv (ex_s (snd (AddStatic example_excludes net10))) \<and>
     static_cover (ex_s (snd (AddStatic example_excludes net10))) =
       static_cover (ex_s example_excludes) \<union> prefix_set net10" by blast
  moreover have "map snd (ex_s (snd (AddStatic example_excludes net10))) = [net10]" by code_simp
  ultimately show ?thesis by blast
qed

text \<open>
  Removing a static exclude refines set difference: when the prefix is an entry, exactly its
  addresses are no longer excluded; when it is not, nothing changes and the result is false.
\<close>

lemma RemoveStatic_refines_difference:
  assumes "static_inv (ex_s e)" "prefix_wf a" "prefix_IsValid a"
  shows "static_inv (ex_s (snd (RemoveStatic e a))) \<and>
     ex_d (snd (RemoveStatic e a)) = ex_d e \<and>
     (if (prefix_String a, a) \<in> set (ex_s e)
      then fst (RemoveStatic e a) \<and>
        static_cover (ex_s (snd (RemoveStatic e a))) = static_cover (ex_s e) - prefix_set a
      else RemoveStatic e a = (False, e))"
  using RemoveStatic_static_inv [OF assms(1), of a] RemoveStatic_cover [OF assms]
    RemoveStatic_flag [OF assms]
  by (auto simp: RemoveStatic_def Let_def split: if_splits)

text \<open>
  C18: The result of adding a static exclude, the flag and the resulting set of entries, does not
  depend on the order in which Go iterates over the map.
\<close>

theorem AddStatic_order_independent:
  assumes "gm_same (ex_s e) (ex_s e')" "static_inv (ex_s e)" "prefix_wf a"
  shows "fst (AddStatic e a) = fst (AddStatic e' a) \<and>
     gm_same (ex_s (snd (AddStatic e a))) (ex_s (snd (AddStatic e' a)))"
  using assms by (rule AddStatic_same)

definition two_excludes :: Excludes where
  "two_excludes = \<lparr>ex_s = [(''10.1.0.0/16'', net10_1), (''192.168.0.0/16'', PrefixFrom (IP4 0xc0a80000) 16)],
     ex_d = []\<rparr>"

definition two_excludes_rev :: Excludes where
  "two_excludes_rev = two_excludes\<lparr>ex_s := rev (ex_s two_excludes)\<rparr>"

theorem AddStatic_order_independent_witness:
  "fst (AddStatic two_excludes net10) = fst (AddStatic two_excludes_rev net10) \<and>
   gm_same (ex_s (snd (AddStatic two_excludes net10))) (ex_s (snd (AddStatic two_excludes_rev net10)))"
proof (rule AddStatic_order_independent)
  show "gm_same (ex_s two_excludes) (ex_s two_excludes_rev)"
    by (auto simp: gm_same_def gm_wf_def two_excludes_def two_excludes_rev_def)
  show "static_inv (ex_s two_excludes)" by code_simp
  show "prefix_wf net10" by (simp add: net10_def)
qed

text \<open>
  After a report for an address the prefixes written to the packet filter cover it and all
  addresses covered before, and a new address is signalled by the result.
\<close>

lemma AddDynamic_covers:
  assumes "excludes_inv e" "a \<noteq> AddrZero" "addr_zone a = ''''"
  shows "let r = AddDynamic e (PrefixFrom a (int (BitLen a))) t in
     excludes_inv (snd r) \<and>
     prefixes_cover (GetPrefixes (snd r)) = insert a (prefixes_cover (GetPrefixes e)) \<and>
     (\<not> fst r \<longrightarrow> a \<in> prefixes_cover (GetPrefixes e))"
proof -
  let ?r = "AddDynamic e (PrefixFrom a (int (BitLen a))) t"
  have inv: "excludes_inv (snd ?r)" using assms by (simp add: AddDynamic_inv)
  have cov: "prefixes_cover (GetPrefixes (snd ?r)) = insert a (prefixes_cover (GetPrefixes e))"
    using AddDynamic_dyn [OF assms] by (auto simp: GetPrefixes_cover assms(1) inv)
  have "a \<in> prefixes_cover (GetPrefixes e)" if "\<not> fst ?r"
    using that AddDynamic_flag [OF assms] GetPrefixes_cover [OF assms(1)] by auto
  with inv cov show ?thesis by (simp add: Let_def)
qed

text \<open>
  C17: A dynamic exclude reported with time to live \<open>t\<close> survives the first cleanup and then
  \<open>n\<close> more cleanups, one every 300 seconds, exactly when \<open>n * 300 \<le> t\<close>: it is never
  dropped before its time to live is over.
\<close>

theorem dynamic_exclude_lifetime:
  assumes "excludes_inv e" "gm_get (ex_d e) a = Some v" "dx_updated v"
  shows "gm_get (ex_d (((\<lambda>e. snd (cleanup e)) ^^ Suc n) e)) a \<noteq> None \<longleftrightarrow> n * 300 \<le> unat (dx_ttl v)"
proof -
  have "ex_d (((\<lambda>e. snd (cleanup e)) ^^ n) e) = ((\<lambda>m. snd (cleanup_loop m)) ^^ n) (ex_d e)" for n
    by (induction n) (simp_all add: cleanup_eq)
  then show ?thesis
    using dx.entry_kept [of "ex_d e" a v n] assms by (simp add: excludes_inv_def del: funpow.simps)
qed

theorem dynamic_exclude_lifetime_witness:
  "gm_get (ex_d (((\<lambda>e. snd (cleanup e)) ^^ Suc 2) \<lparr>ex_s = [], ex_d = [(IP4 1, \<lparr>dx_ttl = 600, dx_updated = True\<rparr>)]\<rparr>)) (IP4 1) \<noteq> None"
  using dynamic_exclude_lifetime [of "\<lparr>ex_s = [], ex_d = [(IP4 1, \<lparr>dx_ttl = 600, dx_updated = True\<rparr>)]\<rparr>" "IP4 1"
      "\<lparr>dx_ttl = 600, dx_updated = True\<rparr>" 2]
  by (simp add: excludes_inv_def gm_wf_def del: funpow.simps)

end
