(* ===== verification/SplitRt.thy ===== *)
theory SplitRt
  imports Excludes Monitors DaemonCfg
begin

text \<open>
  Split routing (\<^verbatim>\<open>internal/splitrt\<close>): the devices and addresses reported by the
  monitors, the local networks derived from them, and the event loop that keeps the split
  excludes and sends the prefixes to the VPN setup. A handler returns the prefixes it sends, if
  any, and the next state. Of the daemon's configuration the code reads the VPN configuration
  only, which its creator has set, so the state holds that.
\<close>

section \<open>Devices and addresses\<close>

type_synonym Devices = "(int, dev_Update) gomap"
type_synonym Addresses = "(int, addr_Update list) gomap"

definition NewDevices :: Devices where
  "NewDevices = []"

definition Devices_Add :: "dev_Update \<Rightarrow> Devices \<Rightarrow> Devices" where
  "Devices_Add dev d = gm_put (du_Index dev) dev d"

definition Devices_Remove :: "dev_Update \<Rightarrow> Devices \<Rightarrow> Devices" where
  "Devices_Remove dev d = gm_del (du_Index dev) d"

fun getType :: "bool \<Rightarrow> string \<Rightarrow> Devices \<Rightarrow> int list" where
  "getType match typ [] = []"
| "getType match typ ((_, v) # r) =
     (if match \<and> du_Type v \<noteq> typ then getType match typ r
      else if \<not> match \<and> du_Type v = typ then getType match typ r
      else du_Index v # getType match typ r)"

definition GetReal :: "Devices \<Rightarrow> int list" where
  "GetReal d = getType True ''device'' d"

definition GetVirtual :: "Devices \<Rightarrow> int list" where
  "GetVirtual d = getType False ''device'' d"

definition GetAll :: "Devices \<Rightarrow> int list" where
  "GetAll d = getType False '''' d"

definition Devices_List :: "Devices \<Rightarrow> dev_Update list" where
  "Devices_List d = map snd d"

definition NewAddresses :: Addresses where
  "NewAddresses = []"

definition addrs_at :: "Addresses \<Rightarrow> int \<Rightarrow> addr_Update list" where
  "addrs_at a i = (case gm_get a i of None \<Rightarrow> [] | Some us \<Rightarrow> us)"

definition Addresses_contains :: "Addresses \<Rightarrow> addr_Update \<Rightarrow> bool" where
  "Addresses_contains a addr =
     (\<exists>x \<in> set (addrs_at a (au_Index addr)).
        prefix_String (au_Address x) = prefix_String (au_Address addr))"

definition Addresses_Add :: "addr_Update \<Rightarrow> Addresses \<Rightarrow> Addresses" where
  "Addresses_Add addr a =
     (if Addresses_contains a addr then a
      else gm_put (au_Index addr) (addrs_at a (au_Index addr) @ [addr]) a)"

definition Addresses_Remove :: "addr_Update \<Rightarrow> Addresses \<Rightarrow> Addresses" where
  "Addresses_Remove addr a =
     (if \<not> Addresses_contains a addr then a
      else gm_put (au_Index addr)
        (filter (\<lambda>x. prefix_String (au_Address x) \<noteq> prefix_String (au_Address addr))
          (addrs_at a (au_Index addr))) a)"

definition Addresses_Get :: "Addresses \<Rightarrow> int \<Rightarrow> prefix list" where
  "Addresses_Get a index = map au_Address (addrs_at a index)"

definition Addresses_List :: "Addresses \<Rightarrow> addr_Update list" where
  "Addresses_List a = concat (map snd a)"

section \<open>Split routing\<close>

record SplitRouting =
  srt_vpn :: VPNConfig
  srt_devices :: Devices
  srt_addrs :: Addresses
  srt_locals :: "prefix list"
  srt_excludes :: Excludes
  srt_devmon :: life
  srt_addrmon :: life
  srt_life :: life

definition NewSplitRouting :: "VPNConfig \<Rightarrow> SplitRouting" where
  "NewSplitRouting vpn =
     \<lparr>srt_vpn = vpn, srt_devices = NewDevices, srt_addrs = NewAddresses, srt_locals = [],
      srt_excludes = NewExcludes, srt_devmon = NotStarted, srt_addrmon = NotStarted,
      srt_life = NotStarted\<rparr>"

definition excludeLocalNetworks :: "SplitRouting \<Rightarrow> bool \<times> bool" where
  "excludeLocalNetworks s =
     (\<exists>e \<in> set (slice_list (vs_ExcludeIPv4 (vpn_Split (srt_vpn s)))). prefix_String e = ''0.0.0.0/32'',
      vs_ExcludeVirtualSubnetsOnlyIPv4 (vpn_Split (srt_vpn s)))"

definition isIn :: "prefix \<Rightarrow> prefix list \<Rightarrow> bool" where
  "isIn n nets = (\<exists>net \<in> set nets. prefix_String n = prefix_String net)"

text \<open>The local networks as the devices and addresses known at the moment determine them.\<close>

definition localNetworks :: "SplitRouting \<Rightarrow> prefix list" where
  "localNetworks s =
     (let virtual = snd (excludeLocalNetworks s);
          devs = (if virtual then GetVirtual (srt_devices s) else GetAll (srt_devices s))
      in concat (map (Addresses_Get (srt_addrs s)) devs))"

fun addLocals :: "prefix list \<Rightarrow> prefix list \<Rightarrow> bool \<times> Excludes \<Rightarrow> bool \<times> Excludes" where
  "addLocals locals [] ue = ue"
| "addLocals locals (e # es) (updated, ex) =
     (if \<not> isIn e locals then
        (let (b, ex') = AddStatic ex e in addLocals locals es (b \<or> updated, ex'))
      else addLocals locals es (updated, ex))"

fun removeLocals :: "prefix list \<Rightarrow> prefix list \<Rightarrow> bool \<times> Excludes \<Rightarrow> bool \<times> Excludes" where
  "removeLocals excludes [] ue = ue"
| "removeLocals excludes (l # ls) (updated, ex) =
     (if \<not> isIn l excludes then
        (let (b, ex') = RemoveStatic ex l in removeLocals excludes ls (b \<or> updated, ex'))
      else removeLocals excludes ls (updated, ex))"

definition updateLocalNetworkExcludes :: "SplitRouting \<Rightarrow> prefix list option \<times> SplitRouting" where
  "updateLocalNetworkExcludes s =
     (if \<not> fst (excludeLocalNetworks s) then (None, s)
      else
        (let excludes = localNetworks s;
             locals = srt_locals s;
             (updated, ex) =
               removeLocals excludes locals (addLocals locals excludes (False, srt_excludes s))
         in (if updated then Some (GetPrefixes ex) else None,
             s\<lparr>srt_excludes := ex, srt_locals := excludes\<rparr>)))"

definition handleDeviceUpdate :: "dev_Update \<Rightarrow> SplitRouting \<Rightarrow> prefix list option \<times> SplitRouting" where
  "handleDeviceUpdate u s =
     (if du_Add u then
        (if du_Type u = ''loopback'' then (None, s)
         else if du_Device u = vd_Name (vpn_Device (srt_vpn s)) then (None, s)
         else updateLocalNetworkExcludes (s\<lparr>srt_devices := Devices_Add u (srt_devices s)\<rparr>))
      else updateLocalNetworkExcludes (s\<lparr>srt_devices := Devices_Remove u (srt_devices s)\<rparr>))"

definition handleAddressUpdate :: "addr_Update \<Rightarrow> SplitRouting \<Rightarrow> prefix list option \<times> SplitRouting" where
  "handleAddressUpdate u s =
     updateLocalNetworkExcludes
       (if au_Add u then s\<lparr>srt_addrs := Addresses_Add u (srt_addrs s)\<rparr>
        else s\<lparr>srt_addrs := Addresses_Remove u (srt_addrs s)\<rparr>)"

text \<open>The report is closed when the handler returns, after the prefixes were sent.\<close>

definition handleDNSReport :: "Report \<Rightarrow> SplitRouting \<Rightarrow> prefix list option \<times> SplitRouting" where
  "handleDNSReport r s =
     (let exclude = PrefixFrom (rep_IP r) (int (BitLen (rep_IP r)));
          (b, ex) = AddDynamic (srt_excludes s) exclude (rep_TTL r)
      in (if b then Some (GetPrefixes ex) else None, s\<lparr>srt_excludes := ex\<rparr>))"

text \<open>The timer of the main loop.\<close>

definition handleTimer :: "SplitRouting \<Rightarrow> prefix list option \<times> SplitRouting" where
  "handleTimer s = (None, s\<lparr>srt_excludes := snd (cleanup (srt_excludes s))\<rparr>)"

definition addConfigured :: "string \<Rightarrow> prefix list \<Rightarrow> Excludes \<Rightarrow> Excludes" where
  "addConfigured skip es ex =
     foldl (\<lambda>ex e. if prefix_String e = skip then ex else snd (AddStatic ex e)) ex es"

definition initialExcludes :: "VPNConfig \<Rightarrow> Excludes \<Rightarrow> Excludes" where
  "initialExcludes vpn ex =
     (let ex = (if addr_IsValid (vpn_Gateway vpn)
                then snd (AddStatic ex (PrefixFrom (vpn_Gateway vpn) (int (BitLen (vpn_Gateway vpn)))))
                else ex);
          ex = addConfigured ''0.0.0.0/32'' (slice_list (vs_ExcludeIPv4 (vpn_Split vpn))) ex
      in addConfigured ''::/128'' (slice_list (vs_ExcludeIPv6 (vpn_Split vpn))) ex)"

datatype splitrt_error = DevMonError | AddrMonError

text \<open>
  The arguments are the outcomes of starting the two monitors. The goroutine's first action,
  sending the initial prefixes, is part of a successful start.
\<close>

definition SplitRouting_Start ::
  "bool \<Rightarrow> bool \<Rightarrow> SplitRouting \<Rightarrow> (splitrt_error + prefix list option) \<times> SplitRouting" where
  "SplitRouting_Start devmonOk addrmonOk s =
     (if \<not> devmonOk then (Inl DevMonError, s)
      else if \<not> addrmonOk then (Inl AddrMonError, s\<lparr>srt_devmon := Stopped\<rparr>)
      else
        (let ex = initialExcludes (srt_vpn s) (srt_excludes s);
             prefixes = GetPrefixes ex
         in (Inr (if 0 < length prefixes then Some prefixes else None),
             s\<lparr>srt_excludes := ex, srt_devmon := Running, srt_addrmon := Running, srt_life := Running\<rparr>)))"

definition SplitRouting_Stop :: "SplitRouting \<Rightarrow> SplitRouting outcome" where
  "SplitRouting_Stop s =
     (case life_Stop (srt_life s) of
        Returns l \<Rightarrow> Returns (s\<lparr>srt_life := l, srt_addrmon := Stopped, srt_devmon := Stopped\<rparr>)
      | Panics \<Rightarrow> Panics | Blocks \<Rightarrow> Blocks)"

record splitrt_State =
  st_Devices :: "dev_Update list"
  st_Addresses :: "addr_Update list"
  st_LocalExcludes :: "string list"
  st_StaticExcludes :: "string list"
  st_DynamicExcludes :: "string list"

definition SplitRouting_GetState :: "SplitRouting \<Rightarrow> splitrt_State" where
  "SplitRouting_GetState s =
     (let (static, dynamic) = Excludes_List (srt_excludes s) in
      \<lparr>st_Devices = Devices_List (srt_devices s),
       st_Addresses = Addresses_List (srt_addrs s),
       st_LocalExcludes = map prefix_String (srt_locals s),
       st_StaticExcludes = static,
       st_DynamicExcludes = dynamic\<rparr>)"

datatype splitrt_event =
    DeviceUpdate dev_Update
  | AddressUpdate addr_Update
  | DNSReport Report
  | ExcludesTimer

fun splitrt_handle :: "splitrt_event \<Rightarrow> SplitRouting \<Rightarrow> prefix list option \<times> SplitRouting" where
  "splitrt_handle (DeviceUpdate u) s = handleDeviceUpdate u s"
| "splitrt_handle (AddressUpdate u) s = handleAddressUpdate u s"
| "splitrt_handle (DNSReport r) s = handleDNSReport r s"
| "splitrt_handle ExcludesTimer s = handleTimer s"

text \<open>
  The main loop as a step relation, together with what its reader, the VPN setup, received last:
  the prefixes that are in the packet filter. The monitors deliver well-formed prefixes
  and the DNS proxy reports addresses without a zone.
\<close>

type_synonym splitrt_conf = "SplitRouting \<times> prefix list"

fun splitrt_event_ok :: "splitrt_event \<Rightarrow> bool" where
  "splitrt_event_ok (AddressUpdate u) = prefix_wf (au_Address u)"
| "splitrt_event_ok (DNSReport r) = (rep_IP r \<noteq> AddrZero \<and> addr_zone (rep_IP r) = '''')"
| "splitrt_event_ok _ = True"

inductive splitrt_step :: "splitrt_conf \<Rightarrow> splitrt_event \<Rightarrow> splitrt_conf \<Rightarrow> bool" where
  "splitrt_event_ok ev \<Longrightarrow> srt_life s = Running \<Longrightarrow> splitrt_handle ev s = (sent, s') \<Longrightarrow>
     splitrt_step (s, view) ev (s', case sent of None \<Rightarrow> view | Some ps \<Rightarrow> ps)"

inductive_cases splitrt_stepE: "splitrt_step (s, view) ev c"

definition splitrt_init :: "splitrt_conf \<Rightarrow> bool" where
  "splitrt_init c \<longleftrightarrow> (\<exists>vpn s sent. VPNConfig_wf vpn \<and>
     SplitRouting_Start True True (NewSplitRouting vpn) = (Inr sent, s) \<and>
     c = (s, case sent of None \<Rightarrow> [] | Some ps \<Rightarrow> ps))"

section \<open>Lemmas on local networks\<close>

definition addrs_wf :: "Addresses \<Rightarrow> bool" where
  "addrs_wf a \<longleftrightarrow> gm_wf a \<and> (\<forall>i. \<forall>u \<in> set (addrs_at a i). prefix_wf (au_Address u))"

lemma addrs_at_put: "addrs_at (gm_put k us a) i = (if i = k then us else addrs_at a i)"
  by (simp add: addrs_at_def)

lemma Addresses_Add_wf: "addrs_wf a \<Longrightarrow> prefix_wf (au_Address u) \<Longrightarrow> addrs_wf (Addresses_Add u a)"
  by (auto simp: addrs_wf_def Addresses_Add_def addrs_at_put)

lemma Addresses_Remove_wf: "addrs_wf a \<Longrightarrow> addrs_wf (Addresses_Remove u a)"
  by (auto simp: addrs_wf_def Addresses_Remove_def addrs_at_put)

lemma localNetworks_wf: "addrs_wf (srt_addrs s) \<Longrightarrow> p \<in> set (localNetworks s) \<Longrightarrow> prefix_wf p"
  by (auto simp: localNetworks_def Let_def Addresses_Get_def addrs_wf_def split: if_splits)

lemma addLocals_frame:
  assumes "static_inv (ex_s ex)" "\<forall>e \<in> set es. prefix_wf e"
  shows "static_inv (ex_s (snd (addLocals ls es (u, ex)))) \<and>
     ex_d (snd (addLocals ls es (u, ex))) = ex_d ex \<and>
     (u \<longrightarrow> fst (addLocals ls es (u, ex))) \<and>
     (\<not> fst (addLocals ls es (u, ex)) \<longrightarrow> snd (addLocals ls es (u, ex)) = ex)"
  using assms
proof (induction es arbitrary: u ex)
  case (Cons e es)
  obtain b ex' where r: "AddStatic ex e = (b, ex')" by (cases "AddStatic ex e")
  have inv: "static_inv (ex_s ex')" using Cons.prems AddStatic_static_inv [of ex e] by (simp add: r)
  have flag: "b \<or> ex' = ex" using Cons.prems AddStatic_flag [of ex e] by (cases b) (auto simp: r)
  have "ex_d ex' = ex_d ex" using AddStatic_frame [of ex e] by (simp add: r)
  with Cons.IH [OF inv, of "b \<or> u"] Cons.IH [of ex u] Cons.prems flag show ?case
    by (cases b; cases u) (simp_all add: r)
qed simp

lemma addLocals_cover:
  assumes "static_inv (ex_s ex)" "\<forall>e \<in> set es. prefix_wf e"
  shows "static_cover (ex_s (snd (addLocals ls es (u, ex)))) =
     static_cover (ex_s ex) \<union> (\<Union>e \<in> {e \<in> set es. \<not> isIn e ls}. prefix_set e)"
  using assms
proof (induction es arbitrary: u ex)
  case (Cons e es)
  let ?r = "AddStatic ex e"
  have inv: "static_inv (ex_s (snd ?r))" using Cons.prems AddStatic_static_inv by simp
  have "static_cover (ex_s (snd ?r)) = static_cover (ex_s ex) \<union> prefix_set e"
    using Cons.prems AddStatic_cover by simp
  with Cons.IH [OF inv, of "fst ?r \<or> u"] Cons.IH [of ex u] Cons.prems show ?case
    by (auto simp: split_beta)
qed simp

lemma removeLocals_frame:
  assumes "static_inv (ex_s ex)"
  shows "static_inv (ex_s (snd (removeLocals es ls (u, ex)))) \<and>
     ex_d (snd (removeLocals es ls (u, ex))) = ex_d ex \<and>
     (u \<longrightarrow> fst (removeLocals es ls (u, ex))) \<and>
     (\<not> fst (removeLocals es ls (u, ex)) \<longrightarrow> snd (removeLocals es ls (u, ex)) = ex)"
  using assms
proof (induction ls arbitrary: u ex)
  case (Cons l ls)
  obtain b ex' where r: "RemoveStatic ex l = (b, ex')" by (cases "RemoveStatic ex l")
  have inv: "static_inv (ex_s ex')" using Cons.prems RemoveStatic_static_inv [of ex l] by (simp add: r)
  have flag: "b \<or> ex' = ex" using r by (auto simp: RemoveStatic_def Let_def split: if_splits)
  have "ex_d ex' = ex_d ex" using RemoveStatic_frame [of ex l] by (simp add: r)
  with Cons.IH [OF inv, of "b \<or> u"] Cons.IH [of ex u] Cons.prems flag show ?case
    by (cases b; cases u) (simp_all add: r)
qed simp

text \<open>Removing local networks keeps every address that no removed network contains.\<close>

lemma RemoveStatic_cover_keeps:
  assumes inv: "static_inv (ex_s e)" and "prefix_wf l" and x: "x \<in> static_cover (ex_s e)" "x \<notin> prefix_set l"
  shows "x \<in> static_cover (ex_s (snd (RemoveStatic e l)))"
proof -
  obtain k v where v: "(k, v) \<in> set (ex_s e)" "x \<in> prefix_set v"
    using x(1) by (auto simp: static_cover_def)
  have "k \<noteq> prefix_String l"
  proof
    assume k: "k = prefix_String l"
    have wf: "prefix_wf v" "k = prefix_String v" using static_inv_key [OF inv v(1)] by auto
    have valid: "prefix_IsValid v" using v(2) prefix_set_invalid by fastforce
    show False
    proof (cases "prefix_IsValid l")
      case True
      then have "v = l" using static_key_of_valid [OF inv \<open>prefix_wf l\<close>] v(1) k by blast
      with v(2) x(2) show False by simp
    next
      case False
      then have "prefix_String l = ''invalid Prefix''" by (simp add: prefix_String_def)
      then show False using prefix_String_valid_neq_invalid wf valid k by metis
    qed
  qed
  with v show ?thesis unfolding static_cover_def RemoveStatic_set by force
qed

lemma removeLocals_cover_keeps:
  assumes "static_inv (ex_s ex)" "\<forall>l \<in> set ls. prefix_wf l"
    and "x \<in> static_cover (ex_s ex)" "\<forall>l \<in> set ls. \<not> isIn l es \<longrightarrow> x \<notin> prefix_set l"
  shows "x \<in> static_cover (ex_s (snd (removeLocals es ls (u, ex))))"
  using assms
proof (induction ls arbitrary: u ex)
  case (Cons l ls)
  let ?r = "RemoveStatic ex l"
  have inv: "static_inv (ex_s (snd ?r))" using Cons.prems RemoveStatic_static_inv by simp
  show ?case
  proof (cases "isIn l es")
    case False
    then have "x \<in> static_cover (ex_s (snd ?r))"
      using Cons.prems RemoveStatic_cover_keeps [of ex l x] by simp
    with Cons.IH [OF inv, of "fst ?r \<or> u"] Cons.prems False show ?thesis by (simp add: split_beta)
  next
    case True
    with Cons.IH [of ex u] Cons.prems show ?thesis by simp
  qed
qed simp

lemma prefix_String_eq:
  assumes "prefix_wf p" "prefix_wf q" "prefix_String p = prefix_String q"
  shows "prefix_set p = prefix_set q"
proof (cases "prefix_IsValid p \<and> prefix_IsValid q")
  case True
  then show ?thesis using assms prefix_String_inj by blast
next
  case False
  then have "\<not> prefix_IsValid p \<and> \<not> prefix_IsValid q"
    using assms prefix_String_valid_neq_invalid by (metis prefix_String_def)
  then show ?thesis by (simp add: prefix_set_invalid)
qed

text \<open>
  One update keeps every needed address excluded: the new local networks, and whatever was
  excluded before and lies in no local network that disappears.
\<close>

lemma updateLocals_split:
  assumes "fst (excludeLocalNetworks s)"
  shows "updateLocalNetworkExcludes s =
     (let r = removeLocals (localNetworks s) (srt_locals s)
            (addLocals (srt_locals s) (localNetworks s) (False, srt_excludes s))
      in (if fst r then Some (GetPrefixes (snd r)) else None,
          s\<lparr>srt_excludes := snd r, srt_locals := localNetworks s\<rparr>))"
  using assms by (simp add: updateLocalNetworkExcludes_def Let_def split_beta)

lemma addLocals_pair:
  obtains u ex where "addLocals ls es ue = (u, ex)" by (cases "addLocals ls es ue")

lemma updateLocals_cover:
  assumes on: "fst (excludeLocalNetworks s)"
    and inv: "static_inv (ex_s (srt_excludes s))" and wf: "addrs_wf (srt_addrs s)"
    and lwf: "\<forall>l \<in> set (srt_locals s). prefix_wf l"
    and x: "x \<in> static_cover (ex_s (srt_excludes s)) \<union> (\<Union>e \<in> set (localNetworks s). prefix_set e)"
    and old: "(\<Union>l \<in> set (srt_locals s). prefix_set l) \<subseteq> static_cover (ex_s (srt_excludes s))"
    and gone: "\<forall>l \<in> set (srt_locals s). \<not> isIn l (localNetworks s) \<longrightarrow> x \<notin> prefix_set l"
  shows "x \<in> static_cover (ex_s (srt_excludes (snd (updateLocalNetworkExcludes s))))"
proof -
  let ?es = "localNetworks s" and ?ls = "srt_locals s"
  have es: "\<forall>e \<in> set ?es. prefix_wf e" using localNetworks_wf [OF wf] by blast
  obtain u ex where ue: "addLocals ?ls ?es (False, srt_excludes s) = (u, ex)" by (rule addLocals_pair)
  have inv': "static_inv (ex_s ex)"
    using addLocals_frame [OF inv es, of ?ls False] by (simp add: ue)
  have sub: "prefix_set e \<subseteq> static_cover (ex_s (srt_excludes s))" if e: "e \<in> set ?es" "isIn e ?ls" for e
  proof -
    obtain l where l: "l \<in> set ?ls" "prefix_String e = prefix_String l" using e(2) unfolding isIn_def by blast
    then have "prefix_set e = prefix_set l" using prefix_String_eq es lwf e(1) by blast
    with l(1) old show ?thesis by blast
  qed
  have "static_cover (ex_s ex) = static_cover (ex_s (srt_excludes s)) \<union>
      (\<Union>e \<in> {e \<in> set ?es. \<not> isIn e ?ls}. prefix_set e)"
    using addLocals_cover [OF inv es, of ?ls False] by (simp add: ue)
  with x sub have "x \<in> static_cover (ex_s ex)" by blast
  from removeLocals_cover_keeps [OF inv' lwf this gone, of u]
  show ?thesis by (simp add: updateLocals_split [OF on] Let_def ue)
qed

lemma updateLocals_frame:
  assumes inv: "excludes_inv (srt_excludes s)" and wf: "addrs_wf (srt_addrs s)"
  shows "excludes_inv (srt_excludes (snd (updateLocalNetworkExcludes s)))"
    and "srt_addrs (snd (updateLocalNetworkExcludes s)) = srt_addrs s"
    and "srt_life (snd (updateLocalNetworkExcludes s)) = srt_life s"
    and "srt_vpn (snd (updateLocalNetworkExcludes s)) = srt_vpn s"
    and "fst (updateLocalNetworkExcludes s) =
       (if fst (updateLocalNetworkExcludes s) = None then None
        else Some (GetPrefixes (srt_excludes (snd (updateLocalNetworkExcludes s)))))"
    and "fst (updateLocalNetworkExcludes s) = None \<Longrightarrow>
       srt_excludes (snd (updateLocalNetworkExcludes s)) = srt_excludes s"
proof -
  have es: "\<forall>e \<in> set (localNetworks s). prefix_wf e" using localNetworks_wf [OF wf] by blast
  have s: "static_inv (ex_s (srt_excludes s))" using inv by (simp add: excludes_inv_def)
  obtain u ex where ue: "addLocals (srt_locals s) (localNetworks s) (False, srt_excludes s) = (u, ex)"
    by (rule addLocals_pair)
  note a = addLocals_frame [OF s es, of "srt_locals s" False, unfolded ue fst_conv snd_conv]
  then have "static_inv (ex_s ex)" by blast
  note r = removeLocals_frame [OF this, of "localNetworks s" "srt_locals s" u]
  have off: "updateLocalNetworkExcludes s = (None, s)" if "\<not> fst (excludeLocalNetworks s)"
    using that by (simp add: updateLocalNetworkExcludes_def)
  show "excludes_inv (srt_excludes (snd (updateLocalNetworkExcludes s)))"
  proof (cases "fst (excludeLocalNetworks s)")
    case True
    then show ?thesis using a r inv by (simp add: updateLocals_split ue Let_def excludes_inv_def)
  qed (simp add: off inv)
  show "fst (updateLocalNetworkExcludes s) = None \<Longrightarrow>
       srt_excludes (snd (updateLocalNetworkExcludes s)) = srt_excludes s"
  proof (cases "fst (excludeLocalNetworks s)")
    case True
    assume "fst (updateLocalNetworkExcludes s) = None"
    then have "\<not> fst (removeLocals (localNetworks s) (srt_locals s) (u, ex))"
      by (simp add: updateLocals_split [OF True] ue Let_def split: if_splits)
    with True a r show ?thesis by (cases u) (simp_all add: updateLocals_split ue Let_def)
  qed (simp add: off)
qed (auto simp: updateLocalNetworkExcludes_def Let_def split_beta)

section \<open>Invariant of the main loop\<close>

definition srt_inv :: "SplitRouting \<Rightarrow> bool" where
  "srt_inv s \<longleftrightarrow> excludes_inv (srt_excludes s) \<and> addrs_wf (srt_addrs s) \<and>
     (\<forall>l \<in> set (srt_locals s). prefix_wf l) \<and> srt_life s = Running"

definition current_cover :: "SplitRouting \<Rightarrow> addr set" where
  "current_cover s = prefixes_cover (GetPrefixes (srt_excludes s))"

definition splitrt_inv :: "splitrt_conf \<Rightarrow> bool" where
  "splitrt_inv c \<longleftrightarrow> srt_inv (fst c) \<and> current_cover (fst c) \<subseteq> prefixes_cover (snd c)"

text \<open>What a handler guarantees: the invariant, and that it sends what it has, or changed nothing.\<close>

definition handled :: "SplitRouting \<Rightarrow> prefix list option \<times> SplitRouting \<Rightarrow> bool" where
  "handled s r \<longleftrightarrow> srt_inv (snd r) \<and>
     (case fst r of Some ps \<Rightarrow> ps = GetPrefixes (srt_excludes (snd r))
      | None \<Rightarrow> current_cover (snd r) = current_cover s)"

lemma updateLocals_locals_wf:
  assumes "addrs_wf (srt_addrs s)" "\<forall>l \<in> set (srt_locals s). prefix_wf l"
  shows "\<forall>l \<in> set (srt_locals (snd (updateLocalNetworkExcludes s))). prefix_wf l"
  using assms localNetworks_wf
  by (auto simp: updateLocalNetworkExcludes_def Let_def split_beta)

lemma updateLocals_handled:
  assumes "srt_inv s"
  shows "handled s (updateLocalNetworkExcludes s)"
proof -
  have i: "excludes_inv (srt_excludes s)" "addrs_wf (srt_addrs s)"
    "\<forall>l \<in> set (srt_locals s). prefix_wf l" "srt_life s = Running"
    using assms by (simp_all add: srt_inv_def)
  note f = updateLocals_frame [OF i(1,2)]
  have "srt_inv (snd (updateLocalNetworkExcludes s))"
    unfolding srt_inv_def using f(1,2,3) i updateLocals_locals_wf [OF i(2,3)] by simp
  with f(5,6) show ?thesis by (auto simp: handled_def current_cover_def split: option.splits if_splits)
qed

lemma current_cover_frame [simp]:
  "current_cover (s\<lparr>srt_devices := d\<rparr>) = current_cover s"
  "current_cover (s\<lparr>srt_addrs := a\<rparr>) = current_cover s"
  by (simp_all add: current_cover_def)

lemma handled_devices: "handled (s\<lparr>srt_devices := d\<rparr>) r \<longleftrightarrow> handled s r"
  by (simp add: handled_def split: option.split)

lemma handled_addrs: "handled (s\<lparr>srt_addrs := d\<rparr>) r \<longleftrightarrow> handled s r"
  by (simp add: handled_def split: option.split)

lemma srt_inv_devices: "srt_inv s \<Longrightarrow> srt_inv (s\<lparr>srt_devices := d\<rparr>)"
  by (simp add: srt_inv_def)

lemma handled_None: "srt_inv s \<Longrightarrow> handled s (None, s)"
  by (simp add: handled_def)

lemma handleDeviceUpdate_handled:
  assumes "srt_inv s"
  shows "handled s (handleDeviceUpdate u s)"
proof -
  have "handled s (updateLocalNetworkExcludes (s\<lparr>srt_devices := d\<rparr>))" for d
    using updateLocals_handled [OF srt_inv_devices [OF assms], of d] handled_devices by blast
  with handled_None [OF assms] show ?thesis by (simp add: handleDeviceUpdate_def)
qed

lemma handleAddressUpdate_handled:
  assumes "srt_inv s" "prefix_wf (au_Address u)"
  shows "handled s (handleAddressUpdate u s)"
proof -
  have "handled s (updateLocalNetworkExcludes (s\<lparr>srt_addrs := a\<rparr>))" if "addrs_wf a" for a
    using updateLocals_handled [of "s\<lparr>srt_addrs := a\<rparr>"] assms that handled_addrs
    by (simp add: srt_inv_def)
  with assms show ?thesis
    by (simp add: handleAddressUpdate_def srt_inv_def Addresses_Add_wf Addresses_Remove_wf)
qed

lemma AddDynamic_unsignalled:
  assumes "excludes_inv e" "a \<noteq> AddrZero" "addr_zone a = ''''"
    "AddDynamic e (PrefixFrom a (int (BitLen a))) t = (False, e')"
  shows "prefixes_cover (GetPrefixes e') = prefixes_cover (GetPrefixes e)"
proof -
  have "excludes_inv e'" using AddDynamic_inv [OF assms(1), of "PrefixFrom a (int (BitLen a))" t] assms(4) by simp
  moreover have "ex_s e' = ex_s e" using AddDynamic_static [of e "PrefixFrom a (int (BitLen a))" t] assms(4) by simp
  ultimately show ?thesis
    using AddDynamic_flag [OF assms(1-3), of t] AddDynamic_dyn [OF assms(1-3), of t] assms(1,4)
    by (auto simp: GetPrefixes_cover split: if_splits)
qed

lemma handleDNSReport_handled:
  assumes "srt_inv s" "rep_IP r \<noteq> AddrZero" "addr_zone (rep_IP r) = ''''"
  shows "handled s (handleDNSReport r s)"
proof -
  let ?p = "PrefixFrom (rep_IP r) (int (BitLen (rep_IP r)))"
  obtain b ex where d: "AddDynamic (srt_excludes s) ?p (rep_TTL r) = (b, ex)"
    by (cases "AddDynamic (srt_excludes s) ?p (rep_TTL r)")
  have inv: "excludes_inv (srt_excludes s)" using assms(1) by (simp add: srt_inv_def)
  then have "excludes_inv ex" using AddDynamic_inv [of "srt_excludes s" ?p "rep_TTL r"] d by simp
  moreover have "current_cover (s\<lparr>srt_excludes := ex\<rparr>) = current_cover s" if "\<not> b"
    using AddDynamic_unsignalled [OF inv assms(2,3), of "rep_TTL r" ex] that d
    by (simp add: current_cover_def)
  ultimately show ?thesis
    using assms(1) by (auto simp: handleDNSReport_def Let_def d handled_def srt_inv_def)
qed

lemma cleanup_dyn_addrs: "dyn_addrs (snd (cleanup e)) \<subseteq> dyn_addrs e"
  using cleanup_loop_keys [of "ex_d e"] by (simp add: cleanup_eq dyn_addrs_def)

lemma handleTimer_inv:
  assumes "srt_inv s"
  shows "srt_inv (snd (handleTimer s))" "current_cover (snd (handleTimer s)) \<subseteq> current_cover s"
proof -
  have inv: "excludes_inv (srt_excludes s)" using assms by (simp add: srt_inv_def)
  then have inv': "excludes_inv (snd (cleanup (srt_excludes s)))" by (rule cleanup_inv)
  then show "srt_inv (snd (handleTimer s))" using assms by (simp add: handleTimer_def srt_inv_def)
  have "ex_s (snd (cleanup (srt_excludes s))) = ex_s (srt_excludes s)" by (simp add: cleanup_eq)
  then show "current_cover (snd (handleTimer s)) \<subseteq> current_cover s"
    using cleanup_dyn_addrs [of "srt_excludes s"]
    by (auto simp: current_cover_def handleTimer_def GetPrefixes_cover inv inv')
qed

lemma splitrt_handle_handled:
  assumes "srt_inv s" "splitrt_event_ok ev" "ev \<noteq> ExcludesTimer"
  shows "handled s (splitrt_handle ev s)"
  using assms handleDeviceUpdate_handled handleAddressUpdate_handled handleDNSReport_handled
  by (cases ev) auto

lemma handled_view:
  assumes "handled s (sent, s')"
  shows "srt_inv s'"
    and "current_cover s \<subseteq> prefixes_cover view \<Longrightarrow>
      current_cover s' \<subseteq> prefixes_cover (case sent of None \<Rightarrow> view | Some ps \<Rightarrow> ps)"
    and "current_cover s = prefixes_cover view \<Longrightarrow>
      current_cover s' = prefixes_cover (case sent of None \<Rightarrow> view | Some ps \<Rightarrow> ps)"
  using assms by (auto simp: handled_def current_cover_def split: option.splits)

lemma splitrt_step_inv:
  assumes "splitrt_inv c" "splitrt_step c ev c'"
  shows "splitrt_inv c'"
  using assms(2)
proof cases
  case (1 s sent s' view)
  with assms(1) have s: "srt_inv s" "current_cover s \<subseteq> prefixes_cover view" by (simp_all add: splitrt_inv_def)
  show ?thesis
  proof (cases "ev = ExcludesTimer")
    case True
    with 1 s handleTimer_inv [OF s(1)] show ?thesis by (auto simp: splitrt_inv_def handleTimer_def)
  next
    case False
    then have "handled s (sent, s')" using 1 s splitrt_handle_handled by metis
    from handled_view(1,2) [OF this] s(2) 1 show ?thesis by (simp add: splitrt_inv_def)
  qed
qed

text \<open>The excludes that starting installs.\<close>

lemma addConfigured_inv:
  assumes "excludes_inv ex" "\<forall>e \<in> set es. prefix_wf e"
  shows "excludes_inv (addConfigured skip es ex)"
  unfolding addConfigured_def
  by (rule foldl_invariant) (use assms AddStatic_static_inv in \<open>auto simp: excludes_inv_def\<close>)

lemma addConfigured_cover:
  assumes "excludes_inv ex" "\<forall>e \<in> set es. prefix_wf e"
  shows "static_cover (ex_s (addConfigured skip es ex)) =
     static_cover (ex_s ex) \<union> (\<Union>e \<in> {e \<in> set es. prefix_String e \<noteq> skip}. prefix_set e)"
  using assms
proof (induction es arbitrary: ex)
  case (Cons e es)
  have "excludes_inv (snd (AddStatic ex e))"
    using Cons.prems AddStatic_static_inv by (simp add: excludes_inv_def)
  with Cons.IH [of "snd (AddStatic ex e)"] Cons.IH [of ex] Cons.prems AddStatic_cover [of ex e]
  show ?case by (auto simp: addConfigured_def excludes_inv_def)
qed (simp add: addConfigured_def)

lemma addConfigured_frame [simp]: "ex_d (addConfigured skip es ex) = ex_d ex"
proof -
  have "ex_d (foldl (\<lambda>ex e. if prefix_String e = skip then ex else snd (AddStatic ex e)) ex' es) = ex_d ex'" for ex'
    by (induction es arbitrary: ex') auto
  then show ?thesis by (simp add: addConfigured_def)
qed

lemma initialExcludes_inv:
  assumes "VPNConfig_wf vpn"
  shows "excludes_inv (initialExcludes vpn NewExcludes)"
proof -
  have "excludes_inv (snd (AddStatic NewExcludes (PrefixFrom a n)))" for a n
    using AddStatic_static_inv [of NewExcludes "PrefixFrom a n"] NewExcludes_inv
    unfolding excludes_inv_def by simp
  with assms show ?thesis
    unfolding initialExcludes_def Let_def VPNConfig_wf_def by (auto intro!: addConfigured_inv)
qed

lemma prefixes_cover_Nil [simp]: "prefixes_cover [] = {}"
  by (simp add: prefixes_cover_def)

lemma splitrt_init_exact:
  assumes "splitrt_init c"
  shows "srt_inv (fst c) \<and> current_cover (fst c) = prefixes_cover (snd c)"
proof -
  from assms obtain vpn s sent where c: "VPNConfig_wf vpn"
    "SplitRouting_Start True True (NewSplitRouting vpn) = (Inr sent, s)"
    "c = (s, case sent of None \<Rightarrow> [] | Some ps \<Rightarrow> ps)" unfolding splitrt_init_def by blast
  have "addrs_wf NewAddresses" by (simp add: addrs_wf_def NewAddresses_def addrs_at_def)
  with c initialExcludes_inv [OF c(1)] show ?thesis
    by (auto simp: SplitRouting_Start_def NewSplitRouting_def Let_def srt_inv_def current_cover_def
        split: if_splits)
qed

interpretation srt: machine splitrt_init splitrt_step splitrt_inv
proof
  show "splitrt_inv c" if "splitrt_init c" for c
    using splitrt_init_exact [OF that] by (simp add: splitrt_inv_def)
qed (rule splitrt_step_inv)

lemma splitrt_run_exact:
  assumes "run splitrt_step c evs c'" "ExcludesTimer \<notin> set evs"
    "srt_inv (fst c)" "current_cover (fst c) = prefixes_cover (snd c)"
  shows "current_cover (fst c') = prefixes_cover (snd c')"
  using assms
proof (induction rule: run.induct)
  case (run_Cons c ev c1 evs c2)
  from run_Cons.hyps(1) have "srt_inv (fst c1) \<and> current_cover (fst c1) = prefixes_cover (snd c1)"
  proof cases
    case (1 s sent s' view)
    then have "handled s (sent, s')" using run_Cons.prems splitrt_handle_handled [of s ev] by auto
    from handled_view(1,3) [OF this] 1 run_Cons.prems show ?thesis by simp
  qed
  with run_Cons show ?case by simp
qed simp

lemma initialExcludes_cover:
  assumes "VPNConfig_wf vpn"
  shows "static_cover (ex_s (initialExcludes vpn NewExcludes)) =
     (if addr_IsValid (vpn_Gateway vpn) then {vpn_Gateway vpn} else {}) \<union>
     (\<Union>e \<in> {e \<in> set (slice_list (vs_ExcludeIPv4 (vpn_Split vpn))). prefix_String e \<noteq> ''0.0.0.0/32''}. prefix_set e) \<union>
     (\<Union>e \<in> {e \<in> set (slice_list (vs_ExcludeIPv6 (vpn_Split vpn))). prefix_String e \<noteq> ''::/128''}. prefix_set e)"
proof -
  let ?g = "PrefixFrom (vpn_Gateway vpn) (int (BitLen (vpn_Gateway vpn)))"
  let ?e0 = "if addr_IsValid (vpn_Gateway vpn) then snd (AddStatic NewExcludes ?g) else NewExcludes"
  have new: "static_inv (ex_s NewExcludes)" "static_cover (ex_s NewExcludes) = {}"
    by (simp_all add: NewExcludes_def static_cover_def)
  have wf: "\<forall>e \<in> set (slice_list (vs_ExcludeIPv4 (vpn_Split vpn))). prefix_wf e"
    "\<forall>e \<in> set (slice_list (vs_ExcludeIPv6 (vpn_Split vpn))). prefix_wf e"
    "addr_zone (vpn_Gateway vpn) = ''''"
    using assms by (auto simp: VPNConfig_wf_def)
  have i0: "excludes_inv ?e0"
    using AddStatic_static_inv [OF new(1), of ?g] NewExcludes_inv by (simp add: excludes_inv_def)
  have c0: "static_cover (ex_s ?e0) = (if addr_IsValid (vpn_Gateway vpn) then {vpn_Gateway vpn} else {})"
    using AddStatic_cover [OF new(1), of ?g] new(2) wf(3) by (simp add: prefix_set_single addr_IsValid_def)
  have i1: "excludes_inv (addConfigured ''0.0.0.0/32'' (slice_list (vs_ExcludeIPv4 (vpn_Split vpn))) ?e0)"
    using i0 wf(1) by (rule addConfigured_inv)
  show ?thesis
    unfolding initialExcludes_def Let_def addConfigured_cover [OF i1 wf(2)]
      addConfigured_cover [OF i0 wf(1)] c0 ..
qed

section \<open>Properties\<close>

text \<open>
  Starting split routing excludes exactly the gateway, when it is valid, and the configured
  networks other than the two markers, and sends these prefixes if there are any.
\<close>

lemma SplitRouting_Start_cover:
  assumes "VPNConfig_wf vpn"
  shows "\<exists>s. snd (SplitRouting_Start True True (NewSplitRouting vpn)) = s \<and>
     fst (SplitRouting_Start True True (NewSplitRouting vpn)) =
       Inr (if GetPrefixes (srt_excludes s) = [] then None else Some (GetPrefixes (srt_excludes s))) \<and>
     current_cover s =
       (if addr_IsValid (vpn_Gateway vpn) then {vpn_Gateway vpn} else {}) \<union>
       (\<Union>e \<in> {e \<in> set (slice_list (vs_ExcludeIPv4 (vpn_Split vpn))). prefix_String e \<noteq> ''0.0.0.0/32''}. prefix_set e) \<union>
       (\<Union>e \<in> {e \<in> set (slice_list (vs_ExcludeIPv6 (vpn_Split vpn))). prefix_String e \<noteq> ''::/128''}. prefix_set e)"
proof -
  let ?ex = "initialExcludes vpn NewExcludes"
  have "dyn_addrs ?ex = {}"
    unfolding initialExcludes_def Let_def dyn_addrs_def addConfigured_frame
    by (simp add: NewExcludes_def)
  then have "prefixes_cover (GetPrefixes ?ex) = static_cover (ex_s ?ex)"
    using GetPrefixes_cover [OF initialExcludes_inv [OF assms]] by simp
  then show ?thesis
    by (simp add: SplitRouting_Start_def NewSplitRouting_def Let_def current_cover_def
        initialExcludes_cover [OF assms])
qed

definition example_vpn :: VPNConfig where
  "example_vpn = VPNConfig_zero
     \<lparr>vpn_Gateway := IP4 0xc0000201,
      vpn_Device := \<lparr>vd_Name = ''oc-daemon-tun0'', vd_MTU = 1300\<rparr>,
      vpn_Split := \<lparr>vs_ExcludeIPv4 = Some [PrefixFrom (IP4 0) 32, net10_1], vs_ExcludeIPv6 = None,
        vs_ExcludeDNS = None, vs_ExcludeVirtualSubnetsOnlyIPv4 = False\<rparr>\<rparr>"

lemma example_vpn_wf: "VPNConfig_wf example_vpn"
  by code_simp

text \<open>
  C16: In every reachable state of the main loop the static excludes are pairwise disjoint and
  the prefixes that the VPN setup received last cover everything that is excluded now.
\<close>

theorem splitrt_view_covers:
  assumes "reach splitrt_init splitrt_step (s, view)"
  shows "excludes_inv (srt_excludes s) \<and> current_cover s \<subseteq> prefixes_cover view"
  using srt.reach_inv [OF assms] by (simp add: splitrt_inv_def srt_inv_def)

definition example_srt :: splitrt_conf where
  "example_srt = (let (r, s) = SplitRouting_Start True True (NewSplitRouting example_vpn) in
     (s, case r of Inr (Some ps) \<Rightarrow> ps | _ \<Rightarrow> []))"

lemma example_srt_init: "splitrt_init example_srt"
  using example_vpn_wf
  by (force simp: splitrt_init_def example_srt_def Let_def split_beta SplitRouting_Start_def
      split: option.splits)

theorem splitrt_view_covers_witness:
  "current_cover (fst example_srt) \<subseteq> prefixes_cover (snd example_srt)"
proof -
  have "reach splitrt_init splitrt_step (fst example_srt, snd example_srt)"
    using example_srt_init by auto
  from splitrt_view_covers [OF this] show ?thesis by blast
qed

text \<open>
  C15: As long as no cleanup timer fires, the prefixes that the VPN setup received last exclude
  exactly the addresses that are excluded now: every change is signalled.
\<close>

theorem splitrt_view_exact:
  assumes "splitrt_init c" "run splitrt_step c evs (s, view)" "ExcludesTimer \<notin> set evs"
  shows "current_cover s = prefixes_cover view"
  using splitrt_run_exact [OF assms(2,3)] splitrt_init_exact [OF assms(1)] by simp

definition example_report :: Report where
  "example_report = NewReport ''example.org.'' (IP4 0xc6336401) 60"

definition after_report :: splitrt_conf where
  "after_report = (let (sent, s) = handleDNSReport example_report (fst example_srt) in
     (s, case sent of None \<Rightarrow> snd example_srt | Some ps \<Rightarrow> ps))"

lemma example_srt_running: "srt_life (fst example_srt) = Running"
  by (simp add: example_srt_def SplitRouting_Start_def Let_def split_beta)

lemma after_report_step: "splitrt_step example_srt (DNSReport example_report) after_report"
proof -
  have "splitrt_step (fst example_srt, snd example_srt) (DNSReport example_report)
     (snd (handleDNSReport example_report (fst example_srt)),
      case fst (handleDNSReport example_report (fst example_srt)) of None \<Rightarrow> snd example_srt | Some ps \<Rightarrow> ps)"
    by (rule splitrt_step.intros) (simp_all add: example_srt_running example_report_def NewReport_def)
  then show ?thesis by (simp add: after_report_def Let_def split_beta)
qed

theorem splitrt_view_exact_witness:
  "current_cover (fst after_report) = prefixes_cover (snd after_report)"
proof -
  have "run splitrt_step example_srt [DNSReport example_report] (fst after_report, snd after_report)"
    using after_report_step by auto
  from splitrt_view_exact [OF example_srt_init this] show ?thesis by simp
qed

text \<open>
  An update of the local networks leaves every current local network excluded, and every
  address excluded before except those of networks that disappeared, provided no address of a
  vanished network is needed by a remaining one.
\<close>

lemma local_networks_excluded:
  assumes "srt_inv s" "fst (excludeLocalNetworks s)"
    and "(\<Union>l \<in> set (srt_locals s). prefix_set l) \<subseteq> static_cover (ex_s (srt_excludes s))"
    and "\<forall>l \<in> set (srt_locals s). \<forall>e \<in> set (localNetworks s).
       \<not> isIn l (localNetworks s) \<longrightarrow> prefix_set l \<inter> prefix_set e = {}"
  shows "(\<Union>e \<in> set (localNetworks s). prefix_set e) \<union>
      (static_cover (ex_s (srt_excludes s)) -
        (\<Union>l \<in> {l \<in> set (srt_locals s). \<not> isIn l (localNetworks s)}. prefix_set l))
    \<subseteq> static_cover (ex_s (srt_excludes (snd (updateLocalNetworkExcludes s))))"
proof
  fix x
  assume x: "x \<in> (\<Union>e \<in> set (localNetworks s). prefix_set e) \<union>
      (static_cover (ex_s (srt_excludes s)) -
        (\<Union>l \<in> {l \<in> set (srt_locals s). \<not> isIn l (localNetworks s)}. prefix_set l))"
  have inv: "static_inv (ex_s (srt_excludes s))" "addrs_wf (srt_addrs s)"
    "\<forall>l \<in> set (srt_locals s). prefix_wf l"
    using assms(1) by (simp_all add: srt_inv_def excludes_inv_def)
  show "x \<in> static_cover (ex_s (srt_excludes (snd (updateLocalNetworkExcludes s))))"
    by (rule updateLocals_cover [OF assms(2) inv _ assms(3)]) (use x assms(4) in blast)+
qed

definition eth0 :: dev_Update where
  "eth0 = \<lparr>du_Add = True, du_Device = ''eth0'', du_Type = ''device'', du_Index = 2\<rparr>"

definition addr_up :: "bool \<Rightarrow> prefix \<Rightarrow> addr_Update" where
  "addr_up add p = \<lparr>au_Add = add, au_Address = p, au_Index = 2\<rparr>"

definition lan_srt :: SplitRouting where
  "lan_srt = (snd (SplitRouting_Start True True (NewSplitRouting example_vpn)))
     \<lparr>srt_devices := [(2, eth0)], srt_addrs := [(2, [addr_up True net10])]\<rparr>"

definition nested_lan_events :: "splitrt_event list" where
  "nested_lan_events =
     [DeviceUpdate eth0, AddressUpdate (addr_up True net10),
      AddressUpdate (addr_up True (PrefixFrom (IP4 0x0a020000) 16)),
      AddressUpdate (addr_up False net10)]"

definition nested_lan :: SplitRouting where
  "nested_lan = foldl (\<lambda>s ev. snd (splitrt_handle ev s)) (fst example_srt) nested_lan_events"

text \<open>
  Without the proviso of the previous property excludes are lost: with 10.1.0.0/16 configured
  as an exclude, after the networks 10.0.0.0/8 and 10.2.0.0/16 appear on a device and the former
  disappears, 10.2.0.0/16 is still a local network of the device, but neither its addresses nor
  those of the configured exclude are excluded.
\<close>

lemma nested_local_network_lost:
  "srt_locals nested_lan = [PrefixFrom (IP4 0x0a020000) 16] \<and>
   \<not> (\<exists>p \<in> set (GetPrefixes (srt_excludes nested_lan)). Contains p (IP4 0x0a020001)) \<and>
   net10_1 \<in> set (slice_list (vs_ExcludeIPv4 (vpn_Split (srt_vpn nested_lan)))) \<and>
   \<not> (\<exists>p \<in> set (GetPrefixes (srt_excludes nested_lan)). Contains p (IP4 0x0a010001))"
  by code_simp

definition expired_report :: splitrt_conf where
  "expired_report = (snd (handleTimer (snd (handleTimer (fst after_report)))), snd after_report)"

text \<open>
  The cleanup timer drops expired dynamic excludes without sending the remaining prefixes:
  the address of a report with a time to live of 60 seconds is no longer excluded in the state
  after two cleanups, but still among the prefixes in the packet filter.
\<close>

lemma expired_exclude_stays_in_filter:
  "run splitrt_step example_srt [DNSReport example_report, ExcludesTimer, ExcludesTimer] expired_report \<and>
   \<not> (\<exists>p \<in> set (GetPrefixes (srt_excludes (fst expired_report))). Contains p (rep_IP example_report)) \<and>
   (\<exists>p \<in> set (snd expired_report). Contains p (rep_IP example_report))"
proof (intro conjI)
  have t: "splitrt_step (s, view) ExcludesTimer (snd (handleTimer s), view)" if "srt_life s = Running" for s view
    using splitrt_step.intros [of ExcludesTimer s None "snd (handleTimer s)" view] that
    by (simp add: handleTimer_def)
  have "srt_life (fst after_report) = Running" "srt_life (snd (handleTimer (fst after_report))) = Running"
    by (simp_all add: after_report_def handleDNSReport_def handleTimer_def Let_def split_beta example_srt_running)
  with t [of "fst after_report" "snd after_report"] t [of "snd (handleTimer (fst after_report))" "snd after_report"]
  have "run splitrt_step after_report [ExcludesTimer, ExcludesTimer] expired_report"
    unfolding expired_report_def by auto
  with after_report_step
  show "run splitrt_step example_srt [DNSReport example_report, ExcludesTimer, ExcludesTimer] expired_report"
    by blast
  show "\<not> (\<exists>p \<in> set (GetPrefixes (srt_excludes (fst expired_report))). Contains p (rep_IP example_report))"
    "\<exists>p \<in> set (snd expired_report). Contains p (rep_IP example_report)" by code_simp+
qed

end
