(* ===== verification/DNSProxy.thy ===== *)
theory DNSProxy
  imports Monitors Aging DaemonCfg
begin

text \<open>
  The DNS proxy (\<^verbatim>\<open>internal/dnsproxy\<close>): the remote servers by domain, the watched domains with
  the temporary watches of CNAME and DNAME targets, and the handler of a client's request. Two
  functions of the DNS library are arguments: whether a string is a domain name, and the start
  indexes of its labels, nil for the root. So are the exchange with the remote server
  and the random number that picks it. A request is handled as one step: concurrent requests and
  the cleanup of temporary watches are serialised by the mutex of the watches, and the
  handler's steps only add watches.
\<close>

section \<open>Remotes\<close>

type_synonym Remotes = "(string, string list) gomap"

definition NewRemotes :: Remotes where
  "NewRemotes = []"

definition Remotes_Add :: "string \<Rightarrow> string list \<Rightarrow> Remotes \<Rightarrow> Remotes" where
  "Remotes_Add domain servers r = gm_put domain servers r"

definition Remotes_Remove :: "string \<Rightarrow> Remotes \<Rightarrow> Remotes" where
  "Remotes_Remove domain r = gm_del domain r"

definition Remotes_Flush :: "Remotes \<Rightarrow> Remotes" where
  "Remotes_Flush r = []"

text \<open>Indexing a map of slices: nil, the empty list, for a missing key.\<close>

definition servers_of :: "Remotes \<Rightarrow> string \<Rightarrow> string list" where
  "servers_of r d = (case gm_get r d of None \<Rightarrow> [] | Some s \<Rightarrow> s)"

fun Remotes_Get_loop :: "Remotes \<Rightarrow> string \<Rightarrow> nat list \<Rightarrow> string list" where
  "Remotes_Get_loop r domain [] = servers_of r ''.''"
| "Remotes_Get_loop r domain (i # is) =
     (let s = servers_of r (drop i domain) in
      if length s \<noteq> 0 then s else Remotes_Get_loop r domain is)"

definition Remotes_Get ::
  "(string \<Rightarrow> bool) \<Rightarrow> (string \<Rightarrow> nat list) \<Rightarrow> Remotes \<Rightarrow> string \<Rightarrow> string list" where
  "Remotes_Get isDomainName dnsSplit r domain =
     (if \<not> isDomainName domain then servers_of r ''.''
      else if dnsSplit domain = [] then servers_of r ''.''
      else Remotes_Get_loop r domain (dnsSplit domain))"

definition Remotes_List :: "Remotes \<Rightarrow> Remotes" where
  "Remotes_List r =
     foldl (\<lambda>remotes (k, v). gm_put k (servers_of remotes k @ v) remotes) [] r"

section \<open>Watches\<close>

definition tempWatchCleanInterval :: u32 where
  "tempWatchCleanInterval = 10"

record tempWatch =
  tw_ttl :: u32
  tw_updated :: bool

record Watches =
  w_m :: "(string, bool) gomap"
  w_c :: "(string, tempWatch) gomap"
  w_d :: "(string, tempWatch) gomap"
  w_life :: life

definition NewWatches :: Watches where
  "NewWatches = \<lparr>w_m = [], w_c = [], w_d = [], w_life = Running\<rparr>"

definition Watches_Add :: "string \<Rightarrow> Watches \<Rightarrow> Watches" where
  "Watches_Add domain w = w\<lparr>w_m := gm_put domain True (w_m w)\<rparr>"

definition AddTempCNAME :: "string \<Rightarrow> u32 \<Rightarrow> Watches \<Rightarrow> Watches" where
  "AddTempCNAME domain ttl w = w\<lparr>w_c := gm_put domain \<lparr>tw_ttl = ttl, tw_updated = True\<rparr> (w_c w)\<rparr>"

definition AddTempDNAME :: "string \<Rightarrow> u32 \<Rightarrow> Watches \<Rightarrow> Watches" where
  "AddTempDNAME domain ttl w = w\<lparr>w_d := gm_put domain \<lparr>tw_ttl = ttl, tw_updated = True\<rparr> (w_d w)\<rparr>"

definition Watches_Remove :: "string \<Rightarrow> Watches \<Rightarrow> Watches" where
  "Watches_Remove domain w =
     w\<lparr>w_m := gm_del domain (w_m w), w_c := gm_del domain (w_c w), w_d := gm_del domain (w_d w)\<rparr>"

fun cleanTemp_loop :: "u32 \<Rightarrow> (string, tempWatch) gomap \<Rightarrow> (string, tempWatch) gomap" where
  "cleanTemp_loop interval [] = []"
| "cleanTemp_loop interval ((d, t) # r) =
     (if tw_updated t then (d, t\<lparr>tw_updated := False\<rparr>) # cleanTemp_loop interval r
      else if tw_ttl t < interval then cleanTemp_loop interval r
      else (d, t\<lparr>tw_ttl := tw_ttl t - interval\<rparr>) # cleanTemp_loop interval r)"

definition cleanTemp :: "u32 \<Rightarrow> Watches \<Rightarrow> Watches" where
  "cleanTemp interval w =
     w\<lparr>w_c := cleanTemp_loop interval (w_c w), w_d := cleanTemp_loop interval (w_d w)\<rparr>"

text \<open>The goroutine of the watches: one round of its timer.\<close>

definition cleanTempWatches :: "Watches \<Rightarrow> Watches" where
  "cleanTempWatches w = (if w_life w = Running then cleanTemp tempWatchCleanInterval w else w)"

definition Watches_Flush :: "Watches \<Rightarrow> Watches" where
  "Watches_Flush w = w\<lparr>w_m := [], w_c := [], w_d := []\<rparr>"

fun Watches_Contains_loop :: "Watches \<Rightarrow> string \<Rightarrow> nat list \<Rightarrow> bool" where
  "Watches_Contains_loop w domain [] = False"
| "Watches_Contains_loop w domain (i # is) =
     (let d = drop i domain in
      if gm_get (w_m w) d = Some True \<or> gm_get (w_d w) d \<noteq> None then True
      else Watches_Contains_loop w domain is)"

definition Watches_Contains ::
  "(string \<Rightarrow> bool) \<Rightarrow> (string \<Rightarrow> nat list) \<Rightarrow> Watches \<Rightarrow> string \<Rightarrow> bool" where
  "Watches_Contains isDomainName dnsSplit w domain =
     (if \<not> isDomainName domain then False
      else if dnsSplit domain = [] then False
      else if gm_get (w_c w) domain \<noteq> None then True
      else Watches_Contains_loop w domain (dnsSplit domain))"

definition Watches_List :: "Watches \<Rightarrow> string list \<times> string list" where
  "Watches_List w = (map fst (w_m w), map fst (w_c w) @ map fst (w_d w))"

definition Watches_Close :: "Watches \<Rightarrow> Watches outcome" where
  "Watches_Close w =
     (case life_Stop (w_life w) of Returns l \<Rightarrow> Returns (w\<lparr>w_life := l\<rparr>)
      | Panics \<Rightarrow> Panics | Blocks \<Rightarrow> Blocks)"

section \<open>Resource records and the request handler\<close>

text \<open>The dynamic type of a resource record with the data the code reads of it.\<close>

datatype rdata = RA "u8 list" | RAAAA "u8 list" | RCNAME string | RDNAME string | ROther

record rr =
  rr_Name :: string
  rr_Rrtype :: u16
  rr_Ttl :: u32
  rr_data :: rdata

abbreviation TypeA :: u16 where "TypeA \<equiv> 1"
abbreviation TypeCNAME :: u16 where "TypeCNAME \<equiv> 5"
abbreviation TypeAAAA :: u16 where "TypeAAAA \<equiv> 28"
abbreviation TypeDNAME :: u16 where "TypeDNAME \<equiv> 39"

text \<open>What the handler does for the outside: reports it sends and waits for, the reply it writes.\<close>

datatype proxy_out = SendReport Report | WriteReply "rr list"

definition handleDNAME :: "rr \<Rightarrow> Watches \<Rightarrow> Watches" where
  "handleDNAME a w = (case rr_data a of RDNAME target \<Rightarrow> AddTempDNAME target (rr_Ttl a) w | _ \<Rightarrow> w)"

definition handleCNAME :: "rr \<Rightarrow> Watches \<Rightarrow> Watches" where
  "handleCNAME a w = (case rr_data a of RCNAME target \<Rightarrow> AddTempCNAME target (rr_Ttl a) w | _ \<Rightarrow> w)"

definition handleA :: "rr \<Rightarrow> proxy_out list" where
  "handleA a =
     (case rr_data a of
        RA ip \<Rightarrow>
          (case AddrFromSlice (To4 ip) of None \<Rightarrow> []
           | Some addr \<Rightarrow> [SendReport (NewReport (rr_Name a) addr (rr_Ttl a))])
      | _ \<Rightarrow> [])"

definition handleAAAA :: "rr \<Rightarrow> proxy_out list" where
  "handleAAAA a =
     (case rr_data a of
        RAAAA ip \<Rightarrow>
          (case AddrFromSlice ip of None \<Rightarrow> []
           | Some addr \<Rightarrow> [SendReport (NewReport (rr_Name a) addr (rr_Ttl a))])
      | _ \<Rightarrow> [])"

text \<open>The three passes over the answers, by the record types that each pass handles.\<close>

fun passDNAME :: "(Watches \<Rightarrow> string \<Rightarrow> bool) \<Rightarrow> rr list \<Rightarrow> Watches \<Rightarrow> Watches" where
  "passDNAME contains [] w = w"
| "passDNAME contains (a # as) w =
     (if \<not> contains w (rr_Name a) then passDNAME contains as w
      else if rr_Rrtype a = TypeDNAME then passDNAME contains as (handleDNAME a w)
      else passDNAME contains as w)"

fun passCNAME :: "(Watches \<Rightarrow> string \<Rightarrow> bool) \<Rightarrow> rr list \<Rightarrow> Watches \<Rightarrow> Watches" where
  "passCNAME contains [] w = w"
| "passCNAME contains (a # as) w =
     (if \<not> contains w (rr_Name a) then passCNAME contains as w
      else if rr_Rrtype a = TypeCNAME then passCNAME contains as (handleCNAME a w)
      else passCNAME contains as w)"

fun passAddrs :: "(Watches \<Rightarrow> string \<Rightarrow> bool) \<Rightarrow> rr list \<Rightarrow> Watches \<Rightarrow> proxy_out list" where
  "passAddrs contains [] w = []"
| "passAddrs contains (a # as) w =
     (if \<not> contains w (rr_Name a) then passAddrs contains as w
      else if rr_Rrtype a = TypeA then handleA a @ passAddrs contains as w
      else if rr_Rrtype a = TypeAAAA then handleAAAA a @ passAddrs contains as w
      else passAddrs contains as w)"

record Proxy =
  px_config :: DNSProxyConfig
  px_udp :: bool
  px_tcp :: bool
  px_remotes :: Remotes
  px_watches :: Watches
  px_life :: life

text \<open>
  The question names of the request, the random number and the exchange with a remote server
  are arguments: the exchange yields the answers of the reply, or nothing on an error.
\<close>

definition handleRequest ::
  "(string \<Rightarrow> bool) \<Rightarrow> (string \<Rightarrow> nat list) \<Rightarrow> nat \<Rightarrow> (string \<Rightarrow> rr list option) \<Rightarrow> string list \<Rightarrow>
   Proxy \<Rightarrow> proxy_out list \<times> Proxy" where
  "handleRequest isDomainName dnsSplit rand exchange questions p =
     (if length questions \<noteq> 1 then ([], p)
      else
        (let remotes = Remotes_Get isDomainName dnsSplit (px_remotes p) (hd questions) in
         if length remotes = 0 then ([], p)
         else
           (case exchange (remotes ! (rand mod length remotes)) of
              None \<Rightarrow> ([], p)
            | Some answer \<Rightarrow>
                (let contains = Watches_Contains isDomainName dnsSplit;
                     w1 = passDNAME contains answer (px_watches p);
                     w2 = passCNAME contains answer w1
                 in (passAddrs contains answer w2 @ [WriteReply answer], p\<lparr>px_watches := w2\<rparr>)))))"

definition NewProxy :: "DNSProxyConfig \<Rightarrow> Proxy" where
  "NewProxy config =
     \<lparr>px_config = config, px_udp = dp_ListenUDP config, px_tcp = dp_ListenTCP config,
      px_remotes = NewRemotes, px_watches = NewWatches, px_life = NotStarted\<rparr>"

definition Proxy_Start :: "Proxy \<Rightarrow> Proxy" where
  "Proxy_Start p = p\<lparr>px_life := Running\<rparr>"

definition Proxy_Stop :: "Proxy \<Rightarrow> Proxy outcome" where
  "Proxy_Stop p =
     (case life_Stop (px_life p) of
        Returns l \<Rightarrow>
          (case Watches_Close (px_watches p) of
             Returns w \<Rightarrow> Returns (p\<lparr>px_life := l, px_watches := w\<rparr>)
           | Panics \<Rightarrow> Panics | Blocks \<Rightarrow> Blocks)
      | Panics \<Rightarrow> Panics | Blocks \<Rightarrow> Blocks)"

definition SetRemotes :: "Remotes \<Rightarrow> Proxy \<Rightarrow> Proxy" where
  "SetRemotes remotes p =
     p\<lparr>px_remotes := foldl (\<lambda>r (d, s). Remotes_Add d s r) (Remotes_Flush (px_remotes p)) remotes\<rparr>"

definition SetWatches :: "string list \<Rightarrow> Proxy \<Rightarrow> Proxy" where
  "SetWatches watches p =
     p\<lparr>px_watches := foldl (\<lambda>w d. Watches_Add d w) (Watches_Flush (px_watches p)) watches\<rparr>"

record dnsproxy_State =
  dps_Remotes :: Remotes
  dps_Watches :: "string list"
  dps_TempWatches :: "string list"

definition Proxy_GetState :: "Proxy \<Rightarrow> dnsproxy_State" where
  "Proxy_GetState p =
     (let (watches, tempWatches) = Watches_List (px_watches p) in
      \<lparr>dps_Remotes = Remotes_List (px_remotes p), dps_Watches = watches, dps_TempWatches = tempWatches\<rparr>)"

section \<open>Lemmas on names\<close>

lemma Remotes_Get_loop_find:
  "Remotes_Get_loop r d is =
     (case find (\<lambda>i. servers_of r (drop i d) \<noteq> []) is of
        None \<Rightarrow> servers_of r ''.'' | Some i \<Rightarrow> servers_of r (drop i d))"
  by (induction "is") (auto simp: Let_def)

lemma find_sorted_least:
  assumes "find P xs = Some x" "sorted xs" "y \<in> set xs" "P y"
  shows "x \<le> (y :: nat)"
  using assms by (induction xs) (auto split: if_splits)

lemma Watches_Contains_loop_iff:
  "Watches_Contains_loop w d is \<longleftrightarrow>
     (\<exists>i \<in> set is. gm_get (w_m w) (drop i d) = Some True \<or> gm_get (w_d w) (drop i d) \<noteq> None)"
  by (induction "is") (auto simp: Let_def)

lemma Watches_Contains_iff:
  "Watches_Contains idn spl w d \<longleftrightarrow> idn d \<and> spl d \<noteq> [] \<and>
     (gm_get (w_c w) d \<noteq> None \<or>
      (\<exists>i \<in> set (spl d). gm_get (w_m w) (drop i d) = Some True \<or> gm_get (w_d w) (drop i d) \<noteq> None))"
  by (simp add: Watches_Contains_def Watches_Contains_loop_iff)

lemma AddTempCNAME_sel [simp]:
  "w_m (AddTempCNAME t n w) = w_m w" "w_d (AddTempCNAME t n w) = w_d w"
  "gm_get (w_c (AddTempCNAME t n w)) k =
     (if k = t then Some \<lparr>tw_ttl = n, tw_updated = True\<rparr> else gm_get (w_c w) k)"
  by (simp_all add: AddTempCNAME_def)

lemma AddTempDNAME_sel [simp]:
  "w_m (AddTempDNAME t n w) = w_m w" "w_c (AddTempDNAME t n w) = w_c w"
  "gm_get (w_d (AddTempDNAME t n w)) k =
     (if k = t then Some \<lparr>tw_ttl = n, tw_updated = True\<rparr> else gm_get (w_d w) k)"
  by (simp_all add: AddTempDNAME_def)

text \<open>Handling a request only adds watches.\<close>

definition watches_le :: "Watches \<Rightarrow> Watches \<Rightarrow> bool" where
  "watches_le w w' \<longleftrightarrow> w_m w' = w_m w \<and>
     (\<forall>k. gm_get (w_c w) k \<noteq> None \<longrightarrow> gm_get (w_c w') k \<noteq> None) \<and>
     (\<forall>k. gm_get (w_d w) k \<noteq> None \<longrightarrow> gm_get (w_d w') k \<noteq> None)"

lemma watches_le_refl [simp]: "watches_le w w"
  by (simp add: watches_le_def)

lemma watches_le_trans: "watches_le a b \<Longrightarrow> watches_le b c \<Longrightarrow> watches_le a c"
  by (simp add: watches_le_def)

lemma watches_le_Contains:
  "watches_le w w' \<Longrightarrow> Watches_Contains idn spl w d \<Longrightarrow> Watches_Contains idn spl w' d"
  unfolding watches_le_def Watches_Contains_iff by metis

lemma handleDNAME_le: "watches_le w (handleDNAME a w)"
  by (cases "rr_data a") (auto simp: handleDNAME_def watches_le_def)

lemma handleCNAME_le: "watches_le w (handleCNAME a w)"
  by (cases "rr_data a") (auto simp: handleCNAME_def watches_le_def)

lemma passDNAME_le: "watches_le w (passDNAME con as w)"
  by (induction con as w rule: passDNAME.induct) (auto intro: watches_le_trans [OF handleDNAME_le])

lemma passCNAME_le: "watches_le w (passCNAME con as w)"
  by (induction con as w rule: passCNAME.induct) (auto intro: watches_le_trans [OF handleCNAME_le])

text \<open>The address records that are reported.\<close>

definition addr_report :: "rr \<Rightarrow> Report option" where
  "addr_report a =
     (case rr_data a of
        RA ip \<Rightarrow> if rr_Rrtype a = TypeA
          then map_option (\<lambda>x. NewReport (rr_Name a) x (rr_Ttl a)) (AddrFromSlice (To4 ip)) else None
      | RAAAA ip \<Rightarrow> if rr_Rrtype a = TypeAAAA
          then map_option (\<lambda>x. NewReport (rr_Name a) x (rr_Ttl a)) (AddrFromSlice ip) else None
      | _ \<Rightarrow> None)"

lemma passAddrs_eq:
  "passAddrs con as w =
     map SendReport (List.map_filter addr_report (filter (\<lambda>a. con w (rr_Name a)) as))"
proof (induction as)
  case (Cons a as)
  show ?case
  proof (cases "rr_data a")
    case (RA ip)
    with Cons show ?thesis
      by (cases "AddrFromSlice (To4 ip)") (simp_all add: handleA_def handleAAAA_def addr_report_def List.map_filter_def)
  next
    case (RAAAA ip)
    with Cons show ?thesis
      by (cases "AddrFromSlice ip") (simp_all add: handleA_def handleAAAA_def addr_report_def List.map_filter_def)
  qed (use Cons in \<open>simp_all add: handleA_def handleAAAA_def addr_report_def List.map_filter_def\<close>)
qed (simp add: List.map_filter_def)

text \<open>A chain of CNAME records that appear in the reply in the order of the chain.\<close>

fun cname_path :: "string \<Rightarrow> rr list \<Rightarrow> string \<Rightarrow> bool" where
  "cname_path n [] t \<longleftrightarrow> n = t"
| "cname_path n (a # as) t \<longleftrightarrow> cname_path n as t \<or>
     (rr_Name a = n \<and> rr_Rrtype a = TypeCNAME \<and>
      (case rr_data a of RCNAME n' \<Rightarrow> cname_path n' as t | _ \<Rightarrow> False))"

definition names_ok :: "(string \<Rightarrow> bool) \<Rightarrow> (string \<Rightarrow> nat list) \<Rightarrow> rr list \<Rightarrow> bool" where
  "names_ok idn spl as \<longleftrightarrow> (\<forall>a \<in> set as. \<forall>t. rr_data a = RCNAME t \<longrightarrow> idn t \<and> spl t \<noteq> [])"

lemma names_ok_Cons [simp]:
  "names_ok idn spl (a # as) \<longleftrightarrow> (\<forall>t. rr_data a = RCNAME t \<longrightarrow> idn t \<and> spl t \<noteq> []) \<and> names_ok idn spl as"
  by (simp add: names_ok_def)

lemma passCNAME_path:
  assumes "Watches_Contains idn spl w n" "cname_path n as t" "names_ok idn spl as"
  shows "Watches_Contains idn spl (passCNAME (Watches_Contains idn spl) as w) t"
  using assms
proof (induction as arbitrary: n w)
  case (Cons a as)
  let ?con = "Watches_Contains idn spl"
  obtain w' where w': "passCNAME ?con (a # as) w = passCNAME ?con as w'" "watches_le w w'"
    using handleCNAME_le [of w a] by (cases "?con w (rr_Name a)"; cases "rr_Rrtype a = TypeCNAME") auto
  show ?case
  proof (cases "cname_path n as t")
    case True
    with Cons.IH [of w' n] Cons.prems w' watches_le_Contains show ?thesis by (simp add: names_ok_def)
  next
    case False
    then obtain n' where a: "rr_Name a = n" "rr_Rrtype a = TypeCNAME" "rr_data a = RCNAME n'"
        "cname_path n' as t"
      using Cons.prems(2) by (auto split: rdata.splits)
    have "?con (handleCNAME a w) n'"
      using Cons.prems(3) a(3) by (simp add: handleCNAME_def Watches_Contains_iff)
    with Cons.IH [of "handleCNAME a w" n'] Cons.prems a show ?thesis by simp
  qed
qed simp

text \<open>Which names become watched: targets of records whose own name is watched.\<close>

lemma passCNAME_new:
  assumes "gm_get (w_c (passCNAME (Watches_Contains idn spl) as w)) k \<noteq> None" "gm_get (w_c w) k = None"
  shows "\<exists>a \<in> set as. rr_data a = RCNAME k \<and>
     Watches_Contains idn spl (passCNAME (Watches_Contains idn spl) as w) (rr_Name a)"
  using assms
proof (induction as arbitrary: w)
  case (Cons a as)
  let ?con = "Watches_Contains idn spl"
  show ?case
  proof (cases "?con w (rr_Name a) \<and> rr_Rrtype a = TypeCNAME \<and> rr_data a = RCNAME k")
    case True
    then show ?thesis using watches_le_Contains [OF passCNAME_le [of w ?con "a # as"]] by auto
  next
    case False
    then obtain w' where w': "passCNAME ?con (a # as) w = passCNAME ?con as w'" "gm_get (w_c w') k = None"
      using Cons.prems(2)
      by (cases "?con w (rr_Name a)"; cases "rr_Rrtype a = TypeCNAME"; cases "rr_data a")
        (auto simp: handleCNAME_def)
    show ?thesis using Cons.IH [OF _ w'(2)] Cons.prems(1) unfolding w'(1) by auto
  qed
qed simp

lemma passDNAME_new:
  assumes "gm_get (w_d (passDNAME (Watches_Contains idn spl) as w)) k \<noteq> None" "gm_get (w_d w) k = None"
  shows "\<exists>a \<in> set as. rr_data a = RDNAME k \<and>
     Watches_Contains idn spl (passDNAME (Watches_Contains idn spl) as w) (rr_Name a)"
  using assms
proof (induction as arbitrary: w)
  case (Cons a as)
  let ?con = "Watches_Contains idn spl"
  show ?case
  proof (cases "?con w (rr_Name a) \<and> rr_Rrtype a = TypeDNAME \<and> rr_data a = RDNAME k")
    case True
    then show ?thesis using watches_le_Contains [OF passDNAME_le [of w ?con "a # as"]] by auto
  next
    case False
    then obtain w' where w': "passDNAME ?con (a # as) w = passDNAME ?con as w'" "gm_get (w_d w') k = None"
      using Cons.prems(2)
      by (cases "?con w (rr_Name a)"; cases "rr_Rrtype a = TypeDNAME"; cases "rr_data a")
        (auto simp: handleDNAME_def)
    show ?thesis using Cons.IH [OF _ w'(2)] Cons.prems(1) unfolding w'(1) by auto
  qed
qed simp

lemma passDNAME_w_c: "w_c (passDNAME con as w) = w_c w"
proof (induction con as w rule: passDNAME.induct)
  case (2 con a as w)
  then show ?case by (cases "rr_data a") (auto simp: handleDNAME_def)
qed simp

lemma passCNAME_w_d [simp]: "w_d (passCNAME con as w) = w_d w"
proof (induction con as w rule: passCNAME.induct)
  case (2 con a as w)
  then show ?case by (cases "rr_data a") (auto simp: handleCNAME_def)
qed simp

section \<open>Lifetime of temporary watches\<close>

definition tw_age :: "tempWatch \<Rightarrow> tempWatch option" where
  "tw_age t =
     (if tw_updated t then Some (t\<lparr>tw_updated := False\<rparr>)
      else if tw_ttl t < tempWatchCleanInterval then None
      else Some (t\<lparr>tw_ttl := tw_ttl t - tempWatchCleanInterval\<rparr>))"

lemma cleanTemp_loop_keys: "fst ` set (cleanTemp_loop i m) \<subseteq> fst ` set m"
  by (induction i m rule: cleanTemp_loop.induct) auto

lemma cleanTemp_loop_wf: "gm_wf m \<Longrightarrow> gm_wf (cleanTemp_loop i m)"
proof (induction i m rule: cleanTemp_loop.induct)
  case (2 i d t r)
  then show ?case using cleanTemp_loop_keys [of i r] by (auto simp: gm_wf_def)
qed simp

lemma cleanTemp_loop_get:
  "gm_wf m \<Longrightarrow> gm_get (cleanTemp_loop tempWatchCleanInterval m) k = Option.bind (gm_get m k) tw_age"
proof (induction "tempWatchCleanInterval" m rule: cleanTemp_loop.induct)
  case (2 d t r)
  have "d \<notin> fst ` set (cleanTemp_loop tempWatchCleanInterval r)"
    using 2 cleanTemp_loop_keys [of tempWatchCleanInterval r] by (auto simp: gm_wf_def)
  then have "gm_get (cleanTemp_loop tempWatchCleanInterval r) d = None" by (simp add: gm_get_None_iff)
  with 2 show ?case by (auto simp: gm_wf_def tw_age_def)
qed simp

interpretation tw: aging_table tw_age "\<lambda>t. unat (tw_ttl t)" tw_updated 10
  "cleanTemp_loop tempWatchCleanInterval"
proof (unfold_locales, goal_cases)
  case (3 v)
  then show ?case by (simp add: tw_age_def tempWatchCleanInterval_def word_less_nat_alt)
next
  case (4 v)
  then have "(10 :: u32) \<le> tw_ttl v" by (simp add: word_le_nat_alt)
  with 4 show ?case by (auto simp: tw_age_def tempWatchCleanInterval_def unat_sub word_less_nat_alt)
qed (auto simp: tw_age_def cleanTemp_loop_wf cleanTemp_loop_get)

section \<open>Properties\<close>

text \<open>
  C21: A query is forwarded to the servers of the longest suffix of its name, cut at a label, that
  has servers, and to the default servers when there is none. The indexes of the labels are in
  increasing order, as the DNS library documents.
\<close>

theorem Remotes_Get_longest_suffix:
  assumes "sorted (dnsSplit d)"
  shows "if idn d \<and> (\<exists>i \<in> set (dnsSplit d). servers_of r (drop i d) \<noteq> [])
     then \<exists>i \<in> set (dnsSplit d). Remotes_Get idn dnsSplit r d = servers_of r (drop i d) \<and>
       servers_of r (drop i d) \<noteq> [] \<and>
       (\<forall>j \<in> set (dnsSplit d). servers_of r (drop j d) \<noteq> [] \<longrightarrow> length (drop j d) \<le> length (drop i d))
     else Remotes_Get idn dnsSplit r d = servers_of r ''.''"
proof (cases "idn d \<and> (\<exists>i \<in> set (dnsSplit d). servers_of r (drop i d) \<noteq> [])")
  case True
  let ?P = "\<lambda>i. servers_of r (drop i d) \<noteq> []"
  obtain i where i: "find ?P (dnsSplit d) = Some i"
    using True by (cases "find ?P (dnsSplit d)") (auto simp: find_None_iff)
  then have "i \<in> set (dnsSplit d)" "?P i" by (auto simp: find_Some_iff)
  moreover have "Remotes_Get idn dnsSplit r d = servers_of r (drop i d)"
    using True i by (auto simp: Remotes_Get_def Remotes_Get_loop_find)
  moreover have "length (drop j d) \<le> length (drop i d)" if "j \<in> set (dnsSplit d)" "?P j" for j
    using find_sorted_least [OF i assms that] by simp
  ultimately show ?thesis unfolding if_P [OF True] by blast
next
  case False
  then have "\<not> idn d \<or> find (\<lambda>i. servers_of r (drop i d) \<noteq> []) (dnsSplit d) = None"
    by (auto simp: find_None_iff)
  with False show ?thesis by (auto simp: Remotes_Get_def Remotes_Get_loop_find)
qed

text \<open>The label indexes of a name without escapes, for concrete inputs.\<close>

fun label_starts_from :: "nat \<Rightarrow> string \<Rightarrow> nat list" where
  "label_starts_from i [] = []"
| "label_starts_from i (c # cs) =
     (if c = CHR ''.'' \<and> cs \<noteq> [] then Suc i # label_starts_from (Suc i) cs
      else label_starts_from (Suc i) cs)"

definition label_starts :: "string \<Rightarrow> nat list" where
  "label_starts s = (if s = '''' \<or> s = ''.'' then [] else 0 # label_starts_from 0 s)"

definition example_remotes :: Remotes where
  "example_remotes = [(''.'', [''192.0.2.1:53'']), (''org.'', [''192.0.2.2:53'']),
     (''example.org.'', [''192.0.2.3:53''])]"

theorem Remotes_Get_longest_suffix_witness:
  "Remotes_Get (\<lambda>_. True) label_starts example_remotes ''www.example.org.'' = [''192.0.2.3:53''] \<and>
   (\<exists>i \<in> set (label_starts ''www.example.org.'').
      Remotes_Get (\<lambda>_. True) label_starts example_remotes ''www.example.org.'' =
        servers_of example_remotes (drop i ''www.example.org.''))"
proof -
  have "sorted (label_starts ''www.example.org.'')" by code_simp
  moreover have "\<exists>i \<in> set (label_starts ''www.example.org.'').
      servers_of example_remotes (drop i ''www.example.org.'') \<noteq> []" by code_simp
  ultimately have "\<exists>i \<in> set (label_starts ''www.example.org.'').
      Remotes_Get (\<lambda>_. True) label_starts example_remotes ''www.example.org.'' =
        servers_of example_remotes (drop i ''www.example.org.'')"
    using Remotes_Get_longest_suffix [of label_starts "''www.example.org.''" "\<lambda>_. True" example_remotes]
    unfolding if_P by (metis (no_types, lifting))
  moreover have "Remotes_Get (\<lambda>_. True) label_starts example_remotes ''www.example.org.'' = [''192.0.2.3:53'']"
    by code_simp
  ultimately show ?thesis by blast
qed

text \<open>
  Every address record of a reply whose name is watched, or is reached from a watched name
  by a chain of CNAME records in the order of the reply, is reported, wherever the address
  records stand, and all reports are finished before the reply goes to the client.
\<close>

lemma request_reports:
  assumes "length questions = 1"
    and "servers = Remotes_Get idn dnsSplit (px_remotes p) (hd questions)" "servers \<noteq> []"
    and "exchange (servers ! (rnd mod length servers)) = Some answer"
    and "names_ok idn dnsSplit answer"
    and "Watches_Contains idn dnsSplit (px_watches p) n" "cname_path n answer t"
    and "a \<in> set answer" "rr_Name a = t" "addr_report a = Some rep"
  shows "\<exists>reps. fst (handleRequest idn dnsSplit rnd exchange questions p) =
      map SendReport reps @ [WriteReply answer] \<and> rep \<in> set reps"
proof -
  let ?con = "Watches_Contains idn dnsSplit"
  let ?w1 = "passDNAME ?con answer (px_watches p)"
  let ?w2 = "passCNAME ?con answer ?w1"
  let ?reps = "List.map_filter addr_report (filter (\<lambda>a. ?con ?w2 (rr_Name a)) answer)"
  have "?con ?w1 n" using assms(6) passDNAME_le watches_le_Contains by blast
  then have "?con ?w2 t" using passCNAME_path assms(5,7) by blast
  then have "rep \<in> set ?reps" using assms(8-10) by (auto simp: map_filter_mem)
  moreover have "fst (handleRequest idn dnsSplit rnd exchange questions p) = map SendReport ?reps @ [WriteReply answer]"
    using assms(1-4) by (simp add: handleRequest_def Let_def passAddrs_eq)
  ultimately show ?thesis by blast
qed

definition cname_answer :: "rr list" where
  "cname_answer =
     [\<lparr>rr_Name = ''c.example.net.'', rr_Rrtype = TypeA, rr_Ttl = 60, rr_data = RA [198, 51, 100, 1]\<rparr>,
      \<lparr>rr_Name = ''www.example.org.'', rr_Rrtype = TypeCNAME, rr_Ttl = 60, rr_data = RCNAME ''b.example.net.''\<rparr>,
      \<lparr>rr_Name = ''b.example.net.'', rr_Rrtype = TypeCNAME, rr_Ttl = 60, rr_data = RCNAME ''c.example.net.''\<rparr>]"

definition example_proxy :: Proxy where
  "example_proxy = SetWatches [''example.org.''] (SetRemotes [(''.'', [''192.0.2.1:53''])] (NewProxy NewDNSProxyConfig))"

text \<open>
  C20: Nothing else is reported: a report belongs to an address record of the reply whose name is
  watched after the CNAME and DNAME records were handled, and a name that became watched while
  handling the reply is the target of a record whose own name is watched.
\<close>

theorem handleRequest_reports_sound:
  fixes p idn dnsSplit rnd exchange questions
  defines "r \<equiv> handleRequest idn dnsSplit rnd exchange questions p"
  assumes "SendReport rep \<in> set (fst r)"
  shows "\<exists>answer. exchange (Remotes_Get idn dnsSplit (px_remotes p) (hd questions) !
          (rnd mod length (Remotes_Get idn dnsSplit (px_remotes p) (hd questions)))) = Some answer \<and>
      (\<exists>a \<in> set answer. addr_report a = Some rep \<and>
        Watches_Contains idn dnsSplit (px_watches (snd r)) (rr_Name a)) \<and>
      (\<forall>k. gm_get (w_c (px_watches (snd r))) k \<noteq> None \<and> gm_get (w_c (px_watches p)) k = None \<longrightarrow>
        (\<exists>a \<in> set answer. rr_data a = RCNAME k \<and> Watches_Contains idn dnsSplit (px_watches (snd r)) (rr_Name a))) \<and>
      (\<forall>k. gm_get (w_d (px_watches (snd r))) k \<noteq> None \<and> gm_get (w_d (px_watches p)) k = None \<longrightarrow>
        (\<exists>a \<in> set answer. rr_data a = RDNAME k \<and> Watches_Contains idn dnsSplit (px_watches (snd r)) (rr_Name a)))"
proof -
  let ?con = "Watches_Contains idn dnsSplit"
  let ?srv = "Remotes_Get idn dnsSplit (px_remotes p) (hd questions)"
  obtain answer where ans: "exchange (?srv ! (rnd mod length ?srv)) = Some answer"
    and r: "r = (passAddrs ?con answer (passCNAME ?con answer (passDNAME ?con answer (px_watches p))) @ [WriteReply answer],
      p\<lparr>px_watches := passCNAME ?con answer (passDNAME ?con answer (px_watches p))\<rparr>)"
    using assms by (auto simp: handleRequest_def Let_def split: if_splits option.splits)
  let ?w1 = "passDNAME ?con answer (px_watches p)"
  let ?w2 = "passCNAME ?con answer ?w1"
  have w: "px_watches (snd r) = ?w2" by (simp add: r)
  have "\<exists>a \<in> set answer. addr_report a = Some rep \<and> ?con ?w2 (rr_Name a)"
    using assms(2) by (auto simp: r passAddrs_eq map_filter_mem)
  moreover have "\<exists>a \<in> set answer. rr_data a = RCNAME k \<and> ?con ?w2 (rr_Name a)"
    if "gm_get (w_c ?w2) k \<noteq> None" "gm_get (w_c (px_watches p)) k = None" for k
    using passCNAME_new [OF that(1)] that(2) by (simp add: passDNAME_w_c)
  moreover have "\<exists>a \<in> set answer. rr_data a = RDNAME k \<and> ?con ?w2 (rr_Name a)"
    if "gm_get (w_d ?w2) k \<noteq> None" "gm_get (w_d (px_watches p)) k = None" for k
    using passDNAME_new [of idn dnsSplit answer "px_watches p" k] that
      watches_le_Contains [OF passCNAME_le [of ?w1 ?con answer]] by fastforce
  ultimately show ?thesis unfolding w using ans by blast
qed

theorem handleRequest_reports_sound_witness:
  "\<exists>a \<in> set cname_answer. addr_report a = Some (NewReport ''c.example.net.'' (IP4 0xc6336401) 60)"
proof -
  have "SendReport (NewReport ''c.example.net.'' (IP4 0xc6336401) 60) \<in>
     set (fst (handleRequest (\<lambda>_. True) label_starts 0 (\<lambda>_. Some cname_answer) [''www.example.org.''] example_proxy))"
    by code_simp
  from handleRequest_reports_sound [OF this] show ?thesis by auto
qed

text \<open>
  A temporary watch added with time to live \<open>t\<close> survives the first cleanup and then \<open>n\<close>
  more, one every 10 seconds, exactly when \<open>n * 10 \<le> t\<close>.
\<close>

lemma temp_watch_lifetime:
  assumes "gm_wf (w_c w)" "w_life w = Running"
  shows "gm_get (w_c ((cleanTempWatches ^^ Suc n) (AddTempCNAME d t w))) d \<noteq> None \<longleftrightarrow> n * 10 \<le> unat t"
proof -
  have "w_c ((cleanTempWatches ^^ n) w) = (cleanTemp_loop tempWatchCleanInterval ^^ n) (w_c w) \<and>
      w_life ((cleanTempWatches ^^ n) w) = Running" if "w_life w = Running" for n w
    using that by (induction n) (simp_all add: cleanTempWatches_def cleanTemp_def)
  moreover have "w_life (AddTempCNAME d t w) = Running" using assms by (simp add: AddTempCNAME_def)
  moreover have "gm_wf (w_c (AddTempCNAME d t w))" using assms by (simp add: AddTempCNAME_def)
  ultimately show ?thesis
    using tw.entry_kept [of "w_c (AddTempCNAME d t w)" d "\<lparr>tw_ttl = t, tw_updated = True\<rparr>" n]
    by (simp del: funpow.simps)
qed

text \<open>
  The order in the reply matters for chains: when the second CNAME record of a chain stands
  before the first one, the address at the end of the chain is not reported.
\<close>

lemma out_of_order_chain_not_reported:
  "fst (handleRequest (\<lambda>_. True) label_starts 0 (\<lambda>_. Some (rev cname_answer)) [''www.example.org.''] example_proxy) =
     [WriteReply (rev cname_answer)]"
  by code_simp

end
