(* ===== verification/VPNSetup.thy ===== *)
theory VPNSetup
  imports SplitRt DNSProxy
begin

text \<open>
  The setup of the VPN tunnel (\<^verbatim>\<open>internal/vpnsetup/vpnsetup.go\<close>): setting up and tearing down the
  configuration with split routing and the DNS proxy, ensuring the DNS settings, and the main loop
  with the routing state of the system. As in the traffic policing, the effect of a command list
  of \<^verbatim>\<open>internal/cmdtmpl\<close> is the state it produces when each of its commands succeeds.
\<close>

section \<open>Commands and the state of the system\<close>

datatype vpn_effect =
    VPNSetupSetup VPNConfig string
  | VPNSetupTeardown
  | VPNSetupSetExcludes "prefix list"
  | VPNSetupSetDNS VPNConfig string
  | VPNSetupCleanup

text \<open>
  The DNS settings of the device: server, domain and whether it has the default route.
  The device with MTU and addresses, the routing rules, the table \<^verbatim>\<open>oc-daemon-routing\<close> with
  its two sets, and the DNS settings.
\<close>

record DNSSettings =
  ds_server :: string
  ds_domain :: string
  ds_default :: bool

record Net =
  net_link :: "(string \<times> int \<times> prefix list) option"
  net_rules :: bool
  net_table :: bool
  net_excl4 :: "prefix set"
  net_excl6 :: "prefix set"
  net_dns :: DNSSettings

definition no_dns :: DNSSettings where
  "no_dns = \<lparr>ds_server = '''', ds_domain = '''', ds_default = False\<rparr>"

definition no_net :: Net where
  "no_net = \<lparr>net_link = None, net_rules = False, net_table = False, net_excl4 = {}, net_excl6 = {},
     net_dns = no_dns\<rparr>"

text \<open>
  The last command of \<^verbatim>\<open>VPNSetupSetDNS\<close> names the device by the whole device record instead of
  its name, so that it fails and does not set the default route.
\<close>

fun net_apply :: "vpn_effect \<Rightarrow> Net \<Rightarrow> Net" where
  "net_apply (VPNSetupSetup vpn server) n =
     n\<lparr>net_link := Some (vd_Name (vpn_Device vpn), vd_MTU (vpn_Device vpn),
         filter prefix_IsValid [vpn_IPv4 vpn, vpn_IPv6 vpn]),
       net_rules := True,
       net_table := True,
       net_excl4 := (if addr_Is4 (vpn_Gateway vpn) then {PrefixFrom (vpn_Gateway vpn) 32} else {}),
       net_excl6 := (if addr_Is6 (vpn_Gateway vpn) then {PrefixFrom (vpn_Gateway vpn) 128} else {}),
       net_dns := \<lparr>ds_server = server, ds_domain = vn_DefaultDomain (vpn_DNS vpn), ds_default = True\<rparr>\<rparr>"
| "net_apply VPNSetupTeardown n = no_net"
| "net_apply (VPNSetupSetExcludes ps) n =
     n\<lparr>net_excl4 := {p \<in> set ps. \<not> addr_Is6 (prefix_Addr p)},
       net_excl6 := {p \<in> set ps. addr_Is6 (prefix_Addr p)}\<rparr>"
| "net_apply (VPNSetupSetDNS vpn server) n =
     n\<lparr>net_dns := (net_dns n)\<lparr>ds_server := server, ds_domain := vn_DefaultDomain (vpn_DNS vpn)\<rparr>\<rparr>"
| "net_apply VPNSetupCleanup n = no_net"

section \<open>DNS settings\<close>

definition checkDNSProtocols :: "string list \<Rightarrow> bool" where
  "checkDNSProtocols protocols =
     foldl (\<lambda>ok protocol. if protocol = ''+DefaultRoute'' then True else ok) False protocols"

definition checkDNSServers :: "DNSProxyConfig \<Rightarrow> string list \<Rightarrow> bool" where
  "checkDNSServers conf servers =
     (if length servers \<noteq> 1 \<or> servers ! 0 \<noteq> dp_Address conf then False else True)"

definition checkDNSDomain :: "VPNConfig \<Rightarrow> string list \<Rightarrow> bool" where
  "checkDNSDomain config domains =
     (\<forall>c \<in> set (Prelude.fields (vn_DefaultDomain (vpn_DNS config)) @ [''~.'']). \<exists>d \<in> set domains. c = d)"

text \<open>The results of the three checks after a line of the outputput.\<close>

definition checkDNSLine ::
  "DNSProxyConfig \<Rightarrow> VPNConfig \<Rightarrow> bool \<times> bool \<times> bool \<Rightarrow> string \<Rightarrow> bool \<times> bool \<times> bool" where
  "checkDNSLine conf vpn ok line =
     (case ok of (protOK, srvOK, domOK) \<Rightarrow>
        (case cut_char (CHR '':'') (trim_space line) of
           None \<Rightarrow> ok
         | Some (before, after) \<Rightarrow>
             (let f = Prelude.fields after in
              if before = ''Protocols'' then (checkDNSProtocols f, srvOK, domOK)
              else if before = ''DNS Servers'' then (protOK, checkDNSServers conf f, domOK)
              else if before = ''DNS Domain'' then (protOK, srvOK, checkDNSDomain vpn f)
              else ok)))"

text \<open>The commands that set the DNS settings again.\<close>

definition resetDNS :: "DNSProxyConfig \<Rightarrow> VPNConfig \<Rightarrow> vpn_effect list" where
  "resetDNS conf vpn = [VPNSetupSetDNS vpn (dp_Address conf)]"

text \<open>
  The first argument is the output of the get commands, None when one of them fails. The second
  result are the commands that reset the settings.
\<close>

definition ensureDNS :: "string option \<Rightarrow> DNSProxyConfig \<Rightarrow> VPNConfig \<Rightarrow> bool \<times> vpn_effect list" where
  "ensureDNS out conf vpn =
     (case out of None \<Rightarrow> (False, [])
      | Some stdout \<Rightarrow>
        (let (protOK, srvOK, domOK) =
               foldl (checkDNSLine conf vpn) (False, False, False) (split_char (CHR 0x0A) stdout);
             reset = (\<not> protOK \<or> \<not> srvOK \<or> \<not> domOK)
         in (protOK \<and> srvOK \<and> domOK, if reset then resetDNS conf vpn else [])))"

definition timerInvalid :: duration where
  "timerInvalid = Second"

definition timerValid :: duration where
  "timerValid = 15 * Second"

text \<open>One round of \<^verbatim>\<open>ensureConfig\<close>: the next duration of its timer and the commands run.\<close>

definition ensureConfig_round ::
  "string option \<Rightarrow> DNSProxyConfig \<Rightarrow> VPNConfig \<Rightarrow> duration \<times> vpn_effect list" where
  "ensureConfig_round out conf vpn =
     (let (ok, es) = ensureDNS out conf vpn in (if \<not> ok then timerInvalid else timerValid, es))"

section \<open>Setup and teardown\<close>

text \<open>
  The component: its configuration, split routing with the prefixes it sent last, the DNS proxy,
  the goroutine that ensures the settings with its timer. Besides, whether the initial prefixes
  of split routing still wait to be received, the number of goroutines that were left behind by
  setting up twice, and the state of the system.
\<close>

record 't VPNSetup =
  vset_config :: "'t Config option"
  vset_splitrt :: "splitrt_conf option"
  vset_dnsProxy :: Proxy
  vset_ensure :: life
  vset_timer :: duration
  vset_life :: life
  vset_waiting :: bool
  vset_leaked :: nat
  vset_net :: Net

definition NewVPNSetup :: "Proxy \<Rightarrow> 't VPNSetup" where
  "NewVPNSetup dnsProxy =
     \<lparr>vset_config = None, vset_splitrt = None, vset_dnsProxy = dnsProxy, vset_ensure = NotStarted,
      vset_timer = 0, vset_life = NotStarted, vset_waiting = False, vset_leaked = 0,
      vset_net = no_net\<rparr>"

definition startEnsure :: "'t VPNSetup \<Rightarrow> 't VPNSetup" where
  "startEnsure v =
     v\<lparr>vset_leaked := vset_leaked v + (if vset_ensure v = Running then 1 else 0),
       vset_ensure := Running, vset_timer := timerInvalid\<rparr>"

text \<open>Closing a nil channel and closing a channel twice both panic.\<close>

definition stopEnsure :: "'t VPNSetup \<Rightarrow> 't VPNSetup outcome" where
  "stopEnsure v =
     (if vset_ensure v = Running then Returns (v\<lparr>vset_ensure := Stopped\<rparr>) else Panics)"

text \<open>The first two arguments are the outcomes of starting split routing's monitors.\<close>

definition vpn_setup :: "bool \<Rightarrow> bool \<Rightarrow> 't Config \<Rightarrow> 't VPNSetup \<Rightarrow> 't VPNSetup outcome" where
  "vpn_setup devmonOk addrmonOk conf v =
     (case (cfg_VPNConfig conf, cfg_DNSProxy conf) of
        (Some vpn, Some dns) \<Rightarrow>
          (let v = v\<lparr>vset_config := Some conf\<rparr>;
               v = v\<lparr>vset_dnsProxy := SetRemotes (VPNDNS_Remotes (vpn_DNS vpn)) (vset_dnsProxy v)\<rparr>;
               v = v\<lparr>vset_dnsProxy := SetWatches (VPNSplit_DNSExcludes (vpn_Split vpn)) (vset_dnsProxy v)\<rparr>;
               (r, s) = SplitRouting_Start devmonOk addrmonOk (NewSplitRouting vpn);
               v = (case r of
                      Inr (Some ps) \<Rightarrow> v\<lparr>vset_splitrt := Some (s, ps), vset_waiting := True\<rparr>
                    | _ \<Rightarrow> v\<lparr>vset_splitrt := Some (s, []), vset_waiting := False\<rparr>);
               v = v\<lparr>vset_net := net_apply (VPNSetupSetup vpn (dp_Address dns)) (vset_net v)\<rparr>
           in Returns (startEnsure v))
      | _ \<Rightarrow> Panics)"

definition vpn_teardown :: "'t VPNSetup \<Rightarrow> 't VPNSetup outcome" where
  "vpn_teardown v =
     (case stopEnsure v of
        Returns v \<Rightarrow>
          (case vset_splitrt v of
             None \<Rightarrow> Panics
           | Some (s, view) \<Rightarrow>
               (case SplitRouting_Stop s of
                  Returns s \<Rightarrow>
                    (let v = v\<lparr>vset_splitrt := None, vset_waiting := False\<rparr>;
                         v = v\<lparr>vset_net := net_apply VPNSetupTeardown (vset_net v)\<rparr>;
                         v = v\<lparr>vset_dnsProxy := SetWatches [] (SetRemotes [] (vset_dnsProxy v))\<rparr>
                     in Returns (v\<lparr>vset_config := None\<rparr>))
                | Panics \<Rightarrow> Panics | Blocks \<Rightarrow> Blocks))
      | Panics \<Rightarrow> Panics | Blocks \<Rightarrow> Blocks)"

record vpnsetup_State =
  vss_SplitRouting :: "splitrt_State option"
  vss_DNSProxy :: dnsproxy_State

definition vset_getState :: "'t VPNSetup \<Rightarrow> vpnsetup_State" where
  "vset_getState v =
     \<lparr>vss_SplitRouting = map_option (\<lambda>c. SplitRouting_GetState (fst c)) (vset_splitrt v),
      vss_DNSProxy = Proxy_GetState (vset_dnsProxy v)\<rparr>"

definition handlePrefixes :: "prefix list \<Rightarrow> 't VPNSetup \<Rightarrow> 't VPNSetup" where
  "handlePrefixes prefixes v = v\<lparr>vset_net := net_apply (VPNSetupSetExcludes prefixes) (vset_net v)\<rparr>"

definition VPNSetup_Start :: "'t VPNSetup \<Rightarrow> 't VPNSetup" where
  "VPNSetup_Start v = v\<lparr>vset_life := Running, vset_dnsProxy := Proxy_Start (vset_dnsProxy v)\<rparr>"

definition VPNSetup_Stop :: "'t VPNSetup \<Rightarrow> 't VPNSetup outcome" where
  "VPNSetup_Stop v =
     (case life_Stop (vset_life v) of
        Returns l \<Rightarrow>
          (case Proxy_Stop (vset_dnsProxy v) of
             Returns p \<Rightarrow> Returns (v\<lparr>vset_life := l, vset_dnsProxy := p\<rparr>)
           | Panics \<Rightarrow> Panics | Blocks \<Rightarrow> Blocks)
      | Panics \<Rightarrow> Panics | Blocks \<Rightarrow> Blocks)"

text \<open>A caller waits until the running loop has handled its command.\<close>

definition VPNSetup_Setup :: "bool \<Rightarrow> bool \<Rightarrow> 't Config \<Rightarrow> 't VPNSetup \<Rightarrow> 't VPNSetup outcome" where
  "VPNSetup_Setup devmonOk addrmonOk conf v =
     (if vset_life v = Running then vpn_setup devmonOk addrmonOk conf v else Blocks)"

definition VPNSetup_Teardown :: "'t VPNSetup \<Rightarrow> 't VPNSetup outcome" where
  "VPNSetup_Teardown v = (if vset_life v = Running then vpn_teardown v else Blocks)"

definition VPNSetup_GetState :: "'t VPNSetup \<Rightarrow> vpnsetup_State outcome" where
  "VPNSetup_GetState v = (if vset_life v = Running then Returns (vset_getState v) else Blocks)"

definition VPNSetup_Cleanup :: "Net \<Rightarrow> Net" where
  "VPNSetup_Cleanup n = net_apply VPNSetupCleanup n"

section \<open>Main loop\<close>

text \<open>
  The labels: the commands of the daemon, the initial prefixes of split routing, an event of
  split routing, whose prefixes are received at once when it sends some, a DNS report while split
  routing is not active, and a round of ensuring with the output of its commands. Configurations come
  from \<^verbatim>\<open>daemoncfg.GetVPNConfig\<close>, so their prefixes are well-formed.
\<close>

datatype 't vpnsetup_event =
    VSetup bool bool "'t Config"
  | VTeardown
  | VPrefixes
  | VSplit splitrt_event
  | VReport Report
  | VEnsure "string option"

definition conf_ok :: "'t Config \<Rightarrow> bool" where
  "conf_ok conf \<longleftrightarrow> (\<exists>vpn. cfg_VPNConfig conf = Some vpn \<and> VPNConfig_wf vpn)"

definition net_run :: "vpn_effect list \<Rightarrow> Net \<Rightarrow> Net" where
  "net_run es n = foldl (\<lambda>n e. net_apply e n) n es"

definition split_moves :: "splitrt_event \<Rightarrow> splitrt_conf \<Rightarrow> splitrt_conf \<Rightarrow> 't VPNSetup \<Rightarrow> 't VPNSetup" where
  "split_moves ev c c' v =
     (let v = (case fst (splitrt_handle ev (fst c)) of None \<Rightarrow> v | Some ps \<Rightarrow> handlePrefixes ps v)
      in v\<lparr>vset_splitrt := Some c'\<rparr>)"

inductive vpnsetup_step :: "'t VPNSetup \<Rightarrow> 't vpnsetup_event \<Rightarrow> 't VPNSetup \<Rightarrow> bool" where
  vs_setup: "conf_ok conf \<Longrightarrow> VPNSetup_Setup dev addr conf v = Returns v' \<Longrightarrow>
    vpnsetup_step v (VSetup dev addr conf) v'"
| vs_teardown: "VPNSetup_Teardown v = Returns v' \<Longrightarrow> vpnsetup_step v VTeardown v'"
| vs_prefixes: "vset_life v = Running \<Longrightarrow> vset_splitrt v = Some (s, view) \<Longrightarrow> vset_waiting v \<Longrightarrow>
    vpnsetup_step v VPrefixes (handlePrefixes view (v\<lparr>vset_waiting := False\<rparr>))"
| vs_split: "vset_life v = Running \<Longrightarrow> vset_splitrt v = Some c \<Longrightarrow> \<not> vset_waiting v \<Longrightarrow>
    splitrt_step c ev c' \<Longrightarrow> vpnsetup_step v (VSplit ev) (split_moves ev c c' v)"
| vs_report: "vset_life v = Running \<Longrightarrow> vset_splitrt v = None \<Longrightarrow> Report_Close r = Returns r' \<Longrightarrow>
    vpnsetup_step v (VReport r) v"
| vs_ensure: "vset_ensure v = Running \<Longrightarrow> vset_config v = Some conf \<Longrightarrow>
    cfg_VPNConfig conf = Some vpn \<Longrightarrow> cfg_DNSProxy conf = Some dns \<Longrightarrow>
    ensureConfig_round out dns vpn = (timer, es) \<Longrightarrow>
    vpnsetup_step v (VEnsure out) (v\<lparr>vset_timer := timer, vset_net := net_run es (vset_net v)\<rparr>)"

definition vpnsetup_init :: "'t VPNSetup \<Rightarrow> bool" where
  "vpnsetup_init v \<longleftrightarrow> (\<exists>config. v = VPNSetup_Start (NewVPNSetup (NewProxy config)))"

section \<open>Lemmas\<close>

text \<open>Without prefixes to send there is no gateway.\<close>

lemma no_initial_prefixes:
  assumes "VPNConfig_wf vpn" "GetPrefixes (initialExcludes vpn NewExcludes) = []"
  shows "vpn_Gateway vpn = AddrZero"
proof (rule ccontr)
  assume "vpn_Gateway vpn \<noteq> AddrZero"
  then have "vpn_Gateway vpn \<in> static_cover (ex_s (initialExcludes vpn NewExcludes))"
    by (simp add: initialExcludes_cover [OF assms(1)] addr_IsValid_def)
  moreover have "static_cover (ex_s (initialExcludes vpn NewExcludes)) \<subseteq> prefixes_cover (GetPrefixes (initialExcludes vpn NewExcludes))"
    using GetPrefixes_cover [OF initialExcludes_inv [OF assms(1)]] by blast
  ultimately show False by (simp add: assms(2))
qed

text \<open>
  While split routing runs, its invariant holds and the sets of the table hold the prefixes it sent
  last, once the initial ones were received; otherwise nothing is configured.
\<close>

definition vset_inv :: "'t VPNSetup \<Rightarrow> bool" where
  "vset_inv v \<longleftrightarrow>
     (case vset_splitrt v of
        None \<Rightarrow> vset_config v = None \<and> vset_ensure v \<noteq> Running \<and> \<not> vset_waiting v \<and> vset_net v = no_net
      | Some (s, view) \<Rightarrow>
          vset_ensure v = Running \<and> vset_config v \<noteq> None \<and> net_table (vset_net v) \<and>
          (srt_life s = Running \<longrightarrow> splitrt_inv (s, view) \<and>
            (\<not> vset_waiting v \<longrightarrow> net_excl4 (vset_net v) \<union> net_excl6 (vset_net v) = set view)))"

lemma net_apply_excludes [simp]:
  "net_excl4 (net_apply (VPNSetupSetExcludes ps) n) \<union> net_excl6 (net_apply (VPNSetupSetExcludes ps) n) = set ps"
  by auto

lemma ensure_keeps:
  assumes "ensureConfig_round out dns vpn = (timer, es)"
  shows "net_excl4 (net_run es n) = net_excl4 n" "net_excl6 (net_run es n) = net_excl6 n"
    "net_table (net_run es n) = net_table n" "net_link (net_run es n) = net_link n"
    "net_rules (net_run es n) = net_rules n" "ds_default (net_dns (net_run es n)) = ds_default (net_dns n)"
proof -
  have "es = [] \<or> es = [VPNSetupSetDNS vpn (dp_Address dns)]"
    using assms by (auto simp: ensureConfig_round_def ensureDNS_def resetDNS_def Let_def split: option.splits prod.splits if_splits)
  then show "net_excl4 (net_run es n) = net_excl4 n" "net_excl6 (net_run es n) = net_excl6 n"
    "net_table (net_run es n) = net_table n" "net_link (net_run es n) = net_link n"
    "net_rules (net_run es n) = net_rules n" "ds_default (net_dns (net_run es n)) = ds_default (net_dns n)"
    by (auto simp: net_run_def)
qed

lemma vpn_setup_facts:
  assumes "vpn_setup dev addr conf v = Returns v'"
  obtains vpn dns r s where "cfg_VPNConfig conf = Some vpn" "cfg_DNSProxy conf = Some dns"
    "SplitRouting_Start dev addr (NewSplitRouting vpn) = (r, s)"
    "vset_splitrt v' = Some (s, case r of Inr (Some ps) \<Rightarrow> ps | _ \<Rightarrow> [])"
    "vset_waiting v' \<longleftrightarrow> (\<exists>ps. r = Inr (Some ps))"
    "vset_ensure v' = Running" "vset_config v' = Some conf" "vset_life v' = vset_life v"
    "vset_net v' = net_apply (VPNSetupSetup vpn (dp_Address dns)) (vset_net v)"
    "vset_leaked v' = vset_leaked v + (if vset_ensure v = Running then 1 else 0)"
    "vset_dnsProxy v' = SetWatches (VPNSplit_DNSExcludes (vpn_Split vpn))
       (SetRemotes (VPNDNS_Remotes (vpn_DNS vpn)) (vset_dnsProxy v))"
proof -
  from assms obtain vpn dns where c: "cfg_VPNConfig conf = Some vpn" "cfg_DNSProxy conf = Some dns"
    by (auto simp: vpn_setup_def split: option.splits)
  obtain r s where rs: "SplitRouting_Start dev addr (NewSplitRouting vpn) = (r, s)"
    by (cases "SplitRouting_Start dev addr (NewSplitRouting vpn)")
  show thesis
    using assms c rs
    by (intro that [OF c rs])
      (auto simp: vpn_setup_def startEnsure_def Let_def split: sum.splits option.splits)
qed

lemma vpn_setup_inv:
  assumes "conf_ok conf" "vpn_setup dev addr conf v = Returns v'"
  shows "vset_inv v'"
proof -
  obtain vpn dns r s where f:
    "cfg_VPNConfig conf = Some vpn" "SplitRouting_Start dev addr (NewSplitRouting vpn) = (r, s)"
    "vset_splitrt v' = Some (s, case r of Inr (Some ps) \<Rightarrow> ps | _ \<Rightarrow> [])"
    "vset_waiting v' \<longleftrightarrow> (\<exists>ps. r = Inr (Some ps))"
    "vset_ensure v' = Running" "vset_config v' = Some conf"
    "vset_net v' = net_apply (VPNSetupSetup vpn (dp_Address dns)) (vset_net v)"
    "cfg_DNSProxy conf = Some dns"
    by (rule vpn_setup_facts [OF assms(2)]) (rule that; assumption)
  have wf: "VPNConfig_wf vpn" using assms(1) f(1) by (auto simp: conf_ok_def)
  show ?thesis
  proof (cases "srt_life s = Running")
    case False
    with f show ?thesis by (simp add: vset_inv_def)
  next
    case True
    then have start: "dev" "addr" "s = snd (SplitRouting_Start True True (NewSplitRouting vpn))"
      "r = Inr (if GetPrefixes (initialExcludes vpn NewExcludes) = [] then None
               else Some (GetPrefixes (initialExcludes vpn NewExcludes)))"
      using f(2) by (auto simp: SplitRouting_Start_def NewSplitRouting_def Let_def split: if_splits)
    then obtain sent where sent: "r = Inr sent" by blast
    have "SplitRouting_Start True True (NewSplitRouting vpn) = (Inr sent, s)" using f(2) start(1,2) sent by simp
    moreover have "(case r of Inr (Some ps) \<Rightarrow> ps | _ \<Rightarrow> []) = (case sent of None \<Rightarrow> [] | Some ps \<Rightarrow> ps)"
      by (simp add: sent)
    ultimately have "splitrt_init (s, case r of Inr (Some ps) \<Rightarrow> ps | _ \<Rightarrow> [])"
      using wf unfolding splitrt_init_def by blast
    then have "splitrt_inv (s, case r of Inr (Some ps) \<Rightarrow> ps | _ \<Rightarrow> [])" by (rule srt.inv_init)
    moreover have "vpn_Gateway vpn = AddrZero" if "\<not> (\<exists>ps. r = Inr (Some ps))"
      using that start(4) no_initial_prefixes [OF wf] by (auto split: if_splits)
    ultimately show ?thesis using f start(4) by (auto simp: vset_inv_def)
  qed
qed

lemma vpn_teardown_facts:
  assumes "vpn_teardown v = Returns v'"
  shows "vset_splitrt v' = None" "vset_config v' = None" "vset_ensure v' = Stopped"
    "\<not> vset_waiting v'" "vset_net v' = no_net" "vset_life v' = vset_life v"
    "vset_leaked v' = vset_leaked v"
    "vset_dnsProxy v' = SetWatches [] (SetRemotes [] (vset_dnsProxy v))"
  using assms
  by (auto simp: vpn_teardown_def stopEnsure_def Let_def split: if_splits option.splits prod.splits outcome.splits)

lemma split_moves_inv:
  assumes "vset_inv v" "vset_splitrt v = Some c" "\<not> vset_waiting v" "splitrt_step c ev c'"
  shows "vset_inv (split_moves ev c c' v)"
proof -
  obtain s view where c: "c = (s, view)" by (cases c)
  from assms(4) obtain sent s' where st: "srt_life s = Running" "splitrt_handle ev s = (sent, s')"
    "c' = (s', case sent of None \<Rightarrow> view | Some ps \<Rightarrow> ps)"
    unfolding c by (auto elim: splitrt_stepE)
  have inv: "splitrt_inv (s, view)" "net_excl4 (vset_net v) \<union> net_excl6 (vset_net v) = set view"
    "vset_ensure v = Running" "vset_config v \<noteq> None" "net_table (vset_net v)"
    using assms st by (auto simp: vset_inv_def c)
  have "splitrt_inv c'" using srt.inv_step [OF inv(1)] assms(4) unfolding c by blast
  then show ?thesis
    using inv st assms(3)
    by (cases sent) (auto simp: vset_inv_def split_moves_def c handlePrefixes_def)
qed

lemma vpnsetup_step_inv: "vset_inv v \<Longrightarrow> vpnsetup_step v e v' \<Longrightarrow> vset_inv v'"
proof -
  assume inv: "vset_inv v" and "vpnsetup_step v e v'"
  from this(2) show "vset_inv v'"
  proof cases
    case (vs_setup conf dev addr)
    then show ?thesis by (auto simp: VPNSetup_Setup_def split: if_splits intro: vpn_setup_inv)
  next
    case vs_teardown
    then have "vpn_teardown v = Returns v'" by (auto simp: VPNSetup_Teardown_def split: if_splits)
    from vpn_teardown_facts [OF this] show ?thesis by (simp add: vset_inv_def)
  next
    case (vs_prefixes s view)
    with inv show ?thesis by (auto simp: vset_inv_def handlePrefixes_def)
  next
    case (vs_split c ev c')
    with inv show ?thesis by (auto intro: split_moves_inv)
  next
    case vs_report
    with inv show ?thesis by simp
  next
    case (vs_ensure conf vpn dns out timer es)
    with inv ensure_keeps [OF vs_ensure(7)] show ?thesis
      by (auto simp: vset_inv_def split: option.splits prod.splits)
  qed
qed

interpretation vset: machine vpnsetup_init vpnsetup_step vset_inv
proof
  show "vset_inv v" if "vpnsetup_init v" for v :: "'t VPNSetup"
    using that by (auto simp: vpnsetup_init_def VPNSetup_Start_def NewVPNSetup_def vset_inv_def)
qed (rule vpnsetup_step_inv)

text \<open>The fields of the last line with a key in the output of \<^verbatim>\<open>resolvectl status\<close>.\<close>

definition line_fields :: "string \<Rightarrow> string \<Rightarrow> string list option" where
  "line_fields key line =
     (case cut_char (CHR '':'') (trim_space line) of None \<Rightarrow> None
      | Some (before, after) \<Rightarrow> if before = key then Some (Prelude.fields after) else None)"

definition last_fields :: "string \<Rightarrow> string list \<Rightarrow> string list option" where
  "last_fields key lines =
     foldl (\<lambda>acc line. case line_fields key line of None \<Rightarrow> acc | Some f \<Rightarrow> Some f) None lines"

lemma last_fields_snoc [simp]:
  "last_fields key [] = None"
  "last_fields key (lines @ [line]) =
     (case line_fields key line of None \<Rightarrow> last_fields key lines | Some f \<Rightarrow> Some f)"
  unfolding last_fields_def by simp_all

definition fields_ok :: "(string list \<Rightarrow> bool) \<Rightarrow> string list option \<Rightarrow> bool" where
  "fields_ok P f = (case f of None \<Rightarrow> False | Some f \<Rightarrow> P f)"

lemma checkDNSLine_fields:
  "checkDNSLine conf vpn (p, s, d) line =
     (case line_fields ''Protocols'' line of Some f \<Rightarrow> checkDNSProtocols f | None \<Rightarrow> p,
      case line_fields ''DNS Servers'' line of Some f \<Rightarrow> checkDNSServers conf f | None \<Rightarrow> s,
      case line_fields ''DNS Domain'' line of Some f \<Rightarrow> checkDNSDomain vpn f | None \<Rightarrow> d)"
  by (auto simp: checkDNSLine_def line_fields_def Let_def split: option.splits)

lemma checkDNSLines:
  "foldl (checkDNSLine conf vpn) (False, False, False) lines =
     (fields_ok checkDNSProtocols (last_fields ''Protocols'' lines),
      fields_ok (checkDNSServers conf) (last_fields ''DNS Servers'' lines),
      fields_ok (checkDNSDomain vpn) (last_fields ''DNS Domain'' lines))"
proof (induction lines rule: rev_induct)
  case (snoc line lines)
  then show ?case by (simp add: checkDNSLine_fields) (auto simp: fields_ok_def split: option.splits)
qed (simp add: fields_ok_def)

lemma checkDNSProtocols_iff: "checkDNSProtocols ps \<longleftrightarrow> ''+DefaultRoute'' \<in> set ps"
proof -
  have "foldl (\<lambda>ok p. if p = x then True else ok) b ps \<longleftrightarrow> b \<or> x \<in> set ps" for b and x :: string
    by (induction ps arbitrary: b) auto
  then show ?thesis by (simp add: checkDNSProtocols_def)
qed

lemma checkDNSServers_iff: "checkDNSServers conf ss \<longleftrightarrow> ss = [dp_Address conf]"
  by (cases ss) (auto simp: checkDNSServers_def)

section \<open>Properties\<close>

text \<open>
  C27: In every reachable state in which split routing runs and its initial prefixes were received,
  every address that is excluded from the tunnel at the moment is in a prefix of the exclude sets
  of the routing table, which exists.
\<close>

theorem excludes_installed:
  assumes "reach vpnsetup_init vpnsetup_step v" "vset_splitrt v = Some (s, view)"
    and "srt_life s = Running" "\<not> vset_waiting v"
  shows "net_table (vset_net v) \<and>
     current_cover s \<subseteq> (\<Union>p \<in> net_excl4 (vset_net v) \<union> net_excl6 (vset_net v). prefix_set p)"
proof -
  have "splitrt_inv (s, view)" "net_table (vset_net v)"
    "net_excl4 (vset_net v) \<union> net_excl6 (vset_net v) = set view"
    using vset.reach_inv [OF assms(1)] assms(2-) by (auto simp: vset_inv_def)
  then show ?thesis by (simp add: splitrt_inv_def prefixes_cover_def)
qed

definition example_conf :: "unit Config" where
  "example_conf = (NewConfig ())\<lparr>cfg_VPNConfig := Some example_vpn\<rparr>"

definition example_vset :: "unit VPNSetup" where
  "example_vset = VPNSetup_Start (NewVPNSetup (NewProxy NewDNSProxyConfig))"

definition example_vset1 :: "unit VPNSetup" where
  "example_vset1 = (case VPNSetup_Setup True True example_conf example_vset of Returns v \<Rightarrow> v)"

lemma example_setup: "VPNSetup_Setup True True example_conf example_vset = Returns example_vset1"
  by (simp add: example_vset1_def example_vset_def VPNSetup_Setup_def VPNSetup_Start_def vpn_setup_def
      example_conf_def NewConfig_def Let_def split: prod.splits)

lemma example_vset1_reach: "reach vpnsetup_init vpnsetup_step example_vset1"
proof (rule reach_step)
  show "reach vpnsetup_init vpnsetup_step example_vset"
    by (rule reach_init) (auto simp: vpnsetup_init_def example_vset_def)
  show "vpnsetup_step example_vset (VSetup True True example_conf) example_vset1"
    by (rule vs_setup) (use example_setup example_vpn_wf in \<open>auto simp: conf_ok_def example_conf_def\<close>)
qed

lemma example_vset1_facts:
  "vset_splitrt example_vset1 = Some example_srt" "vset_waiting example_vset1"
  "vset_life example_vset1 = Running"
proof -
  have st: "SplitRouting_Start True True (NewSplitRouting example_vpn) =
      (Inr (Some (snd example_srt)), fst example_srt)"
    by code_simp
  show "vset_splitrt example_vset1 = Some example_srt" "vset_waiting example_vset1" "vset_life example_vset1 = Running"
    by (simp_all add: example_vset1_def example_vset_def VPNSetup_Setup_def VPNSetup_Start_def vpn_setup_def
        example_conf_def NewConfig_def Let_def st startEnsure_def)
qed

theorem excludes_installed_witness:
  "current_cover (fst example_srt) \<subseteq>
     (\<Union>p \<in> {p \<in> set (snd example_srt). \<not> addr_Is6 (prefix_Addr p)} \<union> {p \<in> set (snd example_srt). addr_Is6 (prefix_Addr p)}.
        prefix_set p)"
proof -
  obtain s view where ss: "example_srt = (s, view)" by (cases example_srt)
  have "vpnsetup_step example_vset1 VPrefixes
      (handlePrefixes (snd example_srt) (example_vset1\<lparr>vset_waiting := False\<rparr>))"
    using vs_prefixes [of example_vset1 s view] example_vset1_facts by (simp add: ss)
  from excludes_installed [OF reach_step [OF example_vset1_reach this], of s view]
  show ?thesis
    using example_vset1_facts(1) example_srt_running by (simp add: handlePrefixes_def ss)
qed



text \<open>
  The DNS settings are accepted exactly when the last lines of their keys show the default route,
  the proxy as the only server, and all configured domains with the root domain; otherwise they
  are reset, unless they could not be read.
\<close>

lemma ensureDNS_ok_iff:
  "ensureDNS (Some out) conf vpn =
     (let lines = split_char (CHR 0x0A) out;
          ok = (fields_ok (\<lambda>f. ''+DefaultRoute'' \<in> set f) (last_fields ''Protocols'' lines) \<and>
            last_fields ''DNS Servers'' lines = Some [dp_Address conf] \<and>
            fields_ok (\<lambda>f. insert ''~.'' (set (Prelude.fields (vn_DefaultDomain (vpn_DNS vpn)))) \<subseteq> set f)
              (last_fields ''DNS Domain'' lines))
      in (ok, if ok then [] else [VPNSetupSetDNS vpn (dp_Address conf)]))"
  by (auto simp: ensureDNS_def resetDNS_def checkDNSLines Let_def fields_ok_def checkDNSProtocols_iff
      checkDNSServers_iff checkDNSDomain_def split: option.splits)

text \<open>
  A default route of the device that was lost is never restored: resetting the DNS
  settings leaves it as it is.
\<close>

lemma default_route_not_restored:
  assumes "vpnsetup_step v (VEnsure out) v'"
  shows "ds_default (net_dns (vset_net v')) = ds_default (net_dns (vset_net v))"
  using assms by cases (simp add: ensure_keeps)

definition lost_vset :: "unit VPNSetup" where
  "lost_vset = example_vset1\<lparr>vset_net := (vset_net example_vset1)\<lparr>net_dns := no_dns\<rparr>\<rparr>"

end
