(* ===== verification/OCRunner.thy ===== *)
theory OCRunner
  imports DaemonCfg
begin

text \<open>
  The runner of OpenConnect (\<^verbatim>\<open>internal/ocrunner/connect.go\<close>): the command line and environment of
  the process, its PID file, the main loop with its unbuffered channels, and the cleanup after
  a failed shutdown. The operating system's answers (starting the process, users, groups, files)
  are arguments.
\<close>

section \<open>The process\<close>

text \<open>A command; the process ID is None until the process was started.\<close>

record oc_Cmd =
  cmd_path :: string
  cmd_args :: "string list"
  cmd_stdin :: string
  cmd_env :: "string list"
  cmd_pid :: "int option"

definition oc_parameters :: "OpenConnect \<Rightarrow> LoginInfo \<Rightarrow> string list" where
  "oc_parameters oc login =
     (let host = (if li_ConnectURL login \<noteq> '''' then li_ConnectURL login else li_Host login);
          parameters = [''--xmlconfig='' @ oc_XMLProfile oc, ''--script='' @ oc_VPNCScript oc,
            ''--cookie-on-stdin'', host, ''--servercert='' @ li_Fingerprint login];
          parameters = (if oc_NoProxy oc then parameters @ [''--no-proxy''] else parameters);
          parameters = (if li_Resolve login \<noteq> '''' then parameters @ [''--resolve='' @ li_Resolve login]
                        else parameters);
          parameters = (if oc_VPNDevice oc \<noteq> '''' then parameters @ [''--interface='' @ oc_VPNDevice oc]
                        else parameters)
      in parameters @ slice_list (oc_ExtraArgs oc))"

definition oc_command :: "string list \<Rightarrow> OpenConnect \<Rightarrow> LoginInfo \<Rightarrow> string list \<Rightarrow> oc_Cmd" where
  "oc_command environ oc login env =
     \<lparr>cmd_path = oc_OpenConnect oc, cmd_args = oc_parameters oc login, cmd_stdin = li_Cookie login,
      cmd_env = (environ @ slice_list (oc_ExtraEnv oc)) @ env, cmd_pid = None\<rparr>"

section \<open>The PID file\<close>


text \<open>The first argument yields the ID of a user or group, as the user database writes it.\<close>

definition setPIDOwner :: "(string \<Rightarrow> string option) \<Rightarrow> OpenConnect \<Rightarrow> file_op list" where
  "setPIDOwner userLookup oc =
     (if oc_PIDOwner oc = '''' then []
      else (case userLookup (oc_PIDOwner oc) of None \<Rightarrow> []
        | Some u \<Rightarrow> (case Atoi u of None \<Rightarrow> [] | Some uid \<Rightarrow> [Chown (oc_PIDFile oc) uid (-1)])))"

definition setPIDGroup :: "(string \<Rightarrow> string option) \<Rightarrow> OpenConnect \<Rightarrow> file_op list" where
  "setPIDGroup userLookupGroup oc =
     (if oc_PIDGroup oc = '''' then []
      else (case userLookupGroup (oc_PIDGroup oc) of None \<Rightarrow> []
        | Some g \<Rightarrow> (case Atoi g of None \<Rightarrow> [] | Some gid \<Rightarrow> [Chown (oc_PIDFile oc) (-1) gid])))"

definition savePidFile ::
  "(string \<Rightarrow> string option) \<Rightarrow> (string \<Rightarrow> string option) \<Rightarrow> bool \<Rightarrow> OpenConnect \<Rightarrow> oc_Cmd option \<Rightarrow> file_op list" where
  "savePidFile userLookup userLookupGroup writeOk oc command =
     (case command of None \<Rightarrow> []
      | Some c \<Rightarrow> (case cmd_pid c of None \<Rightarrow> []
        | Some pid \<Rightarrow>
          (case ParseUint (oc_PIDPermissions oc) 8 32 of None \<Rightarrow> []
           | Some perm \<Rightarrow>
             WriteFile (oc_PIDFile oc) (show_int pid @ [CHR 0x0A]) perm #
             (if writeOk then setPIDOwner userLookup oc @ setPIDGroup userLookupGroup oc else []))))"

definition getPID :: "oc_Cmd option \<Rightarrow> u32" where
  "getPID command =
     (case command of None \<Rightarrow> 0
      | Some c \<Rightarrow> (case cmd_pid c of None \<Rightarrow> 0 | Some pid \<Rightarrow> if pid < 0 then 0 else word_of_int pid))"

section \<open>Main loop\<close>

record ConnectEvent =
  ce_Connect :: bool
  ce_PID :: u32

text \<open>
  The state of the runner: its command, the event that \<^verbatim>\<open>sendEvent\<close> is handing over, whether a
  goroutine waits for the process, the goroutines that hand over an exit, whether the process was
  interrupted, the life of the loop, and, for the laws, the numbers of connections started
  and of disconnect events handed over.
\<close>

record Runner =
  oc_cmd :: "oc_Cmd option"
  oc_sending :: "ConnectEvent option"
  oc_waiting :: bool
  oc_exits :: nat
  oc_interrupted :: bool
  oc_life :: life
  oc_accepted :: nat
  oc_ended :: nat

definition NewRunner :: Runner where
  "NewRunner = \<lparr>oc_cmd = None, oc_sending = None, oc_waiting = False, oc_exits = 0,
     oc_interrupted = False, oc_life = NotStarted, oc_accepted = 0, oc_ended = 0\<rparr>"

definition Runner_Start :: "Runner \<Rightarrow> Runner" where
  "Runner_Start c = c\<lparr>oc_life := Running\<rparr>"

text \<open>
  The argument \<open>pid\<close> is the ID of the started process, None when it cannot be started. The
  handler stops at the event it sends; \<open>connect_sent\<close> is its rest.
\<close>

definition handleConnect ::
  "string list \<Rightarrow> int option \<Rightarrow> OpenConnect \<Rightarrow> LoginInfo \<Rightarrow> string list \<Rightarrow> Runner \<Rightarrow> Runner" where
  "handleConnect environ pid oc login env c =
     (if oc_cmd c \<noteq> None then c
      else
        (let c = c\<lparr>oc_cmd := Some (oc_command environ oc login env), oc_interrupted := False,
               oc_accepted := Suc (oc_accepted c)\<rparr>
         in case pid of
              None \<Rightarrow> c\<lparr>oc_exits := Suc (oc_exits c)\<rparr>
            | Some p \<Rightarrow>
                (let c = c\<lparr>oc_cmd := map_option (\<lambda>m. m\<lparr>cmd_pid := Some p\<rparr>) (oc_cmd c)\<rparr>
                 in c\<lparr>oc_sending := Some \<lparr>ce_Connect = True, ce_PID = getPID (oc_cmd c)\<rparr>\<rparr>)))"

definition connect_sent :: "Runner \<Rightarrow> Runner" where
  "connect_sent c = c\<lparr>oc_sending := None, oc_waiting := True\<rparr>"

definition handleDisconnect :: "Runner \<Rightarrow> Runner" where
  "handleDisconnect c =
     (case oc_cmd c of None \<Rightarrow> c
      | Some m \<Rightarrow> (case cmd_pid m of None \<Rightarrow> c | Some _ \<Rightarrow> c\<lparr>oc_interrupted := True\<rparr>))"

definition handleOCExit :: "Runner \<Rightarrow> Runner" where
  "handleOCExit c = c\<lparr>oc_cmd := None, oc_sending := Some \<lparr>ce_Connect = False, ce_PID = 0\<rparr>\<rparr>"

definition exit_sent :: "Runner \<Rightarrow> Runner" where
  "exit_sent c = c\<lparr>oc_sending := None, oc_ended := Suc (oc_ended c)\<rparr>"

text \<open>
  Stopping: \<^verbatim>\<open>handleStop\<close> interrupts a process, waits for its exit and handles it, where the
  event is dropped because \<^verbatim>\<open>done\<close> is closed. The argument tells whether an interrupted process
  ends.
\<close>

definition Runner_Stop :: "bool \<Rightarrow> Runner \<Rightarrow> Runner outcome" where
  "Runner_Stop ends c =
     (case life_Stop (oc_life c) of
        Returns l \<Rightarrow>
          (if oc_cmd c = None then Returns (c\<lparr>oc_sending := None, oc_life := l\<rparr>)
           else
             (let c = handleDisconnect c in
              if 0 < oc_exits c \<or> ends
              then Returns ((handleOCExit c)\<lparr>oc_sending := None, oc_waiting := False, oc_exits := 0, oc_life := l\<rparr>)
              else Blocks))
      | Panics \<Rightarrow> Panics | Blocks \<Rightarrow> Blocks)"

text \<open>
  The commands that the daemon sends, and the labels of the runner's steps: a command taken,
  the end of the process, an exit taken, an event handed to the daemon. The loop takes
  commands and exits only while it does not wait to hand over an event.
\<close>

datatype runner_cmd = RConnect OpenConnect LoginInfo "string list" | RDisconnect

datatype runner_event = RCommand runner_cmd | ProcessEnds | ExitTaken | EventSent ConnectEvent

fun runner_take :: "string list \<Rightarrow> int option \<Rightarrow> runner_cmd \<Rightarrow> Runner \<Rightarrow> Runner" where
  "runner_take environ pid (RConnect oc login env) c = handleConnect environ pid oc login env c"
| "runner_take environ pid RDisconnect c = handleDisconnect c"

inductive runner_step :: "Runner \<Rightarrow> runner_event \<Rightarrow> Runner \<Rightarrow> bool" where
  r_command: "oc_life c = Running \<Longrightarrow> oc_sending c = None \<Longrightarrow>
    runner_step c (RCommand cmd) (runner_take environ pid cmd c)"
| r_process: "oc_waiting c \<Longrightarrow>
    runner_step c ProcessEnds (c\<lparr>oc_waiting := False, oc_exits := Suc (oc_exits c)\<rparr>)"
| r_exit: "oc_life c = Running \<Longrightarrow> oc_sending c = None \<Longrightarrow> 0 < oc_exits c \<Longrightarrow>
    runner_step c ExitTaken (handleOCExit (c\<lparr>oc_exits := oc_exits c - 1\<rparr>))"
| r_event: "oc_life c = Running \<Longrightarrow> oc_sending c = Some e \<Longrightarrow>
    runner_step c (EventSent e) (if ce_Connect e then connect_sent c else exit_sent c)"

inductive_cases runner_stepE: "runner_step c e c'"

definition runner_init :: "Runner \<Rightarrow> bool" where
  "runner_init c \<longleftrightarrow> c = Runner_Start NewRunner"

text \<open>
  Cleaning up: the content of the PID file, the command line of a process and whether the process
  is found are arguments; the result is the process that is sent an interrupt.
\<close>

definition CleanupConnect ::
  "(string \<Rightarrow> string option) \<Rightarrow> (int \<Rightarrow> bool) \<Rightarrow> OpenConnect \<Rightarrow> int option" where
  "CleanupConnect osReadFile osFindProcess oc =
     (case osReadFile (oc_PIDFile oc) of None \<Rightarrow> None
      | Some b \<Rightarrow>
        (case Atoi (trim_space b) of None \<Rightarrow> None
         | Some pid \<Rightarrow>
           (case osReadFile (''/proc/'' @ show_int pid @ ''/cmdline'') of None \<Rightarrow> None
            | Some cmdLine \<Rightarrow>
              if \<not> has_prefix cmdLine (oc_OpenConnect oc) then None
              else if osFindProcess pid then Some pid else None)))"

section \<open>Lemmas\<close>

text \<open>
  A command is in exactly one phase: its connect event waits to be sent, its process runs, or its
  exit waits to be taken. The counters agree with it.
\<close>

definition runner_inv :: "Runner \<Rightarrow> bool" where
  "runner_inv c \<longleftrightarrow>
     (case oc_cmd c of
        None \<Rightarrow> \<not> oc_waiting c \<and> oc_exits c = 0 \<and>
          (oc_sending c = None \<and> oc_accepted c = oc_ended c \<or>
           oc_sending c = Some \<lparr>ce_Connect = False, ce_PID = 0\<rparr> \<and> oc_accepted c = Suc (oc_ended c))
      | Some m \<Rightarrow> oc_accepted c = Suc (oc_ended c) \<and>
          (oc_sending c = Some \<lparr>ce_Connect = True, ce_PID = getPID (Some m)\<rparr> \<and> \<not> oc_waiting c \<and> oc_exits c = 0 \<or>
           oc_sending c = None \<and> oc_waiting c \<and> oc_exits c = 0 \<or>
           oc_sending c = None \<and> \<not> oc_waiting c \<and> oc_exits c = 1))"

lemmas runner_defs = handleConnect_def handleDisconnect_def handleOCExit_def connect_sent_def
  exit_sent_def Let_def

lemma runner_take_inv:
  assumes "runner_inv c" "oc_sending c = None"
  shows "runner_inv (runner_take environ pid cmd c)"
proof (cases cmd)
  case (RConnect oc login env)
  then show ?thesis
    using assms by (cases pid) (auto simp: runner_inv_def runner_defs split: option.splits)
next
  case RDisconnect
  then show ?thesis
    using assms by (auto simp: runner_inv_def runner_defs split: option.splits)
qed

interpretation runner: machine runner_init runner_step runner_inv
proof
  show "runner_inv c" if "runner_init c" for c
    using that by (simp add: runner_init_def Runner_Start_def NewRunner_def runner_inv_def)
  show "runner_inv c'" if inv: "runner_inv c" and step: "runner_step c e c'" for c e c'
    using step
  proof cases
    case r_command
    with inv show ?thesis by (simp add: runner_take_inv)
  qed (use inv in \<open>auto simp: runner_inv_def runner_defs split: option.splits\<close>)
qed

section \<open>Properties\<close>

text \<open>
  Every connection that the runner starts ends with exactly one disconnect event: in every
  reachable state the events handed over and the connection in progress account for all
  connections, and when the runner is idle each was ended. This includes
  processes that could not be started.
\<close>

lemma runner_one_disconnect:
  assumes "reach runner_init runner_step c"
  shows "oc_accepted c = oc_ended c + (if oc_cmd c = None \<and> oc_sending c = None then 0 else 1) \<and>
     (oc_cmd c \<noteq> None \<longrightarrow> oc_sending c \<noteq> None \<or> oc_waiting c \<or> 0 < oc_exits c)"
  using runner.reach_inv [OF assms] by (auto simp: runner_inv_def split: option.splits)

definition failed_runner :: Runner where
  "failed_runner = runner_take [] None (RConnect NewOpenConnect LoginInfo_zero []) (Runner_Start NewRunner)"

text \<open>
  The cookie of the login information reaches OpenConnect by its standard input only: neither
  the arguments nor the environment of the process depend on it.
\<close>

lemma cookie_only_on_stdin:
  "let m = oc_command environ oc (login\<lparr>li_Cookie := c\<rparr>) env in
     cmd_stdin m = c \<and> ''--cookie-on-stdin'' \<in> set (cmd_args m) \<and>
     m\<lparr>cmd_stdin := ''''\<rparr> = (oc_command environ oc login env)\<lparr>cmd_stdin := ''''\<rparr>"
  by (simp add: oc_command_def oc_parameters_def Let_def)

end
