(* ===== verification/VPNStatus.thy ===== *)
theory VPNStatus
  imports VPNConfig
begin

text \<open>
  The status that the daemon publishes (\<^verbatim>\<open>pkg/vpnstatus/status.go\<close>): the states of its parts with
  their names, the status record, a new status and copies.
\<close>

section \<open>States\<close>

datatype TrustedNetwork = TrustedNetworkUnknown | TrustedNetworkNotTrusted | TrustedNetworkTrusted

definition Trusted :: "TrustedNetwork \<Rightarrow> bool" where
  "Trusted t \<longleftrightarrow> t = TrustedNetworkTrusted"

fun TrustedNetwork_String :: "TrustedNetwork \<Rightarrow> string" where
  "TrustedNetwork_String TrustedNetworkUnknown = ''unknown''"
| "TrustedNetwork_String TrustedNetworkNotTrusted = ''not trusted''"
| "TrustedNetwork_String TrustedNetworkTrusted = ''trusted''"

datatype ConnectionState =
    ConnectionStateUnknown
  | ConnectionStateDisconnected
  | ConnectionStateConnecting
  | ConnectionStateConnected
  | ConnectionStateDisconnecting

definition Connecting :: "ConnectionState \<Rightarrow> bool" where
  "Connecting c \<longleftrightarrow> c = ConnectionStateConnecting"

definition Connected :: "ConnectionState \<Rightarrow> bool" where
  "Connected c \<longleftrightarrow> c = ConnectionStateConnected"

definition Disconnected :: "ConnectionState \<Rightarrow> bool" where
  "Disconnected c \<longleftrightarrow> c = ConnectionStateDisconnected"

fun ConnectionState_String :: "ConnectionState \<Rightarrow> string" where
  "ConnectionState_String ConnectionStateUnknown = ''unknown''"
| "ConnectionState_String ConnectionStateDisconnected = ''disconnected''"
| "ConnectionState_String ConnectionStateConnecting = ''connecting''"
| "ConnectionState_String ConnectionStateConnected = ''connected''"
| "ConnectionState_String ConnectionStateDisconnecting = ''disconnecting''"

datatype OCRunning = OCRunningUnknown | OCRunningNotRunning | OCRunningRunning

definition OC_Running :: "OCRunning \<Rightarrow> bool" where
  "OC_Running r \<longleftrightarrow> r = OCRunningRunning"

fun OCRunning_String :: "OCRunning \<Rightarrow> string" where
  "OCRunning_String OCRunningUnknown = ''unknown''"
| "OCRunning_String OCRunningNotRunning = ''not running''"
| "OCRunning_String OCRunningRunning = ''running''"

datatype TrafPolState =
  TrafPolStateUnknown | TrafPolStateInactive | TrafPolStateActive | TrafPolStateDisabled

fun TrafPolState_String :: "TrafPolState \<Rightarrow> string" where
  "TrafPolState_String TrafPolStateUnknown = ''unknown''"
| "TrafPolState_String TrafPolStateInactive = ''inactive''"
| "TrafPolState_String TrafPolStateActive = ''active''"
| "TrafPolState_String TrafPolStateDisabled = ''disabled''"

datatype CaptivePortal = CaptivePortalUnknown | CaptivePortalNotDetected | CaptivePortalDetected

fun CaptivePortal_String :: "CaptivePortal \<Rightarrow> string" where
  "CaptivePortal_String CaptivePortalUnknown = ''unknown''"
| "CaptivePortal_String CaptivePortalNotDetected = ''not detected''"
| "CaptivePortal_String CaptivePortalDetected = ''detected''"

datatype TNDState = TNDStateUnknown | TNDStateInactive | TNDStateActive

fun TNDState_String :: "TNDState \<Rightarrow> string" where
  "TNDState_String TNDStateUnknown = ''unknown''"
| "TNDState_String TNDStateInactive = ''inactive''"
| "TNDState_String TNDStateActive = ''active''"

section \<open>The status\<close>

record Status =
  st_TrustedNetwork :: TrustedNetwork
  st_ConnectionState :: ConnectionState
  st_IP :: string
  st_Device :: string
  st_Server :: string
  st_ServerIP :: string
  st_ConnectedAt :: int
  st_Servers :: "string slice"
  st_OCRunning :: OCRunning
  st_OCPID :: u32
  st_TrafPolState :: TrafPolState
  st_AllowedHosts :: "string slice"
  st_CaptivePortal :: CaptivePortal
  st_TNDState :: TNDState
  st_TNDServers :: "string slice"
  st_VPNConfig :: "vc_Config option"

text \<open>A copy; the inner None of the result is a nil status, the outer one a panic.\<close>

definition Status_Copy :: "Status option \<Rightarrow> Status option option" where
  "Status_Copy p =
     (case p of None \<Rightarrow> Some None
      | Some s \<Rightarrow>
        (case vc_Config_Copy (st_VPNConfig s) of None \<Rightarrow> None
         | Some c \<Rightarrow> Some (Some
            \<lparr>st_TrustedNetwork = st_TrustedNetwork s, st_ConnectionState = st_ConnectionState s,
             st_IP = st_IP s, st_Device = st_Device s, st_Server = st_Server s,
             st_ServerIP = st_ServerIP s, st_ConnectedAt = st_ConnectedAt s,
             st_Servers = slice_append (slice_zero (st_Servers s)) (slice_list (st_Servers s)),
             st_OCRunning = st_OCRunning s, st_OCPID = st_OCPID s,
             st_TrafPolState = st_TrafPolState s,
             st_AllowedHosts = slice_append (slice_zero (st_AllowedHosts s)) (slice_list (st_AllowedHosts s)),
             st_CaptivePortal = st_CaptivePortal s, st_TNDState = st_TNDState s,
             st_TNDServers = slice_append (slice_zero (st_TNDServers s)) (slice_list (st_TNDServers s)),
             st_VPNConfig = c\<rparr>)))"

definition NewStatus :: Status where
  "NewStatus =
     \<lparr>st_TrustedNetwork = TrustedNetworkUnknown, st_ConnectionState = ConnectionStateUnknown,
      st_IP = '''', st_Device = '''', st_Server = '''', st_ServerIP = '''', st_ConnectedAt = -1,
      st_Servers = None, st_OCRunning = OCRunningUnknown, st_OCPID = 0,
      st_TrafPolState = TrafPolStateUnknown, st_AllowedHosts = None,
      st_CaptivePortal = CaptivePortalUnknown, st_TNDState = TNDStateUnknown,
      st_TNDServers = None, st_VPNConfig = None\<rparr>"

section \<open>Lemmas\<close>

lemma Status_Copy_id:
  assumes "\<forall>c. st_VPNConfig s = Some c \<longrightarrow> vc_no_nil c"
  shows "Status_Copy (Some s) = Some (Some s)"
proof (cases "st_VPNConfig s")
  case None
  then show ?thesis by (simp add: Status_Copy_def vc_Config_Copy_def)
next
  case (Some c)
  with assms have "vc_Config_Copy (Some c) = Some (Some c)" by (simp add: vc_Config_Copy_eq)
  with Some show ?thesis by (simp add: Status_Copy_def)
qed

lemma state_names_inj:
  "inj TrustedNetwork_String" "inj ConnectionState_String" "inj OCRunning_String"
  "inj TrafPolState_String" "inj CaptivePortal_String" "inj TNDState_String"
proof -
  show "inj TrustedNetwork_String"
  proof (rule injI)
    fix x y show "TrustedNetwork_String x = TrustedNetwork_String y \<Longrightarrow> x = y" by (cases x; cases y; simp)
  qed
  show "inj ConnectionState_String"
  proof (rule injI)
    fix x y show "ConnectionState_String x = ConnectionState_String y \<Longrightarrow> x = y" by (cases x; cases y; simp)
  qed
  show "inj OCRunning_String"
  proof (rule injI)
    fix x y show "OCRunning_String x = OCRunning_String y \<Longrightarrow> x = y" by (cases x; cases y; simp)
  qed
  show "inj TrafPolState_String"
  proof (rule injI)
    fix x y show "TrafPolState_String x = TrafPolState_String y \<Longrightarrow> x = y" by (cases x; cases y; simp)
  qed
  show "inj CaptivePortal_String"
  proof (rule injI)
    fix x y show "CaptivePortal_String x = CaptivePortal_String y \<Longrightarrow> x = y" by (cases x; cases y; simp)
  qed
  show "inj TNDState_String"
  proof (rule injI)
    fix x y show "TNDState_String x = TNDState_String y \<Longrightarrow> x = y" by (cases x; cases y; simp)
  qed
qed

end
