(* ===== verification/DBusApi.thy ===== *)
theory DBusApi
  imports VPNStatus
begin

text \<open>
  The D-Bus service (\<^verbatim>\<open>internal/dbusapi/service.go\<close>): the published properties, the service that
  updates them, and the methods that clients call. The bus itself is outside: whether connecting,
  requesting the name and exporting succeed are arguments.
\<close>

section \<open>Properties\<close>

text \<open>A property name with a value of its type; the enumerations are those of the status.\<close>

datatype property =
    PropertyTrustedNetwork TrustedNetwork
  | PropertyConnectionState ConnectionState
  | PropertyIP string
  | PropertyDevice string
  | PropertyServer string
  | PropertyServerIP string
  | PropertyConnectedAt int
  | PropertyServers "string slice"
  | PropertyOCRunning OCRunning
  | PropertyOCPID u32
  | PropertyTrafPolState TrafPolState
  | PropertyAllowedHosts "string slice"
  | PropertyCaptivePortal CaptivePortal
  | PropertyTNDState TNDState
  | PropertyTNDServers "string slice"
  | PropertyVPNConfig string

record Properties =
  dp_TrustedNetwork :: TrustedNetwork
  dp_ConnectionState :: ConnectionState
  dp_IP :: string
  dp_Device :: string
  dp_Server :: string
  dp_ServerIP :: string
  dp_ConnectedAt :: int
  dp_Servers :: "string slice"
  dp_OCRunning :: OCRunning
  dp_OCPID :: u32
  dp_TrafPolState :: TrafPolState
  dp_AllowedHosts :: "string slice"
  dp_CaptivePortal :: CaptivePortal
  dp_TNDState :: TNDState
  dp_TNDServers :: "string slice"
  dp_VPNConfig :: string

fun SetMust :: "property \<Rightarrow> Properties \<Rightarrow> Properties" where
  "SetMust (PropertyTrustedNetwork v) p = p\<lparr>dp_TrustedNetwork := v\<rparr>"
| "SetMust (PropertyConnectionState v) p = p\<lparr>dp_ConnectionState := v\<rparr>"
| "SetMust (PropertyIP v) p = p\<lparr>dp_IP := v\<rparr>"
| "SetMust (PropertyDevice v) p = p\<lparr>dp_Device := v\<rparr>"
| "SetMust (PropertyServer v) p = p\<lparr>dp_Server := v\<rparr>"
| "SetMust (PropertyServerIP v) p = p\<lparr>dp_ServerIP := v\<rparr>"
| "SetMust (PropertyConnectedAt v) p = p\<lparr>dp_ConnectedAt := v\<rparr>"
| "SetMust (PropertyServers v) p = p\<lparr>dp_Servers := v\<rparr>"
| "SetMust (PropertyOCRunning v) p = p\<lparr>dp_OCRunning := v\<rparr>"
| "SetMust (PropertyOCPID v) p = p\<lparr>dp_OCPID := v\<rparr>"
| "SetMust (PropertyTrafPolState v) p = p\<lparr>dp_TrafPolState := v\<rparr>"
| "SetMust (PropertyAllowedHosts v) p = p\<lparr>dp_AllowedHosts := v\<rparr>"
| "SetMust (PropertyCaptivePortal v) p = p\<lparr>dp_CaptivePortal := v\<rparr>"
| "SetMust (PropertyTNDState v) p = p\<lparr>dp_TNDState := v\<rparr>"
| "SetMust (PropertyTNDServers v) p = p\<lparr>dp_TNDServers := v\<rparr>"
| "SetMust (PropertyVPNConfig v) p = p\<lparr>dp_VPNConfig := v\<rparr>"

definition IPInvalid :: string where
  "IPInvalid = ''''"

definition DeviceInvalid :: string where
  "DeviceInvalid = ''''"

definition ServerInvalid :: string where
  "ServerInvalid = ''''"

definition ServerIPInvalid :: string where
  "ServerIPInvalid = ''''"

definition ConnectedAtInvalid :: int where
  "ConnectedAtInvalid = -1"

definition OCPIDInvalid :: u32 where
  "OCPIDInvalid = 0"

definition VPNConfigInvalid :: string where
  "VPNConfigInvalid = ''''"

definition initialProps :: "property list" where
  "initialProps =
     [PropertyTrustedNetwork TrustedNetworkUnknown,
      PropertyConnectionState ConnectionStateUnknown,
      PropertyIP IPInvalid,
      PropertyDevice DeviceInvalid,
      PropertyServer ServerInvalid,
      PropertyServerIP ServerIPInvalid,
      PropertyConnectedAt ConnectedAtInvalid,
      PropertyServers None,
      PropertyOCRunning OCRunningUnknown,
      PropertyOCPID OCPIDInvalid,
      PropertyTrafPolState TrafPolStateUnknown,
      PropertyAllowedHosts None,
      PropertyCaptivePortal CaptivePortalUnknown,
      PropertyTNDState TNDStateUnknown,
      PropertyTNDServers None,
      PropertyVPNConfig VPNConfigInvalid]"

definition setInitialProps :: "Properties \<Rightarrow> Properties" where
  "setInitialProps p = foldl (\<lambda>p u. SetMust u p) p initialProps"

text \<open>The properties of the specification that \<^verbatim>\<open>Start\<close> exports.\<close>

definition propsSpec :: Properties where
  "propsSpec =
     \<lparr>dp_TrustedNetwork = TrustedNetworkUnknown, dp_ConnectionState = ConnectionStateUnknown,
      dp_IP = IPInvalid, dp_Device = DeviceInvalid, dp_Server = ServerInvalid,
      dp_ServerIP = ServerIPInvalid, dp_ConnectedAt = ConnectedAtInvalid, dp_Servers = None,
      dp_OCRunning = OCRunningUnknown, dp_OCPID = OCPIDInvalid,
      dp_TrafPolState = TrafPolStateUnknown, dp_AllowedHosts = None,
      dp_CaptivePortal = CaptivePortalUnknown, dp_TNDState = TNDStateUnknown,
      dp_TNDServers = None, dp_VPNConfig = VPNConfigInvalid\<rparr>"

section \<open>The service\<close>

text \<open>The exported properties, if there are any, and the life of the service's goroutine.\<close>

record Service =
  sv_props :: "Properties option"
  sv_life :: life

definition NewService :: Service where
  "NewService = \<lparr>sv_props = None, sv_life = NotStarted\<rparr>"

datatype dbus_error = BusError | NameError | NameTaken | ExportMethodsError | ExportPropsError | ExportIntroError

text \<open>The argument is the first call to the bus that fails, if one does.\<close>

definition Service_Start :: "dbus_error option \<Rightarrow> Service \<Rightarrow> (dbus_error + unit) \<times> Service" where
  "Service_Start err s =
     (case err of
        Some ExportIntroError \<Rightarrow> (Inl ExportIntroError, s\<lparr>sv_props := Some propsSpec\<rparr>)
      | Some e \<Rightarrow> (Inl e, s)
      | None \<Rightarrow> (Inr (), s\<lparr>sv_props := Some (setInitialProps propsSpec), sv_life := Running\<rparr>))"

text \<open>The goroutine sets the properties back before it ends.\<close>

definition Service_Stop :: "Service \<Rightarrow> Service outcome" where
  "Service_Stop s =
     (case life_Stop (sv_life s) of
        Returns l \<Rightarrow> Returns (s\<lparr>sv_props := map_option setInitialProps (sv_props s), sv_life := l\<rparr>)
      | Panics \<Rightarrow> Panics | Blocks \<Rightarrow> Blocks)"

text \<open>
  An update is handed to the running goroutine, which sets the property, and dropped after the
  service was stopped. Before it is started, no one receives the update.
\<close>

definition SetProperty :: "property \<Rightarrow> Service \<Rightarrow> Service outcome" where
  "SetProperty u s =
     (case sv_life s of
        Running \<Rightarrow> Returns (s\<lparr>sv_props := map_option (SetMust u) (sv_props s)\<rparr>)
      | Stopped \<Rightarrow> Returns s
      | _ \<Rightarrow> Blocks)"

section \<open>Methods\<close>

record dbus_Request =
  rq_Name :: string
  rq_Parameters :: "string list"
  rq_Results :: "string list"
  rq_Error :: "string option"

definition dbus_NewRequest :: "string \<Rightarrow> dbus_Request" where
  "dbus_NewRequest name = \<lparr>rq_Name = name, rq_Parameters = [], rq_Results = [], rq_Error = None\<rparr>"

text \<open>
  What happens to a request: the service stops before the daemon takes it, or while
  the daemon has it, or the daemon handles and closes it with some results.
\<close>

datatype request_fate = NotTaken | NotClosed | Closed "string list"

definition Request_Wait :: "request_fate \<Rightarrow> dbus_Request \<Rightarrow> dbus_Request" where
  "Request_Wait fate r =
     (case fate of Closed results \<Rightarrow> r\<lparr>rq_Results := results\<rparr>
      | _ \<Rightarrow> r\<lparr>rq_Error := Some ''Request aborted''\<rparr>)"

text \<open>A method's result is an error, the name's suffix and the message, or the results.\<close>

definition dbus_method :: "string \<Rightarrow> string list \<Rightarrow> request_fate \<Rightarrow> (string \<times> string) + string list" where
  "dbus_method name params fate =
     (let r = (dbus_NewRequest name)\<lparr>rq_Parameters := params\<rparr> in
      if fate = NotTaken then Inl (''.'' @ name @ ''Aborted'', name @ '' aborted'')
      else (let r = Request_Wait fate r in
            case rq_Error r of Some e \<Rightarrow> Inl (''.'' @ name @ ''Aborted'', e) | None \<Rightarrow> Inr (rq_Results r)))"

definition dbus_Connect ::
  "string \<Rightarrow> string \<Rightarrow> string \<Rightarrow> string \<Rightarrow> string \<Rightarrow> string \<Rightarrow> request_fate \<Rightarrow> (string \<times> string) + string list" where
  "dbus_Connect server cookie host connectURL fingerprint resolve =
     dbus_method ''Connect'' [server, cookie, host, connectURL, fingerprint, resolve]"

definition dbus_Disconnect :: "request_fate \<Rightarrow> (string \<times> string) + string list" where
  "dbus_Disconnect = dbus_method ''Disconnect'' []"

definition dbus_DumpState :: "request_fate \<Rightarrow> (string \<times> string) + string list" where
  "dbus_DumpState = dbus_method ''DumpState'' []"

section \<open>The view of a status\<close>

text \<open>
  The properties that show a status, for the conversion of a VPN configuration to JSON that is
  the argument.
\<close>

definition json_property :: "(vc_Config \<Rightarrow> string option) \<Rightarrow> vc_Config option \<Rightarrow> string" where
  "json_property json config =
     (case config of None \<Rightarrow> VPNConfigInvalid
      | Some c \<Rightarrow> (case json c of None \<Rightarrow> VPNConfigInvalid | Some s \<Rightarrow> s))"

definition props_show :: "(vc_Config \<Rightarrow> string option) \<Rightarrow> Status \<Rightarrow> Properties \<Rightarrow> bool" where
  "props_show json s p \<longleftrightarrow>
     p = \<lparr>dp_TrustedNetwork = st_TrustedNetwork s, dp_ConnectionState = st_ConnectionState s,
       dp_IP = st_IP s, dp_Device = st_Device s, dp_Server = st_Server s,
       dp_ServerIP = st_ServerIP s, dp_ConnectedAt = st_ConnectedAt s, dp_Servers = st_Servers s,
       dp_OCRunning = st_OCRunning s, dp_OCPID = st_OCPID s,
       dp_TrafPolState = st_TrafPolState s, dp_AllowedHosts = st_AllowedHosts s,
       dp_CaptivePortal = st_CaptivePortal s, dp_TNDState = st_TNDState s,
       dp_TNDServers = st_TNDServers s, dp_VPNConfig = json_property json (st_VPNConfig s)\<rparr>"

lemma setInitialProps_spec: "setInitialProps p = propsSpec"
  by (simp add: setInitialProps_def initialProps_def propsSpec_def)

text \<open>A started service shows a new status, and a stopped one shows it again.\<close>

lemma Service_Start_shows:
  "\<exists>p. sv_props (snd (Service_Start None s)) = Some p \<and> props_show json NewStatus p"
  by (auto simp: Service_Start_def setInitialProps_spec propsSpec_def props_show_def NewStatus_def
      json_property_def IPInvalid_def DeviceInvalid_def ServerInvalid_def ServerIPInvalid_def
      ConnectedAtInvalid_def OCPIDInvalid_def)

end
