(* ===== verification/Base64.thy ===== *)
theory Base64
  imports Prelude
begin

text \<open>
  The encoding \<^verbatim>\<open>RawURLEncoding\<close> of Go's \<^verbatim>\<open>encoding/base64\<close>, by which the message token
  is passed to the script: the alphabet for URLs, without padding. Decoding skips line breaks and
  does not look at the unused bits of the last character. What was encoded is decoded.
\<close>

section \<open>Model\<close>

definition b64_alphabet :: string where
  "b64_alphabet = ''ABCDEFGHIJKLMNOPQRSTUVWXYZabcdefghijklmnopqrstuvwxyz0123456789-_''"

definition b64_char :: "nat \<Rightarrow> char" where
  "b64_char v = b64_alphabet ! v"

definition b64_value :: "char \<Rightarrow> nat option" where
  "b64_value c = List.find (\<lambda>v. b64_char v = c) [0..<64]"

text \<open>The values of six bits in groups of three bytes, and back.\<close>

fun b64_split :: "nat list \<Rightarrow> nat list" where
  "b64_split (a # b # c # bs) =
     [a div 4, a mod 4 * 16 + b div 16, b mod 16 * 4 + c div 64, c mod 64] @ b64_split bs"
| "b64_split [a, b] = [a div 4, a mod 4 * 16 + b div 16, b mod 16 * 4]"
| "b64_split [a] = [a div 4, a mod 4 * 16]"
| "b64_split [] = []"

fun b64_join :: "nat list \<Rightarrow> nat list option" where
  "b64_join (p # q # r # s # vs) =
     map_option (\<lambda>bs. [p * 4 + q div 16, q mod 16 * 16 + r div 4, r mod 4 * 64 + s] @ bs) (b64_join vs)"
| "b64_join [p, q, r] = Some [p * 4 + q div 16, q mod 16 * 16 + r div 4]"
| "b64_join [p, q] = Some [p * 4 + q div 16]"
| "b64_join [p] = None"
| "b64_join [] = Some []"

definition b64_encode :: "u8 list \<Rightarrow> string" where
  "b64_encode bs = map b64_char (b64_split (map unat bs))"

definition b64_decode :: "string \<Rightarrow> u8 list option" where
  "b64_decode s =
     (case those (map b64_value (filter (\<lambda>c. c \<noteq> CHR 0x0A \<and> c \<noteq> CHR 0x0D) s)) of
        None \<Rightarrow> None | Some vs \<Rightarrow> map_option (map word_of_nat) (b64_join vs))"

section \<open>Lemmas\<close>

lemma b64_value_char:
  assumes "v < 64"
  shows "b64_value (b64_char v) = Some v" "b64_char v \<noteq> CHR 0x0A" "b64_char v \<noteq> CHR 0x0D"
proof -
  have "\<forall>v \<in> set [0..<64]. b64_value (b64_char v) = Some v \<and> b64_char v \<noteq> CHR 0x0A \<and> b64_char v \<noteq> CHR 0x0D"
    by code_simp
  moreover have "v \<in> set [0..<64]" using assms by simp
  ultimately show "b64_value (b64_char v) = Some v" "b64_char v \<noteq> CHR 0x0A" "b64_char v \<noteq> CHR 0x0D" by blast+
qed

lemma group_parts:
  fixes x y k :: nat
  assumes "y < k"
  shows "(x * k + y) div k = x" "(x * k + y) mod k = y"
  using assms by simp_all

lemma byte_parts:
  fixes b :: nat
  assumes "b < 256"
  shows "b div 4 < 64" "b div 16 < 16" "b div 64 < 4" "b mod 4 < 4" "b mod 16 < 16" "b mod 64 < 64"
  using assms by (simp_all add: less_mult_imp_div_less)

lemma six_bits: "x < 4 \<Longrightarrow> y < 16 \<Longrightarrow> x * 16 + y < 64" "x < 16 \<Longrightarrow> y < 4 \<Longrightarrow> x * 4 + y < 64" for x y :: nat
  by linarith+

lemma b64_split_range: "\<forall>b \<in> set bs. b < 256 \<Longrightarrow> \<forall>v \<in> set (b64_split bs). v < 64"
proof (induction bs rule: b64_split.induct)
  case (1 a b c bs)
  then have r: "a < 256" "b < 256" "c < 256" by simp_all
  have "a mod 4 * 16 + b div 16 < 64" "b mod 16 * 4 + c div 64 < 64"
    by (rule six_bits; rule byte_parts, fact r)+
  with 1 byte_parts(1) [OF r(1)] byte_parts(6) [OF r(3)] show ?case by simp
next
  case (2 a b)
  then have r: "a < 256" "b < 256" by simp_all
  have "a mod 4 * 16 + b div 16 < 64" by (rule six_bits; rule byte_parts, fact r)
  with six_bits(2) [OF byte_parts(5) [OF r(2)], of 0] byte_parts(1) [OF r(1)] show ?case by simp
next
  case (3 a)
  then have "a < 256" by simp
  from six_bits(1) [OF byte_parts(4) [OF this], of 0] byte_parts(1) [OF this] show ?case by simp
qed simp

lemma b64_join_split: "\<forall>b \<in> set bs. b < 256 \<Longrightarrow> b64_join (b64_split bs) = Some bs"
proof (induction bs rule: b64_split.induct)
  case (1 a b c bs)
  then show ?case
    using byte_parts [of b] byte_parts [of c] by (simp add: group_parts)
next
  case (2 a b)
  then show ?case using byte_parts [of b] by (simp add: group_parts)
qed simp_all

lemma those_map_Some: "\<forall>x \<in> set xs. f x = Some (g x) \<Longrightarrow> those (map f xs) = Some (map g xs)"
  by (induction xs) auto

text \<open>What was encoded is decoded.\<close>

lemma b64_decode_encode: "b64_decode (b64_encode bs) = Some bs"
proof -
  let ?vs = "b64_split (map unat bs)"
  have small: "\<forall>b \<in> set (map unat bs). b < 256" using unsigned_less [where 'a = nat and 'b = 8] by auto
  note range = b64_split_range [OF small]
  have "filter (\<lambda>c. c \<noteq> CHR 0x0A \<and> c \<noteq> CHR 0x0D) (map b64_char ?vs) = map b64_char ?vs"
    using range b64_value_char by (auto intro!: filter_True)
  moreover have "those (map b64_value (map b64_char ?vs)) = Some ?vs"
    using range b64_value_char(1) those_map_Some [of ?vs "b64_value \<circ> b64_char" "\<lambda>v. v"] by simp
  moreover have "map word_of_nat (map unat bs) = bs" by (simp add: map_idI)
  ultimately show ?thesis
    using b64_join_split [OF small] by (simp add: b64_decode_def b64_encode_def)
qed

end
