(* ===== verification/Json.thy ===== *)
theory Json
  imports Base64
begin

text \<open>
  JSON as Go's \<^verbatim>\<open>encoding/json\<close> writes and reads it: values, their text, reading text with a
  stack machine, and encoders and decoders for the types the program uses. Decoding a value into
  a variable keeps what the text does not mention, so a decoder takes the old value; its first
  result says whether there was no error. Texts are sequences of bytes; what is no UTF-8 is replaced
  on both ways.
\<close>

section \<open>Values and their text\<close>

text \<open>A number is kept as it is written.\<close>

datatype json =
    JNull
  | JBool bool
  | JNum string
  | JStr string
  | JArr "json list"
  | JObj "(string \<times> json) list"

definition hex4 :: "nat \<Rightarrow> string" where
  "hex4 n = map digit_char [n div 4096 mod 16, n div 256 mod 16, n div 16 mod 16, n mod 16]"

text \<open>Quotes, backslashes and control characters are escaped, and the characters that HTML escapes.\<close>

definition esc_char :: "char \<Rightarrow> string" where
  "esc_char c =
     (if c = CHR 0x22 \<or> c = CHR 0x5C then [CHR 0x5C, c]
      else if c = CHR 0x08 then [CHR 0x5C, CHR ''b'']
      else if c = CHR 0x0C then [CHR 0x5C, CHR ''f'']
      else if c = CHR 0x0A then [CHR 0x5C, CHR ''n'']
      else if c = CHR 0x0D then [CHR 0x5C, CHR ''r'']
      else if c = CHR 0x09 then [CHR 0x5C, CHR ''t'']
      else if (of_char c :: nat) < 32 \<or> c \<in> {CHR ''<'', CHR ''>'', CHR ''&''}
        then CHR 0x5C # CHR ''u'' # hex4 (of_char c)
      else [c])"

text \<open>The number of bytes of the first character of a text, 0 when it is not valid UTF-8.\<close>

definition cont_byte :: "nat \<Rightarrow> bool" where
  "cont_byte n \<longleftrightarrow> 0x80 \<le> n \<and> n < 0xC0"

definition rune_of :: "(nat \<Rightarrow> nat) \<Rightarrow> nat" where
  "rune_of b =
     (if b 0 < 0x80 then 1
      else if 0xC2 \<le> b 0 \<and> b 0 < 0xE0 \<and> cont_byte (b 1) then 2
      else if 0xE0 \<le> b 0 \<and> b 0 < 0xF0 \<and> (b 0 = 0xE0 \<longrightarrow> 0xA0 \<le> b 1) \<and> (b 0 = 0xED \<longrightarrow> b 1 < 0xA0) \<and>
        cont_byte (b 1) \<and> cont_byte (b 2) then 3
      else if 0xF0 \<le> b 0 \<and> b 0 < 0xF5 \<and> (b 0 = 0xF0 \<longrightarrow> 0x90 \<le> b 1) \<and> (b 0 = 0xF4 \<longrightarrow> b 1 < 0x90) \<and>
        cont_byte (b 1) \<and> cont_byte (b 2) \<and> cont_byte (b 3) then 4
      else 0)"

definition rune_len :: "string \<Rightarrow> nat" where
  "rune_len s = rune_of (\<lambda>i. if i < length s then of_char (s ! i) else 0)"

lemma rune_of_cont: "0 < i \<Longrightarrow> i < rune_of b \<Longrightarrow> 0x80 \<le> b i"
proof -
  assume i: "0 < i" "i < rune_of b"
  have "rune_of b \<le> 4" by (simp add: rune_of_def)
  with i consider "i = 1" | "i = 2" | "i = 3" by linarith
  then show ?thesis by cases (use i in \<open>simp_all add: rune_of_def cont_byte_def split: if_split_asm\<close>)
qed

lemma rune_of_cong:
  assumes "0 < rune_of b" "\<And>i. i < rune_of b \<Longrightarrow> b' i = b i"
  shows "rune_of b' = rune_of b"
proof -
  have b: "1 < rune_of b \<Longrightarrow> b' 1 = b 1" "2 < rune_of b \<Longrightarrow> b' 2 = b 2" "3 < rune_of b \<Longrightarrow> b' 3 = b 3" "b' 0 = b 0"
    using assms by simp_all
  consider "rune_of b = 1" | "rune_of b = 2" | "rune_of b = 3" | "rune_of b = 4"
    using assms(1) by (simp add: rune_of_def split: if_split_asm)
  then show ?thesis
    by cases (use b in \<open>simp_all add: rune_of_def split: if_split_asm\<close>)
qed

lemma rune_len_ascii [simp]: "(of_char c :: nat) < 128 \<Longrightarrow> rune_len (c # cs) = 1"
  by (simp add: rune_len_def rune_of_def)

lemma rune_len_take:
  assumes "0 < rune_len s" "s \<noteq> []"
  shows "rune_len s \<le> length s" "rune_len (take (rune_len s) s @ r) = rune_len s"
proof -
  show le: "rune_len s \<le> length s"
    using rune_of_cont [of "length s" "\<lambda>i. if i < length s then of_char (s ! i) else 0"] assms(2)
    by (force simp: rune_len_def)
  show "rune_len (take (rune_len s) s @ r) = rune_len s"
    unfolding rune_len_def [of "take _ _ @ _"] rune_len_def [of s, symmetric]
    by (subst (2) rune_len_def, rule rune_of_cong)
      (use assms(1) le in \<open>auto simp: nth_append simp flip: rune_len_def\<close>)
qed

text \<open>The text of a string: also the line separators U+2028 and U+2029 are escaped.\<close>

definition line_sep :: "string \<Rightarrow> bool" where
  "line_sep s \<longleftrightarrow> take 3 s \<in> {[CHR 0xE2, CHR 0x80, CHR 0xA8], [CHR 0xE2, CHR 0x80, CHR 0xA9]}"

function esc_string :: "string \<Rightarrow> string" where
  "esc_string s =
     (case s of [] \<Rightarrow> []
      | c # cs \<Rightarrow>
        (if (of_char c :: nat) < 128 then esc_char c @ esc_string cs
         else if rune_len s = 0 then [CHR 0x5C] @ ''ufffd'' @ esc_string cs
         else if line_sep s then [CHR 0x5C] @ ''u202'' @ [digit_char (of_char (s ! 2) mod 16)] @ esc_string (drop 3 s)
         else take (rune_len s) s @ esc_string (drop (rune_len s) s)))"
  by pat_completeness auto
termination
  by (relation "measure length") auto

declare esc_string.simps [simp del]

definition json_quote :: "string \<Rightarrow> string" where
  "json_quote s = CHR 0x22 # esc_string s @ [CHR 0x22]"

fun comma_sep :: "string list \<Rightarrow> string" where
  "comma_sep [] = []"
| "comma_sep [x] = x"
| "comma_sep (x # y # ys) = x @ CHR '','' # comma_sep (y # ys)"

fun json_text :: "json \<Rightarrow> string" where
  "json_text JNull = ''null''"
| "json_text (JBool b) = (if b then ''true'' else ''false'')"
| "json_text (JNum n) = n"
| "json_text (JStr s) = json_quote s"
| "json_text (JArr xs) = CHR ''['' # comma_sep (map json_text xs) @ '']''"
| "json_text (JObj kvs) = CHR ''{'' # comma_sep (map (\<lambda>(k, v). json_quote k @ CHR '':'' # json_text v) kvs) @ ''}''"

text \<open>The indented text, with four spaces for each level.\<close>

definition json_newline :: "nat \<Rightarrow> string" where
  "json_newline k = CHR 0x0A # concat (replicate k ''    '')"

fun json_indent :: "nat \<Rightarrow> json \<Rightarrow> string" where
  "json_indent k (JArr xs) =
     (if xs = [] then ''[]''
      else CHR ''['' # comma_sep (map (\<lambda>x. json_newline (Suc k) @ json_indent (Suc k) x) xs) @ json_newline k @ '']'')"
| "json_indent k (JObj kvs) =
     (if kvs = [] then ''{}''
      else CHR ''{'' # comma_sep (map (\<lambda>(n, v). json_newline (Suc k) @ json_quote n @ '': '' @ json_indent (Suc k) v) kvs) @
        json_newline k @ ''}'')"
| "json_indent k j = json_text j"

section \<open>Reading text\<close>

text \<open>The bytes of a Unicode code point.\<close>

definition utf8 :: "nat \<Rightarrow> string" where
  "utf8 n = map char_of
     (if n < 0x80 then [n]
      else if n < 0x800 then [0xC0 + n div 64, 0x80 + n mod 64]
      else if n < 0x10000 then [0xE0 + n div 4096, 0x80 + n div 64 mod 64, 0x80 + n mod 64]
      else [0xF0 + n div 262144, 0x80 + n div 4096 mod 64, 0x80 + n div 64 mod 64, 0x80 + n mod 64])"

definition hex_value :: "string \<Rightarrow> nat option" where
  "hex_value s = read_base 16 s"

text \<open>
  The rest of a string after its opening quote: its bytes and what follows the closing quote. A pair
  of surrogates is one code point; a single one is replaced.
\<close>

definition surrogate :: "nat \<Rightarrow> bool" where
  "surrogate n \<longleftrightarrow> 0xD800 \<le> n \<and> n < 0xE000"

definition read_escape :: "char \<Rightarrow> char option" where
  "read_escape c =
     (if c \<in> {CHR 0x22, CHR 0x5C, CHR ''/''} then Some c
      else if c = CHR ''b'' then Some CHR 0x08
      else if c = CHR ''f'' then Some CHR 0x0C
      else if c = CHR ''n'' then Some CHR 0x0A
      else if c = CHR ''r'' then Some CHR 0x0D
      else if c = CHR ''t'' then Some CHR 0x09
      else None)"

text \<open>The code point after \<^verbatim>\<open>\u\<close>, and the rest.\<close>

definition read_u4 :: "string \<Rightarrow> (nat \<times> string) option" where
  "read_u4 s =
     (if length s < 4 then None
      else (case hex_value (take 4 s) of None \<Rightarrow> None | Some n \<Rightarrow> Some (n, drop 4 s)))"

definition low_surrogate :: "string \<Rightarrow> (nat \<times> string) option" where
  "low_surrogate s =
     (if 2 \<le> length s \<and> take 2 s = [CHR 0x5C, CHR ''u''] then
        (case read_u4 (drop 2 s) of None \<Rightarrow> None
         | Some (m, rest) \<Rightarrow> if 0xDC00 \<le> m \<and> m < 0xE000 then Some (m, rest) else None)
      else None)"

definition read_unicode :: "string \<Rightarrow> (string \<times> string) option" where
  "read_unicode s =
     (case read_u4 s of None \<Rightarrow> None
      | Some (n, rest) \<Rightarrow>
          (if \<not> surrogate n then Some (utf8 n, rest)
           else (case (if n < 0xDC00 then low_surrogate rest else None) of
                   Some (m, rest') \<Rightarrow> Some (utf8 (0x10000 + (n - 0xD800) * 0x400 + (m - 0xDC00)), rest')
                 | None \<Rightarrow> Some (utf8 0xFFFD, rest))))"

lemma read_u4_length: "read_u4 s = Some (n, rest) \<Longrightarrow> length rest < length s"
  by (auto simp: read_u4_def split: if_splits option.splits)

lemma read_unicode_length: "read_unicode s = Some (t, rest) \<Longrightarrow> length rest < length s"
  by (auto simp: read_unicode_def low_surrogate_def split: if_splits option.splits dest!: read_u4_length)

function read_string :: "string \<Rightarrow> (string \<times> string) option" where
  "read_string s =
     (case s of [] \<Rightarrow> None
      | c # cs \<Rightarrow>
        (if c = CHR 0x22 then Some ([], cs)
         else if (of_char c :: nat) < 32 then None
         else if c = CHR 0x5C then
           (case cs of [] \<Rightarrow> None
            | e # ds \<Rightarrow>
              (if e = CHR ''u'' then
                 (case read_unicode ds of None \<Rightarrow> None
                  | Some (t, rest) \<Rightarrow> map_option (\<lambda>(u, r). (t @ u, r)) (read_string rest))
               else
                 (case read_escape e of None \<Rightarrow> None
                  | Some x \<Rightarrow> map_option (\<lambda>(u, r). (x # u, r)) (read_string ds))))
         else if (of_char c :: nat) < 128 then map_option (\<lambda>(u, r). (c # u, r)) (read_string cs)
         else if rune_len s = 0 then map_option (\<lambda>(u, r). (utf8 0xFFFD @ u, r)) (read_string cs)
         else map_option (\<lambda>(u, r). (take (rune_len s) s @ u, r)) (read_string (drop (rune_len s) s))))"
  by pat_completeness auto
termination
  by (relation "measure length") (auto dest: read_unicode_length)

declare read_string.simps [simp del]

text \<open>Numbers: an optional sign, digits without leading zero, fraction and exponent.\<close>

definition dec_digit :: "char \<Rightarrow> bool" where
  "dec_digit c \<longleftrightarrow> c \<in> set ''0123456789''"

definition number_char :: "char \<Rightarrow> bool" where
  "number_char c \<longleftrightarrow> c \<in> set ''0123456789+-.eE''"

fun valid_exp :: "string \<Rightarrow> bool" where
  "valid_exp [] = True"
| "valid_exp (c # cs) \<longleftrightarrow> c \<in> {CHR ''e'', CHR ''E''} \<and>
     (let ds = (case cs of [] \<Rightarrow> [] | d # ds \<Rightarrow> if d \<in> {CHR ''+'', CHR ''-''} then ds else cs)
      in ds \<noteq> [] \<and> list_all dec_digit ds)"

fun valid_frac :: "string \<Rightarrow> bool" where
  "valid_frac [] = True"
| "valid_frac (c # cs) \<longleftrightarrow>
     (if c = CHR ''.'' then takeWhile dec_digit cs \<noteq> [] \<and> valid_exp (dropWhile dec_digit cs)
      else valid_exp (c # cs))"

definition valid_number :: "string \<Rightarrow> bool" where
  "valid_number s \<longleftrightarrow>
     (let t = (case s of [] \<Rightarrow> [] | c # cs \<Rightarrow> if c = CHR ''-'' then cs else s);
          ds = takeWhile dec_digit t
      in ds \<noteq> [] \<and> (hd ds = CHR ''0'' \<longrightarrow> length ds = 1) \<and> valid_frac (dropWhile dec_digit t))"

datatype tok = TPunct char | TLit json

definition json_space :: "char \<Rightarrow> bool" where
  "json_space c \<longleftrightarrow> c \<in> {CHR 0x20, CHR 0x09, CHR 0x0A, CHR 0x0D}"

definition json_punct :: "char \<Rightarrow> bool" where
  "json_punct c \<longleftrightarrow> c \<in> set ''[]{},:''"

definition json_letter :: "char \<Rightarrow> bool" where
  "json_letter c \<longleftrightarrow> c \<in> set ''abcdefghijklmnopqrstuvwxyz''"

definition read_word :: "string \<Rightarrow> json option" where
  "read_word w =
     (if w = ''null'' then Some JNull else if w = ''true'' then Some (JBool True)
      else if w = ''false'' then Some (JBool False) else None)"

lemma read_string_Cons:
  "read_string (c # cs) =
     (if c = CHR 0x22 then Some ([], cs)
      else if (of_char c :: nat) < 32 then None
      else if c = CHR 0x5C then
        (case cs of [] \<Rightarrow> None
         | e # ds \<Rightarrow>
           (if e = CHR ''u'' then
              (case read_unicode ds of None \<Rightarrow> None
               | Some (t, rest) \<Rightarrow> map_option (\<lambda>(u, r). (t @ u, r)) (read_string rest))
            else
              (case read_escape e of None \<Rightarrow> None
               | Some x \<Rightarrow> map_option (\<lambda>(u, r). (x # u, r)) (read_string ds))))
      else if (of_char c :: nat) < 128 then map_option (\<lambda>(u, r). (c # u, r)) (read_string cs)
      else if rune_len (c # cs) = 0 then map_option (\<lambda>(u, r). (utf8 0xFFFD @ u, r)) (read_string cs)
      else map_option (\<lambda>(u, r). (take (rune_len (c # cs)) (c # cs) @ u, r))
        (read_string (drop (rune_len (c # cs)) (c # cs))))"
  by (subst read_string.simps) simp

lemma read_string_Nil: "read_string [] = None"
  by (subst read_string.simps) simp

lemma read_string_length: "read_string s = Some (t, rest) \<Longrightarrow> length rest < length s"
proof (induction s arbitrary: t rest rule: read_string.induct)
  case (1 s)
  from 1(6) obtain c cs where s: "s = c # cs" by (cases s) (simp_all add: read_string_Nil)
  show ?case
  proof (cases "c = CHR 0x5C")
    case True
    with 1(6) s obtain e ds where cs: "cs = e # ds" by (cases cs) (simp_all add: read_string_Cons)
    show ?thesis
    proof (cases "e = CHR ''u''")
      case e: True
      with 1(6) s cs True obtain u r v where u: "read_unicode ds = Some (u, r)" "read_string r = Some (v, rest)"
        by (auto simp: read_string_Cons split: option.splits)
      with 1(1) [of c cs e ds "(u, r)" u r] s cs True e have "length rest < length r" by (simp add: True)
      with read_unicode_length [OF u(1)] s cs show ?thesis by simp
    next
      case False
      with 1(6) s cs True obtain x v where x: "read_escape e = Some x" "read_string ds = Some (v, rest)"
        by (auto simp: read_string_Cons split: option.splits)
      with 1(2) [of c cs e ds x] s cs True False show ?thesis by simp
    qed
  next
    case plain: False
    show ?thesis
    proof (cases "(of_char c :: nat) < 128 \<or> rune_len s = 0")
      case True
      with 1(6) s plain show ?thesis
        using 1(3) [of c cs] 1(4) [of c cs] by (auto simp: read_string_Cons split: if_splits)
    next
      case False
      with 1(6) s plain obtain v where "c = CHR 0x22 \<and> rest = cs \<or> read_string (drop (rune_len s) s) = Some (v, rest) \<and> \<not> (of_char c :: nat) < 32"
        by (auto simp: read_string_Cons split: if_splits)
      moreover have "c \<noteq> CHR 0x22" using False by (intro notI) simp
      ultimately have "length rest < length s - rune_len s" using s plain False 1(5) [of c cs v rest] by simp
      then show ?thesis by simp
    qed
  qed
qed

text \<open>The tokens of a text.\<close>

function json_lex :: "string \<Rightarrow> tok list option" where
  "json_lex s =
     (case s of [] \<Rightarrow> Some []
      | c # cs \<Rightarrow>
        (if json_space c then json_lex cs
         else if json_punct c then map_option ((#) (TPunct c)) (json_lex cs)
         else if c = CHR 0x22 then
           (case read_string cs of None \<Rightarrow> None
            | Some (t, rest) \<Rightarrow> map_option ((#) (TLit (JStr t))) (json_lex rest))
         else if json_letter c then
           (case read_word (takeWhile json_letter s) of None \<Rightarrow> None
            | Some j \<Rightarrow> map_option ((#) (TLit j)) (json_lex (dropWhile json_letter cs)))
         else if number_char c \<and> valid_number (takeWhile number_char s) then
           map_option ((#) (TLit (JNum (takeWhile number_char s)))) (json_lex (dropWhile number_char cs))
         else None))"
  by pat_completeness auto
termination
  by (relation "measure length") (auto simp: le_imp_less_Suc length_dropWhile_le dest: read_string_length)

declare json_lex.simps [simp del]

text \<open>
  The stack machine: it expects a value, a value or the end of an array, a member name or the end of
  an object, a member name, the colon after a name, or has a complete value. A json_frame of the stack is an
  array with the elements before or an object with the members before and the name of the member that
  is read, both in reverse order.
\<close>

datatype json_frame = FArr "json list" | FObj "(string \<times> json) list" string

datatype json_mode = MVal | MValOrEnd | MKeyOrEnd | MKey "(string \<times> json) list" | MColon "(string \<times> json) list" string | MDone json

fun step_done :: "json \<Rightarrow> char \<Rightarrow> json_frame list \<Rightarrow> (json_mode \<times> json_frame list) option" where
  "step_done j c [] = None"
| "step_done j c (FArr xs # fs) =
     (if c = CHR '','' then Some (MVal, FArr (j # xs) # fs)
      else if c = CHR '']'' then Some (MDone (JArr (rev (j # xs))), fs)
      else None)"
| "step_done j c (FObj kvs k # fs) =
     (if c = CHR '','' then Some (MKey ((k, j) # kvs), fs)
      else if c = CHR ''}'' then Some (MDone (JObj (rev ((k, j) # kvs))), fs)
      else None)"

definition step_value :: "tok \<Rightarrow> json_frame list \<Rightarrow> (json_mode \<times> json_frame list) option" where
  "step_value t fs =
     (case t of TLit j \<Rightarrow> Some (MDone j, fs)
      | TPunct c \<Rightarrow>
          (if c = CHR ''['' then Some (MValOrEnd, FArr [] # fs)
           else if c = CHR ''{'' then Some (MKeyOrEnd, fs)
           else None))"

definition step_key :: "(string \<times> json) list \<Rightarrow> tok \<Rightarrow> json_frame list \<Rightarrow> (json_mode \<times> json_frame list) option" where
  "step_key kvs t fs = (case t of TLit (JStr k) \<Rightarrow> Some (MColon kvs k, fs) | _ \<Rightarrow> None)"

fun parse_step :: "json_mode \<Rightarrow> tok \<Rightarrow> json_frame list \<Rightarrow> (json_mode \<times> json_frame list) option" where
  "parse_step (MDone j) t fs = (case t of TPunct c \<Rightarrow> step_done j c fs | TLit _ \<Rightarrow> None)"
| "parse_step MVal t fs = step_value t fs"
| "parse_step MValOrEnd t fs =
     (if t = TPunct CHR '']'' then Some (MDone (JArr []), tl fs) else step_value t fs)"
| "parse_step MKeyOrEnd t fs =
     (if t = TPunct CHR ''}'' then Some (MDone (JObj []), fs) else step_key [] t fs)"
| "parse_step (MKey kvs) t fs = step_key kvs t fs"
| "parse_step (MColon kvs k) t fs = (if t = TPunct CHR '':'' then Some (MVal, FObj kvs k # fs) else None)"

fun json_run :: "json_mode \<Rightarrow> json_frame list \<Rightarrow> tok list \<Rightarrow> json option" where
  "json_run m fs [] = (case m of MDone j \<Rightarrow> if fs = [] then Some j else None | _ \<Rightarrow> None)"
| "json_run m fs (t # ts) =
     (case parse_step m t fs of None \<Rightarrow> None | Some (m', fs') \<Rightarrow> json_run m' fs' ts)"

definition json_parse :: "string \<Rightarrow> json option" where
  "json_parse s = (case json_lex s of None \<Rightarrow> None | Some ts \<Rightarrow> json_run MVal [] ts)"

section \<open>What was written is read\<close>

text \<open>The values that are read as they were written: numbers have the syntax of numbers, and texts are UTF-8.\<close>

function valid_utf8 :: "string \<Rightarrow> bool" where
  "valid_utf8 s = (if s = [] then True else if rune_len s = 0 then False else valid_utf8 (drop (rune_len s) s))"
  by pat_completeness auto
termination
  by (relation "measure length") auto

declare valid_utf8.simps [simp del]

lemma valid_utf8_ascii: "\<forall>c \<in> set s. (of_char c :: nat) < 128 \<Longrightarrow> valid_utf8 s"
proof (induction s)
  case (Cons c cs)
  then have "rune_len (c # cs) = 1" by simp
  then show ?case using Cons by (simp add: valid_utf8.simps [of "c # cs"])
qed (simp add: valid_utf8.simps)

fun json_ok :: "json \<Rightarrow> bool" where
  "json_ok (JNum n) = valid_number n"
| "json_ok (JStr s) = valid_utf8 s"
| "json_ok (JArr xs) = list_all json_ok xs"
| "json_ok (JObj kvs) = list_all (\<lambda>kv. valid_utf8 (fst kv) \<and> json_ok (snd kv)) kvs"
| "json_ok j = True"

fun comma_toks :: "tok list list \<Rightarrow> tok list" where
  "comma_toks [] = []"
| "comma_toks [x] = x"
| "comma_toks (x # y # ys) = x @ TPunct CHR '','' # comma_toks (y # ys)"

fun json_toks :: "json \<Rightarrow> tok list" where
  "json_toks (JArr xs) = TPunct CHR ''['' # comma_toks (map json_toks xs) @ [TPunct CHR '']'']"
| "json_toks (JObj kvs) =
     TPunct CHR ''{'' # comma_toks (map (\<lambda>(k, v). TLit (JStr k) # TPunct CHR '':'' # json_toks v) kvs) @ [TPunct CHR ''}'']"
| "json_toks j = [TLit j]"

lemma parse_MValOrEnd: "json_run MValOrEnd fs (json_toks j @ ts) = json_run MVal fs (json_toks j @ ts)"
  by (cases j) simp_all

lemma parse_elements:
  assumes "\<And>y fs ts. y \<in> set (x # xs) \<Longrightarrow> json_run MVal fs (json_toks y @ ts) = json_run (MDone y) fs ts"
  shows "json_run MVal (FArr acc # fs) (comma_toks (map json_toks (x # xs)) @ TPunct CHR '']'' # ts) =
     json_run (MDone (JArr (rev acc @ x # xs))) fs ts"
  using assms
proof (induction xs arbitrary: x acc)
  case (Cons y ys)
  from Cons.IH [of y "x # acc"] Cons.prems show ?case by simp
qed simp

abbreviation member_toks :: "string \<times> json \<Rightarrow> tok list" where
  "member_toks \<equiv> \<lambda>(k, v). TLit (JStr k) # TPunct CHR '':'' # json_toks v"

lemma parse_members:
  assumes "\<And>kv fs ts. kv \<in> set (m # ms) \<Longrightarrow> json_run MVal fs (json_toks (snd kv) @ ts) = json_run (MDone (snd kv)) fs ts"
  shows "json_run (MKey kvs) fs (comma_toks (map member_toks (m # ms)) @ TPunct CHR ''}'' # ts) =
     json_run (MDone (JObj (rev kvs @ m # ms))) fs ts"
  using assms
proof (induction ms arbitrary: m kvs)
  case Nil
  then show ?case by (cases m) (simp add: step_key_def)
next
  case (Cons n ns)
  from Cons.IH [of n "m # kvs"] Cons.prems Cons.prems [of m] show ?case by (cases m) (simp add: step_key_def)
qed

text \<open>The machine reads the tokens of a value as this value.\<close>

lemma parse_toks: "json_run MVal fs (json_toks j @ ts) = json_run (MDone j) fs ts"
proof (induction j arbitrary: fs ts)
  case (JArr xs)
  show ?case
  proof (cases xs)
    case (Cons y ys)
    have "json_run MVal fs (json_toks (JArr xs) @ ts) =
        json_run MVal (FArr [] # fs) (comma_toks (map json_toks xs) @ TPunct CHR '']'' # ts)"
      using Cons parse_MValOrEnd [of "FArr [] # fs" y] by (cases ys) (simp_all add: step_value_def)
    with parse_elements [of y ys "[]"] JArr Cons show ?thesis by simp
  qed (simp add: step_value_def)
next
  case (JObj kvs)
  show ?case
  proof (cases kvs)
    case (Cons m ms)
    have "json_run MVal fs (json_toks (JObj kvs) @ ts) =
        json_run (MKey []) fs (comma_toks (map member_toks kvs) @ TPunct CHR ''}'' # ts)"
      using Cons by (cases m; cases ms) (simp_all add: step_value_def)
    with parse_members [of m ms "[]"] JObj Cons show ?thesis by (cases m) (auto simp: in_set_conv_decomp)
  qed (simp add: step_value_def)
qed (simp_all add: step_value_def)

text \<open>Strings.\<close>

lemma hex4_value:
  fixes n :: nat
  assumes "n < 65536"
  shows "((n div 4096 mod 16 * 16 + n div 256 mod 16) * 16 + n div 16 mod 16) * 16 + n mod 16 = n"
proof -
  have d: "n div 256 = n div 16 div 16" "n div 4096 = n div 16 div 16 div 16" by (simp_all flip: div_mult2_eq)
  have "n div 16 div 16 div 16 < 16" using assms by (simp flip: div_mult2_eq add: less_mult_imp_div_less)
  then show ?thesis
    unfolding d using div_mult_mod_eq [of n 16] div_mult_mod_eq [of "n div 16" 16] div_mult_mod_eq [of "n div 16 div 16" 16]
    by simp
qed

lemma hex_value4:
  assumes "a < 16" "b < 16" "c < 16" "d < 16"
  shows "hex_value [digit_char a, digit_char b, digit_char c, digit_char d] = Some (((a * 16 + b) * 16 + c) * 16 + d)"
  using assms by (simp add: hex_value_def read_base_def read_digit_def)

lemma read_u4_hex4:
  assumes "n < 65536"
  shows "read_u4 (hex4 n @ rest) = Some (n, rest)"
proof -
  have "hex_value (hex4 n) = Some n"
    using hex_value4 [of "n div 4096 mod 16" "n div 256 mod 16" "n div 16 mod 16" "n mod 16"] hex4_value [OF assms]
    by (simp only: hex4_def list.map)
  moreover have "length (hex4 n) = 4" by (simp add: hex4_def)
  ultimately show ?thesis by (simp add: read_u4_def)
qed

lemma read_string_short:
  "read_escape e = Some c \<Longrightarrow> e \<noteq> CHR ''u'' \<Longrightarrow>
     read_string (CHR 0x5C # e # cs) = map_option (\<lambda>(u, r). (c # u, r)) (read_string cs)"
  by (simp add: read_string_Cons [of "CHR 0x5C"])

lemma read_string_long:
  assumes "(of_char c :: nat) < 128"
  shows "read_string (CHR 0x5C # CHR ''u'' # hex4 (of_char c) @ cs) = map_option (\<lambda>(u, r). (c # u, r)) (read_string cs)"
proof -
  have "read_unicode (hex4 (of_char c) @ cs) = Some ([c], cs)"
    using read_u4_hex4 [of "of_char c" cs] assms by (simp add: read_unicode_def surrogate_def utf8_def)
  then show ?thesis by (simp add: read_string_Cons [of "CHR 0x5C"])
qed

lemma read_string_esc:
  assumes "(of_char c :: nat) < 128"
  shows "read_string (esc_char c @ cs) = map_option (\<lambda>(u, r). (c # u, r)) (read_string cs)"
proof (cases "c \<in> {CHR 0x22, CHR 0x5C, CHR 0x08, CHR 0x0C, CHR 0x0A, CHR 0x0D, CHR 0x09}")
  case True
  then obtain e where "esc_char c = [CHR 0x5C, e]" "read_escape e = Some c" "e \<noteq> CHR ''u''"
    by (elim insertE emptyE) (simp_all add: esc_char_def read_escape_def)
  then show ?thesis using read_string_short by simp
next
  case False
  show ?thesis
  proof (cases "(of_char c :: nat) < 32 \<or> c \<in> {CHR ''<'', CHR ''>'', CHR ''&''}")
    case True
    then have "(of_char c :: nat) < 128" by auto
    moreover have "esc_char c = CHR 0x5C # CHR ''u'' # hex4 (of_char c)" using False True by (simp add: esc_char_def)
    ultimately show ?thesis using read_string_long [of c cs] by simp
  next
    case plain: False
    then have "esc_char c = [c]" using False by (simp add: esc_char_def)
    with plain False assms show ?thesis by (simp add: read_string_Cons)
  qed
qed

lemma read_string_rune:
  assumes "s = c # cs" "\<not> (of_char c :: nat) < 128" "0 < rune_len s"
  shows "read_string (take (rune_len s) s @ r) = map_option (\<lambda>(u, r). (take (rune_len s) s @ u, r)) (read_string r)"
proof -
  note t = rune_len_take [OF assms(3)]
  obtain ds where ds: "take (rune_len s) s @ r = c # ds" using assms(1,3) by (cases "rune_len s") auto
  have l: "rune_len (c # ds) = rune_len s" using t(2) assms(1) ds [symmetric] by simp
  have "read_string (c # ds) = map_option (\<lambda>(u, r). (take (rune_len s) (c # ds) @ u, r))
      (read_string (drop (rune_len s) (c # ds)))"
    using assms(2,3) by (subst read_string_Cons) (auto simp: l)
  moreover have "take (rune_len s) (c # ds) = take (rune_len s) s" "drop (rune_len s) (c # ds) = r"
    using t(1) assms(1) ds [symmetric] by simp_all
  ultimately show ?thesis by (simp only: ds)
qed

lemma line_sep_cases:
  assumes "line_sep s"
  obtains t where "s = CHR 0xE2 # CHR 0x80 # CHR 0xA8 # t" | t where "s = CHR 0xE2 # CHR 0x80 # CHR 0xA9 # t"
proof -
  from assms have "take 3 s = [CHR 0xE2, CHR 0x80, CHR 0xA8] \<or> take 3 s = [CHR 0xE2, CHR 0x80, CHR 0xA9]"
    by (simp add: line_sep_def)
  with append_take_drop_id [of 3 s] that show thesis by (metis append_Cons append_Nil)
qed

lemma read_string_line_sep:
  assumes "line_sep s"
  shows "read_string ([CHR 0x5C] @ ''u202'' @ [digit_char (of_char (s ! 2) mod 16)] @ r) =
     map_option (\<lambda>(u, r). (take 3 s @ u, r)) (read_string r)"
proof -
  have "utf8 8232 = [CHR 0xE2, CHR 0x80, CHR 0xA8]" "utf8 8233 = [CHR 0xE2, CHR 0x80, CHR 0xA9]"
    by (simp_all add: utf8_def char_of_eq_iff take_bit_eq_mod)
  then have "read_unicode (''2028'' @ r) = Some ([CHR 0xE2, CHR 0x80, CHR 0xA8], r)"
    "read_unicode (''2029'' @ r) = Some ([CHR 0xE2, CHR 0x80, CHR 0xA9], r)"
    by (simp_all add: read_unicode_def read_u4_def hex_value_def read_base_def read_digit_def char_digit_def
        surrogate_def)
  with line_sep_cases [OF assms] show ?thesis
    by cases (simp_all add: read_string_Cons [of "CHR 0x5C"] digit_char_def)
qed

lemma read_string_quoted: "valid_utf8 s \<Longrightarrow> read_string (esc_string s @ CHR 0x22 # rest) = Some (s, rest)"
proof (induction s rule: valid_utf8.induct)
  case (1 s)
  show ?case
  proof (cases s)
    case Nil
    then show ?thesis by (simp add: esc_string.simps read_string_Cons [of "CHR 0x22"])
  next
    case (Cons c cs)
    with 1(2) have v: "0 < rune_len s" "valid_utf8 (drop (rune_len s) s)"
      unfolding valid_utf8.simps [of s] by (simp_all split: if_splits)
    with 1(1) Cons have IH: "read_string (esc_string (drop (rune_len s) s) @ CHR 0x22 # rest) =
        Some (drop (rune_len s) s, rest)" by simp
    consider "(of_char c :: nat) < 128" | "\<not> (of_char c :: nat) < 128" "line_sep s"
      | "\<not> (of_char c :: nat) < 128" "\<not> line_sep s" by blast
    then show ?thesis
    proof cases
      case 1
      moreover from this have "rune_len s = 1" using Cons by simp
      ultimately show ?thesis using IH Cons by (subst esc_string.simps) (simp add: read_string_esc)
    next
      case 2
      have "rune_len s = 3" using line_sep_cases [OF 2(2)] by cases (simp_all add: rune_len_def rune_of_def cont_byte_def)
      with 2 IH Cons show ?thesis
        using read_string_line_sep [OF 2(2), of "esc_string (drop 3 s) @ CHR 0x22 # rest"]
        by (subst esc_string.simps) simp
    next
      case 3
      then show ?thesis
        using IH v(1) Cons read_string_rune [OF Cons 3(1) v(1), of "esc_string (drop (rune_len s) s) @ CHR 0x22 # rest"]
        by (subst esc_string.simps) simp
    qed
  qed
qed

text \<open>Tokens of a text that ends before the rest.\<close>

definition json_ends :: "string \<Rightarrow> bool" where
  "json_ends rest \<longleftrightarrow> rest = [] \<or> json_punct (hd rest) \<or> json_space (hd rest)"

definition lexes :: "string \<Rightarrow> tok list \<Rightarrow> bool" where
  "lexes s ts \<longleftrightarrow> (\<forall>rest. json_ends rest \<longrightarrow> json_lex (s @ rest) = map_option ((@) ts) (json_lex rest))"

lemma append_fun: "(@) (x # xs) = (\<lambda>r. x # xs @ r)" "(@) (xs @ ys) = (\<lambda>r. xs @ ys @ r)" "(@) [] = (\<lambda>r. r)"
  by auto

lemma json_lex_Cons:
  "json_lex (c # cs) =
     (if json_space c then json_lex cs
      else if json_punct c then map_option ((#) (TPunct c)) (json_lex cs)
      else if c = CHR 0x22 then
        (case read_string cs of None \<Rightarrow> None
         | Some (t, rest) \<Rightarrow> map_option ((#) (TLit (JStr t))) (json_lex rest))
      else if json_letter c then
        (case read_word (takeWhile json_letter (c # cs)) of None \<Rightarrow> None
         | Some j \<Rightarrow> map_option ((#) (TLit j)) (json_lex (dropWhile json_letter cs)))
      else if number_char c \<and> valid_number (takeWhile number_char (c # cs)) then
        map_option ((#) (TLit (JNum (takeWhile number_char (c # cs))))) (json_lex (dropWhile number_char cs))
      else None)"
  by (subst json_lex.simps) simp

lemma json_lex_Nil: "json_lex [] = Some []"
  by (subst json_lex.simps) simp

lemma json_lex_punct: "json_punct c \<Longrightarrow> json_lex (c # cs) = map_option ((#) (TPunct c)) (json_lex cs)"
  by (subst json_lex_Cons) (auto simp: json_space_def json_punct_def)

lemma takeWhile_ends:
  assumes "list_all P w" "json_ends rest" "\<And>c. json_punct c \<or> json_space c \<Longrightarrow> \<not> P c"
  shows "takeWhile P (w @ rest) = w" "dropWhile P (w @ rest) = rest"
  using assms by (cases rest; simp add: list_all_iff json_ends_def takeWhile_append dropWhile_append)+

lemma punct_not:
  "json_punct c \<or> json_space c \<Longrightarrow> \<not> json_letter c" "json_punct c \<or> json_space c \<Longrightarrow> \<not> number_char c"
  by (auto simp: json_punct_def json_space_def json_letter_def number_char_def)

lemma lexes_word:
  assumes "read_word w = Some j" "w \<noteq> []" "list_all json_letter w"
  shows "lexes w [TLit j]"
  unfolding lexes_def
proof (intro allI impI)
  fix rest assume r: "json_ends rest"
  obtain c cs where w: "w = c # cs" using assms(2) by (cases w) auto
  have "\<not> json_space c" "\<not> json_punct c" "c \<noteq> CHR 0x22" "json_letter c"
    using assms(3) w by (auto simp: json_letter_def json_space_def json_punct_def)
  moreover have "takeWhile json_letter (w @ rest) = w" "dropWhile json_letter (cs @ rest) = rest"
    using takeWhile_ends [of json_letter w rest] takeWhile_ends [of json_letter cs rest] assms(3) w r punct_not by auto
  ultimately show "json_lex (w @ rest) = map_option ((@) [TLit j]) (json_lex rest)"
    using assms(1) w by (simp add: json_lex_Cons append_fun)
qed

lemma dec_digit_number: "dec_digit c \<Longrightarrow> number_char c"
  by (auto simp: dec_digit_def number_char_def)

lemma takeWhile_dec_digit: "list_all number_char (takeWhile dec_digit s)"
  using set_takeWhileD [of _ dec_digit s] dec_digit_number by (fastforce simp: list_all_iff)

lemma valid_exp_chars: "valid_exp s \<Longrightarrow> list_all number_char s"
proof (cases s)
  case (Cons c cs)
  assume v: "valid_exp s"
  have c: "number_char c" using v Cons by (auto simp: number_char_def)
  have d: "list_all number_char ds" if "list_all dec_digit ds" for ds
    using that dec_digit_number by (simp add: list_all_iff)
  show ?thesis
  proof (cases cs)
    case Nil
    with c Cons show ?thesis by simp
  next
    case ds: (Cons x ds)
    show ?thesis
    proof (cases "x \<in> {CHR ''+'', CHR ''-''}")
      case True
      then have "number_char x" by (auto simp: number_char_def)
      with v Cons ds True c d show ?thesis by (simp add: Let_def)
    next
      case False
      with v Cons ds c d [of cs] show ?thesis by (simp add: Let_def)
    qed
  qed
qed simp

lemma valid_frac_chars: "valid_frac s \<Longrightarrow> list_all number_char s"
proof (cases s)
  case (Cons c cs)
  assume v: "valid_frac s"
  show ?thesis
  proof (cases "c = CHR ''.''")
    case True
    with v Cons have "list_all number_char (dropWhile dec_digit cs)" using valid_exp_chars by simp
    with takeWhile_dec_digit [of cs] have "list_all number_char (takeWhile dec_digit cs @ dropWhile dec_digit cs)"
      unfolding list_all_append by simp
    with Cons True show ?thesis by (simp add: number_char_def)
  next
    case False
    with v Cons show ?thesis using valid_exp_chars [of s] by simp
  qed
qed simp

lemma valid_number_chars:
  assumes "valid_number s"
  shows "s \<noteq> []" "list_all number_char s" "\<not> json_letter (hd s)"
proof -
  let ?t = "case s of [] \<Rightarrow> [] | c # cs \<Rightarrow> if c = CHR ''-'' then cs else s"
  have t: "takeWhile dec_digit ?t \<noteq> []" "valid_frac (dropWhile dec_digit ?t)"
    using assms by (auto simp: valid_number_def Let_def)
  from valid_frac_chars [OF t(2)] takeWhile_dec_digit [of ?t] have "list_all number_char (takeWhile dec_digit ?t @ dropWhile dec_digit ?t)"
    unfolding list_all_append by blast
  then have n: "list_all number_char ?t" by simp
  show s: "s \<noteq> []" using t(1) by auto
  then obtain c cs where c: "s = c # cs" by (cases s) auto
  with n show "list_all number_char s" by (auto simp: number_char_def split: if_splits)
  have "dec_digit c \<or> c = CHR ''-''" using t(1) c by (auto split: if_splits)
  with c show "\<not> json_letter (hd s)" by (auto simp: dec_digit_def json_letter_def)
qed

lemma lexes_number:
  assumes "valid_number n"
  shows "lexes n [TLit (JNum n)]"
  unfolding lexes_def
proof (intro allI impI)
  fix rest assume r: "json_ends rest"
  note n = valid_number_chars [OF assms]
  obtain c cs where w: "n = c # cs" using n(1) by (cases n) auto
  have c: "number_char c" "\<not> json_letter c" using n w by auto
  then have "\<not> json_space c" "\<not> json_punct c" "c \<noteq> CHR 0x22" by (auto simp: number_char_def json_space_def json_punct_def)
  moreover have "takeWhile number_char (n @ rest) = n" "dropWhile number_char (cs @ rest) = rest"
    using takeWhile_ends [of number_char n rest] takeWhile_ends [of number_char cs rest] n(2) w r punct_not by auto
  ultimately show "json_lex (n @ rest) = map_option ((@) [TLit (JNum n)]) (json_lex rest)"
    using assms w c by (simp add: json_lex_Cons append_fun)
qed

lemma lexes_quote: "valid_utf8 s \<Longrightarrow> lexes (json_quote s) [TLit (JStr s)]"
  by (simp add: lexes_def json_quote_def json_lex_Cons [of "CHR 0x22"] json_space_def json_punct_def read_string_quoted append_fun)

lemma lexes_comma: "list_all2 lexes ss tss \<Longrightarrow> lexes (comma_sep ss) (comma_toks tss)"
proof (induction ss arbitrary: tss rule: comma_sep.induct)
  case 1
  then show ?case by (simp add: lexes_def option.map_ident append_fun)
next
  case (2 x)
  then show ?case by (auto simp: list_all2_Cons1)
next
  case (3 x y ys)
  then obtain tx ty tys where t: "tss = tx # ty # tys" "lexes x tx" "lexes y ty" "list_all2 lexes ys tys"
    by (auto simp: list_all2_Cons1)
  with 3 have IH: "lexes (comma_sep (y # ys)) (comma_toks (ty # tys))" by simp
  have p: "json_punct CHR '',''" by (simp add: json_punct_def)
  show ?case
    unfolding lexes_def
  proof (intro allI impI)
    fix rest assume r: "json_ends rest"
    have "json_lex (comma_sep (x # y # ys) @ rest) = map_option ((@) tx) (json_lex (CHR '','' # comma_sep (y # ys) @ rest))"
      using t(2) p by (simp add: lexes_def json_ends_def)
    also have "\<dots> = map_option ((@) (comma_toks tss)) (json_lex rest)"
      using IH r p t(1) by (simp add: json_lex_punct lexes_def option.map_comp comp_def append_fun)
    finally show "json_lex (comma_sep (x # y # ys) @ rest) = map_option ((@) (comma_toks tss)) (json_lex rest)" .
  qed
qed

lemma lexes_bracket:
  assumes "json_punct a" "json_punct b" "lexes s ts"
  shows "lexes (a # s @ [b]) (TPunct a # ts @ [TPunct b])"
  using assms by (simp add: lexes_def json_lex_punct json_ends_def option.map_comp comp_def append_fun)

lemma lexes_text: "json_ok j \<Longrightarrow> lexes (json_text j) (json_toks j)"
proof (induction j)
  case (JArr xs)
  then have "list_all2 lexes (map json_text xs) (map json_toks xs)"
    by (auto simp: list_all2_conv_all_nth list_all_length)
  from lexes_bracket [OF _ _ lexes_comma [OF this], of "CHR ''[''" "CHR '']''"] show ?case by (simp add: json_punct_def)
next
  case (JObj kvs)
  have "lexes (json_quote k @ CHR '':'' # json_text v) (member_toks (k, v))" if "(k, v) \<in> set kvs" for k v
  proof -
    have v: "lexes (json_text v) (json_toks v)" "valid_utf8 k" using JObj that by (fastforce simp: list_all_iff)+
    have p: "json_punct CHR '':''" by (simp add: json_punct_def)
    show ?thesis
      using v(1) lexes_quote [OF v(2)] p by (simp add: lexes_def json_lex_punct json_ends_def option.map_comp comp_def append_fun)
  qed
  then have "list_all2 lexes (map (\<lambda>(k, v). json_quote k @ CHR '':'' # json_text v) kvs) (map member_toks kvs)"
    by (auto simp: list_all2_conv_all_nth split: prod.split) (metis nth_mem)
  from lexes_bracket [OF _ _ lexes_comma [OF this], of "CHR ''{''" "CHR ''}''"] show ?case by (simp add: json_punct_def)
qed (simp_all add: lexes_word lexes_number lexes_quote read_word_def json_letter_def)

text \<open>Space around a text changes nothing.\<close>

lemma json_lex_newline: "json_lex (json_newline k @ s) = json_lex s"
proof -
  have "json_lex (concat (replicate k ''    '') @ s) = json_lex s"
    by (induction k) (simp_all add: json_lex_Cons json_space_def)
  then show ?thesis by (simp add: json_newline_def json_lex_Cons json_space_def)
qed

lemma lexes_space:
  assumes "lexes s ts"
  shows "lexes (json_newline k @ s) ts" "lexes (s @ json_newline k) ts"
proof -
  have "json_ends (json_newline k @ rest)" for rest by (simp add: json_ends_def json_newline_def json_space_def)
  then show "lexes (json_newline k @ s) ts" "lexes (s @ json_newline k) ts"
    using assms by (simp_all add: lexes_def json_lex_newline)
qed

lemma lexes_indent: "json_ok j \<Longrightarrow> lexes (json_indent k j) (json_toks j)"
proof (induction j arbitrary: k)
  case (JArr xs)
  show ?case
  proof (cases "xs = []")
    case False
    have "list_all2 lexes (map (\<lambda>x. json_newline (Suc k) @ json_indent (Suc k) x) xs) (map json_toks xs)"
      using JArr by (auto simp: list_all2_conv_all_nth list_all_length intro: lexes_space)
    from lexes_bracket [OF _ _ lexes_space(2) [OF lexes_comma [OF this]], of "CHR ''[''" "CHR '']''"] False
    show ?thesis by (simp add: json_punct_def)
  qed (use lexes_text [of "JArr []"] in simp)
next
  case (JObj kvs)
  show ?case
  proof (cases "kvs = []")
    case False
    have m: "lexes (json_newline (Suc k) @ json_quote n @ '': '' @ json_indent (Suc k) v) (member_toks (n, v))"
      if "(n, v) \<in> set kvs" for n v
    proof -
      have v: "lexes (json_indent (Suc k) v) (json_toks v)" "valid_utf8 n"
        using JObj that by (fastforce simp: list_all_iff)+
      have p: "json_punct CHR '':''" by (simp add: json_punct_def)
      have "json_lex (CHR '' '' # s) = json_lex s" for s by (simp add: json_lex_Cons json_space_def)
      then have "lexes (json_quote n @ '': '' @ json_indent (Suc k) v) (member_toks (n, v))"
        using v(1) lexes_quote [OF v(2)] p
        by (simp add: lexes_def json_lex_punct json_ends_def option.map_comp comp_def append_fun)
      then show ?thesis by (rule lexes_space)
    qed
    then have "list_all2 lexes
        (map (\<lambda>(n, v). json_newline (Suc k) @ json_quote n @ '': '' @ json_indent (Suc k) v) kvs) (map member_toks kvs)"
      by (auto simp: list_all2_conv_all_nth split: prod.split) (metis nth_mem)
    from lexes_bracket [OF _ _ lexes_space(2) [OF lexes_comma [OF this]], of "CHR ''{''" "CHR ''}''"] False
    show ?thesis by (simp add: json_punct_def)
  qed (use lexes_text [of "JObj []"] in simp)
qed (simp_all add: lexes_word lexes_number lexes_quote read_word_def json_letter_def)

lemma json_parse_indent: "json_ok j \<Longrightarrow> json_parse (json_indent k j) = Some j"
  using lexes_indent [of j k] parse_toks [of "[]" j "[]"] by (simp add: lexes_def json_ends_def json_parse_def json_lex_Nil)

text \<open>The text of a value is read as the value.\<close>

lemma json_parse_text: "json_ok j \<Longrightarrow> json_parse (json_text j) = Some j"
  using lexes_text [of j] parse_toks [of "[]" j "[]"] by (simp add: lexes_def json_ends_def json_parse_def json_lex_Nil)

end
