(* ===== verification/NetCIDR.thy ===== *)
theory NetCIDR
  imports NetipText
begin

text \<open>
  The part of Go's \<^verbatim>\<open>net\<close> that builds addresses and networks from text: \<^verbatim>\<open>ParseIP\<close>,
  \<^verbatim>\<open>ParseCIDR\<close>, \<^verbatim>\<open>CIDRMask\<close> and \<^verbatim>\<open>IP.Mask\<close>, which work on byte slices. The lemmas relate them to
  \<^verbatim>\<open>netip\<close>: the length of a mask is the number it was made from, and a network in CIDR form has
  the top bits of its address.
\<close>

unbundle bit_operations_syntax

section \<open>Model\<close>

text \<open>The bytes of a number, the most significant first, and \<^verbatim>\<open>Addr.As16\<close>.\<close>

definition word_bytes :: "nat \<Rightarrow> int \<Rightarrow> u8 list" where
  "word_bytes k n = map (\<lambda>i. word_of_int (n div 256 ^ (k - 1 - i))) [0..<k]"

fun As16 :: "addr \<Rightarrow> u8 list" where
  "As16 AddrZero = replicate 16 0"
| "As16 (IP4 w) = replicate 10 0 @ [0xff, 0xff] @ word_bytes 4 (uint w)"
| "As16 (IP6 w _) = word_bytes 16 (uint w)"

definition ParseIP :: "string \<Rightarrow> u8 list option" where
  "ParseIP s =
     (case ParseAddr s of None \<Rightarrow> None | Some a \<Rightarrow> if addr_zone a \<noteq> '''' then None else Some (As16 a))"

fun mask_bytes :: "nat \<Rightarrow> nat \<Rightarrow> u8 list" where
  "mask_bytes 0 n = []"
| "mask_bytes (Suc l) n =
     (if 8 \<le> n then 0xff # mask_bytes l (n - 8) else NOT (drop_bit n 0xff) # mask_bytes l 0)"

definition CIDRMask :: "int \<Rightarrow> int \<Rightarrow> u8 list option" where
  "CIDRMask ones bits =
     (if bits \<noteq> 32 \<and> bits \<noteq> 128 then None
      else if ones < 0 \<or> ones > bits then None
      else Some (mask_bytes (nat (bits div 8)) (nat ones)))"

definition v4InV6Prefix :: "u8 list" where
  "v4InV6Prefix = [0, 0, 0, 0, 0, 0, 0, 0, 0, 0, 0xff, 0xff]"

definition IP_Mask :: "u8 list \<Rightarrow> u8 list \<Rightarrow> u8 list option" where
  "IP_Mask ip m =
     (let m = (if length m = 16 \<and> length ip = 4 \<and> take 12 m = replicate 12 0xff then drop 12 m else m);
          ip = (if length m = 4 \<and> length ip = 16 \<and> take 12 ip = v4InV6Prefix then drop 12 ip else ip)
      in if length ip \<noteq> length m then None else Some (map2 (\<lambda>a b. a AND b) ip m))"

text \<open>The result is the address and the network, its address and its mask.\<close>

definition ParseCIDR :: "string \<Rightarrow> (u8 list \<times> u8 list option \<times> u8 list) option" where
  "ParseCIDR s =
     (case cut_char CHR ''/'' s of None \<Rightarrow> None
      | Some (addr, m) \<Rightarrow>
          (case ParseAddr addr of None \<Rightarrow> None
           | Some a \<Rightarrow>
               if addr_zone a \<noteq> '''' then None
               else (case read_base 10 m of None \<Rightarrow> None
                 | Some n \<Rightarrow>
                     if BitLen a < n then None
                     else (case CIDRMask (int n) (int (BitLen a)) of None \<Rightarrow> None
                       | Some m \<Rightarrow> Some (As16 a, IP_Mask (As16 a) m, m)))))"

section \<open>Lemmas\<close>

lemma length_word_bytes [simp]: "length (word_bytes k n) = k"
  by (simp add: word_bytes_def)

lemma length_As16 [simp]: "length (As16 a) = 16"
  by (cases a) simp_all

lemma length_mask_bytes [simp]: "length (mask_bytes l n) = l"
  by (induction l n rule: mask_bytes.induct) auto

lemma mask_bytes_0: "mask_bytes l 0 = replicate l 0"
  by (induction l) simp_all

lemma mask_byte_ones:
  assumes "n < 8"
  shows "NOT (drop_bit n 0xff) \<noteq> (0xff :: u8)" "byte_ones (NOT (drop_bit n 0xff)) = n"
    "NOT (drop_bit n 0xff) = (push_bit (8 - n) (mask n) :: u8)"
proof -
  have "\<forall>n \<in> set [0..<8]. NOT (drop_bit n 0xff) \<noteq> (0xff :: u8) \<and> byte_ones (NOT (drop_bit n 0xff)) = n \<and>
    NOT (drop_bit n 0xff) = (push_bit (8 - n) (mask n) :: u8)" by code_simp
  moreover have "n \<in> set [0..<8]" using assms by simp
  ultimately show "NOT (drop_bit n 0xff) \<noteq> (0xff :: u8)" "byte_ones (NOT (drop_bit n 0xff)) = n"
    "NOT (drop_bit n 0xff) = (push_bit (8 - n) (mask n) :: u8)" by blast+
qed

lemma mask_ones_bytes: "n \<le> 8 * l \<Longrightarrow> mask_ones (mask_bytes l n) = Some n"
proof (induction l n rule: mask_bytes.induct)
  case (2 l n)
  show ?case
  proof (cases "8 \<le> n")
    case True
    with 2 show ?thesis by simp
  next
    case False
    with mask_byte_ones [of n] show ?thesis by (simp add: mask_bytes_0)
  qed
qed simp

lemma mask_Size_bytes [simp]: "n \<le> 8 * l \<Longrightarrow> mask_Size (mask_bytes l n) = n"
  by (simp add: mask_Size_def mask_ones_bytes)

lemma CIDRMask_Size: "CIDRMask (int n) (int (BitLen a)) = Some m \<Longrightarrow> mask_Size m = n \<and> 8 * length m = BitLen a"
  by (cases a) (auto simp: CIDRMask_def split: if_splits)

text \<open>The bytes of an address and their bits.\<close>

definition addr_bytes :: "'a::len word \<Rightarrow> u8 list" where
  "addr_bytes w = map (\<lambda>j. ucast (drop_bit (LENGTH('a) - 8 * Suc j) w)) [0..<LENGTH('a) div 8]"

lemma word_of_div: "word_of_int (uint w div 2 ^ k) = (ucast (drop_bit k w) :: 'b::len word)" for w :: "'a::len word"
  by (rule bit_word_eqI)
    (auto simp: drop_bit_eq_div [symmetric] bit_word_of_int_iff bit_ucast_iff bit_drop_bit_eq bit_uint_iff
      dest: bit_imp_le_length)

lemma word_bytes_addr:
  fixes w :: "'a::len word"
  assumes "LENGTH('a) = 8 * k"
  shows "word_bytes k (uint w) = addr_bytes w"
proof -
  have "(256 :: int) ^ (k - 1 - i) = 2 ^ (8 * k - 8 * Suc i)" if "i < k" for i
  proof -
    have "8 * k - 8 * Suc i = 8 * (k - 1 - i)" by simp
    then show ?thesis by (simp only: power_mult) simp
  qed
  then show ?thesis
    using assms by (auto simp: word_bytes_def addr_bytes_def word_of_div intro!: map_cong)
qed

lemma bit_byte_full: "bit (0xff :: u8) i \<longleftrightarrow> i < 8"
proof -
  have "(0xff :: u8) = mask 8" by (simp add: mask_eq_exp_minus_1)
  then show ?thesis unfolding \<open>0xff = mask 8\<close> bit_mask_iff by auto
qed

lemma mask_bytes_bit: "j < l \<Longrightarrow> bit (mask_bytes l n ! j) i \<longleftrightarrow> i < 8 \<and> 8 * j + 7 < n + i"
proof (induction l n arbitrary: j rule: mask_bytes.induct)
  case (2 l n)
  show ?case
  proof (cases "8 \<le> n")
    case True
    with 2 bit_byte_full [of i] show ?thesis by (cases j) auto
  next
    case False
    then have "bit (NOT (drop_bit n (0xff :: u8))) i \<longleftrightarrow> i < 8 \<and> 7 < n + i"
      using bit_byte_full [of "n + i"] by (auto simp: bit_not_iff bit_drop_bit_eq)
    with False 2 show ?thesis by (cases j) (auto simp: mask_bytes_0)
  qed
qed simp

lemma mask_addr_bytes:
  fixes w :: "'a::len word"
  assumes "8 dvd LENGTH('a)" "n \<le> LENGTH('a)"
  shows "map2 (\<lambda>a b. a AND b) (addr_bytes w) (mask_bytes (LENGTH('a) div 8) n) = addr_bytes (top_bits n w)"
proof (rule nth_equalityI)
  fix j
  assume "j < length (map2 (\<lambda>a b. a AND b) (addr_bytes w) (mask_bytes (LENGTH('a) div 8) n))"
  then have j: "j < LENGTH('a) div 8" by (simp add: addr_bytes_def)
  then have "8 * Suc j \<le> LENGTH('a)" using assms(1) by auto
  then show "map2 (\<lambda>a b. a AND b) (addr_bytes w) (mask_bytes (LENGTH('a) div 8) n) ! j = addr_bytes (top_bits n w) ! j"
    using j assms(2)
    by (auto intro!: bit_word_eqI simp: addr_bytes_def bit_and_iff bit_ucast_iff bit_drop_bit_eq mask_bytes_bit top_bits_def
        bit_push_bit_iff)
qed (simp add: addr_bytes_def)

lemma length_addr_bytes [simp]: "length (addr_bytes (w :: 'a::len word)) = LENGTH('a) div 8"
  by (simp add: addr_bytes_def)

lemma bytes_int_step: "bytes_int (bs @ [b]) = bytes_int bs * 256 + uint b"
  by (simp add: bytes_int_def)

text \<open>Reading the bytes of an address yields the address.\<close>

lemma word_bytes_Suc: "word_bytes (Suc k) n = word_bytes k (n div 256) @ [word_of_int n]"
proof -
  have "n div 256 ^ (k - i) = n div 256 div 256 ^ (k - 1 - i)" if "i < k" for i
  proof -
    have "(256 :: int) ^ (k - i) = 256 * 256 ^ (k - 1 - i)"
      using that by (simp flip: power_Suc add: Suc_diff_Suc)
    then show ?thesis by (simp add: zdiv_zmult2_eq)
  qed
  then show ?thesis by (simp add: word_bytes_def)
qed

lemma bytes_int_word: "bytes_int (word_bytes k n) = n mod 256 ^ k"
proof (induction k arbitrary: n)
  case 0
  then show ?case by (simp add: word_bytes_def bytes_int_def)
next
  case (Suc k)
  have "bytes_int (word_bytes (Suc k) n) = (n div 256 mod 256 ^ k) * 256 + n mod 256"
    using Suc by (simp add: word_bytes_Suc bytes_int_step uint_word_of_int)
  also have "\<dots> = n mod 256 ^ Suc k" by (simp add: zmod_zmult2_eq)
  finally show ?case .
qed

lemma AddrFromSlice_As16:
  "AddrFromSlice (As16 (IP6 v '''')) = Some (IP6 v '''')"
  "To4 (As16 (IP4 w)) = addr_bytes w" "AddrFromSlice (addr_bytes (w :: 32 word)) = Some (IP4 w)"
proof -
  show "AddrFromSlice (As16 (IP6 v '''')) = Some (IP6 v '''')"
    using bytes_int_word [of 16 "uint v"] uint_lt2p [of v] by (simp add: AddrFromSlice_def)
  show "To4 (As16 (IP4 w)) = addr_bytes w"
    by (simp add: To4_def word_bytes_addr nth_append)
  show "AddrFromSlice (addr_bytes w) = Some (IP4 w)"
    using bytes_int_word [of 4 "uint w"] uint_lt2p [of w] word_bytes_addr [where k = 4 and w = w]
    by (simp add: AddrFromSlice_def)
qed

text \<open>The network of an IPv4 address in CIDR form.\<close>

lemma IP_Mask_v4:
  assumes "n \<le> 32"
  shows "IP_Mask (As16 (IP4 w)) (mask_bytes 4 n) = Some (addr_bytes (top_bits n w))"
proof -
  have "replicate 10 (0 :: u8) @ [0xff, 0xff] = v4InV6Prefix" unfolding v4InV6Prefix_def by code_simp
  then have "As16 (IP4 w) = v4InV6Prefix @ addr_bytes w" by (simp add: word_bytes_addr)
  moreover have "length v4InV6Prefix = 12" by (simp add: v4InV6Prefix_def)
  ultimately show ?thesis using mask_addr_bytes [of n w] assms by (simp add: IP_Mask_def Let_def del: As16.simps)
qed

lemma IP_Mask_v6:
  assumes "n \<le> 128"
  shows "IP_Mask (As16 (IP6 w z)) (mask_bytes 16 n) = Some (addr_bytes (top_bits n w))"
  using mask_addr_bytes [of n w] assms
  by (simp add: IP_Mask_def word_bytes_addr)

lemma ParseCIDR_v4:
  assumes "ParseAddr a = Some (IP4 w)" "CHR ''/'' \<notin> set a" "read_base 10 m = Some n" "n \<le> 32"
  shows "ParseCIDR (a @ CHR ''/'' # m) =
    Some (As16 (IP4 w), Some (addr_bytes (top_bits n w)), mask_bytes 4 n)"
  using assms by (simp add: ParseCIDR_def cut_char_append CIDRMask_def IP_Mask_v4 del: As16.simps)

lemma ParseCIDR_v6:
  assumes "ParseAddr a = Some (IP6 w '''')" "CHR ''/'' \<notin> set a" "read_base 10 m = Some n" "n \<le> 128"
  shows "ParseCIDR (a @ CHR ''/'' # m) =
    Some (As16 (IP6 w ''''), Some (addr_bytes (top_bits n w)), mask_bytes 16 n)"
  using assms by (simp add: ParseCIDR_def cut_char_append CIDRMask_def IP_Mask_v6 del: As16.simps)

section \<open>Parsing the text form of an IPv4 address\<close>

lemma hd_show_base: "2 \<le> b \<Longrightarrow> b \<le> 16 \<Longrightarrow> 0 < n \<Longrightarrow> hd (show_base b n) \<noteq> CHR ''0''"
proof (induction b n rule: show_base.induct)
  case (1 b n)
  show ?case
  proof (cases "n < b")
    case True
    with 1 have "digit_char n \<noteq> digit_char 0" using char_digit_digit_char [of n] char_digit_digit_char [of 0]
      by (auto simp del: char_digit_digit_char)
    moreover have "digit_char 0 = CHR ''0''" by code_simp
    ultimately show ?thesis using True 1 by (simp add: show_base.simps)
  next
    case False
    with 1 have "hd (show_base b (n div b)) \<noteq> CHR ''0''" by (simp add: div_greater_zero_iff)
    with False 1 show ?thesis by (simp add: show_base.simps [of b n] hd_append)
  qed
qed

lemma parse_octet_show [simp]: "n \<le> 255 \<Longrightarrow> parse_octet (show_dec n) = Some n"
proof -
  assume n: "n \<le> 255"
  have "hd (show_dec n) \<noteq> CHR ''0''" if "1 < length (show_dec n)"
  proof (rule hd_show_base)
    show "0 < n" using that by (cases n) (simp_all add: show_base.simps)
  qed simp_all
  with n show ?thesis by (auto simp: parse_octet_def)
qed

lemma split_string4: "split_char CHR ''.'' (string4 w) = map show_dec (v4_octets w)"
  unfolding string4_def by (rule split_char_join) (auto simp: v4_octets_def go_str)

lemma v4_octets_le: "n \<in> set (v4_octets w) \<Longrightarrow> n \<le> 255"
proof -
  have "unat (take_bit 8 v) \<le> 255" for v :: "32 word"
    using take_bit_nat_less_exp [of 8 "unat v"] by (simp add: unsigned_take_bit_eq)
  then show "n \<in> set (v4_octets w) \<Longrightarrow> n \<le> 255" by (auto simp: v4_octets_def)
qed

lemma parse_v4_string4: "parse_v4 (string4 w) = Some (v4_octets w)"
proof -
  have "map parse_octet (map show_dec (v4_octets w)) = map Some (v4_octets w)"
    using v4_octets_le [of _ w] by simp
  then show ?thesis by (simp only: parse_v4_def split_string4 Let_def) (simp add: v4_octets_def)
qed

lemma ParseAddr_scan_dotted:
  assumes "set t \<subseteq> insert CHR ''.'' digit_chars" "CHR ''.'' \<in> set t"
  shows "ParseAddr_scan s t = map_option (\<lambda>os. IP4 (word_of_int (octets_value os))) (parse_v4 s)"
proof -
  have "CHR '':'' \<notin> digit_chars" "CHR ''%'' \<notin> digit_chars" by simp_all
  with assms show ?thesis by (induction t) auto
qed

lemma octets_value_bytes: "octets_value (map unat bs) = bytes_int bs"
  unfolding octets_value_def bytes_int_def foldl_map by simp

lemma v4_octets_bytes: "v4_octets w = map unat (addr_bytes w)"
  by (auto simp: v4_octets_def addr_bytes_def unsigned_ucast_eq unsigned_take_bit_eq intro!: map_cong)

lemma ParseAddr_string4: "ParseAddr (string4 w) = Some (IP4 w)"
proof -
  have "ParseAddr (string4 w) = Some (IP4 (word_of_int (octets_value (v4_octets w))))"
    unfolding ParseAddr_def ParseAddr_scan_dotted [OF set_string4 dot_in_string4] by (simp add: parse_v4_string4)
  then show ?thesis
    using AddrFromSlice_As16(3) [of w] by (simp add: v4_octets_bytes octets_value_bytes AddrFromSlice_def)
qed

section \<open>Parsing the text form of an IPv6 address\<close>

definition int_groups :: "nat \<Rightarrow> int \<Rightarrow> nat list" where
  "int_groups k n = map (\<lambda>i. nat (n div 65536 ^ (k - 1 - i) mod 65536)) [0..<k]"

lemma int_groups_Suc: "int_groups (Suc k) n = int_groups k (n div 65536) @ [nat (n mod 65536)]"
proof -
  have "n div 65536 ^ (k - i) = n div 65536 div 65536 ^ (k - 1 - i)" if "i < k" for i
  proof -
    have "k - i = Suc (k - 1 - i)" using that by simp
    then show ?thesis by (simp add: zdiv_zmult2_eq)
  qed
  then show ?thesis by (simp add: int_groups_def)
qed

lemma groups_value_int: "groups_value (int_groups k n) = n mod 65536 ^ k"
proof (induction k arbitrary: n)
  case 0
  then show ?case by (simp add: int_groups_def groups_value_def)
next
  case (Suc k)
  have "groups_value (int_groups (Suc k) n) = groups_value (int_groups k (n div 65536)) * 65536 + n mod 65536"
    by (simp add: int_groups_Suc groups_value_def)
  also have "\<dots> = (n div 65536 mod 65536 ^ k) * 65536 + n mod 65536" by (simp add: Suc.IH)
  also have "\<dots> = n mod 65536 ^ Suc k" by (simp add: zmod_zmult2_eq)
  finally show ?case .
qed

lemma v6_groups_int: "v6_groups w = int_groups 8 (uint w)"
proof -
  have "unat (take_bit 16 (drop_bit (112 - 16 * i) w)) = nat (uint w div 65536 ^ (7 - i) mod 65536)" if "i < 8" for i
  proof -
    have "112 - 16 * i = 16 * (7 - i)" using that by simp
    then have "uint w div 65536 ^ (7 - i) = uint w div 2 ^ (112 - 16 * i)"
      by (simp add: power_mult)
    moreover have "uint (take_bit 16 (drop_bit k w)) = uint w div 2 ^ k mod 65536" for k
    proof -
      have "uint (take_bit 16 (drop_bit k w)) = take_bit 16 (drop_bit k (uint w))"
        using uint_lt2p [of w] by (simp add: unsigned_take_bit_eq unsigned_drop_bit_eq take_bit_int_eq_self)
      then show ?thesis by (simp only: take_bit_eq_mod drop_bit_eq_div) simp
    qed
    ultimately show ?thesis by (simp flip: nat_uint_eq)
  qed
  then show ?thesis by (simp add: v6_groups_def int_groups_def)
qed

lemma groups_value_v6: "word_of_int (groups_value (v6_groups w)) = w"
  using uint_lt2p [of w] by (simp add: v6_groups_int groups_value_int)

lemma v6_groups_less: "x \<in> set (v6_groups w) \<Longrightarrow> x < 65536"
  by (auto simp: v6_groups_int int_groups_def nat_less_iff)

lemma length_v6_groups [simp]: "length (v6_groups w) = 8"
  by (simp add: v6_groups_def)

text \<open>Reading groups: each is at most four hexadecimal digits.\<close>

lemma is_hex_show: "list_all is_hex (show_hex x)"
proof -
  have "\<forall>c \<in> digit_chars. is_hex c" by (simp add: digit_chars_def is_hex_def char_digit_def)
  then show ?thesis using show_base_chars [of 16 x] by (auto simp: list_all_iff)
qed

lemma length_show_hex: "x < 16 ^ Suc k \<Longrightarrow> length (show_hex x) \<le> Suc k"
proof (induction k arbitrary: x)
  case 0
  then show ?case by (simp add: show_base.simps)
next
  case (Suc k)
  show ?case
  proof (cases "x < 16")
    case False
    have "x div 16 < 16 ^ Suc k" using Suc.prems by (simp add: less_mult_imp_div_less)
    with Suc.IH False show ?thesis by (subst show_base.simps) simp
  qed (simp add: show_base.simps)
qed

lemma colon_not_hex: "\<not> is_hex CHR '':''"
  by (simp add: is_hex_def char_digit_def)

lemma take_hex:
  "takeWhile is_hex (show_hex x) = show_hex x" "dropWhile is_hex (show_hex x) = []"
  "takeWhile is_hex (show_hex x @ CHR '':'' # s) = show_hex x" "dropWhile is_hex (show_hex x @ CHR '':'' # s) = CHR '':'' # s"
  using is_hex_show [of x] colon_not_hex by (simp_all add: takeWhile_eq_all_conv dropWhile_eq_Nil_conv takeWhile_append dropWhile_append list_all_iff)

lemma hd_hex_not_colon: "hd (hex_join (x # xs) @ s) \<noteq> CHR '':''"
proof -
  have "hd (show_hex x) \<in> digit_chars" using show_base_chars [of 16 x] hd_in_set [of "show_hex x"] by auto
  moreover have "hd (hex_join (x # xs) @ s) = hd (show_hex x)" by (cases xs) simp_all
  ultimately show ?thesis by auto
qed

lemma hex_join_nonempty: "hex_join (x # xs) \<noteq> []"
  by (cases xs) simp_all

text \<open>The loop reads groups to the end of the text, or up to an ellipsis.\<close>

lemma parse_v6_loop_all:
  assumes "\<forall>x \<in> set gs. x < 65536" "gs \<noteq> []" "length gs \<le> n"
  shows "parse_v6_loop n acc ell (hex_join gs) = Some (acc @ gs, ell, [])"
  using assms
proof (induction gs arbitrary: n acc)
  case (Cons x xs)
  then obtain m where n: "n = Suc m" by (cases n) auto
  have x: "length (show_hex x) \<le> 4" using length_show_hex [of x 3] Cons.prems(1) by simp
  show ?case
  proof (cases xs)
    case Nil
    with n x show ?thesis by (simp add: take_hex)
  next
    case (Cons y ys)
    have "parse_v6_loop m (acc @ [x]) ell (hex_join xs) = Some ((acc @ [x]) @ xs, ell, [])"
      using Cons.IH [of m "acc @ [x]"] Cons.prems Cons n by simp
    with x n Cons hd_hex_not_colon [of y ys "[]"] hex_join_nonempty [of y ys] show ?thesis
      by (simp add: take_hex)
  qed
qed simp

lemma parse_v6_loop_ellipsis:
  assumes "\<forall>x \<in> set gs. x < 65536" "gs \<noteq> []" "length gs \<le> n"
  shows "parse_v6_loop n acc None (hex_join gs @ ''::'' @ s) =
     (if s = [] then Some (acc @ gs, Some (length (acc @ gs)), [])
      else parse_v6_loop (n - length gs) (acc @ gs) (Some (length (acc @ gs))) s)"
  using assms
proof (induction gs arbitrary: n acc)
  case (Cons x xs)
  then obtain m where n: "n = Suc m" by (cases n) auto
  have x: "length (show_hex x) \<le> 4" using length_show_hex [of x 3] Cons.prems(1) by simp
  show ?case
  proof (cases xs)
    case Nil
    with n x show ?thesis by (simp add: take_hex)
  next
    case (Cons y ys)
    have "parse_v6_loop m (acc @ [x]) None (hex_join xs @ ''::'' @ s) =
       (if s = [] then Some ((acc @ [x]) @ xs, Some (length ((acc @ [x]) @ xs)), [])
        else parse_v6_loop (m - length xs) ((acc @ [x]) @ xs) (Some (length ((acc @ [x]) @ xs))) s)"
      using Cons.IH [of m "acc @ [x]"] Cons.prems Cons n by simp
    with x n Cons hd_hex_not_colon [of y ys "''::'' @ s"] hex_join_nonempty [of y ys] show ?thesis
      by (simp add: take_hex)
  qed
qed simp

lemma not_ellipsis_hex: "\<not> has_prefix (hex_join (x # xs) @ s) ''::''"
  using hd_hex_not_colon [of x xs s] hex_join_nonempty [of x xs]
  by (cases "hex_join (x # xs)") (auto simp: has_prefix_def)

lemma parse_v6_body_groups:
  assumes "length g = 8" "\<forall>x \<in> set g. x < 65536"
  shows "parse_v6_body (groups_text g) = Some g"
proof (cases "zero_run g")
  case None
  obtain x xs where g: "g = x # xs" using assms(1) by (cases g) auto
  have "hex_join g \<noteq> ''::''" using not_ellipsis_hex [of x xs "[]"] g by (auto simp: has_prefix_def)
  then show ?thesis
    using None not_ellipsis_hex [of x xs "[]"] parse_v6_loop_all [OF assms(2), of 8 "[]" None] assms(1) g
    by (auto simp: groups_text_def Let_def parse_v6_body_def)
next
  case (Some r)
  obtain s e where r: "r = (s, e)" by (cases r)
  with Some assms have z: "s < e" "e \<le> 8" "take (e - s) (drop s g) = replicate (e - s) 0"
    using zero_run_zeros by auto
  have "g = take s g @ take (e - s) (drop s g) @ drop e g"
    using z(1) by (metis append_take_drop_id drop_drop le_add_diff_inverse2 less_imp_le)
  then have g: "take s g @ replicate (e - s) 0 @ drop e g = g" using z(3) by simp
  have tx: "groups_text g = hex_join (take s g) @ ''::'' @ hex_join (drop e g)"
    by (simp add: groups_text_def Some r Let_def)
  have less: "\<forall>x \<in> set (take s g). x < 65536" "\<forall>x \<in> set (drop e g). x < 65536"
    using assms(2) by (auto dest: in_set_takeD in_set_dropD)
  have rest: "(if hex_join (drop e g) = [] then Some (take s g, Some s, [])
      else parse_v6_loop (8 - s) (take s g) (Some s) (hex_join (drop e g))) = Some (take s g @ drop e g, Some s, [])"
  proof (cases "drop e g")
    case (Cons y ys)
    from arg_cong [OF this, of length] assms(1) z(1,2) have "Suc (length ys) \<le> 8 - s" by simp
    with Cons show ?thesis
      using parse_v6_loop_all [OF less(2), of "8 - s" "take s g" "Some s"] hex_join_nonempty [of y ys] by simp
  qed simp
  show ?thesis
  proof (cases "s = 0")
    case True
    show ?thesis
    proof (cases "e = 8")
      case e: True
      then have "replicate 8 0 = g" using g True assms(1) by simp
      then show ?thesis using tx True e assms(1) by (simp add: parse_v6_body_def)
    next
      case False
      then obtain y ys where "drop e g = y # ys" using z(2) assms(1) by (cases "drop e g") auto
      then have "groups_text g \<noteq> ''::''" "has_prefix (groups_text g) ''::''" "hex_join (drop e g) \<noteq> []"
        using tx True hex_join_nonempty [of y ys] by (auto simp: has_prefix_def)
      then show ?thesis
        using tx True rest g assms(1) z by (simp add: parse_v6_body_def min_def)
    qed
  next
    case False
    then obtain x xs where x: "take s g = x # xs" using assms(1) by (cases "take s g") auto
    have "\<not> has_prefix (groups_text g) ''::''" using not_ellipsis_hex [of x xs] tx x by simp
    moreover from this have "groups_text g \<noteq> ''::''" by (auto simp: has_prefix_def)
    moreover have len: "length (take s g) = s" using assms(1) z(1,2) by simp
    moreover from len x z(1,2) have "length xs \<le> 7" by simp
    then have "parse_v6_loop 8 [] None (groups_text g) = Some (take s g @ drop e g, Some s, [])"
      using parse_v6_loop_ellipsis [OF less(1), of 8 "[]" "hex_join (drop e g)"] x tx len
      by (intro trans [OF _ rest]) simp
    moreover have "8 - length (take s g @ drop e g) = e - s" "length (take s g @ drop e g) < 8"
      using assms(1) z(1,2) by simp_all
    ultimately show ?thesis using g by (simp add: parse_v6_body_def)
  qed
qed

lemma ParseAddr_scan_colons:
  assumes "set t \<subseteq> insert CHR '':'' digit_chars" "CHR '':'' \<in> set t"
  shows "ParseAddr_scan s t = parse_v6 s"
proof -
  have "CHR ''.'' \<notin> digit_chars" "CHR ''%'' \<notin> digit_chars" by simp_all
  with assms show ?thesis by (induction t) auto
qed

text \<open>The text of an IPv6 address that is no IPv4 address in IPv6 form.\<close>

lemma ParseAddr_groups: "ParseAddr (groups_text (v6_groups w)) = Some (IP6 w '''')"
proof -
  let ?t = "groups_text (v6_groups w)"
  have "ParseAddr ?t = parse_v6 ?t"
    unfolding ParseAddr_def by (rule ParseAddr_scan_colons [OF set_groups_text colon_in_groups_text]) simp
  moreover have "CHR ''%'' \<notin> set ?t" using set_groups_text [of "v6_groups w"] by auto
  then have "cut_char CHR ''%'' ?t = None" by (simp add: cut_char_None_iff)
  ultimately show ?thesis
    using parse_v6_body_groups [of "v6_groups w"] v6_groups_less by (simp add: parse_v6_def groups_value_v6)
qed

end
