(* ===== verification/JsonCodec.thy ===== *)
theory JsonCodec
  imports Json NetCIDR VPNConfig LoginInfo
begin

text \<open>
  Encoding values of the program as JSON and decoding them, as \<^verbatim>\<open>json.Marshal\<close> and
  \<^verbatim>\<open>json.Unmarshal\<close> do it by reflection: strings, numbers, byte slices, IP addresses, slices,
  pointers and structs, and with them the VPN configuration and the login information
  (\<^verbatim>\<open>JSON\<close>, \<^verbatim>\<open>NewFromJSON\<close>). An encoder has no result for a value that cannot be
  encoded. A decoder takes the old value of the variable; its first result says whether there was
  no error, and after an error the rest is decoded. Only the text of an IP address ends the decoding
  at once in the library; the structs that hold one are decoded by \<open>from_JSON\<close> only, where the value is thrown
  away after an error.
\<close>

section \<open>Encoders and decoders\<close>

type_synonym 'a enc = "'a \<Rightarrow> json option"
type_synonym 'a dec = "json \<Rightarrow> 'a \<Rightarrow> bool \<times> 'a"

definition enc_string :: "string enc" where
  "enc_string s = Some (JStr s)"

fun dec_string :: "string dec" where
  "dec_string JNull old = (True, old)"
| "dec_string (JStr s) old = (True, s)"
| "dec_string j old = (False, old)"

definition enc_bool :: "bool enc" where
  "enc_bool b = Some (JBool b)"

fun dec_bool :: "bool dec" where
  "dec_bool JNull old = (True, old)"
| "dec_bool (JBool b) old = (True, b)"
| "dec_bool j old = (False, old)"

text \<open>Signed numbers of 64 bits, and unsigned numbers of at most 64 bits.\<close>

definition enc_int :: "int enc" where
  "enc_int i = Some (JNum (show_int i))"

fun dec_int :: "int dec" where
  "dec_int JNull old = (True, old)"
| "dec_int (JNum n) old = (case Atoi n of None \<Rightarrow> (False, old) | Some i \<Rightarrow> (True, i))"
| "dec_int j old = (False, old)"

definition enc_uint :: "'a::len word enc" where
  "enc_uint w = Some (JNum (show_dec (unat w)))"

fun dec_uint :: "'a::len word dec" where
  "dec_uint JNull old = (True, old)"
| "dec_uint (JNum n) old = (case ParseUint n 10 LENGTH('a) of None \<Rightarrow> (False, old) | Some i \<Rightarrow> (True, of_nat i))"
| "dec_uint j old = (False, old)"

text \<open>
  Slices: the elements are decoded into the elements that are there, and into zero values. Pointers:
  null is nil, anything else is decoded into the value pointed to, or into a new one.
\<close>

definition enc_slice :: "'a enc \<Rightarrow> 'a slice enc" where
  "enc_slice enc s =
     (case s of None \<Rightarrow> Some JNull | Some xs \<Rightarrow> map_option JArr (those (map enc xs)))"

fun dec_elems :: "'a dec \<Rightarrow> 'a \<Rightarrow> json list \<Rightarrow> 'a list \<Rightarrow> bool \<times> 'a list" where
  "dec_elems dec zero [] olds = (True, [])"
| "dec_elems dec zero (j # js) olds =
     (let (ok, x) = dec j (case olds of [] \<Rightarrow> zero | old # _ \<Rightarrow> old);
          (oks, xs) = dec_elems dec zero js (tl olds)
      in (ok \<and> oks, x # xs))"

fun dec_slice :: "'a dec \<Rightarrow> 'a \<Rightarrow> 'a slice dec" where
  "dec_slice dec zero JNull old = (True, None)"
| "dec_slice dec zero (JArr js) old = (let (ok, xs) = dec_elems dec zero js (slice_list old) in (ok, Some xs))"
| "dec_slice dec zero j old = (False, old)"

definition enc_ptr :: "'a enc \<Rightarrow> 'a option enc" where
  "enc_ptr enc p = (case p of None \<Rightarrow> Some JNull | Some x \<Rightarrow> enc x)"

definition dec_ptr :: "'a dec \<Rightarrow> 'a \<Rightarrow> 'a option dec" where
  "dec_ptr dec zero j old =
     (if j = JNull then (True, None)
      else (let (ok, x) = dec j (case old of None \<Rightarrow> zero | Some x \<Rightarrow> x) in (ok, Some x)))"

text \<open>Byte slices are encoded with \<^verbatim>\<open>base64.StdEncoding\<close>: another alphabet, and padding.\<close>

definition url_to_std :: "char \<Rightarrow> char" where
  "url_to_std c = (if c = CHR ''-'' then CHR ''+'' else if c = CHR ''_'' then CHR ''/'' else c)"

definition std_to_url :: "char \<Rightarrow> char option" where
  "std_to_url c =
     (if c = CHR ''+'' then Some CHR ''-'' else if c = CHR ''/'' then Some CHR ''_''
      else if c \<in> {CHR ''-'', CHR ''_''} then None else Some c)"

definition std_encode :: "u8 list \<Rightarrow> string" where
  "std_encode bs =
     map url_to_std (b64_encode bs) @ replicate ((3 - length bs mod 3) mod 3) CHR ''=''"

definition std_decode :: "string \<Rightarrow> u8 list option" where
  "std_decode s =
     (let t = filter (\<lambda>c. c \<noteq> CHR 0x0A \<and> c \<noteq> CHR 0x0D) s;
          d = takeWhile (\<lambda>c. c \<noteq> CHR ''='') t; pad = dropWhile (\<lambda>c. c \<noteq> CHR ''='') t
      in if length t mod 4 = 0 \<and> pad \<in> {'''', ''='', ''==''}
         then (case those (map std_to_url d) of None \<Rightarrow> None | Some u \<Rightarrow> b64_decode u)
         else None)"

definition enc_bytes :: "u8 slice enc" where
  "enc_bytes s = Some (case s of None \<Rightarrow> JNull | Some bs \<Rightarrow> JStr (std_encode bs))"

fun dec_bytes :: "u8 slice dec" where
  "dec_bytes (JStr s) old = (case std_decode s of None \<Rightarrow> (False, old) | Some bs \<Rightarrow> (True, Some bs))"
| "dec_bytes j old = dec_slice dec_uint 0 j old"

text \<open>An IP address is its text (\<^verbatim>\<open>MarshalText\<close>, \<^verbatim>\<open>UnmarshalText\<close>); nil is the empty text.\<close>

definition enc_IP :: "net_IP enc" where
  "enc_IP ip =
     (let bs = slice_list ip in
      if bs = [] then Some (JStr '''')
      else if length bs \<noteq> 4 \<and> length bs \<noteq> 16 then None
      else Some (JStr (net_IP_String ip)))"

fun dec_IP :: "net_IP dec" where
  "dec_IP JNull old = (True, None)"
| "dec_IP (JStr s) old =
     (if s = '''' then (True, None)
      else (case ParseIP s of None \<Rightarrow> (False, old) | Some bs \<Rightarrow> (True, Some bs)))"
| "dec_IP j old = (False, old)"

text \<open>
  Structs: the members with their names, in order. Decoding a struct_member finds the field of the same name,
  or else one with the same name up to the case of its letters; others are skipped.
\<close>

definition enc_struct :: "(string \<times> json option) list \<Rightarrow> json option" where
  "enc_struct fs = map_option JObj (those (map (\<lambda>(n, j). map_option (Pair n) j) fs))"

definition lower_char :: "char \<Rightarrow> char" where
  "lower_char c =
     (let n = of_char c :: nat in if 65 \<le> n \<and> n \<le> 90 then char_of (n + 32) else c)"

definition find_field :: "(string \<times> 'a) list \<Rightarrow> string \<Rightarrow> 'a option" where
  "find_field fs k =
     (case map_of fs k of Some f \<Rightarrow> Some f
      | None \<Rightarrow> map_of (map (\<lambda>(n, f). (map lower_char n, f)) fs) (map lower_char k))"

fun dec_struct :: "(string \<times> 'r dec) list \<Rightarrow> 'r dec" where
  "dec_struct fs JNull r = (True, r)"
| "dec_struct fs (JObj kvs) r =
     foldl (\<lambda>(ok, r) (k, j).
         case find_field fs k of None \<Rightarrow> (ok, r)
         | Some d \<Rightarrow> (let (ok', r') = d j r in (ok \<and> ok', r')))
       (True, r) kvs"
| "dec_struct fs j r = (False, r)"

definition at_field :: "('r \<Rightarrow> 'a) \<Rightarrow> (('a \<Rightarrow> 'a) \<Rightarrow> 'r \<Rightarrow> 'r) \<Rightarrow> 'a dec \<Rightarrow> 'r dec" where
  "at_field get upd dec j r = (let (ok, x) = dec j (get r) in (ok, upd (\<lambda>_. x) r))"

text \<open>\<^verbatim>\<open>json.Marshal\<close> and \<^verbatim>\<open>json.Unmarshal\<close>: a text that is no JSON changes nothing.\<close>

definition Marshal :: "'a enc \<Rightarrow> 'a \<Rightarrow> string option" where
  "Marshal enc x = map_option json_text (enc x)"

definition Unmarshal :: "'a dec \<Rightarrow> string \<Rightarrow> 'a \<Rightarrow> bool \<times> 'a" where
  "Unmarshal dec b old = (case json_parse b of None \<Rightarrow> (False, old) | Some j \<Rightarrow> dec j old)"

text \<open>Decoding into a new value, which is thrown away after an error.\<close>

definition from_JSON :: "'a dec \<Rightarrow> 'a \<Rightarrow> string \<Rightarrow> 'a option" where
  "from_JSON dec zero b = (let (ok, x) = Unmarshal dec b zero in if ok then Some x else None)"

section \<open>VPN configuration\<close>

definition enc_Device :: "vc_Device enc" where
  "enc_Device d = enc_struct [(''Name'', enc_string (vc_Device_Name d)), (''MTU'', enc_int (vc_Device_MTU d))]"

definition dec_Device :: "vc_Device dec" where
  "dec_Device = dec_struct
     [(''Name'', at_field vc_Device_Name vc_Device_Name_update dec_string),
      (''MTU'', at_field vc_Device_MTU vc_Device_MTU_update dec_int)]"

definition enc_Address :: "vc_Address enc" where
  "enc_Address a = enc_struct
     [(''Address'', enc_IP (vc_Address_Address a)), (''Netmask'', enc_bytes (vc_Address_Netmask a))]"

definition dec_Address :: "vc_Address dec" where
  "dec_Address = dec_struct
     [(''Address'', at_field vc_Address_Address vc_Address_Address_update dec_IP),
      (''Netmask'', at_field vc_Address_Netmask vc_Address_Netmask_update dec_bytes)]"

definition enc_DNS :: "vc_DNS enc" where
  "enc_DNS d = enc_struct
     [(''DefaultDomain'', enc_string (vc_DNS_DefaultDomain d)),
      (''ServersIPv4'', enc_slice enc_IP (vc_DNS_ServersIPv4 d)),
      (''ServersIPv6'', enc_slice enc_IP (vc_DNS_ServersIPv6 d))]"

definition dec_DNS :: "vc_DNS dec" where
  "dec_DNS = dec_struct
     [(''DefaultDomain'', at_field vc_DNS_DefaultDomain vc_DNS_DefaultDomain_update dec_string),
      (''ServersIPv4'', at_field vc_DNS_ServersIPv4 vc_DNS_ServersIPv4_update (dec_slice dec_IP None)),
      (''ServersIPv6'', at_field vc_DNS_ServersIPv6 vc_DNS_ServersIPv6_update (dec_slice dec_IP None))]"

definition enc_IPNet :: "net_IPNet enc" where
  "enc_IPNet n = enc_struct [(''IP'', enc_IP (IPNet_IP n)), (''Mask'', enc_bytes (IPNet_Mask n))]"

definition IPNet_zero :: net_IPNet where
  "IPNet_zero = \<lparr>IPNet_IP = None, IPNet_Mask = None\<rparr>"

definition dec_IPNet :: "net_IPNet dec" where
  "dec_IPNet = dec_struct
     [(''IP'', at_field IPNet_IP IPNet_IP_update dec_IP),
      (''Mask'', at_field IPNet_Mask IPNet_Mask_update dec_bytes)]"

definition enc_Split :: "vc_Split enc" where
  "enc_Split s = enc_struct
     [(''ExcludeIPv4'', enc_slice (enc_ptr enc_IPNet) (vc_Split_ExcludeIPv4 s)),
      (''ExcludeIPv6'', enc_slice (enc_ptr enc_IPNet) (vc_Split_ExcludeIPv6 s)),
      (''ExcludeDNS'', enc_slice enc_string (vc_Split_ExcludeDNS s)),
      (''ExcludeVirtualSubnetsOnlyIPv4'', enc_bool (vc_Split_ExcludeVirtualSubnetsOnlyIPv4 s))]"

definition dec_Split :: "vc_Split dec" where
  "dec_Split = dec_struct
     [(''ExcludeIPv4'', at_field vc_Split_ExcludeIPv4 vc_Split_ExcludeIPv4_update (dec_slice (dec_ptr dec_IPNet IPNet_zero) None)),
      (''ExcludeIPv6'', at_field vc_Split_ExcludeIPv6 vc_Split_ExcludeIPv6_update (dec_slice (dec_ptr dec_IPNet IPNet_zero) None)),
      (''ExcludeDNS'', at_field vc_Split_ExcludeDNS vc_Split_ExcludeDNS_update (dec_slice dec_string '''')),
      (''ExcludeVirtualSubnetsOnlyIPv4'',
        at_field vc_Split_ExcludeVirtualSubnetsOnlyIPv4 vc_Split_ExcludeVirtualSubnetsOnlyIPv4_update dec_bool)]"

definition enc_Flags :: "vc_Flags enc" where
  "enc_Flags f = enc_struct [(''DisableAlwaysOnVPN'', enc_bool (vc_Flags_DisableAlwaysOnVPN f))]"

definition dec_Flags :: "vc_Flags dec" where
  "dec_Flags = dec_struct
     [(''DisableAlwaysOnVPN'', at_field vc_Flags_DisableAlwaysOnVPN vc_Flags_DisableAlwaysOnVPN_update dec_bool)]"

definition enc_vc_Config :: "vc_Config enc" where
  "enc_vc_Config c = enc_struct
     [(''Gateway'', enc_IP (vc_Gateway c)),
      (''PID'', enc_int (vc_PID c)),
      (''Timeout'', enc_int (vc_Timeout c)),
      (''Device'', enc_Device (vc_Device c)),
      (''IPv4'', enc_Address (vc_IPv4 c)),
      (''IPv6'', enc_Address (vc_IPv6 c)),
      (''DNS'', enc_DNS (vc_DNS c)),
      (''Split'', enc_Split (vc_Split c)),
      (''Flags'', enc_Flags (vc_Flags c))]"

definition dec_vc_Config :: "vc_Config dec" where
  "dec_vc_Config = dec_struct
     [(''Gateway'', at_field vc_Gateway vc_Gateway_update dec_IP),
      (''PID'', at_field vc_PID vc_PID_update dec_int),
      (''Timeout'', at_field vc_Timeout vc_Timeout_update dec_int),
      (''Device'', at_field vc_Device vc_Device_update dec_Device),
      (''IPv4'', at_field vc_IPv4 vc_IPv4_update dec_Address),
      (''IPv6'', at_field vc_IPv6 vc_IPv6_update dec_Address),
      (''DNS'', at_field vc_DNS vc_DNS_update dec_DNS),
      (''Split'', at_field vc_Split vc_Split_update dec_Split),
      (''Flags'', at_field vc_Flags vc_Flags_update dec_Flags)]"

definition vc_JSON :: "vc_Config \<Rightarrow> string option" where
  "vc_JSON c = Marshal enc_vc_Config c"

definition vc_NewFromJSON :: "string \<Rightarrow> vc_Config option" where
  "vc_NewFromJSON b = from_JSON dec_vc_Config vc_New b"

section \<open>Login information\<close>

definition enc_LoginInfo :: "LoginInfo enc" where
  "enc_LoginInfo l = enc_struct
     [(''Server'', enc_string (li_Server l)), (''Cookie'', enc_string (li_Cookie l)), (''Host'', enc_string (li_Host l)),
      (''ConnectURL'', enc_string (li_ConnectURL l)), (''Fingerprint'', enc_string (li_Fingerprint l)),
      (''Resolve'', enc_string (li_Resolve l))]"

definition dec_LoginInfo :: "LoginInfo dec" where
  "dec_LoginInfo = dec_struct
     [(''Server'', at_field li_Server li_Server_update dec_string),
      (''Cookie'', at_field li_Cookie li_Cookie_update dec_string),
      (''Host'', at_field li_Host li_Host_update dec_string),
      (''ConnectURL'', at_field li_ConnectURL li_ConnectURL_update dec_string),
      (''Fingerprint'', at_field li_Fingerprint li_Fingerprint_update dec_string),
      (''Resolve'', at_field li_Resolve li_Resolve_update dec_string)]"

definition li_JSON :: "LoginInfo \<Rightarrow> string option" where
  "li_JSON l = Marshal enc_LoginInfo l"

definition li_FromJSON :: "string \<Rightarrow> LoginInfo option" where
  "li_FromJSON b = from_JSON dec_LoginInfo LoginInfo_zero b"

end
