(* ===== verification/JsonLaws.thy ===== *)
theory JsonLaws
  imports JsonCodec
begin

text \<open>
  Decoding what was encoded. A codec is an encoder and a decoder with the law that a value of a given
  set is encoded, and that decoding the result yields the value in a normal form, whatever the variable
  held before. The law holds for the basic types and is kept by slices, pointers and structs, and so it
  holds for the VPN configuration and the login information. The normal form of an IP address has 16
  bytes, or none.
\<close>

section \<open>Codecs\<close>

locale codec =
  fixes enc :: "'a enc" and dec :: "'a dec" and ok :: "'a \<Rightarrow> bool" and norm :: "'a \<Rightarrow> 'a"
  assumes law: "ok x \<Longrightarrow> \<exists>j. enc x = Some j \<and> json_ok j \<and> (\<forall>old. dec j old = (True, norm x))"
begin

lemma encoded:
  assumes "ok x"
  obtains j where "enc x = Some j" "json_ok j" "\<And>old. dec j old = (True, norm x)"
  using law [OF assms] by blast

lemma round_trip:
  assumes "ok x"
  obtains b where "Marshal enc x = Some b" "\<And>old. Unmarshal dec b old = (True, norm x)"
    "\<And>zero. from_JSON dec zero b = Some (norm x)"
proof -
  obtain j where j: "enc x = Some j" "json_ok j" "\<And>old. dec j old = (True, norm x)" using encoded [OF assms] by blast
  show thesis
    by (rule that [of "json_text j"])
      (simp_all add: Marshal_def Unmarshal_def from_JSON_def json_parse_text j)
qed

end

section \<open>Numbers and strings\<close>

lemma valid_utf8_digits: "set s \<subseteq> digit_chars \<union> {CHR ''.'', CHR '':'', CHR ''-''} \<Longrightarrow> valid_utf8 s"
  by (rule valid_utf8_ascii) (auto simp: digit_chars_def)

lemma codec_string: "codec enc_string dec_string valid_utf8 id"
  by unfold_locales (simp add: enc_string_def)

lemma codec_bool: "codec enc_bool dec_bool (\<lambda>_. True) id"
  by unfold_locales (simp add: enc_bool_def)

lemma show_dec_digits: "list_all dec_digit (show_dec n)"
proof (induction n rule: less_induct)
  case (less n)
  have d: "dec_digit (digit_char (k mod 16))" if "k < 10" for k
  proof -
    have "\<forall>k \<in> set [0..<10]. dec_digit (digit_char (k mod 16))" by code_simp
    with that show ?thesis by simp
  qed
  have "list_all dec_digit (show_dec (n div 10))" if "\<not> n < 10" using less that by simp
  with d [of n] d [of "n mod 10"] show ?case by (subst show_base.simps) simp
qed

lemma valid_number_show_dec: "valid_number (show_dec n)"
proof -
  note d = show_dec_digits [of n]
  obtain c cs where s: "show_dec n = c # cs" using show_base_nonempty [of 10 n] by (cases "show_dec n") auto
  have "c \<noteq> CHR ''-''" using d s by (auto simp: dec_digit_def)
  moreover have "takeWhile dec_digit (show_dec n) = show_dec n" "dropWhile dec_digit (show_dec n) = []"
    using d by (simp_all add: list_all_iff takeWhile_eq_all_conv)
  moreover have "c = CHR ''0'' \<Longrightarrow> cs = []"
    using hd_show_base [of 10 n] s by (cases "n = 0") (auto simp: show_base.simps [of 10 0])
  ultimately show ?thesis by (auto simp: valid_number_def s Let_def)
qed

lemma valid_number_show_int: "valid_number (show_int i)"
proof (cases "i < 0")
  case True
  obtain c cs where s: "show_dec (nat (- i)) = c # cs"
    using show_base_nonempty [of 10 "nat (- i)"] by (cases "show_dec (nat (- i))") auto
  have "c \<noteq> CHR ''-''" using show_dec_digits [of "nat (- i)"] s by (auto simp: dec_digit_def)
  then show ?thesis
    using valid_number_show_dec [of "nat (- i)"] s True by (simp add: valid_number_def show_int_def Let_def)
qed (simp add: show_int_def valid_number_show_dec)

definition is_int64 :: "int \<Rightarrow> bool" where
  "is_int64 i \<longleftrightarrow> - (2 ^ 63) \<le> i \<and> i < 2 ^ 63"

lemma Atoi_show_int:
  assumes "is_int64 i"
  shows "Atoi (show_int i) = Some i"
proof (cases "i < 0")
  case False
  obtain c cs where s: "show_dec (nat i) = c # cs"
    using show_base_nonempty [of 10 "nat i"] by (cases "show_dec (nat i)") auto
  then have "c \<noteq> CHR ''-''" "c \<noteq> CHR ''+''" using show_dec_digits [of "nat i"] by (auto simp: dec_digit_def)
  moreover have "read_base 10 (c # cs) = Some (nat i)" using s read_base_show_base [of 10 "nat i"] by simp
  ultimately show ?thesis using assms False by (simp add: Atoi_def show_int_def s is_int64_def)
qed (use assms in \<open>simp add: Atoi_def show_int_def is_int64_def\<close>)

lemma codec_int: "codec enc_int dec_int is_int64 id"
  by unfold_locales (simp add: enc_int_def valid_number_show_int Atoi_show_int)

lemma codec_uint: "codec enc_uint dec_uint (\<lambda>_. True) (id :: 'a::len word \<Rightarrow> 'a word)"
proof unfold_locales
  fix w :: "'a word"
  have "ParseUint (show_dec (unat w)) 10 LENGTH('a) = Some (unat w)"
    using uint_lt2p [of w] by (simp add: ParseUint_def)
  then show "\<exists>j. enc_uint w = Some j \<and> json_ok j \<and> (\<forall>old. dec_uint j old = (True, id w))"
    by (simp add: enc_uint_def valid_number_show_dec)
qed

section \<open>Slices and pointers\<close>

abbreviation "norm_slice n \<equiv> map_option (map n)"

context codec begin

lemma encoded_list:
  assumes "list_all ok xs"
  obtains js where "those (map enc xs) = Some js" "list_all json_ok js" "\<And>z olds. dec_elems dec z js olds = (True, map norm xs)"
proof -
  from assms have "\<exists>js. those (map enc xs) = Some js \<and> list_all json_ok js \<and>
      (\<forall>z olds. dec_elems dec z js olds = (True, map norm xs))"
  proof (induction xs)
    case (Cons x xs)
    then obtain js where js: "those (map enc xs) = Some js" "list_all json_ok js"
        "\<forall>z olds. dec_elems dec z js olds = (True, map norm xs)" by auto
    from Cons.prems obtain j where j: "enc x = Some j" "json_ok j" "\<And>old. dec j old = (True, norm x)"
      using encoded [of x] by auto
    show ?case by (rule exI [of _ "j # js"]) (simp add: js j)
  qed simp
  with that show thesis by blast
qed

lemma slice: "codec (enc_slice enc) (dec_slice dec zero) (\<lambda>s. list_all ok (slice_list s)) (norm_slice norm)"
proof unfold_locales
  fix s assume s: "list_all ok (slice_list s)"
  show "\<exists>j. enc_slice enc s = Some j \<and> json_ok j \<and> (\<forall>old. dec_slice dec zero j old = (True, norm_slice norm s))"
  proof (cases s)
    case (Some xs)
    with s obtain js where "those (map enc xs) = Some js" "list_all json_ok js"
        "\<And>z olds. dec_elems dec z js olds = (True, map norm xs)"
      using encoded_list [of xs] by (auto simp: slice_list_def)
    with Some show ?thesis by (intro exI [of _ "JArr js"]) (simp add: enc_slice_def)
  qed (simp add: enc_slice_def)
qed

text \<open>A pointer to a value that is never encoded as null.\<close>

lemma ptr:
  assumes "\<And>x. enc x \<noteq> Some JNull"
  shows "codec (enc_ptr enc) (dec_ptr dec zero) (\<lambda>p. \<forall>x \<in> set_option p. ok x) (map_option norm)"
proof unfold_locales
  fix p assume p: "\<forall>x \<in> set_option p. ok x"
  show "\<exists>j. enc_ptr enc p = Some j \<and> json_ok j \<and> (\<forall>old. dec_ptr dec zero j old = (True, map_option norm p))"
  proof (cases p)
    case (Some x)
    with p obtain j where "enc x = Some j" "json_ok j" "\<And>old. dec j old = (True, norm x)"
      using encoded [of x] by auto
    moreover from this assms have "j \<noteq> JNull" by auto
    ultimately show ?thesis using Some by (simp add: enc_ptr_def dec_ptr_def)
  qed (simp add: enc_ptr_def dec_ptr_def)
qed

end

section \<open>Byte slices\<close>

lemma std_url: "std_to_url (url_to_std (b64_char v)) = Some (b64_char v)"
  if "v < 64" for v
proof -
  have "\<forall>v \<in> set [0..<64]. std_to_url (url_to_std (b64_char v)) = Some (b64_char v)" by code_simp
  with that show ?thesis by simp
qed

lemma url_to_std_plain: "url_to_std (b64_char v) \<notin> {CHR ''='', CHR 0x0A, CHR 0x0D}" "(of_char (url_to_std (b64_char v)) :: nat) < 128"
  if "v < 64" for v
proof -
  have "\<forall>v \<in> set [0..<64]. url_to_std (b64_char v) \<notin> {CHR ''='', CHR 0x0A, CHR 0x0D} \<and>
      (of_char (url_to_std (b64_char v)) :: nat) < 128" by code_simp
  with that show "url_to_std (b64_char v) \<notin> {CHR ''='', CHR 0x0A, CHR 0x0D}" "(of_char (url_to_std (b64_char v)) :: nat) < 128"
    by simp_all
qed

lemma length_b64_split: "length (b64_split bs) = (4 * length bs + 2) div 3"
  by (induction bs rule: b64_split.induct) simp_all

lemma b64_encode_chars: "\<forall>c \<in> set (b64_encode bs). \<exists>v < 64. c = b64_char v"
proof -
  have "\<forall>b \<in> set (map unat bs). b < 256" using unsigned_less [where 'a = nat and 'b = 8] by auto
  from b64_split_range [OF this] show ?thesis by (auto simp: b64_encode_def)
qed

lemma std_decode_encode: "std_decode (std_encode bs) = Some bs"
proof -
  let ?d = "map url_to_std (b64_encode bs)" and ?p = "replicate ((3 - length bs mod 3) mod 3) CHR ''=''"
  define P where "P = ?p"
  have c: "\<forall>c \<in> set ?d. c \<notin> {CHR ''='', CHR 0x0A, CHR 0x0D}"
    using b64_encode_chars [of bs] url_to_std_plain(1) by fastforce
  moreover have P: "set P \<subseteq> {CHR ''=''}" by (auto simp: P_def)
  ultimately have f: "filter (\<lambda>c. c \<noteq> CHR 0x0A \<and> c \<noteq> CHR 0x0D) (?d @ P) = ?d @ P" by (intro filter_True) auto
  have t: "takeWhile (\<lambda>c. c \<noteq> CHR ''='') (?d @ P) = ?d" "dropWhile (\<lambda>c. c \<noteq> CHR ''='') (?d @ P) = P"
    using c P by (cases P; auto simp: takeWhile_append dropWhile_append)+
  have u: "those (map std_to_url ?d) = Some (b64_encode bs)"
    using those_map_Some [of "b64_encode bs" "std_to_url \<circ> url_to_std" id] b64_encode_chars [of bs] std_url
    by fastforce
  define q where "q = length bs div 3"
  have "length bs = 3 * q + length bs mod 3" by (simp add: q_def)
  moreover have "length bs mod 3 = 0 \<or> length bs mod 3 = 1 \<or> length bs mod 3 = 2" by linarith
  ultimately consider "length bs = 3 * q" | "length bs = 3 * q + 1" | "length bs = 3 * q + 2" by linarith
  note r = this
  have d: "length ?d = (4 * length bs + 2) div 3" by (simp add: b64_encode_def length_b64_split)
  from r have "(length ?d = 4 * q \<and> P = '''') \<or> (length ?d = 4 * q + 2 \<and> P = ''=='') \<or> (length ?d = 4 * q + 3 \<and> P = ''='')"
  proof cases
    case 1
    then have "length bs mod 3 = 0" "(4 * length bs + 2) div 3 = 4 * q" by presburger+
    then show ?thesis using d by (simp add: P_def)
  next
    case 2
    then have "length bs mod 3 = 1" "(4 * length bs + 2) div 3 = 4 * q + 2" by presburger+
    moreover have "replicate 2 CHR ''='' = ''==''" by (simp add: numeral_eq_Suc)
    ultimately show ?thesis using d by (simp add: P_def)
  next
    case 3
    then have "length bs mod 3 = 2" "(4 * length bs + 2) div 3 = 4 * q + 3" by presburger+
    then show ?thesis using d by (simp add: P_def)
  qed
  then have l: "length (?d @ P) mod 4 = 0" and p: "P \<in> {'''', ''='', ''==''}" by (auto simp: mod_simps)
  show ?thesis
    unfolding std_decode_def std_encode_def P_def [symmetric] Let_def f t if_P [OF conjI [OF l p]] u
    by (simp add: b64_decode_encode)
qed

lemma codec_bytes: "codec enc_bytes dec_bytes (\<lambda>_. True) id"
proof unfold_locales
  fix s :: "u8 slice"
  have "valid_utf8 (std_encode bs)" for bs
    using b64_encode_chars [of bs] url_to_std_plain(2) by (intro valid_utf8_ascii) (fastforce simp: std_encode_def)
  then show "\<exists>j. enc_bytes s = Some j \<and> json_ok j \<and> (\<forall>old. dec_bytes j old = (True, id s))"
    by (cases s) (simp_all add: enc_bytes_def std_decode_encode)
qed

section \<open>IP addresses\<close>

lemma bytes_int_range: "0 \<le> bytes_int bs \<and> bytes_int bs < 256 ^ length bs"
proof (induction bs rule: rev_induct)
  case (snoc b bs)
  have "uint b < 256" using uint_lt2p [of b] by simp
  with snoc show ?case by (simp add: bytes_int_step)
qed (simp add: bytes_int_def)

lemma word_bytes_int: "word_bytes (length bs) (bytes_int bs) = bs"
proof (induction bs rule: rev_induct)
  case (snoc b bs)
  have "uint b < 256" using uint_lt2p [of b] by simp
  moreover from this have "(bytes_int bs * 256 + uint b) div 256 = bytes_int bs" by simp
  moreover have "word_of_int (bytes_int bs * 256 + uint b) = b"
  proof (rule word_uint_eqI)
    have "(bytes_int bs * 256 + uint b) mod 256 = uint b" using \<open>uint b < 256\<close> by simp
    then show "uint (word_of_int (bytes_int bs * 256 + uint b) :: u8) = uint b"
      unfolding uint_word_of_int by simp
  qed
  ultimately show ?case using snoc by (simp add: bytes_int_step word_bytes_Suc)
qed (simp add: word_bytes_def)

lemma bytes_int_append: "bytes_int (xs @ ys) = bytes_int xs * 256 ^ length ys + bytes_int ys"
proof (induction ys rule: rev_induct)
  case (snoc y ys)
  then show ?case unfolding append_assoc [symmetric] bytes_int_step by (simp add: algebra_simps)
qed (simp add: bytes_int_def)

definition norm_IP :: "net_IP \<Rightarrow> net_IP" where
  "norm_IP ip =
     (case slice_list ip of [] \<Rightarrow> None
      | bs \<Rightarrow> Some (if length bs = 4 then v4InV6Prefix @ bs else bs))"

definition ok_IP :: "net_IP \<Rightarrow> bool" where
  "ok_IP ip \<longleftrightarrow> ip = None \<or> slice_len ip = 4 \<or> slice_len ip = 16"

lemma uint_bytes:
  assumes "length bs * 8 = LENGTH('a)"
  shows "uint (word_of_int (bytes_int bs) :: 'a::len word) = bytes_int bs"
proof -
  have "(256 :: int) ^ length bs = 2 ^ LENGTH('a)" using assms [symmetric] by (simp add: power_mult mult.commute [of _ 8])
  with bytes_int_range [of bs] show ?thesis by (simp add: uint_word_of_int)
qed

lemma v4_prefix: "v4InV6Prefix = replicate 10 0 @ [0xff, 0xff]" "length v4InV6Prefix = 12"
proof -
  show "v4InV6Prefix = replicate 10 0 @ [0xff, 0xff]" unfolding v4InV6Prefix_def by code_simp
qed (simp add: v4InV6Prefix_def)

lemma As16_IP4: "length bs = 4 \<Longrightarrow> As16 (IP4 (word_of_int (bytes_int bs))) = v4InV6Prefix @ bs"
  using word_bytes_int [of bs] uint_bytes [of bs, where 'a = 32] by (simp add: v4_prefix)

lemma As16_IP6: "length bs = 16 \<Longrightarrow> As16 (IP6 (word_of_int (bytes_int bs)) z) = bs"
  using word_bytes_int [of bs] uint_bytes [of bs, where 'a = 128] by simp

text \<open>An address of 16 bytes that is no IPv4 address for the text form is none for the bytes either.\<close>

lemma Is4In6_To4:
  assumes "length bs = 16" "w_Is4In6 (word_of_int (bytes_int bs))"
  shows "length (To4 bs) = 4"
proof -
  let ?w = "word_of_int (bytes_int bs) :: 128 word"
  have "bytes_int bs = bytes_int (take 12 bs) * 256 ^ 4 + bytes_int (drop 12 bs)"
    using bytes_int_append [of "take 12 bs" "drop 12 bs"] assms(1) by simp
  moreover have "bytes_int (drop 12 bs) < 256 ^ 4" "0 \<le> bytes_int (drop 12 bs)"
    using bytes_int_range [of "drop 12 bs"] assms(1) by simp_all
  ultimately have "bytes_int (take 12 bs) = bytes_int bs div 2 ^ 32" by simp
  also have "\<dots> = uint (drop_bit 32 ?w)"
    using uint_bytes [of bs, where 'a = 128] assms(1) by (simp add: drop_bit_eq_div uint_div)
  also have "\<dots> = 0xffff" using assms(2) by (simp add: w_Is4In6_def)
  finally have "bytes_int (take 12 bs) = bytes_int v4InV6Prefix" by (simp add: v4InV6Prefix_def bytes_int_def)
  then have "take 12 bs = v4InV6Prefix"
    using word_bytes_int [of "take 12 bs"] word_bytes_int [of v4InV6Prefix] assms(1) by (simp add: v4_prefix(2))
  then have p: "bs = v4InV6Prefix @ drop 12 bs" using append_take_drop_id [of 12 bs] by simp
  have "To4 (v4InV6Prefix @ r) = drop 12 (v4InV6Prefix @ r)" if "length r = 4" for r
    using that by (simp add: To4_def v4_prefix(1) nth_append)
  note To4_prefix = this
  from p obtain r where r: "bs = v4InV6Prefix @ r" by blast
  with assms(1) have "length r = 4" by (simp add: v4_prefix(2))
  with To4_prefix [of r] r show ?thesis by (simp add: v4_prefix(2))
qed

lemma ParseIP_String:
  assumes "slice_list ip = bs" "length bs = 4 \<or> length bs = 16"
  shows "ParseIP (net_IP_String ip) = norm_IP ip" "set (net_IP_String ip) \<subseteq> digit_chars \<union> {CHR ''.'', CHR '':'', CHR ''-''}"
proof -
  have ne: "bs \<noteq> []" using assms(2) by auto
  have n: "norm_IP ip = Some (if length bs = 4 then v4InV6Prefix @ bs else bs)"
    using ne by (cases bs) (simp_all add: norm_IP_def assms(1))
  show "ParseIP (net_IP_String ip) = norm_IP ip"
  proof (cases "length (To4 bs) = 4")
    case True
    let ?w = "word_of_int (bytes_int (To4 bs)) :: 32 word"
    have "net_IP_String ip = string4 ?w" using assms ne True by (auto simp: net_IP_String_def Let_def)
    moreover have "As16 (IP4 ?w) = v4InV6Prefix @ To4 bs" using As16_IP4 [OF True] .
    moreover have "v4InV6Prefix @ To4 bs = (if length bs = 4 then v4InV6Prefix @ bs else bs)"
    proof (cases "length bs = 4")
      case False
      with assms(2) True have b: "length bs = 16" "take 10 bs = replicate 10 0" "bs ! 10 = 0xff" "bs ! 11 = 0xff" "To4 bs = drop 12 bs"
        by (auto simp: To4_def split: if_splits)
      have "take 12 bs = take 10 bs @ [bs ! 10, bs ! 11]"
        using b(1) take_Suc_conv_app_nth [of 10 bs] take_Suc_conv_app_nth [of 11 bs] by simp
      with b have "take 12 bs = v4InV6Prefix" by (simp only: v4_prefix(1) append_assoc append.simps)
      then show ?thesis using append_take_drop_id [of 12 bs] b(5) False by simp
    qed (simp add: To4_def)
    ultimately show ?thesis unfolding n by (simp add: ParseIP_def ParseAddr_string4)
  next
    case False
    then have b: "length bs = 16" using assms(2) by (auto simp: To4_def)
    let ?w = "word_of_int (bytes_int bs) :: 128 word"
    have "\<not> w_Is4In6 ?w" using Is4In6_To4 [OF b] False by blast
    then have "net_IP_String ip = groups_text (v6_groups ?w)"
      using assms ne b False by (simp add: net_IP_String_def Let_def zone_text_def)
    then show ?thesis unfolding n using As16_IP6 [OF b, of "''''"] b by (simp add: ParseIP_def ParseAddr_groups)
  qed
  have "set (addr_String (IP4 w)) \<subseteq> digit_chars \<union> {CHR ''.'', CHR '':''}" for w using set_string4 [of w] by auto
  moreover have "set (addr_String (IP6 w '''')) \<subseteq> digit_chars \<union> {CHR ''.'', CHR '':''}" for w
  proof -
    have f: "CHR ''f'' \<in> digit_chars" by (simp add: digit_chars_def)
    have "set (string4 (ucast w)) \<subseteq> digit_chars \<union> {CHR ''.'', CHR '':''}"
      "set (groups_text (v6_groups w)) \<subseteq> digit_chars \<union> {CHR ''.'', CHR '':''}"
      using set_string4 [of "ucast w"] set_groups_text [of "v6_groups w"] by blast+
    then show ?thesis by (simp add: f zone_text_def)
  qed
  ultimately show "set (net_IP_String ip) \<subseteq> digit_chars \<union> {CHR ''.'', CHR '':'', CHR ''-''}"
    using assms ne unfolding net_IP_String_def Let_def by (auto split: if_splits simp del: addr_String.simps)
qed

lemma codec_IP: "codec enc_IP dec_IP ok_IP norm_IP"
proof unfold_locales
  fix ip assume "ok_IP ip"
  then consider "slice_list ip = []" | "length (slice_list ip) = 4 \<or> length (slice_list ip) = 16"
    by (auto simp: ok_IP_def slice_len_def)
  then show "\<exists>j. enc_IP ip = Some j \<and> json_ok j \<and> (\<forall>old. dec_IP j old = (True, norm_IP ip))"
  proof cases
    case 1
    then show ?thesis by (simp add: enc_IP_def norm_IP_def valid_utf8.simps)
  next
    case 2
    note p = ParseIP_String [OF refl 2]
    have "norm_IP ip \<noteq> None" using 2 by (cases "slice_list ip") (auto simp: norm_IP_def)
    moreover have "ParseIP '''' = None" by code_simp
    ultimately have "net_IP_String ip \<noteq> ''''" using p(1) by auto
    moreover from p(2) have "valid_utf8 (net_IP_String ip)" by (rule valid_utf8_digits)
    moreover have "enc_IP ip = Some (JStr (net_IP_String ip))" using 2 by (auto simp: enc_IP_def Let_def)
    ultimately show ?thesis using p(1) \<open>norm_IP ip \<noteq> None\<close> by (auto split: option.splits)
  qed
qed

section \<open>Structs\<close>

text \<open>
  A member of a struct: its name, how its field is read, how it is written, its codec. The law of a struct follows
  from the laws of its members.
\<close>

type_synonym 'r struct_field = "string \<times> ('r \<Rightarrow> json option) \<times> 'r dec \<times> ('r \<Rightarrow> 'r \<Rightarrow> 'r)"

definition struct_member ::
  "string \<Rightarrow> ('r \<Rightarrow> 'a) \<Rightarrow> (('a \<Rightarrow> 'a) \<Rightarrow> 'r \<Rightarrow> 'r) \<Rightarrow> 'a enc \<Rightarrow> 'a dec \<Rightarrow> ('a \<Rightarrow> 'a) \<Rightarrow> 'r struct_field" where
  "struct_member n get upd enc dec norm =
     (n, \<lambda>x. enc (get x), at_field get upd dec, \<lambda>x. upd (\<lambda>_. norm (get x)))"

definition field_law :: "'r \<Rightarrow> 'r struct_field \<Rightarrow> bool" where
  "field_law x f \<longleftrightarrow>
     (case f of (n, e, d, s) \<Rightarrow>
        valid_utf8 n \<and> (\<exists>j. e x = Some j \<and> json_ok j \<and> (\<forall>r. d j r = (True, s x r))))"

lemma struct_member_law:
  assumes "codec enc dec ok norm" "ok (get x)" "\<forall>c \<in> set n. (of_char c :: nat) < 128"
  shows "field_law x (struct_member n get upd enc dec norm)"
proof -
  obtain j where "enc (get x) = Some j" "json_ok j" "\<And>old. dec j old = (True, norm (get x))"
    using codec.encoded [OF assms(1,2)] by blast
  with valid_utf8_ascii [OF assms(3)] show ?thesis by (simp add: field_law_def struct_member_def at_field_def)
qed

abbreviation enc_fields :: "'r struct_field list \<Rightarrow> 'r \<Rightarrow> (string \<times> json option) list" where
  "enc_fields fs x \<equiv> map (\<lambda>f. (fst f, fst (snd f) x)) fs"

abbreviation dec_fields :: "'r struct_field list \<Rightarrow> (string \<times> 'r dec) list" where
  "dec_fields \<equiv> map (\<lambda>f. (fst f, fst (snd (snd f))))"

lemma dec_struct_Cons:
  assumes "find_field fs k = Some d" "d j r = (True, r')"
  shows "dec_struct fs (JObj ((k, j) # kvs)) r = dec_struct fs (JObj kvs) r'"
  using assms by simp

lemma struct_members:
  assumes "\<forall>f \<in> set fs. field_law x f" "\<forall>f \<in> set fs. find_field all (fst f) = Some (fst (snd (snd f)))"
  shows "\<exists>kvs. those (map (\<lambda>(n, j). map_option (Pair n) j) (enc_fields fs x)) = Some kvs \<and> json_ok (JObj kvs) \<and>
      (\<forall>r. dec_struct all (JObj kvs) r = (True, fold (\<lambda>f. snd (snd (snd f)) x) fs r))"
  using assms
proof (induction fs)
  case (Cons f fs)
  obtain n e d s where f: "f = (n, e, d, s)" by (cases f)
  have "\<exists>kvs. those (map (\<lambda>(n, j). map_option (Pair n) j) (enc_fields fs x)) = Some kvs \<and> json_ok (JObj kvs) \<and>
      (\<forall>r. dec_struct all (JObj kvs) r = (True, fold (\<lambda>f. snd (snd (snd f)) x) fs r))"
    by (rule Cons.IH) (use Cons.prems in simp_all)
  then obtain kvs where kvs: "those (map (\<lambda>(n, j). map_option (Pair n) j) (enc_fields fs x)) = Some kvs"
      "json_ok (JObj kvs)" "\<forall>r. dec_struct all (JObj kvs) r = (True, fold (\<lambda>f. snd (snd (snd f)) x) fs r)"
    by (elim exE conjE)
  from Cons.prems(1) f obtain j where j: "valid_utf8 n" "e x = Some j" "json_ok j" "\<forall>r. d j r = (True, s x r)"
    by (auto simp: field_law_def)
  have "find_field all n = Some d" using Cons.prems(2) f by simp
  note step = dec_struct_Cons [OF this, of j _ "s x _"]
  show ?case
    by (rule exI [of _ "(n, j) # kvs"]) (use kvs j in \<open>simp add: f step del: dec_struct.simps\<close>)
qed simp

text \<open>The fields of a struct have different names.\<close>

lemma struct_law:
  assumes "enc x = enc_struct (enc_fields fs x)" "dec = dec_struct (dec_fields fs)" "distinct (map fst fs)"
    and "list_all (field_law x) fs"
  obtains j where "enc x = Some j" "json_ok j" "\<And>r. dec j r = (True, fold (\<lambda>f. snd (snd (snd f)) x) fs r)"
proof -
  have l: "\<forall>f \<in> set fs. field_law x f" using assms(4) by (simp add: list_all_iff)
  have "map fst (dec_fields fs) = map fst fs" by (induction fs) auto
  with assms(3) have "distinct (map fst (dec_fields fs))" by (simp only:)
  then have "map_of (dec_fields fs) (fst f) = Some (fst (snd (snd f)))" if "f \<in> set fs" for f
    using that by (intro map_of_is_SomeI) auto
  then have "\<forall>f \<in> set fs. find_field (dec_fields fs) (fst f) = Some (fst (snd (snd f)))"
    by (simp add: find_field_def)
  from struct_members [OF l this] show thesis
    using that by (auto simp: assms(1,2) enc_struct_def)
qed

lemma codec_struct:
  assumes "\<And>x. enc x = enc_struct (enc_fields fs x)" "dec = dec_struct (dec_fields fs)" "distinct (map fst fs)"
    and "\<And>x. ok x \<Longrightarrow> list_all (field_law x) fs" "\<And>x r. fold (\<lambda>f. snd (snd (snd f)) x) fs r = norm x"
  shows "codec enc dec ok norm"
proof unfold_locales
  fix x assume "ok x"
  from struct_law [where enc = enc, OF assms(1-3) assms(4) [OF this]]
  show "\<exists>j. enc x = Some j \<and> json_ok j \<and> (\<forall>old. dec j old = (True, norm x))"
    unfolding assms(5) by metis
qed

text \<open>Decoding a struct keeps what none of its fields changes.\<close>

lemma find_field_set: "find_field fs k = Some d \<Longrightarrow> d \<in> snd ` set fs"
proof -
  assume k: "find_field fs k = Some d"
  show ?thesis
  proof (cases "map_of fs k")
    case None
    with k have "map_of (map (\<lambda>(n, f). (map lower_char n, f)) fs) (map lower_char k) = Some d"
      by (simp add: find_field_def)
    from map_of_SomeD [OF this] show ?thesis by force
  next
    case (Some e)
    with k have "map_of fs k = Some d" by (simp add: find_field_def)
    from map_of_SomeD [OF this] show ?thesis by force
  qed
qed

lemma dec_struct_keeps:
  assumes "\<forall>d \<in> snd ` set fs. \<forall>j r. P (snd (d j r)) = P r"
  shows "P (snd (dec_struct fs j r)) = P r"
proof (cases "\<exists>kvs. j = JObj kvs")
  case True
  then obtain kvs where j: "j = JObj kvs" by blast
  let ?f = "\<lambda>(ok, r) (k, j). case find_field fs k of None \<Rightarrow> (ok, r)
         | Some d \<Rightarrow> (let (ok', r') = d j r in (ok \<and> ok', r'))"
  have "P (snd (?f (ok, r) kv)) = P r" for ok r kv
  proof (cases "find_field fs (fst kv)")
    case (Some d)
    then have "d \<in> snd ` set fs" by (rule find_field_set)
    with assms have "P (snd (d j r)) = P r" for j by blast
    with Some show ?thesis by (simp add: case_prod_unfold Let_def)
  qed (simp add: case_prod_unfold)
  then have step: "P (snd (?f s kv)) = P (snd s)" for s kv by (cases s) (simp only: snd_conv)
  have "P (snd (foldl ?f s kvs)) = P (snd s)" for s
    by (induction kvs arbitrary: s) (simp_all only: foldl.simps step)
  from this [of "(True, r)"] show ?thesis by (simp add: j)
next
  case False
  then show ?thesis by (cases j) simp_all
qed

lemma at_field_keeps: "(\<And>v. P (upd (\<lambda>_. v) r) = P r) \<Longrightarrow> P (snd (at_field get upd dec j r)) = P r"
  by (simp add: at_field_def split: prod.split)

lemma Unmarshal_keeps:
  "(\<And>j r. P (snd (dec j r)) = P r) \<Longrightarrow> P (snd (Unmarshal dec b old)) = P old"
  by (simp add: Unmarshal_def split: option.split)

lemma enc_struct_not_null: "enc_struct fs \<noteq> Some JNull"
  by (simp add: enc_struct_def)

lemma codec_Device: "codec enc_Device dec_Device (\<lambda>d. valid_utf8 (vc_Device_Name d) \<and> is_int64 (vc_Device_MTU d)) id"
  by (rule codec_struct [where fs =
      "[struct_member ''Name'' vc_Device_Name vc_Device_Name_update enc_string dec_string id,
        struct_member ''MTU'' vc_Device_MTU vc_Device_MTU_update enc_int dec_int id]"])
    (simp_all add: enc_Device_def dec_Device_def struct_member_law [OF codec_string] struct_member_law [OF codec_int], simp_all add: struct_member_def)

section \<open>The VPN configuration and the login information\<close>

lemmas basic_members = struct_member_law [OF codec_string] struct_member_law [OF codec_bool] struct_member_law [OF codec_int]
  struct_member_law [OF codec_bytes] struct_member_law [OF codec_IP]

definition norm_Address :: "vc_Address \<Rightarrow> vc_Address" where
  "norm_Address a = \<lparr>vc_Address_Address = norm_IP (vc_Address_Address a), vc_Address_Netmask = vc_Address_Netmask a\<rparr>"

lemma codec_Address: "codec enc_Address dec_Address (\<lambda>a. ok_IP (vc_Address_Address a)) norm_Address"
  by (rule codec_struct [where fs =
      "[struct_member ''Address'' vc_Address_Address vc_Address_Address_update enc_IP dec_IP norm_IP,
        struct_member ''Netmask'' vc_Address_Netmask vc_Address_Netmask_update enc_bytes dec_bytes id]"])
    (simp_all add: enc_Address_def dec_Address_def norm_Address_def basic_members, simp_all add: struct_member_def)

definition norm_DNS :: "vc_DNS \<Rightarrow> vc_DNS" where
  "norm_DNS d =
     \<lparr>vc_DNS_DefaultDomain = vc_DNS_DefaultDomain d, vc_DNS_ServersIPv4 = norm_slice norm_IP (vc_DNS_ServersIPv4 d),
      vc_DNS_ServersIPv6 = norm_slice norm_IP (vc_DNS_ServersIPv6 d)\<rparr>"

definition ok_DNS :: "vc_DNS \<Rightarrow> bool" where
  "ok_DNS d \<longleftrightarrow> valid_utf8 (vc_DNS_DefaultDomain d) \<and> list_all ok_IP (slice_list (vc_DNS_ServersIPv4 d)) \<and>
     list_all ok_IP (slice_list (vc_DNS_ServersIPv6 d))"

lemma codec_DNS: "codec enc_DNS dec_DNS ok_DNS norm_DNS"
  by (rule codec_struct [where fs =
      "[struct_member ''DefaultDomain'' vc_DNS_DefaultDomain vc_DNS_DefaultDomain_update enc_string dec_string id,
        struct_member ''ServersIPv4'' vc_DNS_ServersIPv4 vc_DNS_ServersIPv4_update (enc_slice enc_IP) (dec_slice dec_IP None)
          (norm_slice norm_IP),
        struct_member ''ServersIPv6'' vc_DNS_ServersIPv6 vc_DNS_ServersIPv6_update (enc_slice enc_IP) (dec_slice dec_IP None)
          (norm_slice norm_IP)]"])
    (simp_all add: enc_DNS_def dec_DNS_def norm_DNS_def ok_DNS_def basic_members struct_member_law [OF codec.slice [OF codec_IP]],
      simp_all add: struct_member_def)

definition norm_IPNet :: "net_IPNet \<Rightarrow> net_IPNet" where
  "norm_IPNet n = \<lparr>IPNet_IP = norm_IP (IPNet_IP n), IPNet_Mask = IPNet_Mask n\<rparr>"

lemma codec_IPNet: "codec enc_IPNet dec_IPNet (\<lambda>n. ok_IP (IPNet_IP n)) norm_IPNet"
  by (rule codec_struct [where fs =
      "[struct_member ''IP'' IPNet_IP IPNet_IP_update enc_IP dec_IP norm_IP,
        struct_member ''Mask'' IPNet_Mask IPNet_Mask_update enc_bytes dec_bytes id]"])
    (simp_all add: enc_IPNet_def dec_IPNet_def norm_IPNet_def basic_members, simp_all add: struct_member_def)

lemma enc_IPNet_not_null: "enc_IPNet n \<noteq> Some JNull"
  by (simp add: enc_IPNet_def enc_struct_not_null)

lemma codec_strings: "codec (enc_slice enc_string) (dec_slice dec_string zero) (\<lambda>s. list_all valid_utf8 (slice_list s)) id"
  using codec.slice [OF codec_string, of zero] by (simp add: list.map_id0 option.map_id0)

lemmas codec_nets = codec.slice [OF codec.ptr [OF codec_IPNet enc_IPNet_not_null]]

definition norm_Split :: "vc_Split \<Rightarrow> vc_Split" where
  "norm_Split s =
     \<lparr>vc_Split_ExcludeIPv4 = norm_slice (map_option norm_IPNet) (vc_Split_ExcludeIPv4 s),
      vc_Split_ExcludeIPv6 = norm_slice (map_option norm_IPNet) (vc_Split_ExcludeIPv6 s),
      vc_Split_ExcludeDNS = vc_Split_ExcludeDNS s,
      vc_Split_ExcludeVirtualSubnetsOnlyIPv4 = vc_Split_ExcludeVirtualSubnetsOnlyIPv4 s\<rparr>"

definition ok_Split :: "vc_Split \<Rightarrow> bool" where
  "ok_Split s \<longleftrightarrow>
     list_all (\<lambda>p. \<forall>n \<in> set_option p. ok_IP (IPNet_IP n)) (slice_list (vc_Split_ExcludeIPv4 s)) \<and>
     list_all (\<lambda>p. \<forall>n \<in> set_option p. ok_IP (IPNet_IP n)) (slice_list (vc_Split_ExcludeIPv6 s)) \<and>
     list_all valid_utf8 (slice_list (vc_Split_ExcludeDNS s))"

lemma codec_Split: "codec enc_Split dec_Split ok_Split norm_Split"
  by (rule codec_struct [where fs =
      "[struct_member ''ExcludeIPv4'' vc_Split_ExcludeIPv4 vc_Split_ExcludeIPv4_update (enc_slice (enc_ptr enc_IPNet))
          (dec_slice (dec_ptr dec_IPNet IPNet_zero) None) (norm_slice (map_option norm_IPNet)),
        struct_member ''ExcludeIPv6'' vc_Split_ExcludeIPv6 vc_Split_ExcludeIPv6_update (enc_slice (enc_ptr enc_IPNet))
          (dec_slice (dec_ptr dec_IPNet IPNet_zero) None) (norm_slice (map_option norm_IPNet)),
        struct_member ''ExcludeDNS'' vc_Split_ExcludeDNS vc_Split_ExcludeDNS_update (enc_slice enc_string)
          (dec_slice dec_string '''') id,
        struct_member ''ExcludeVirtualSubnetsOnlyIPv4'' vc_Split_ExcludeVirtualSubnetsOnlyIPv4
          vc_Split_ExcludeVirtualSubnetsOnlyIPv4_update enc_bool dec_bool id]"])
    (simp_all add: enc_Split_def dec_Split_def norm_Split_def ok_Split_def basic_members struct_member_law [OF codec_nets]
      struct_member_law [OF codec_strings], simp_all add: struct_member_def)

lemma codec_Flags: "codec enc_Flags dec_Flags (\<lambda>_. True) id"
  by (rule codec_struct [where fs =
      "[struct_member ''DisableAlwaysOnVPN'' vc_Flags_DisableAlwaysOnVPN vc_Flags_DisableAlwaysOnVPN_update enc_bool dec_bool id]"])
    (simp_all add: enc_Flags_def dec_Flags_def basic_members, simp_all add: struct_member_def)

definition norm_Config :: "vc_Config \<Rightarrow> vc_Config" where
  "norm_Config c =
     \<lparr>vc_Gateway = norm_IP (vc_Gateway c), vc_PID = vc_PID c, vc_Timeout = vc_Timeout c, vc_Device = vc_Device c,
      vc_IPv4 = norm_Address (vc_IPv4 c), vc_IPv6 = norm_Address (vc_IPv6 c), vc_DNS = norm_DNS (vc_DNS c),
      vc_Split = norm_Split (vc_Split c), vc_Flags = vc_Flags c\<rparr>"

definition ok_Config :: "vc_Config \<Rightarrow> bool" where
  "ok_Config c \<longleftrightarrow> ok_IP (vc_Gateway c) \<and> is_int64 (vc_PID c) \<and> is_int64 (vc_Timeout c) \<and>
     valid_utf8 (vc_Device_Name (vc_Device c)) \<and> is_int64 (vc_Device_MTU (vc_Device c)) \<and>
     ok_IP (vc_Address_Address (vc_IPv4 c)) \<and> ok_IP (vc_Address_Address (vc_IPv6 c)) \<and> ok_DNS (vc_DNS c) \<and>
     ok_Split (vc_Split c)"

lemma codec_Config: "codec enc_vc_Config dec_vc_Config ok_Config norm_Config"
  by (rule codec_struct [where fs =
      "[struct_member ''Gateway'' vc_Gateway vc_Gateway_update enc_IP dec_IP norm_IP,
        struct_member ''PID'' vc_PID vc_PID_update enc_int dec_int id,
        struct_member ''Timeout'' vc_Timeout vc_Timeout_update enc_int dec_int id,
        struct_member ''Device'' vc_Device vc_Device_update enc_Device dec_Device id,
        struct_member ''IPv4'' vc_IPv4 vc_IPv4_update enc_Address dec_Address norm_Address,
        struct_member ''IPv6'' vc_IPv6 vc_IPv6_update enc_Address dec_Address norm_Address,
        struct_member ''DNS'' vc_DNS vc_DNS_update enc_DNS dec_DNS norm_DNS,
        struct_member ''Split'' vc_Split vc_Split_update enc_Split dec_Split norm_Split,
        struct_member ''Flags'' vc_Flags vc_Flags_update enc_Flags dec_Flags id]"])
    (simp_all add: enc_vc_Config_def dec_vc_Config_def norm_Config_def ok_Config_def basic_members
      struct_member_law [OF codec_Device] struct_member_law [OF codec_Address] struct_member_law [OF codec_DNS]
      struct_member_law [OF codec_Split] struct_member_law [OF codec_Flags], simp_all add: struct_member_def)

definition ok_LoginInfo :: "LoginInfo \<Rightarrow> bool" where
  "ok_LoginInfo l \<longleftrightarrow> list_all valid_utf8
     [li_Server l, li_Cookie l, li_Host l, li_ConnectURL l, li_Fingerprint l, li_Resolve l]"

lemma codec_LoginInfo: "codec enc_LoginInfo dec_LoginInfo ok_LoginInfo id"
  by (rule codec_struct [where fs =
      "[struct_member ''Server'' li_Server li_Server_update enc_string dec_string id,
        struct_member ''Cookie'' li_Cookie li_Cookie_update enc_string dec_string id,
        struct_member ''Host'' li_Host li_Host_update enc_string dec_string id,
        struct_member ''ConnectURL'' li_ConnectURL li_ConnectURL_update enc_string dec_string id,
        struct_member ''Fingerprint'' li_Fingerprint li_Fingerprint_update enc_string dec_string id,
        struct_member ''Resolve'' li_Resolve li_Resolve_update enc_string dec_string id]"])
    (simp_all add: enc_LoginInfo_def dec_LoginInfo_def ok_LoginInfo_def basic_members, simp_all add: struct_member_def)

text \<open>The interfaces of the packages.\<close>

interpretation vcj: codec enc_vc_Config dec_vc_Config ok_Config norm_Config
  by (rule codec_Config)

interpretation lij: codec enc_LoginInfo dec_LoginInfo ok_LoginInfo id
  by (rule codec_LoginInfo)

lemma vc_JSON_nonempty: "vc_JSON c = Some j \<Longrightarrow> j \<noteq> ''''"
  by (auto simp: vc_JSON_def Marshal_def enc_vc_Config_def enc_struct_def)

lemma vc_round_trip:
  assumes "ok_Config c"
  obtains b where "vc_JSON c = Some b" "vc_NewFromJSON b = Some (norm_Config c)"
  by (rule vcj.round_trip [OF assms], rule that) (simp_all add: vc_JSON_def vc_NewFromJSON_def)

lemma li_round_trip:
  assumes "ok_LoginInfo l"
  obtains b where "li_JSON l = Some b" "li_FromJSON b = Some l"
  by (rule lij.round_trip [OF assms], rule that) (simp_all add: li_JSON_def li_FromJSON_def)

end
