(* ===== verification/Api.thy ===== *)
theory Api
  imports DaemonCfg Base64
begin

text \<open>
  The Unix socket API (\<^verbatim>\<open>internal/api\<close>): the messages and their encoding, requests with their
  replies, and the server that authenticates clients by the message token and forwards their
  requests. A connection is the list of bytes that can be read from it.
\<close>

unbundle bit_operations_syntax

section \<open>Messages (\<^verbatim>\<open>message.go\<close>)\<close>

definition TokenLength :: nat where
  "TokenLength = 16"

definition TypeNone :: u16 where
  "TypeNone = 0"

definition TypeOK :: u16 where
  "TypeOK = 1"

definition TypeError :: u16 where
  "TypeError = 2"

definition TypeVPNConfigUpdate :: u16 where
  "TypeVPNConfigUpdate = 3"

definition TypeUndefined :: u16 where
  "TypeUndefined = 4"

record Header =
  h_Type :: u16
  h_Length :: u32
  h_Token :: "u8 list"

record Message = Header +
  m_Value :: "u8 list"

text \<open>The token is the package's variable, set by \<^verbatim>\<open>GetToken\<close> or \<^verbatim>\<open>SetToken\<close>.\<close>

definition NewMessage :: "u8 list \<Rightarrow> u16 \<Rightarrow> u8 list \<Rightarrow> Message" where
  "NewMessage token t p =
     \<lparr>h_Type = t, h_Length = word_of_nat (length p), h_Token = token, m_Value = p\<rparr>"

definition NewOK :: "u8 list \<Rightarrow> u8 list \<Rightarrow> Message" where
  "NewOK token p = NewMessage token TypeOK p"

definition NewError :: "u8 list \<Rightarrow> u8 list \<Rightarrow> Message" where
  "NewError token p = NewMessage token TypeError p"

text \<open>\<^verbatim>\<open>encoding/binary\<close> with little endian byte order.\<close>

definition put16 :: "u16 \<Rightarrow> u8 list" where
  "put16 w = [ucast w, ucast (drop_bit 8 w)]"

definition put32 :: "u32 \<Rightarrow> u8 list" where
  "put32 w = [ucast w, ucast (drop_bit 8 w), ucast (drop_bit 16 w), ucast (drop_bit 24 w)]"

definition get16 :: "u8 \<Rightarrow> u8 \<Rightarrow> u16" where
  "get16 a b = ucast a OR push_bit 8 (ucast b)"

definition get32 :: "u8 \<Rightarrow> u8 \<Rightarrow> u8 \<Rightarrow> u8 \<Rightarrow> u32" where
  "get32 a b c d = ucast a OR push_bit 8 (ucast b) OR push_bit 16 (ucast c) OR push_bit 24 (ucast d)"

fun read_header :: "u8 list \<Rightarrow> (Header \<times> u8 list) option" where
  "read_header (t0 # t1 # l0 # l1 # l2 # l3 # bs) =
     (if length bs < TokenLength then None
      else Some (\<lparr>h_Type = get16 t0 t1, h_Length = get32 l0 l1 l2 l3, h_Token = take TokenLength bs\<rparr>,
                 drop TokenLength bs))"
| "read_header _ = None"

datatype read_error = HeaderError | InvalidType | InvalidToken | PayloadError

definition ReadMessage :: "u8 list \<Rightarrow> u8 list \<Rightarrow> read_error + (Message \<times> u8 list)" where
  "ReadMessage token r =
     (case read_header r of
        None \<Rightarrow> Inl HeaderError
      | Some (h, r) \<Rightarrow>
          if h_Type h = TypeNone \<or> h_Type h \<ge> TypeUndefined then Inl InvalidType
          else if h_Token h \<noteq> token then Inl InvalidToken
          else if length r < unat (h_Length h) then Inl PayloadError
          else Inr (\<lparr>h_Type = h_Type h, h_Length = h_Length h, h_Token = h_Token h,
                     m_Value = take (unat (h_Length h)) r\<rparr>, drop (unat (h_Length h)) r))"

definition WriteMessage :: "Message \<Rightarrow> u8 list" where
  "WriteMessage m =
     (put16 (h_Type m) @ put32 (h_Length m) @ h_Token m) @ (if m_Value m = [] then [] else m_Value m)"

text \<open>
  The token and its text form; the random bytes are an argument, nothing when they cannot be read.
  Setting the token overwrites as many bytes of it as were decoded.
\<close>

definition GetToken :: "u8 list option \<Rightarrow> (string \<times> u8 list) option" where
  "GetToken random = map_option (\<lambda>token. (b64_encode token, token)) random"

definition SetToken :: "string \<Rightarrow> u8 list \<Rightarrow> u8 list option" where
  "SetToken s token =
     (case b64_decode s of None \<Rightarrow> None
      | Some b \<Rightarrow> Some (take TokenLength b @ drop (min (length b) TokenLength) token))"

section \<open>Requests (\<^verbatim>\<open>request.go\<close>)\<close>

record api_Request =
  req_msg :: Message
  req_reply :: "u8 list"
  req_err :: "u8 list"

definition api_NewRequest :: "Message \<Rightarrow> api_Request" where
  "api_NewRequest msg = \<lparr>req_msg = msg, req_reply = [], req_err = []\<rparr>"

definition Request_Error :: "u8 list \<Rightarrow> api_Request \<Rightarrow> api_Request" where
  "Request_Error msg r = r\<lparr>req_err := msg\<rparr>"

definition Request_Reply :: "u8 list \<Rightarrow> api_Request \<Rightarrow> api_Request" where
  "Request_Reply b r = r\<lparr>req_reply := b\<rparr>"

text \<open>The bytes written to the client when a request is closed.\<close>

definition Request_Close :: "u8 list \<Rightarrow> api_Request \<Rightarrow> u8 list" where
  "Request_Close token r =
     (if req_err r \<noteq> [] then WriteMessage (NewError token (req_err r))
      else WriteMessage (NewOK token (req_reply r)))"

section \<open>Server (\<^verbatim>\<open>server.go\<close>)\<close>

text \<open>
  The server: whether the shutdown was announced and the life of its goroutine, which ends
  by itself, closing the channel of the requests, when accepting a client fails.
\<close>

record Server =
  srv_shutdown :: bool
  srv_life :: life

definition NewServer :: Server where
  "NewServer = \<lparr>srv_shutdown = False, srv_life = NotStarted\<rparr>"

definition Server_Start :: "bool \<Rightarrow> Server \<Rightarrow> bool \<times> Server" where
  "Server_Start listenOk s = (if \<not> listenOk then (False, s) else (True, s\<lparr>srv_life := Running\<rparr>))"

text \<open>
  The changes of the socket file after the listener was started. The arguments yield the ID of a user
  or group, as the user database writes it.
\<close>

definition setSocketOwner :: "(string \<Rightarrow> string option) \<Rightarrow> SocketServer \<Rightarrow> file_op list" where
  "setSocketOwner userLookup c =
     (if ss_SocketOwner c = '''' then []
      else (case userLookup (ss_SocketOwner c) of None \<Rightarrow> []
        | Some u \<Rightarrow> (case Atoi u of None \<Rightarrow> [] | Some uid \<Rightarrow> [Chown (ss_SocketFile c) uid (-1)])))"

definition setSocketGroup :: "(string \<Rightarrow> string option) \<Rightarrow> SocketServer \<Rightarrow> file_op list" where
  "setSocketGroup userLookupGroup c =
     (if ss_SocketGroup c = '''' then []
      else (case userLookupGroup (ss_SocketGroup c) of None \<Rightarrow> []
        | Some g \<Rightarrow> (case Atoi g of None \<Rightarrow> [] | Some gid \<Rightarrow> [Chown (ss_SocketFile c) (-1) gid])))"

definition setSocketPermissions :: "SocketServer \<Rightarrow> file_op list" where
  "setSocketPermissions c =
     (if ss_SocketPermissions c = '''' then []
      else (case ParseUint (ss_SocketPermissions c) 8 32 of None \<Rightarrow> []
        | Some perm \<Rightarrow> [Chmod (ss_SocketFile c) perm]))"

definition Server_Start_files ::
  "(string \<Rightarrow> string option) \<Rightarrow> (string \<Rightarrow> string option) \<Rightarrow> SocketServer \<Rightarrow> file_op list" where
  "Server_Start_files userLookup userLookupGroup c =
     setSocketOwner userLookup c @ setSocketGroup userLookupGroup c @ setSocketPermissions c"

text \<open>Stopping before a listener exists dereferences it, and stopping twice closes a closed channel.\<close>

definition Server_Stop :: "Server \<Rightarrow> Server outcome" where
  "Server_Stop s =
     (case srv_life s of
        NotStarted \<Rightarrow> Panics | Stopped \<Rightarrow> Panics
      | _ \<Rightarrow> Returns (s\<lparr>srv_life := Stopped\<rparr>))"

definition Server_Shutdown :: "Server \<Rightarrow> Server outcome" where
  "Server_Shutdown s = (if srv_shutdown s then Panics else Returns (s\<lparr>srv_shutdown := True\<rparr>))"

text \<open>
  What becomes of a client: its connection is closed, possibly after an error was written, or its
  request is forwarded to the daemon. The arguments tell whether the deadline could be set and
  whether the daemon takes the request.
\<close>

datatype client_fate = ConnClosed "u8 list" | Forwarded api_Request

definition text_bytes :: "string \<Rightarrow> u8 list" where
  "text_bytes s = map (\<lambda>c. word_of_nat (of_char c)) s"

definition ServerShuttingDown :: string where
  "ServerShuttingDown = ''server is shutting down''"

definition sendShuttingDownError :: "u8 list \<Rightarrow> client_fate" where
  "sendShuttingDownError token = ConnClosed (WriteMessage (NewError token (text_bytes ServerShuttingDown)))"

definition Server_handleRequest :: "u8 list \<Rightarrow> bool \<Rightarrow> bool \<Rightarrow> u8 list \<Rightarrow> client_fate" where
  "Server_handleRequest token deadlineOk taken conn =
     (if \<not> deadlineOk then ConnClosed []
      else
        (case ReadMessage token conn of
           Inl _ \<Rightarrow> ConnClosed []
         | Inr (msg, _) \<Rightarrow>
             if h_Type msg \<noteq> TypeVPNConfigUpdate
             then ConnClosed (WriteMessage (NewError token (text_bytes ''invalid message'')))
             else if taken then Forwarded (api_NewRequest msg)
             else sendShuttingDownError token))"

section \<open>Lemmas\<close>

lemma get_put16: "get16 (ucast w) (ucast (drop_bit 8 w)) = w"
  by (rule bit_word_eqI)
    (auto simp: get16_def bit_or_iff bit_push_bit_iff bit_ucast_iff bit_drop_bit_eq le_less_trans not_le
      dest: bit_imp_le_length)

lemma get_put32:
  "get32 (ucast w) (ucast (drop_bit 8 w)) (ucast (drop_bit 16 w)) (ucast (drop_bit 24 w)) = w"
proof (rule bit_word_eqI)
  fix n
  assume "n < LENGTH(32)"
  then consider "n < 8" | "8 \<le> n" "n < 16" | "16 \<le> n" "n < 24" | "24 \<le> n" "n < 32" by fastforce
  then show "bit (get32 (ucast w) (ucast (drop_bit 8 w)) (ucast (drop_bit 16 w)) (ucast (drop_bit 24 w))) n = bit w n"
    by cases (auto simp: get32_def bit_or_iff bit_push_bit_iff bit_ucast_iff bit_drop_bit_eq)
qed

lemma read_header_put:
  assumes "length (h_Token h) = TokenLength"
  shows "read_header (put16 (h_Type h) @ put32 (h_Length h) @ h_Token h @ rest) =
     Some (\<lparr>h_Type = h_Type h, h_Length = h_Length h, h_Token = h_Token h\<rparr>, rest)"
  using assms by (simp add: put16_def put32_def get_put16 get_put32)

lemma read_header_NewMessage:
  assumes "length token = TokenLength"
  shows "read_header (WriteMessage (NewMessage token t p) @ rest) =
     Some (\<lparr>h_Type = t, h_Length = word_of_nat (length p), h_Token = token\<rparr>, p @ rest)"
  using read_header_put [of "\<lparr>h_Type = t, h_Length = word_of_nat (length p), h_Token = token\<rparr>" "p @ rest"] assms
  by (cases "p = []") (simp_all add: WriteMessage_def NewMessage_def)

lemma ReadMessage_NewMessage:
  assumes "length token = TokenLength" "length p < 2 ^ 32" "TypeNone < t" "t < TypeUndefined"
  shows "ReadMessage token (WriteMessage (NewMessage token t p) @ rest) = Inr (NewMessage token t p, rest)"
proof -
  have "unat (word_of_nat (length p) :: u32) = length p"
    using assms(2) by (simp add: unat_of_nat)
  moreover have "t \<noteq> TypeNone" "\<not> TypeUndefined \<le> t" using assms(3,4) by auto
  ultimately show ?thesis
    by (simp add: ReadMessage_def NewMessage_def read_header_NewMessage [OF assms(1), unfolded NewMessage_def])
qed

lemma SetToken_encode: "length token = TokenLength \<Longrightarrow> length old = TokenLength \<Longrightarrow> SetToken (b64_encode token) old = Some token"
  by (simp add: SetToken_def b64_decode_encode)

text \<open>A valid configuration sets the permissions of the socket file to what it says.\<close>

lemma socket_permissions:
  assumes "SocketServer_Valid (Some c)" "ss_SocketPermissions c \<noteq> ''''"
  shows "\<exists>perm. ParseUint (ss_SocketPermissions c) 8 32 = Some perm \<and> perm \<le> 511 \<and>
     last (Server_Start_files userLookup userLookupGroup c) = Chmod (ss_SocketFile c) perm"
  using assms
  by (auto simp: SocketServer_Valid_def perm_ok_def Server_Start_files_def setSocketPermissions_def split: option.splits if_splits)

section \<open>Properties\<close>

text \<open>
  A message of a valid type and with a payload of less than 4 GiB is read as it was written when
  both sides share the token, and what follows it is left; with another token it is rejected.
\<close>

lemma message_roundtrip:
  assumes "length token = TokenLength" "length p < 2 ^ 32" "TypeNone < t" "t < TypeUndefined"
  shows "ReadMessage token (WriteMessage (NewMessage token t p) @ rest) = Inr (NewMessage token t p, rest) \<and>
     (token' \<noteq> token \<longrightarrow> ReadMessage token' (WriteMessage (NewMessage token t p) @ rest) = Inl InvalidToken)"
proof -
  have "t \<noteq> TypeNone" "\<not> TypeUndefined \<le> t" using assms(3,4) by auto
  then have "ReadMessage token' (WriteMessage (NewMessage token t p) @ rest) = Inl InvalidToken" if "token' \<noteq> token"
    using that by (simp add: ReadMessage_def read_header_NewMessage [OF assms(1)])
  with ReadMessage_NewMessage [OF assms] show ?thesis by blast
qed

text \<open>
  The server forwards a client's bytes to the daemon only if they begin with a complete message
  that carries the server's token and is a configuration update; its payload has the announced length.
\<close>

lemma Server_forwards:
  assumes "Server_handleRequest token deadlineOk taken conn = Forwarded r"
  shows "h_Token (req_msg r) = token \<and> h_Type (req_msg r) = TypeVPNConfigUpdate \<and>
     length (m_Value (req_msg r)) = unat (h_Length (req_msg r)) \<and>
     (\<exists>header rest. conn = header @ m_Value (req_msg r) @ rest \<and> length header = 6 + TokenLength)"
proof -
  from assms obtain msg rest where m: "ReadMessage token conn = Inr (msg, rest)"
    "h_Type msg = TypeVPNConfigUpdate" "r = api_NewRequest msg"
    by (auto simp: Server_handleRequest_def sendShuttingDownError_def split: if_splits sum.splits prod.splits)
  from m(1) obtain h bs where h: "read_header conn = Some (h, bs)" "h_Token h = token" "unat (h_Length h) \<le> length bs"
    "msg = \<lparr>h_Type = h_Type h, h_Length = h_Length h, h_Token = h_Token h, m_Value = take (unat (h_Length h)) bs\<rparr>"
    by (auto simp: ReadMessage_def split: option.splits if_splits)
  from h(1) obtain t0 t1 l0 l1 l2 l3 cs where c: "conn = t0 # t1 # l0 # l1 # l2 # l3 # cs"
    "TokenLength \<le> length cs" "bs = drop TokenLength cs"
    by (cases conn rule: read_header.cases) (auto split: if_splits)
  let ?hd = "t0 # t1 # l0 # l1 # l2 # l3 # take TokenLength cs"
  have "conn = ?hd @ take (unat (h_Length h)) bs @ drop (unat (h_Length h)) bs"
    unfolding append_take_drop_id by (simp add: c)
  moreover have "length ?hd = 6 + TokenLength" using c(2) by simp
  ultimately have "\<exists>header rest. conn = header @ take (unat (h_Length h)) bs @ rest \<and> length header = 6 + TokenLength"
    by blast
  with m(2,3) h(2-) show ?thesis by (simp add: api_NewRequest_def)
qed

end
