(* ===== verification/ConfigUpdate.thy ===== *)
theory ConfigUpdate
  imports JsonLaws Api
begin

text \<open>
  The update of the VPN configuration that the script sends to the daemon
  (\<^verbatim>\<open>internal/daemon/vpnconfigupdate.go\<close>) and its form as JSON. An update that was encoded is decoded
  as the update with its configuration in normal form.
\<close>

section \<open>Model\<close>

record VPNConfigUpdate =
  vu_Reason :: string
  vu_Config :: "vc_Config option"

definition VPNConfigUpdate_Valid :: "VPNConfigUpdate \<Rightarrow> bool" where
  "VPNConfigUpdate_Valid c =
     (if vu_Reason c \<in> {''pre-init'', ''disconnect'', ''attempt-reconnect'', ''reconnect''} then
        (if vu_Config c \<noteq> None then False else True)
      else if vu_Reason c = ''connect'' then
        (case vu_Config c of None \<Rightarrow> False | Some config \<Rightarrow> if \<not> vc_Valid config then False else True)
      else False)"

text \<open>The characters of a sequence of bytes.\<close>

definition bytes_text :: "u8 list \<Rightarrow> string" where
  "bytes_text b = map (\<lambda>w. char_of (unat w)) b"

definition enc_VPNConfigUpdate :: "VPNConfigUpdate enc" where
  "enc_VPNConfigUpdate u = enc_struct
     [(''Reason'', enc_string (vu_Reason u)), (''Config'', enc_ptr enc_vc_Config (vu_Config u))]"

definition dec_VPNConfigUpdate :: "VPNConfigUpdate dec" where
  "dec_VPNConfigUpdate = dec_struct
     [(''Reason'', at_field vu_Reason vu_Reason_update dec_string),
      (''Config'', at_field vu_Config vu_Config_update (dec_ptr dec_vc_Config vc_New))]"

definition VPNConfigUpdate_JSON :: "VPNConfigUpdate \<Rightarrow> u8 list option" where
  "VPNConfigUpdate_JSON u = map_option text_bytes (Marshal enc_VPNConfigUpdate u)"

definition NewVPNConfigUpdate :: VPNConfigUpdate where
  "NewVPNConfigUpdate = \<lparr>vu_Reason = '''', vu_Config = None\<rparr>"

definition VPNConfigUpdateFromJSON :: "u8 list \<Rightarrow> VPNConfigUpdate option" where
  "VPNConfigUpdateFromJSON b = from_JSON dec_VPNConfigUpdate NewVPNConfigUpdate (bytes_text b)"

section \<open>Lemmas\<close>

lemma bytes_text_bytes [simp]: "bytes_text (text_bytes s) = s"
proof -
  have "char_of (unat (word_of_nat (of_char c) :: u8)) = c" for c :: char
    by (simp add: unat_of_nat)
  then show ?thesis by (simp add: bytes_text_def text_bytes_def comp_def)
qed

lemma enc_vc_Config_not_null: "enc_vc_Config c \<noteq> Some JNull"
  by (simp add: enc_vc_Config_def enc_struct_not_null)

definition norm_update :: "VPNConfigUpdate \<Rightarrow> VPNConfigUpdate" where
  "norm_update u = u\<lparr>vu_Config := map_option norm_Config (vu_Config u)\<rparr>"

definition ok_update :: "VPNConfigUpdate \<Rightarrow> bool" where
  "ok_update u \<longleftrightarrow> valid_utf8 (vu_Reason u) \<and> (\<forall>c \<in> set_option (vu_Config u). ok_Config c)"

interpretation vuj: codec enc_VPNConfigUpdate dec_VPNConfigUpdate ok_update norm_update
  by (rule codec_struct [where fs =
      "[struct_member ''Reason'' vu_Reason vu_Reason_update enc_string dec_string id,
        struct_member ''Config'' vu_Config vu_Config_update (enc_ptr enc_vc_Config) (dec_ptr dec_vc_Config vc_New)
          (map_option norm_Config)]"])
    (simp_all add: enc_VPNConfigUpdate_def dec_VPNConfigUpdate_def norm_update_def ok_update_def basic_members
      struct_member_law [OF vcj.ptr [OF enc_vc_Config_not_null]], simp_all add: struct_member_def)

lemma update_round_trip:
  assumes "ok_update u"
  obtains b where "VPNConfigUpdate_JSON u = Some b" "VPNConfigUpdateFromJSON b = Some (norm_update u)"
proof (rule vuj.round_trip [OF assms])
  fix b
  assume b: "Marshal enc_VPNConfigUpdate u = Some b"
    and d: "\<And>zero. from_JSON dec_VPNConfigUpdate zero b = Some (norm_update u)"
  show thesis
  proof (rule that)
    show "VPNConfigUpdate_JSON u = Some (text_bytes b)" by (simp add: VPNConfigUpdate_JSON_def b)
    show "VPNConfigUpdateFromJSON (text_bytes b) = Some (norm_update u)"
      unfolding VPNConfigUpdateFromJSON_def bytes_text_bytes by (rule d)
  qed
qed

section \<open>The normal form means the same\<close>

lemma slice_list_norm: "slice_list (norm_IP ip) = (if slice_len ip = 4 then v4InV6Prefix @ slice_list ip else slice_list ip)"
  by (cases "slice_list ip") (auto simp: norm_IP_def slice_len_def)

lemma slice_len_norm: "slice_len (norm_IP ip) = 0 \<longleftrightarrow> slice_len ip = 0"
  by (auto simp: slice_len_def slice_list_norm)

lemma norm_IP_None: "ok_IP ip \<Longrightarrow> norm_IP ip = None \<longleftrightarrow> ip = None"
  by (cases ip; cases "slice_list ip") (auto simp: ok_IP_def norm_IP_def slice_len_def slice_list_def)

lemma To4_prefix: "length bs = 4 \<Longrightarrow> To4 (v4InV6Prefix @ bs) = bs"
  by (simp add: To4_def v4_prefix(1) nth_append)

lemma To4_norm: "To4 (slice_list (norm_IP ip)) = To4 (slice_list ip)"
  using To4_prefix [of "slice_list ip"] by (auto simp: slice_list_norm slice_len_def To4_def)

lemma mapped_addr:
  assumes "length bs = 4"
  shows "Unmap (IP6 (word_of_int (bytes_int (v4InV6Prefix @ bs))) '''') = IP4 (word_of_int (bytes_int bs))"
proof -
  let ?n = "bytes_int (v4InV6Prefix @ bs)" and ?w = "word_of_int (bytes_int (v4InV6Prefix @ bs)) :: 128 word"
  have n: "?n = 0xffff * 2 ^ 32 + bytes_int bs"
    unfolding bytes_int_append assms by (simp add: v4InV6Prefix_def bytes_int_def)
  have r: "0 \<le> bytes_int bs" "bytes_int bs < 2 ^ 32" using bytes_int_range [of bs] assms by simp_all
  have "uint ?w = ?n" using uint_bytes [of "v4InV6Prefix @ bs", where 'a = 128] assms by (simp add: v4_prefix(2))
  then have w: "uint ?w = 0xffff * 2 ^ 32 + bytes_int bs" using n by simp
  have "uint (drop_bit 32 ?w) = 0xffff" using w r by (simp add: drop_bit_eq_div uint_div)
  then have "drop_bit 32 ?w = 0xffff" by (intro word_uint_eqI) simp
  then have "w_Is4In6 ?w" unfolding w_Is4In6_def .
  moreover have "(ucast ?w :: 32 word) = word_of_int (bytes_int bs)"
  proof (rule word_uint_eqI)
    have "uint (ucast ?w :: 32 word) = uint ?w mod 2 ^ 32" by (simp add: unsigned_ucast_eq take_bit_eq_mod)
    also have "\<dots> = bytes_int bs" unfolding w mod_mult_self3 using r by simp
    also have "\<dots> = uint (word_of_int (bytes_int bs) :: 32 word)" using r by (simp add: uint_word_of_int)
    finally show "uint (ucast ?w :: 32 word) = uint (word_of_int (bytes_int bs) :: 32 word)" .
  qed
  ultimately show ?thesis by simp
qed

lemma gateway_norm:
  assumes "ok_IP ip"
  shows "(case AddrFromSlice (slice_list (norm_IP ip)) of Some g \<Rightarrow> Unmap g | None \<Rightarrow> AddrZero) =
     (case AddrFromSlice (slice_list ip) of Some g \<Rightarrow> Unmap g | None \<Rightarrow> AddrZero)"
proof (cases "slice_len ip = 4")
  case True
  then have "AddrFromSlice (v4InV6Prefix @ slice_list ip) = Some (IP6 (word_of_int (bytes_int (v4InV6Prefix @ slice_list ip))) '''')"
    by (simp add: AddrFromSlice_def v4_prefix(2) slice_len_def)
  with True mapped_addr [of "slice_list ip"] show ?thesis
    by (simp add: slice_list_norm AddrFromSlice_def slice_len_def del: Unmap.simps(1))
qed (simp add: slice_list_norm)

text \<open>The daemon's form of a configuration is that of its normal form, if the IPv6 fields hold IPv6 addresses.\<close>

definition ip6_fields :: "vc_Config \<Rightarrow> bool" where
  "ip6_fields c \<longleftrightarrow> slice_len (vc_Address_Address (vc_IPv6 c)) \<noteq> 4 \<and>
     (\<forall>s \<in> set (slice_list (vc_DNS_ServersIPv6 (vc_DNS c))). slice_len s \<noteq> 4) \<and>
     (\<forall>p \<in> set (slice_list (vc_Split_ExcludeIPv6 (vc_Split c))). \<forall>n \<in> set_option p. slice_len (IPNet_IP n) \<noteq> 4)"

lemma slice_list_map: "slice_list (map_option (map f) s) = map f (slice_list s)"
  by (cases s) (simp_all add: slice_list_def)

lemma IPNet_prefix_norm:
  "IPNet_prefix4 (norm_IPNet n) = IPNet_prefix4 n"
  "slice_len (IPNet_IP n) \<noteq> 4 \<Longrightarrow> IPNet_prefix6 (norm_IPNet n) = IPNet_prefix6 n"
proof -
  show "IPNet_prefix4 (norm_IPNet n) = IPNet_prefix4 n"
    by (simp add: IPNet_prefix4_def norm_IPNet_def To4_norm cong: option.case_cong)
  show "IPNet_prefix6 (norm_IPNet n) = IPNet_prefix6 n" if "slice_len (IPNet_IP n) \<noteq> 4"
    using that by (simp add: IPNet_prefix6_def norm_IPNet_def slice_list_norm cong: option.case_cong)
qed

lemma map_filter_map_eq: "(\<And>x. x \<in> set xs \<Longrightarrow> f (g x) = f x) \<Longrightarrow> List.map_filter f (map g xs) = List.map_filter f xs"
  by (induction xs) (auto simp: List.map_filter_def)

lemma collect_map: "(\<And>x. x \<in> set xs \<Longrightarrow> f (g x) = f x) \<Longrightarrow> collect f (map g xs) = collect f xs"
  unfolding collect_def foldl_map by (rule foldl_cong) simp_all

lemma those_map_option: "those (map (map_option f) xs) = map_option (map f) (those xs)"
  by (induction xs) (auto simp: option.map_comp comp_def split: option.splits)

lemma norm_nets4:
  "map_option (collect IPNet_prefix4) (deref_all (norm_slice (map_option norm_IPNet) s)) =
     map_option (collect IPNet_prefix4) (deref_all s)"
  by (cases "those (slice_list s)")
    (simp_all add: deref_all_def slice_list_map those_map_option collect_map IPNet_prefix_norm(1))

lemma norm_nets6:
  assumes "\<forall>p \<in> set (slice_list s). \<forall>n \<in> set_option p. slice_len (IPNet_IP n) \<noteq> 4"
  shows "map_option (collect IPNet_prefix6) (deref_all (norm_slice (map_option norm_IPNet) s)) =
     map_option (collect IPNet_prefix6) (deref_all s)"
proof (cases "those (slice_list s)")
  case (Some ns)
  then have "slice_list s = map Some ns" by (rule those_eq_Some)
  then have "collect IPNet_prefix6 (map norm_IPNet ns) = collect IPNet_prefix6 ns"
    using assms by (intro collect_map IPNet_prefix_norm(2)) auto
  then show ?thesis by (simp add: deref_all_def slice_list_map those_map_option Some)
qed (simp add: deref_all_def slice_list_map those_map_option)

lemma norm_select:
  "vc_Gateway (norm_Config c) = norm_IP (vc_Gateway c)"
  "vc_PID (norm_Config c) = vc_PID c" "vc_Timeout (norm_Config c) = vc_Timeout c"
  "vc_Device (norm_Config c) = vc_Device c" "vc_Flags (norm_Config c) = vc_Flags c"
  "vc_Address_Address (vc_IPv4 (norm_Config c)) = norm_IP (vc_Address_Address (vc_IPv4 c))"
  "vc_Address_Netmask (vc_IPv4 (norm_Config c)) = vc_Address_Netmask (vc_IPv4 c)"
  "vc_Address_Address (vc_IPv6 (norm_Config c)) = norm_IP (vc_Address_Address (vc_IPv6 c))"
  "vc_Address_Netmask (vc_IPv6 (norm_Config c)) = vc_Address_Netmask (vc_IPv6 c)"
  "vc_DNS_DefaultDomain (vc_DNS (norm_Config c)) = vc_DNS_DefaultDomain (vc_DNS c)"
  "vc_DNS_ServersIPv4 (vc_DNS (norm_Config c)) = norm_slice norm_IP (vc_DNS_ServersIPv4 (vc_DNS c))"
  "vc_DNS_ServersIPv6 (vc_DNS (norm_Config c)) = norm_slice norm_IP (vc_DNS_ServersIPv6 (vc_DNS c))"
  "vc_Split_ExcludeIPv4 (vc_Split (norm_Config c)) = norm_slice (map_option norm_IPNet) (vc_Split_ExcludeIPv4 (vc_Split c))"
  "vc_Split_ExcludeIPv6 (vc_Split (norm_Config c)) = norm_slice (map_option norm_IPNet) (vc_Split_ExcludeIPv6 (vc_Split c))"
  "vc_Split_ExcludeDNS (vc_Split (norm_Config c)) = vc_Split_ExcludeDNS (vc_Split c)"
  "vc_Split_ExcludeVirtualSubnetsOnlyIPv4 (vc_Split (norm_Config c)) = vc_Split_ExcludeVirtualSubnetsOnlyIPv4 (vc_Split c)"
  by (simp_all add: norm_Config_def norm_Address_def norm_DNS_def norm_Split_def)

lemma vc_no_nil_norm: "vc_no_nil (norm_Config c) = vc_no_nil c"
  by (auto simp: vc_no_nil_def norm_select slice_list_map image_iff)

lemma GetVPNConfig_norm:
  assumes "ok_Config c" "ip6_fields c"
  shows "GetVPNConfig (norm_Config c) = GetVPNConfig c"
proof -
  let ?s = "vc_Split c"
  have servers: "collect (\<lambda>a. AddrFromSlice (To4 (slice_list a))) (map norm_IP xs) =
      collect (\<lambda>a. AddrFromSlice (To4 (slice_list a))) xs" for xs
    by (rule collect_map) (simp add: To4_norm)
  have servers6: "collect (\<lambda>a. AddrFromSlice (slice_list a)) (map norm_IP (slice_list (vc_DNS_ServersIPv6 (vc_DNS c)))) =
      collect (\<lambda>a. AddrFromSlice (slice_list a)) (slice_list (vc_DNS_ServersIPv6 (vc_DNS c)))"
    using assms(2) by (intro collect_map) (simp add: ip6_fields_def slice_list_norm)
  have ip6: "slice_list (norm_IP (vc_Address_Address (vc_IPv6 c))) = slice_list (vc_Address_Address (vc_IPv6 c))"
    using assms(2) by (simp add: ip6_fields_def slice_list_norm)
  have gw: "ok_IP (vc_Gateway c)" using assms(1) by (simp add: ok_Config_def)
  have n4: "map_option (collect IPNet_prefix4) (deref_all (norm_slice (map_option norm_IPNet) (vc_Split_ExcludeIPv4 ?s))) =
      map_option (collect IPNet_prefix4) (deref_all (vc_Split_ExcludeIPv4 ?s))" by (rule norm_nets4)
  have n6: "map_option (collect IPNet_prefix6) (deref_all (norm_slice (map_option norm_IPNet) (vc_Split_ExcludeIPv6 ?s))) =
      map_option (collect IPNet_prefix6) (deref_all (vc_Split_ExcludeIPv6 ?s))"
    using assms(2) by (intro norm_nets6) (simp add: ip6_fields_def)
  show ?thesis
  proof (cases "deref_all (vc_Split_ExcludeIPv4 ?s) = None \<or> deref_all (vc_Split_ExcludeIPv6 ?s) = None")
    case True
    then have "\<not> vc_no_nil c" by (simp add: vc_no_nil_def deref_all_None_iff)
    with vc_no_nil_norm [of c] GetVPNConfig_total [of c] GetVPNConfig_total [of "norm_Config c"]
    have "GetVPNConfig c = None" "GetVPNConfig (norm_Config c) = None"
      by (metis option.exhaust)+
    then show ?thesis by simp
  next
    case False
    then obtain a4 a6 b4 b6 where d: "deref_all (vc_Split_ExcludeIPv4 ?s) = Some a4" "deref_all (vc_Split_ExcludeIPv6 ?s) = Some a6"
      "deref_all (norm_slice (map_option norm_IPNet) (vc_Split_ExcludeIPv4 ?s)) = Some b4"
      "deref_all (norm_slice (map_option norm_IPNet) (vc_Split_ExcludeIPv6 ?s)) = Some b6"
      using n4 n6 by auto
    with n4 n6 have e: "collect IPNet_prefix4 b4 = collect IPNet_prefix4 a4" "collect IPNet_prefix6 b6 = collect IPNet_prefix6 a6"
      by simp_all
    show ?thesis
      unfolding GetVPNConfig_def Let_def norm_select d option.case slice_list_map servers servers6 ip6 To4_norm
        gateway_norm [OF gw] e ..
  qed
qed

text \<open>Validity.\<close>

lemma norm_slice_None: "norm_slice f s = None \<longleftrightarrow> s = None"
  by simp

lemma norm_Config_New:
  assumes "ok_Config c"
  shows "norm_Config c = vc_New \<longleftrightarrow> c = vc_New"
proof
  assume n: "norm_Config c = vc_New"
  have ok: "ok_IP (vc_Gateway c)" "ok_IP (vc_Address_Address (vc_IPv4 c))" "ok_IP (vc_Address_Address (vc_IPv6 c))"
    using assms by (simp_all add: ok_Config_def)
  obtain g p t dv a4 a6 dns s f where c: "c = \<lparr>vc_Gateway = g, vc_PID = p, vc_Timeout = t, vc_Device = dv, vc_IPv4 = a4,
      vc_IPv6 = a6, vc_DNS = dns, vc_Split = s, vc_Flags = f\<rparr>" by (cases c)
  show "c = vc_New"
    using n norm_IP_None [OF ok(1)] norm_IP_None [OF ok(2)] norm_IP_None [OF ok(3)] unfolding c
    by (cases a4; cases a6; cases dns; cases s)
      (simp add: norm_Config_def norm_Address_def norm_DNS_def norm_Split_def vc_New_def)
next
  assume "c = vc_New"
  then show "norm_Config c = vc_New"
    by (simp add: norm_Config_def norm_Address_def norm_DNS_def norm_Split_def vc_New_def norm_IP_def slice_list_def)
qed

lemma vc_Valid_norm:
  assumes "ok_Config c"
  shows "vc_Valid (norm_Config c) = vc_Valid c"
proof -
  have "ok_IP (vc_Gateway c)" using assms by (simp add: ok_Config_def)
  then have g: "norm_IP (vc_Gateway c) = None \<longleftrightarrow> vc_Gateway c = None" by (rule norm_IP_None)
  have "slice_len (norm_slice f s) = slice_len s" for f :: "net_IP \<Rightarrow> net_IP" and s
    by (simp add: slice_len_def slice_list_map)
  with norm_Config_New [OF assms] show ?thesis
    by (simp add: vc_Valid_def vc_Empty_def vc_Equal_def norm_Config_def norm_Address_def norm_DNS_def g slice_len_norm)
qed

lemma VPNConfigUpdate_Valid_norm: "ok_update u \<Longrightarrow> VPNConfigUpdate_Valid (norm_update u) = VPNConfigUpdate_Valid u"
  by (cases "vu_Config u") (simp_all add: VPNConfigUpdate_Valid_def norm_update_def ok_update_def vc_Valid_norm)

text \<open>A normal form is its own normal form.\<close>

lemma ok_norm_IP: "ok_IP ip \<Longrightarrow> ok_IP (norm_IP ip) \<and> norm_IP (norm_IP ip) = norm_IP ip"
proof -
  assume "ok_IP ip"
  then consider "ip = None" | bs where "ip = Some bs" "length bs = 4" | bs where "ip = Some bs" "length bs = 16"
    by (cases ip) (auto simp: ok_IP_def slice_len_def slice_list_def)
  then show ?thesis
  proof cases
    case 2
    from 2 have n: "norm_IP ip = Some (v4InV6Prefix @ bs)" by (cases bs) (simp_all add: norm_IP_def slice_list_def)
    have "length (v4InV6Prefix @ bs) = 16" using 2 v4_prefix(2) by simp
    then show ?thesis
      unfolding n by (cases "v4InV6Prefix @ bs") (auto simp: norm_IP_def ok_IP_def slice_len_def slice_list_def)
  next
    case 3
    then show ?thesis by (cases bs) (simp_all add: norm_IP_def ok_IP_def slice_len_def slice_list_def)
  qed (simp add: norm_IP_def ok_IP_def slice_list_def)
qed

lemma ok_norm_servers:
  assumes "list_all ok_IP (slice_list s)"
  shows "list_all ok_IP (slice_list (norm_slice norm_IP s)) \<and> norm_slice norm_IP (norm_slice norm_IP s) = norm_slice norm_IP s"
  using assms ok_norm_IP by (cases s) (auto simp: list_all_iff slice_list_def)

lemma ok_norm_nets:
  assumes "list_all (\<lambda>p. \<forall>n \<in> set_option p. ok_IP (IPNet_IP n)) (slice_list s)"
  shows "list_all (\<lambda>p. \<forall>n \<in> set_option p. ok_IP (IPNet_IP n)) (slice_list (norm_slice (map_option norm_IPNet) s)) \<and>
    norm_slice (map_option norm_IPNet) (norm_slice (map_option norm_IPNet) s) = norm_slice (map_option norm_IPNet) s"
proof (cases s)
  case (Some ps)
  have "norm_IPNet (norm_IPNet n) = norm_IPNet n \<and> ok_IP (IPNet_IP (norm_IPNet n))" if "Some n \<in> set ps" for n
    using that assms ok_norm_IP [of "IPNet_IP n"] Some by (auto simp: norm_IPNet_def list_all_iff slice_list_def)
  then show ?thesis
    using Some by (auto simp: list_all_iff slice_list_def map_option_case option.map_comp split: option.splits)
qed (simp add: slice_list_def)

lemma ok_norm_Config:
  assumes "ok_Config c"
  shows "ok_Config (norm_Config c)" "norm_Config (norm_Config c) = norm_Config c"
proof -
  note o = assms [unfolded ok_Config_def ok_DNS_def ok_Split_def]
  note n = ok_norm_IP [of "vc_Gateway c"] ok_norm_IP [of "vc_Address_Address (vc_IPv4 c)"]
    ok_norm_IP [of "vc_Address_Address (vc_IPv6 c)"] ok_norm_servers [of "vc_DNS_ServersIPv4 (vc_DNS c)"]
    ok_norm_servers [of "vc_DNS_ServersIPv6 (vc_DNS c)"] ok_norm_nets [of "vc_Split_ExcludeIPv4 (vc_Split c)"]
    ok_norm_nets [of "vc_Split_ExcludeIPv6 (vc_Split c)"]
  show "ok_Config (norm_Config c)"
    unfolding ok_Config_def ok_DNS_def ok_Split_def norm_select using o n by blast
  show "norm_Config (norm_Config c) = norm_Config c"
    unfolding norm_Config_def [of "norm_Config c"] norm_Address_def norm_DNS_def norm_Split_def norm_select
    using o n by (simp add: norm_Config_def norm_Address_def norm_DNS_def norm_Split_def)
qed

section \<open>Properties\<close>

text \<open>
  C29: A VPN configuration with addresses of 4 or 16 bytes, numbers of 64 bits and UTF-8 texts, and no
  IPv4 addresses in its fields for IPv6, survives its way as JSON: it is encoded, and what is decoded
  has the same validity and the same form for the daemon, and does not change when it is encoded
  and decoded again.
\<close>

theorem vpn_config_survives:
  assumes "ok_Config c" "ip6_fields c"
  shows "\<exists>b c' b'. vc_JSON c = Some b \<and> vc_NewFromJSON b = Some c' \<and> vc_Valid c' = vc_Valid c \<and>
    GetVPNConfig c' = GetVPNConfig c \<and> vc_JSON c' = Some b' \<and> vc_NewFromJSON b' = Some c'"
proof -
  obtain b where b: "vc_JSON c = Some b" "vc_NewFromJSON b = Some (norm_Config c)" using vc_round_trip [OF assms(1)] .
  obtain b' where "vc_JSON (norm_Config c) = Some b'" "vc_NewFromJSON b' = Some (norm_Config c)"
    using vc_round_trip [OF ok_norm_Config(1) [OF assms(1)]] ok_norm_Config(2) [OF assms(1)] by metis
  with b show ?thesis using vc_Valid_norm [OF assms(1)] GetVPNConfig_norm [OF assms] by blast
qed

definition example_vc :: vc_Config where
  "example_vc = vc_New
     \<lparr>vc_Gateway := Some [192, 0, 2, 1],
      vc_PID := 12345,
      vc_Device := \<lparr>vc_Device_Name = ''tun0'', vc_Device_MTU = 1300\<rparr>,
      vc_IPv4 := \<lparr>vc_Address_Address = Some [10, 0, 0, 2], vc_Address_Netmask = Some [255, 255, 255, 0]\<rparr>,
      vc_DNS := \<lparr>vc_DNS_DefaultDomain = ''example.com'', vc_DNS_ServersIPv4 = Some [Some [10, 0, 0, 1]],
        vc_DNS_ServersIPv6 = None\<rparr>\<rparr>"

theorem vpn_config_survives_witness:
  "\<exists>b c' b'. vc_JSON example_vc = Some b \<and> vc_NewFromJSON b = Some c' \<and> vc_Valid c' \<and>
    GetVPNConfig c' = GetVPNConfig example_vc \<and> vc_JSON c' = Some b' \<and> vc_NewFromJSON b' = Some c'"
proof -
  have ok: "ok_Config example_vc"
    by (simp add: ok_Config_def ok_DNS_def ok_Split_def ok_IP_def example_vc_def vc_New_def slice_len_def slice_list_def
        is_int64_def valid_utf8_ascii)
  have ip6: "ip6_fields example_vc"
    by (simp add: ip6_fields_def example_vc_def vc_New_def slice_len_def slice_list_def)
  have "vc_Valid example_vc"
    by (simp add: vc_Valid_def vc_Empty_def vc_Equal_def example_vc_def vc_New_def slice_len_def slice_list_def)
  then show ?thesis using vpn_config_survives [OF ok ip6] by simp
qed

end
