(* ===== verification/XMLProfile.thy ===== *)
theory XMLProfile
  imports Prelude
begin

text \<open>
  The AnyConnect profile (\<^verbatim>\<open>pkg/xmlprofile\<close>): its records and what the daemon and the client read
  from it. Loading a profile file is an argument of the users of this theory: the profile, or
  None for a file that cannot be read or parsed.
\<close>

section \<open>The profile (\<^verbatim>\<open>anycon.go\<close>)\<close>

record TrustedHTTPSServer =
  ths_Address :: string
  ths_Port :: string
  ths_CertificateHash :: string

record AllowCaptivePortalRemediation =
  acr_Flag :: string
  acr_CaptivePortalRemediationTimeout :: string

record ConnectFailurePolicy =
  cfp_Flag :: string
  cfp_AllowCaptivePortalRemediation :: AllowCaptivePortalRemediation
  cfp_ApplyLastVPNLocalResourceRules :: string

record AlwaysOn =
  ao_Flag :: bool
  ao_ConnectFailurePolicy :: ConnectFailurePolicy
  ao_AllowVPNDisconnect :: string
  ao_AllowedHosts :: string

record AutomaticVPNPolicy =
  avp_Flag :: string
  avp_TrustedDNSDomains :: "string list"
  avp_TrustedDNSServers :: "string list"
  avp_TrustedHTTPSServerList :: "TrustedHTTPSServer list"
  avp_TrustedNetworkPolicy :: string
  avp_UntrustedNetworkPolicy :: string
  avp_AlwaysOn :: AlwaysOn

record MobileHostEntryInfo =
  mhe_NetworkRoaming :: string
  mhe_CertificatePolicy :: string
  mhe_ConnectOnDemand :: string
  mhe_AlwaysConnectDomainList :: "string list"
  mhe_NeverConnectDomainList :: "string list"
  mhe_ConnectIfNeededDomainList :: "string list"
  mhe_ActivateOnImport :: string

record StandardAuthenticationOnly =
  sao_Flag :: string
  sao_AuthMethodDuringIKENegotiation :: string
  sao_IKEIdentity :: string

record PrimaryProtocol =
  pp_Flag :: string
  pp_StandardAuthenticationOnly :: StandardAuthenticationOnly

record Pin =
  pin_Subject :: string
  pin_Issuer :: string

record HostEntry =
  he_HostName :: string
  he_HostAddress :: string
  he_UserGroup :: string
  he_BackupServerList :: "string list"
  he_LoadBalancingServerList :: "string list"
  he_AutomaticSCEPHost :: string
  he_CAURL :: string
  he_MobileHostEntryInfo :: MobileHostEntryInfo
  he_PrimaryProtocol :: PrimaryProtocol
  he_CertificatePinList :: "Pin list"

record ServerList =
  sl_HostEntry :: "HostEntry list"

record Profile =
  pr_AutomaticVPNPolicy :: AutomaticVPNPolicy
  pr_ServerList :: ServerList

definition NewProfile :: Profile where
  "NewProfile =
     \<lparr>pr_AutomaticVPNPolicy =
        \<lparr>avp_Flag = '''', avp_TrustedDNSDomains = [], avp_TrustedDNSServers = [],
         avp_TrustedHTTPSServerList = [], avp_TrustedNetworkPolicy = '''',
         avp_UntrustedNetworkPolicy = '''',
         avp_AlwaysOn =
           \<lparr>ao_Flag = False,
            ao_ConnectFailurePolicy =
              \<lparr>cfp_Flag = '''',
               cfp_AllowCaptivePortalRemediation =
                 \<lparr>acr_Flag = '''', acr_CaptivePortalRemediationTimeout = ''''\<rparr>,
               cfp_ApplyLastVPNLocalResourceRules = ''''\<rparr>,
            ao_AllowVPNDisconnect = '''', ao_AllowedHosts = ''''\<rparr>\<rparr>,
      pr_ServerList = \<lparr>sl_HostEntry = []\<rparr>\<rparr>"

section \<open>Operations (\<^verbatim>\<open>profile.go\<close>)\<close>

definition GetAllowedHosts :: "Profile \<Rightarrow> string list" where
  "GetAllowedHosts p =
     foldl (\<lambda>hosts h. if h = '''' then hosts else hosts @ [h]) []
       (split_char (CHR '','') (ao_AllowedHosts (avp_AlwaysOn (pr_AutomaticVPNPolicy p))))"

definition GetVPNServers :: "Profile \<Rightarrow> string list" where
  "GetVPNServers p =
     foldl (\<lambda>servers h.
       if has_prefix (pp_Flag (he_PrimaryProtocol h)) ''IPsec'' then servers
       else foldl (\<lambda>servers s. if s \<noteq> '''' then servers @ [s] else servers) servers
         (he_LoadBalancingServerList h @ [he_HostAddress h]))
       [] (sl_HostEntry (pr_ServerList p))"

definition GetVPNServerHostNames :: "Profile \<Rightarrow> string list" where
  "GetVPNServerHostNames p =
     foldl (\<lambda>servers s.
       if has_prefix (pp_Flag (he_PrimaryProtocol s)) ''IPsec'' then servers
       else servers @ [he_HostName s]) [] (sl_HostEntry (pr_ServerList p))"

definition GetTNDServers :: "Profile \<Rightarrow> string list" where
  "GetTNDServers p =
     foldl (\<lambda>servers s. servers @ [ths_Address s]) []
       (avp_TrustedHTTPSServerList (pr_AutomaticVPNPolicy p))"

definition GetTNDHTTPSServers :: "Profile \<Rightarrow> (string, string) gomap" where
  "GetTNDHTTPSServers p =
     foldl (\<lambda>servers s.
       gm_put (''https://'' @ ths_Address s @ '':'' @ ths_Port s) (ths_CertificateHash s) servers) []
       (avp_TrustedHTTPSServerList (pr_AutomaticVPNPolicy p))"

definition GetAlwaysOn :: "Profile \<Rightarrow> bool" where
  "GetAlwaysOn p = ao_Flag (avp_AlwaysOn (pr_AutomaticVPNPolicy p))"

definition Profile_Equal :: "Profile \<Rightarrow> Profile \<Rightarrow> bool" where
  "Profile_Equal p other \<longleftrightarrow> p = other"

text \<open>\<^verbatim>\<open>readXMLProfile\<close> of the daemon: a profile that cannot be loaded is an empty one.\<close>

definition readXMLProfile :: "Profile option \<Rightarrow> Profile" where
  "readXMLProfile loaded = (case loaded of None \<Rightarrow> NewProfile | Some p \<Rightarrow> p)"

section \<open>Lemmas\<close>

lemma foldl_collect:
  "foldl (\<lambda>acc x. if P x then acc else acc @ [f x]) acc xs = acc @ map f (filter (\<lambda>x. \<not> P x) xs)"
  by (induction xs arbitrary: acc) auto

lemma foldl_snoc: "foldl (\<lambda>acc x. acc @ [f x]) acc xs = acc @ map f xs"
  by (induction xs arbitrary: acc) auto

lemma foldl_concat:
  assumes "\<And>acc x. g acc x = acc @ h x"
  shows "foldl g acc xs = acc @ concat (map h xs)"
  using assms by (induction xs arbitrary: acc) auto

lemma GetAllowedHosts_eq:
  "GetAllowedHosts p =
     filter (\<lambda>h. h \<noteq> '''') (split_char (CHR '','') (ao_AllowedHosts (avp_AlwaysOn (pr_AutomaticVPNPolicy p))))"
  using foldl_collect [of "\<lambda>h. h = ''''" "\<lambda>h. h" "[]"] by (simp add: GetAllowedHosts_def)

definition is_IPsec :: "HostEntry \<Rightarrow> bool" where
  "is_IPsec h \<longleftrightarrow> has_prefix (pp_Flag (he_PrimaryProtocol h)) ''IPsec''"

lemma GetVPNServers_eq:
  "GetVPNServers p =
     concat (map (\<lambda>h. filter (\<lambda>s. s \<noteq> '''') (he_LoadBalancingServerList h @ [he_HostAddress h]))
       (filter (\<lambda>h. \<not> is_IPsec h) (sl_HostEntry (pr_ServerList p))))"
proof -
  let ?inner = "\<lambda>h. filter (\<lambda>s. s \<noteq> '''') (he_LoadBalancingServerList h @ [he_HostAddress h])"
  have inner: "foldl (\<lambda>servers s. if s \<noteq> '''' then servers @ [s] else servers) acc xs =
      acc @ filter (\<lambda>s. s \<noteq> '''') xs" for acc xs :: "string list"
    by (induction xs arbitrary: acc) auto
  have "GetVPNServers p =
      concat (map (\<lambda>h. if is_IPsec h then [] else ?inner h) (sl_HostEntry (pr_ServerList p)))"
    unfolding GetVPNServers_def inner by (subst foldl_concat) (simp_all add: is_IPsec_def)
  also have "\<dots> = concat (map ?inner (filter (\<lambda>h. \<not> is_IPsec h) (sl_HostEntry (pr_ServerList p))))"
  proof -
    have "concat (map (\<lambda>h. if is_IPsec h then [] else f h) hs) = concat (map f (filter (\<lambda>h. \<not> is_IPsec h) hs))"
      for f :: "HostEntry \<Rightarrow> string list" and hs
      by (induction hs) auto
    then show ?thesis .
  qed
  finally show ?thesis .
qed

lemma GetTNDServers_eq:
  "GetTNDServers p = map ths_Address (avp_TrustedHTTPSServerList (pr_AutomaticVPNPolicy p))"
  by (simp add: GetTNDServers_def foldl_snoc)

text \<open>Hosts in a profile's comma separated list are found again.\<close>

fun join_hosts :: "string list \<Rightarrow> string" where
  "join_hosts [] = ''''"
| "join_hosts [h] = h"
| "join_hosts (h # hs) = h @ CHR '','' # join_hosts hs"

lemma split_join_hosts:
  assumes "\<forall>h \<in> set hs. CHR '','' \<notin> set h" "hs \<noteq> []"
  shows "split_char (CHR '','') (join_hosts hs) = hs"
  using assms
proof (induction hs rule: join_hosts.induct)
  case (3 h h' hs)
  then show ?case by (simp add: split_char_append_sep split_char_free)
qed (auto simp: split_char_free)

lemma GetAllowedHosts_join:
  assumes "\<forall>h \<in> set hs. CHR '','' \<notin> set h \<and> h \<noteq> ''''" "hs \<noteq> []"
    and "ao_AllowedHosts (avp_AlwaysOn (pr_AutomaticVPNPolicy p)) = join_hosts hs"
  shows "GetAllowedHosts p = hs"
proof -
  have "split_char (CHR '','') (join_hosts hs) = hs" using assms by (intro split_join_hosts) auto
  moreover have "filter (\<lambda>h. h \<noteq> '''') hs = hs" using assms(1) by (intro filter_True) blast
  ultimately show ?thesis by (simp add: GetAllowedHosts_eq assms(3))
qed

end
