(* ===== verification/Daemon.thy ===== *)
theory Daemon
  imports TrafPol VPNSetup OCRunner DBusApi ConfigUpdate XMLProfile
begin

text \<open>
  The daemon (\<^verbatim>\<open>internal/daemon/daemon.go\<close>): its status with the D-Bus
  properties, the handlers of all events, traffic policing and trusted network detection being
  started and stopped, and the daemon's start and shutdown. It composes the models of its
  components; of the runner it sees the commands it sends.
\<close>

section \<open>State\<close>

text \<open>
  Functions of code outside of this model: copying the configuration of the trusted network
  detection, and the JSON encoding of the internal state.
\<close>

record 't lib =
  lib_tnd_Copy :: "'t option \<Rightarrow> 't option"
  lib_dump :: "'t Config \<Rightarrow> trafpol_State option \<Rightarrow> vpnsetup_State \<Rightarrow> string option"

text \<open>The detector of trusted networks, a library: what the daemon passes to it.\<close>

record 't tnd =
  tnd_config :: "'t option"
  tnd_servers :: "(string, string) gomap"
  tnd_dialer :: "int option"
  tnd_started :: bool

text \<open>
  The daemon. Its packet filter is part of the traffic policing while there is one, and \<open>d_fw\<close>
  otherwise; \<open>d_sent\<close> are the commands sent to the runner.
\<close>

record 't Daemon =
  d_config :: "'t Config"
  d_server :: Server
  d_dbus :: Service
  d_tnd :: "'t tnd option"
  d_vpnsetup :: "'t VPNSetup"
  d_trafpol :: "trafpol_conf option"
  d_fw :: Filter
  d_sleepmon :: life
  d_status :: Status
  d_runner :: life
  d_sent :: "runner_cmd list"
  d_token :: string
  d_profile :: Profile
  d_profmon :: life
  d_disableTrafPol :: bool
  d_serverIP :: addr
  d_serverIPAllowed :: bool
  d_life :: life

fun obind :: "'a outcome \<Rightarrow> ('a \<Rightarrow> 'b outcome) \<Rightarrow> 'b outcome" where
  "obind (Returns x) f = f x"
| "obind Panics f = Panics"
| "obind Blocks f = Blocks"

definition or_panic :: "'a option \<Rightarrow> 'a outcome" where
  "or_panic x = (case x of None \<Rightarrow> Panics | Some y \<Rightarrow> Returns y)"

text \<open>The slice of a list that was built by appending to a nil slice.\<close>

definition nil_slice :: "'a list \<Rightarrow> 'a slice" where
  "nil_slice xs = (if xs = [] then None else Some xs)"

section \<open>Status\<close>

text \<open>
  \<^verbatim>\<open>SetProperty\<close> blocks only before the service was started, when the daemon sets no status.
\<close>

definition publish :: "property \<Rightarrow> 't Daemon \<Rightarrow> 't Daemon" where
  "publish u d = (case SetProperty u (d_dbus d) of Returns s \<Rightarrow> d\<lparr>d_dbus := s\<rparr> | _ \<Rightarrow> d)"

definition setStatusTrustedNetwork :: "bool \<Rightarrow> 't Daemon \<Rightarrow> 't Daemon" where
  "setStatusTrustedNetwork trusted d =
     (let trustedNetwork = (if trusted then TrustedNetworkTrusted else TrustedNetworkNotTrusted) in
      if st_TrustedNetwork (d_status d) = trustedNetwork then d
      else publish (PropertyTrustedNetwork trustedNetwork)
        (d\<lparr>d_status := (d_status d)\<lparr>st_TrustedNetwork := trustedNetwork\<rparr>\<rparr>))"

definition setStatusConnectionState :: "ConnectionState \<Rightarrow> 't Daemon \<Rightarrow> 't Daemon" where
  "setStatusConnectionState connectionState d =
     (if st_ConnectionState (d_status d) = connectionState then d
      else publish (PropertyConnectionState connectionState)
        (d\<lparr>d_status := (d_status d)\<lparr>st_ConnectionState := connectionState\<rparr>\<rparr>))"

definition setStatusIP :: "string \<Rightarrow> 't Daemon \<Rightarrow> 't Daemon" where
  "setStatusIP ip d =
     (if st_IP (d_status d) = ip then d
      else publish (PropertyIP ip) (d\<lparr>d_status := (d_status d)\<lparr>st_IP := ip\<rparr>\<rparr>))"

definition setStatusDevice :: "string \<Rightarrow> 't Daemon \<Rightarrow> 't Daemon" where
  "setStatusDevice device d =
     (if st_Device (d_status d) = device then d
      else publish (PropertyDevice device) (d\<lparr>d_status := (d_status d)\<lparr>st_Device := device\<rparr>\<rparr>))"

definition setStatusServer :: "string \<Rightarrow> 't Daemon \<Rightarrow> 't Daemon" where
  "setStatusServer server d =
     (if st_Server (d_status d) = server then d
      else publish (PropertyServer server) (d\<lparr>d_status := (d_status d)\<lparr>st_Server := server\<rparr>\<rparr>))"

definition setStatusServerIP :: "string \<Rightarrow> 't Daemon \<Rightarrow> 't Daemon" where
  "setStatusServerIP serverIP d =
     (if st_ServerIP (d_status d) = serverIP then d
      else publish (PropertyServerIP serverIP)
        (d\<lparr>d_status := (d_status d)\<lparr>st_ServerIP := serverIP\<rparr>\<rparr>))"

definition setStatusConnectedAt :: "int \<Rightarrow> 't Daemon \<Rightarrow> 't Daemon" where
  "setStatusConnectedAt connectedAt d =
     (if st_ConnectedAt (d_status d) = connectedAt then d
      else publish (PropertyConnectedAt connectedAt)
        (d\<lparr>d_status := (d_status d)\<lparr>st_ConnectedAt := connectedAt\<rparr>\<rparr>))"

definition setStatusServers :: "string slice \<Rightarrow> 't Daemon \<Rightarrow> 't Daemon" where
  "setStatusServers servers d =
     (if slice_list (st_Servers (d_status d)) = slice_list servers then d
      else publish (PropertyServers servers)
        (d\<lparr>d_status := (d_status d)\<lparr>st_Servers := servers\<rparr>\<rparr>))"

definition setStatusOCRunning :: "bool \<Rightarrow> 't Daemon \<Rightarrow> 't Daemon" where
  "setStatusOCRunning running d =
     (let ocrunning = (if running then OCRunningRunning else OCRunningNotRunning) in
      if st_OCRunning (d_status d) = ocrunning then d
      else publish (PropertyOCRunning ocrunning)
        (d\<lparr>d_status := (d_status d)\<lparr>st_OCRunning := ocrunning\<rparr>\<rparr>))"

definition setStatusOCPID :: "u32 \<Rightarrow> 't Daemon \<Rightarrow> 't Daemon" where
  "setStatusOCPID pid d =
     (if st_OCPID (d_status d) = pid then d
      else publish (PropertyOCPID pid) (d\<lparr>d_status := (d_status d)\<lparr>st_OCPID := pid\<rparr>\<rparr>))"

definition setStatusTrafPolState :: "TrafPolState \<Rightarrow> 't Daemon \<Rightarrow> 't Daemon" where
  "setStatusTrafPolState state d =
     (if st_TrafPolState (d_status d) = state then d
      else publish (PropertyTrafPolState state)
        (d\<lparr>d_status := (d_status d)\<lparr>st_TrafPolState := state\<rparr>\<rparr>))"

definition setStatusAllowedHosts :: "string slice \<Rightarrow> 't Daemon \<Rightarrow> 't Daemon" where
  "setStatusAllowedHosts hosts d =
     (if slice_list (st_AllowedHosts (d_status d)) = slice_list hosts then d
      else publish (PropertyAllowedHosts hosts)
        (d\<lparr>d_status := (d_status d)\<lparr>st_AllowedHosts := hosts\<rparr>\<rparr>))"

definition setStatusCaptivePortal :: "CaptivePortal \<Rightarrow> 't Daemon \<Rightarrow> 't Daemon" where
  "setStatusCaptivePortal capPortal d =
     (if st_CaptivePortal (d_status d) = capPortal then d
      else publish (PropertyCaptivePortal capPortal)
        (d\<lparr>d_status := (d_status d)\<lparr>st_CaptivePortal := capPortal\<rparr>\<rparr>))"

definition setStatusTNDState :: "TNDState \<Rightarrow> 't Daemon \<Rightarrow> 't Daemon" where
  "setStatusTNDState state d =
     (if st_TNDState (d_status d) = state then d
      else publish (PropertyTNDState state)
        (d\<lparr>d_status := (d_status d)\<lparr>st_TNDState := state\<rparr>\<rparr>))"

definition setStatusTNDServers :: "string slice \<Rightarrow> 't Daemon \<Rightarrow> 't Daemon" where
  "setStatusTNDServers servers d =
     (if slice_list (st_TNDServers (d_status d)) = slice_list servers then d
      else publish (PropertyTNDServers servers)
        (d\<lparr>d_status := (d_status d)\<lparr>st_TNDServers := servers\<rparr>\<rparr>))"

definition setStatusVPNConfig :: "'t lib \<Rightarrow> vc_Config option \<Rightarrow> 't Daemon \<Rightarrow> 't Daemon" where
  "setStatusVPNConfig L config d =
     (if vc_Equal (st_VPNConfig (d_status d)) config then d
      else
        (let d = d\<lparr>d_status := (d_status d)\<lparr>st_VPNConfig := config\<rparr>\<rparr> in
         case config of
           None \<Rightarrow> publish (PropertyVPNConfig VPNConfigInvalid) d
         | Some c \<Rightarrow>
             (case vc_JSON c of
                None \<Rightarrow> publish (PropertyVPNConfig VPNConfigInvalid) d
              | Some s \<Rightarrow> publish (PropertyVPNConfig s) d)))"

section \<open>Connecting and disconnecting\<close>

text \<open>Calls of the running components: the traffic policing and the runner.\<close>

definition allow_addr :: "addr \<Rightarrow> trafpol_conf \<Rightarrow> (bool \<times> trafpol_conf) outcome" where
  "allow_addr a c = (if tp_life (tc_t c) = Running then Returns (tp_add a c) else Blocks)"

definition disallow_addr :: "addr \<Rightarrow> trafpol_conf \<Rightarrow> (bool \<times> trafpol_conf) outcome" where
  "disallow_addr a c = (if tp_life (tc_t c) = Running then Returns (tp_remove a c) else Blocks)"

definition runner_send :: "runner_cmd \<Rightarrow> 't Daemon \<Rightarrow> 't Daemon outcome" where
  "runner_send cmd d = (if d_runner d = Running then Returns (d\<lparr>d_sent := d_sent d @ [cmd]\<rparr>) else Blocks)"

text \<open>Adding the server address to the allowed ones of the traffic policing, if there is one.\<close>

definition allow_server :: "'t Daemon \<Rightarrow> 't Daemon outcome" where
  "allow_server d =
     (case d_trafpol d of
        None \<Rightarrow> Returns d
      | Some c \<Rightarrow>
          if addr_IsValid (d_serverIP d)
          then obind (allow_addr (d_serverIP d) c)
            (\<lambda>(ok, c'). Returns (d\<lparr>d_trafpol := Some c', d_serverIPAllowed := ok\<rparr>))
          else Returns d)"

definition FormatBool :: "bool \<Rightarrow> string" where
  "FormatBool b = (if b then ''true'' else ''false'')"

definition connectVPN :: "'t lib \<Rightarrow> LoginInfo \<Rightarrow> 't Daemon \<Rightarrow> 't Daemon outcome" where
  "connectVPN L login d =
     (if OC_Running (st_OCRunning (d_status d)) then Returns d
      else if \<not> LoginInfo_Valid (Some login) then Returns d
      else
        (let d = (case ParseAddr (trim_chars ''[]'' (li_Host login)) of
                    Some serverIP \<Rightarrow> d\<lparr>d_serverIP := serverIP\<rparr> | None \<Rightarrow> d);
             d = setStatusOCRunning True d;
             d = setStatusServer (li_Server login) d;
             d = setStatusServerIP (addr_String (d_serverIP d)) d;
             d = setStatusConnectionState ConnectionStateConnecting d
         in obind (allow_server d) (\<lambda>d.
            let d = d\<lparr>d_config := (d_config d)\<lparr>cfg_LoginInfo := Some login\<rparr>\<rparr> in
            obind (or_panic (cfg_SocketServer (d_config d))) (\<lambda>server.
            let env = [''oc_daemon_token='' @ d_token d,
                  ''oc_daemon_socket_file='' @ ss_SocketFile server,
                  ''oc_daemon_verbose='' @ FormatBool (cfg_Verbose (d_config d))] in
            obind (or_panic (Config_Copy (lib_tnd_Copy L) (d_config d))) (\<lambda>config.
            obind (or_panic (cfg_OpenConnect config)) (\<lambda>oc.
            runner_send (RConnect oc login env) d))))))"

definition disconnectVPN :: "'t Daemon \<Rightarrow> 't Daemon outcome" where
  "disconnectVPN d =
     (if \<not> OC_Running (st_OCRunning (d_status d)) then Returns d
      else runner_send RDisconnect (setStatusConnectionState ConnectionStateDisconnecting d))"

text \<open>
  The arguments are the outcomes of starting split routing's monitors and the current time. The
  address shown is that of the last valid prefix.
\<close>

definition vpn_ip :: "VPNConfig \<Rightarrow> string" where
  "vpn_ip vpn =
     foldl (\<lambda>ip p. if prefix_IsValid p then addr_String (prefix_Addr p) else ip) ''''
       [vpn_IPv4 vpn, vpn_IPv6 vpn]"

definition updateVPNConfigUp ::
  "'t lib \<Rightarrow> bool \<Rightarrow> bool \<Rightarrow> int \<Rightarrow> vc_Config \<Rightarrow> 't Daemon \<Rightarrow> 't Daemon outcome" where
  "updateVPNConfigUp L devmonOk addrmonOk now config d =
     (if vc_Equal (Some config) (st_VPNConfig (d_status d)) then Returns d
      else if \<not> OC_Running (st_OCRunning (d_status d)) then Returns d
      else if Connected (st_ConnectionState (d_status d)) then Returns d
      else
        obind (or_panic (GetVPNConfig config)) (\<lambda>vpn.
        let d = d\<lparr>d_config := (d_config d)\<lparr>cfg_VPNConfig := Some vpn\<rparr>\<rparr> in
        obind (or_panic (Config_Copy (lib_tnd_Copy L) (d_config d))) (\<lambda>conf.
        obind (VPNSetup_Setup devmonOk addrmonOk conf (d_vpnsetup d)) (\<lambda>v.
        let d = d\<lparr>d_vpnsetup := v\<rparr>;
            d = d\<lparr>d_disableTrafPol := vc_Flags_DisableAlwaysOnVPN (vc_Flags config)\<rparr>;
            d = setStatusVPNConfig L (Some config) d;
            d = setStatusIP (vpn_ip vpn) d;
            d = setStatusDevice (vc_Device_Name (vc_Device config)) d;
            d = setStatusConnectionState ConnectionStateConnected d
        in Returns (setStatusConnectedAt now d)))))"

definition updateVPNConfigDown :: "'t lib \<Rightarrow> 't Daemon \<Rightarrow> 't Daemon outcome" where
  "updateVPNConfigDown L d =
     (if Connecting (st_ConnectionState (d_status d)) \<or> Connected (st_ConnectionState (d_status d))
      then Returns d
      else
        obind (if st_VPNConfig (d_status d) \<noteq> None
               then obind (VPNSetup_Teardown (d_vpnsetup d)) (\<lambda>v. Returns (d\<lparr>d_vpnsetup := v\<rparr>))
               else Returns d) (\<lambda>d.
        let d = d\<lparr>d_config := (d_config d)\<lparr>cfg_LoginInfo := Some LoginInfo_zero,
                    cfg_VPNConfig := Some VPNConfig_zero\<rparr>\<rparr>;
            d = setStatusVPNConfig L None d;
            d = setStatusServer '''' d;
            d = setStatusServerIP '''' d;
            d = setStatusConnectedAt 0 d;
            d = setStatusIP '''' d
        in Returns (setStatusDevice '''' d)))"

definition handleVPNAttemptReconnect :: "'t Daemon \<Rightarrow> 't Daemon" where
  "handleVPNAttemptReconnect d =
     (if \<not> OC_Running (st_OCRunning (d_status d)) then d
      else if st_ConnectionState (d_status d) \<noteq> ConnectionStateConnected \<and>
              st_ConnectionState (d_status d) \<noteq> ConnectionStateConnecting then d
      else setStatusConnectionState ConnectionStateConnecting d)"

definition handleVPNReconnect :: "'t Daemon \<Rightarrow> 't Daemon" where
  "handleVPNReconnect d =
     (if \<not> OC_Running (st_OCRunning (d_status d)) then d
      else if st_ConnectionState (d_status d) \<noteq> ConnectionStateConnecting then d
      else setStatusConnectionState ConnectionStateConnected d)"

section \<open>Requests\<close>

text \<open>The request carries its error reply.\<close>

definition updateVPNConfig ::
  "'t lib \<Rightarrow> bool \<Rightarrow> bool \<Rightarrow> int \<Rightarrow> api_Request \<Rightarrow> 't Daemon \<Rightarrow> (api_Request \<times> 't Daemon) outcome" where
  "updateVPNConfig L devmonOk addrmonOk now request d =
     (case VPNConfigUpdateFromJSON (m_Value (req_msg request)) of
        None \<Rightarrow> Returns (Request_Error (text_bytes ''invalid config update message'') request, d)
      | Some u \<Rightarrow>
          if \<not> VPNConfigUpdate_Valid u
          then Returns (Request_Error (text_bytes ''invalid config update in config update message'') request, d)
          else obind
            (if vu_Reason u = ''connect'' then
               obind (or_panic (vu_Config u)) (\<lambda>config. updateVPNConfigUp L devmonOk addrmonOk now config d)
             else if vu_Reason u = ''disconnect'' then updateVPNConfigDown L d
             else if vu_Reason u = ''attempt-reconnect'' then Returns (handleVPNAttemptReconnect d)
             else if vu_Reason u = ''reconnect'' then Returns (handleVPNReconnect d)
             else Returns d)
            (\<lambda>d. Returns (request, d)))"

text \<open>A nil request is what the channel of a server that ended by itself yields.\<close>

definition handleClientRequest ::
  "'t lib \<Rightarrow> bool \<Rightarrow> bool \<Rightarrow> int \<Rightarrow> api_Request option \<Rightarrow> 't Daemon \<Rightarrow> (api_Request \<times> 't Daemon) outcome" where
  "handleClientRequest L devmonOk addrmonOk now request d =
     (case request of
        None \<Rightarrow> Panics
      | Some r \<Rightarrow>
          if h_Type (req_msg r) = TypeVPNConfigUpdate then updateVPNConfig L devmonOk addrmonOk now r d
          else Returns (r, d))"

definition dumpState :: "'t lib \<Rightarrow> 't Daemon \<Rightarrow> string outcome" where
  "dumpState L d =
     obind (or_panic (Config_Copy (lib_tnd_Copy L) (d_config d))) (\<lambda>c.
     obind (or_panic (cfg_LoginInfo c)) (\<lambda>login.
     let c = c\<lparr>cfg_LoginInfo := Some (login\<lparr>li_Cookie := ''HIDDEN''\<rparr>)\<rparr> in
     obind (case d_trafpol d of
              None \<Rightarrow> Returns None
            | Some t \<Rightarrow> if tp_life (tc_t t) = Running then Returns (TrafPol_GetState (tc_t t)) else Blocks)
       (\<lambda>tp.
     obind (VPNSetup_GetState (d_vpnsetup d)) (\<lambda>v.
     Returns (case lib_dump L c tp v of None \<Rightarrow> '''' | Some s \<Rightarrow> s)))))"

definition handleDBusRequest :: "'t lib \<Rightarrow> dbus_Request \<Rightarrow> 't Daemon \<Rightarrow> (dbus_Request \<times> 't Daemon) outcome" where
  "handleDBusRequest L request d =
     (if rq_Name request = ''Connect'' then
        (case rq_Parameters request of
           server # cookie # host # connectURL # fingerprint # res # _ \<Rightarrow>
             obind (connectVPN L \<lparr>li_Server = server, li_Cookie = cookie, li_Host = host,
               li_ConnectURL = connectURL, li_Fingerprint = fingerprint, li_Resolve = res\<rparr> d)
             (\<lambda>d. Returns (request, d))
         | _ \<Rightarrow> Panics)
      else if rq_Name request = ''Disconnect'' then
        obind (disconnectVPN d) (\<lambda>d. Returns (request, d))
      else if rq_Name request = ''DumpState'' then
        obind (dumpState L d) (\<lambda>state. Returns (request\<lparr>rq_Results := [state]\<rparr>, d))
      else Returns (request, d))"

section \<open>Traffic policing and trusted network detection\<close>

definition getProfileAllowedHosts :: "'t Daemon \<Rightarrow> string list" where
  "getProfileAllowedHosts d =
     (GetVPNServers (d_profile d) @ GetTNDServers (d_profile d)) @ GetAllowedHosts (d_profile d)"

datatype daemon_error = TNDError | TrafPolError trafpol_error

type_synonym 't fallible = "((daemon_error + unit) \<times> 't Daemon) outcome"

text \<open>The mark that the dialer sets on the sockets of the detection, as in the traffic policing.\<close>

definition setTNDDialer :: "'t Daemon \<Rightarrow> 't Daemon outcome" where
  "setTNDDialer d =
     (case cfg_SplitRouting (d_config d) of
        None \<Rightarrow> Panics
      | Some sr \<Rightarrow>
          (case Atoi (sr_FirewallMark sr) of
             None \<Rightarrow> Returns d
           | Some mark \<Rightarrow> Returns (d\<lparr>d_tnd := map_option (\<lambda>t. t\<lparr>tnd_dialer := Some mark\<rparr>) (d_tnd d)\<rparr>)))"

definition startTND :: "bool \<Rightarrow> 't Daemon \<Rightarrow> 't fallible" where
  "startTND tndOk d =
     (if d_tnd d \<noteq> None then Returns (Inr (), d)
      else
        (let servers = GetTNDHTTPSServers (d_profile d);
             d = d\<lparr>d_tnd := Some \<lparr>tnd_config = cfg_TND (d_config d), tnd_servers = servers,
                 tnd_dialer = None, tnd_started = False\<rparr>\<rparr>
         in obind (setTNDDialer d) (\<lambda>d.
            if \<not> tndOk then Returns (Inl TNDError, d)
            else
              (let d = d\<lparr>d_tnd := map_option (\<lambda>t. t\<lparr>tnd_started := True\<rparr>) (d_tnd d)\<rparr>;
                   s = foldl (\<lambda>s (k, v). slice_append s [k @ '':'' @ v]) None servers;
                   d = setStatusTNDState TNDStateActive d
               in Returns (Inr (), setStatusTNDServers s d)))))"

definition stopTND :: "'t Daemon \<Rightarrow> 't Daemon" where
  "stopTND d =
     (if d_tnd d = None then d
      else
        (let d = d\<lparr>d_tnd := None\<rparr>;
             d = setStatusTNDState TNDStateInactive d
         in setStatusTNDServers None d))"

definition checkTND :: "bool \<Rightarrow> 't Daemon \<Rightarrow> 't fallible" where
  "checkTND tndOk d =
     (if GetTNDServers (d_profile d) = [] then Returns (Inr (), stopTND d) else startTND tndOk d)"

text \<open>The first two arguments are the outcomes of starting the traffic policing's monitors.\<close>

definition startTrafPol :: "'t lib \<Rightarrow> bool \<Rightarrow> bool \<Rightarrow> 't Daemon \<Rightarrow> 't fallible" where
  "startTrafPol L devmonOk dnsmonOk d =
     (if d_trafpol d \<noteq> None then Returns (Inr (), d)
      else
        obind (or_panic (Config_Copy (lib_tnd_Copy L) (d_config d))) (\<lambda>c.
        obind (or_panic (cfg_TrafficPolicing c)) (\<lambda>tp.
        let hosts = slice_append (tp_AllowedHosts tp) (getProfileAllowedHosts d);
            c = c\<lparr>cfg_TrafficPolicing := Some (tp\<lparr>tp_AllowedHosts := hosts\<rparr>)\<rparr> in
        obind (or_panic (NewTrafPol c)) (\<lambda>t.
        case TrafPol_Start devmonOk dnsmonOk t of (r, es, t) \<Rightarrow>
        (let d = d\<lparr>d_trafpol := Some \<lparr>tc_t = t, tc_fw = fw_run es (d_fw d), tc_status = False\<rparr>\<rparr> in
         case r of
           Inl e \<Rightarrow> Returns (Inl (TrafPolError e), d)
         | Inr _ \<Rightarrow>
             (let d = setStatusTrafPolState TrafPolStateActive d;
                  d = setStatusAllowedHosts hosts d;
                  d = setStatusCaptivePortal CaptivePortalNotDetected d
              in obind (allow_server d) (\<lambda>d. Returns (Inr (), d))))))))"

definition stopTrafPol :: "'t Daemon \<Rightarrow> 't Daemon outcome" where
  "stopTrafPol d =
     (case d_trafpol d of
        None \<Rightarrow> Returns d
      | Some c \<Rightarrow>
          obind (TrafPol_Stop (tc_t c)) (\<lambda>(es, t).
          let d = d\<lparr>d_trafpol := None, d_fw := fw_run es (tc_fw c)\<rparr>;
              d = d\<lparr>d_serverIPAllowed := False\<rparr>;
              d = (if d_disableTrafPol d then setStatusTrafPolState TrafPolStateDisabled d
                   else setStatusTrafPolState TrafPolStateInactive d);
              d = setStatusAllowedHosts None d
          in Returns (setStatusCaptivePortal CaptivePortalUnknown d)))"

definition checkTrafPol :: "'t lib \<Rightarrow> bool \<Rightarrow> bool \<Rightarrow> 't Daemon \<Rightarrow> 't fallible" where
  "checkTrafPol L devmonOk dnsmonOk d =
     (let stop = obind (stopTrafPol d) (\<lambda>d. Returns (Inr (), d)) in
      if d_disableTrafPol d then stop
      else if \<not> GetAlwaysOn (d_profile d) then stop
      else if Trusted (st_TrustedNetwork (d_status d)) then stop
      else startTrafPol L devmonOk dnsmonOk d)"

section \<open>Event handlers\<close>

definition checkDisconnectVPN :: "'t Daemon \<Rightarrow> 't Daemon outcome" where
  "checkDisconnectVPN d =
     (if Trusted (st_TrustedNetwork (d_status d)) \<and> OC_Running (st_OCRunning (d_status d))
      then disconnectVPN d else Returns d)"

definition handleTNDResult :: "'t lib \<Rightarrow> bool \<Rightarrow> bool \<Rightarrow> bool \<Rightarrow> 't Daemon \<Rightarrow> 't fallible" where
  "handleTNDResult L devmonOk dnsmonOk trusted d =
     obind (checkDisconnectVPN (setStatusTrustedNetwork trusted d)) (checkTrafPol L devmonOk dnsmonOk)"

definition handleRunnerDisconnect :: "'t lib \<Rightarrow> 't Daemon \<Rightarrow> 't Daemon outcome" where
  "handleRunnerDisconnect L d =
     (let d = setStatusOCRunning False d;
          d = setStatusOCPID 0 d;
          d = setStatusConnectionState ConnectionStateDisconnected d;
          d = setStatusServer '''' d;
          d = setStatusServerIP '''' d;
          d = setStatusConnectedAt 0 d
      in obind (updateVPNConfigDown L d) (\<lambda>d.
         obind (case d_trafpol d of
                  None \<Rightarrow> Returns d
                | Some c \<Rightarrow>
                    if d_serverIPAllowed d
                    then obind (disallow_addr (d_serverIP d) c)
                      (\<lambda>(_, c'). Returns (d\<lparr>d_trafpol := Some c'\<rparr>))
                    else Returns d)
           (\<lambda>d. Returns (d\<lparr>d_serverIP := AddrZero, d_serverIPAllowed := False\<rparr>))))"

definition handleRunnerEvent :: "'t lib \<Rightarrow> ConnectEvent \<Rightarrow> 't Daemon \<Rightarrow> 't Daemon outcome" where
  "handleRunnerEvent L e d =
     (if ce_Connect e then Returns (setStatusOCPID (ce_PID e) (setStatusOCRunning True d))
      else handleRunnerDisconnect L d)"

definition handleSleepMonEvent :: "bool \<Rightarrow> 't Daemon \<Rightarrow> 't Daemon outcome" where
  "handleSleepMonEvent sleep d =
     (if \<not> sleep \<and> OC_Running (st_OCRunning (d_status d)) then disconnectVPN d else Returns d)"

text \<open>The argument \<open>loaded\<close> is the profile in the file, if it can be loaded.\<close>

definition handleProfileUpdate ::
  "'t lib \<Rightarrow> bool \<Rightarrow> bool \<Rightarrow> bool \<Rightarrow> Profile option \<Rightarrow> 't Daemon \<Rightarrow> 't fallible" where
  "handleProfileUpdate L devmonOk dnsmonOk tndOk loaded d =
     (let d = d\<lparr>d_profile := readXMLProfile loaded\<rparr>;
          d = stopTND d
      in obind (stopTrafPol d) (\<lambda>d.
         obind (checkTrafPol L devmonOk dnsmonOk d) (\<lambda>(r, d).
         case r of Inl e \<Rightarrow> Returns (Inl e, d)
         | Inr _ \<Rightarrow>
             obind (checkTND tndOk d) (\<lambda>(r, d).
             case r of Inl e \<Rightarrow> Returns (Inl e, d)
             | Inr _ \<Rightarrow> Returns (Inr (), setStatusServers (nil_slice (GetVPNServerHostNames (d_profile d))) d)))))"

definition handleCPDStatusUpdate :: "bool \<Rightarrow> 't Daemon \<Rightarrow> 't Daemon" where
  "handleCPDStatusUpdate detected d =
     (if detected then setStatusCaptivePortal CaptivePortalDetected d
      else setStatusCaptivePortal CaptivePortalNotDetected d)"

section \<open>Start and shutdown\<close>

text \<open>A daemon; the argument \<open>loaded\<close> is the profile in the configured file.\<close>

definition NewDaemon :: "Profile option \<Rightarrow> 't Config \<Rightarrow> 't Daemon option" where
  "NewDaemon loaded config =
     (case (cfg_DNSProxy config, cfg_OpenConnect config) of
        (Some dns, Some oc) \<Rightarrow> Some
          \<lparr>d_config = config, d_server = NewServer, d_dbus = NewService, d_tnd = None,
           d_vpnsetup = NewVPNSetup (NewProxy dns), d_trafpol = None, d_fw = no_filter,
           d_sleepmon = NotStarted, d_status = NewStatus, d_runner = NotStarted, d_sent = [],
           d_token = '''', d_profile = readXMLProfile loaded, d_profmon = NotStarted,
           d_disableTrafPol = False, d_serverIP = AddrZero, d_serverIPAllowed = False,
           d_life = NotStarted\<rparr>
      | _ \<Rightarrow> None)"

definition stop_life :: "life \<Rightarrow> (life \<Rightarrow> 't Daemon) \<Rightarrow> 't Daemon outcome" where
  "stop_life l f = obind (life_Stop l) (\<lambda>l. Returns (f l))"

text \<open>
  The deferred calls of \<^verbatim>\<open>start\<close> in the order they run. The runner stops when an interrupted
  OpenConnect ends, which is the argument \<open>ends\<close>.
\<close>

definition stop_runner :: "bool \<Rightarrow> 't Daemon \<Rightarrow> 't Daemon outcome" where
  "stop_runner ends d =
     (if ends then stop_life (d_runner d) (\<lambda>l. d\<lparr>d_runner := l\<rparr>) else Blocks)"

definition daemon_shutdown :: "'t lib \<Rightarrow> bool \<Rightarrow> 't Daemon \<Rightarrow> 't Daemon outcome" where
  "daemon_shutdown L ends d =
     obind (Server_Shutdown (d_server d)) (\<lambda>s. let d = d\<lparr>d_server := s\<rparr> in
     obind (Service_Stop (d_dbus d)) (\<lambda>s. let d = d\<lparr>d_dbus := s\<rparr> in
     obind (handleRunnerDisconnect L d) (\<lambda>d.
     obind (stop_runner ends d) (\<lambda>d.
     obind (Server_Stop (d_server d)) (\<lambda>s. let d = d\<lparr>d_server := s\<rparr> in
     obind (VPNSetup_Stop (d_vpnsetup d)) (\<lambda>v. let d = d\<lparr>d_vpnsetup := v\<rparr> in
     let d = stopTND d in
     obind (stopTrafPol d) (\<lambda>d.
     obind (stop_life (d_profmon d) (\<lambda>l. d\<lparr>d_profmon := l\<rparr>)) (\<lambda>d.
     obind (stop_life (d_sleepmon d) (\<lambda>l. d\<lparr>d_sleepmon := l\<rparr>)) (\<lambda>d.
     Returns (d\<lparr>d_life := Ended\<rparr>))))))))))"

text \<open>\<^verbatim>\<open>cleanup\<close> and the answers of the system during \<^verbatim>\<open>Start\<close>.\<close>

definition daemon_cleanup :: "'t Daemon \<Rightarrow> 't Daemon" where
  "daemon_cleanup d =
     d\<lparr>d_vpnsetup := (d_vpnsetup d)\<lparr>vset_net := VPNSetup_Cleanup (vset_net (d_vpnsetup d))\<rparr>,
       d_fw := fw_run TrafPol_Cleanup (d_fw d)\<rparr>"

record start_env =
  se_token :: "string option"
  se_sleepmon :: bool
  se_profmon :: bool
  se_server :: bool
  se_dbus :: "dbus_error option"
  se_devmon :: bool
  se_dnsmon :: bool
  se_tnd :: bool

datatype start_error = TokenFailed | SleepMonFailed | ProfileMonFailed | ServerFailed | DBusFailed
  | TrafPolFailed | TNDFailed

type_synonym 't startable = "((start_error + unit) \<times> 't Daemon) outcome"

definition cleanup_profmon :: "start_error \<Rightarrow> 't Daemon \<Rightarrow> 't startable" where
  "cleanup_profmon e d =
     obind (stop_life (d_sleepmon d) (\<lambda>l. d\<lparr>d_sleepmon := l\<rparr>)) (\<lambda>d. Returns (Inl e, d))"

definition cleanup_unix :: "start_error \<Rightarrow> 't Daemon \<Rightarrow> 't startable" where
  "cleanup_unix e d =
     obind (stop_runner True d) (\<lambda>d.
     obind (VPNSetup_Stop (d_vpnsetup d)) (\<lambda>v. let d = d\<lparr>d_vpnsetup := v\<rparr> in
     obind (stop_life (d_profmon d) (\<lambda>l. d\<lparr>d_profmon := l\<rparr>)) (cleanup_profmon e)))"

definition cleanup_dbus :: "start_error \<Rightarrow> 't Daemon \<Rightarrow> 't startable" where
  "cleanup_dbus e d = obind (Server_Stop (d_server d)) (\<lambda>s. cleanup_unix e (d\<lparr>d_server := s\<rparr>))"

definition cleanup_trafpol :: "start_error \<Rightarrow> 't Daemon \<Rightarrow> 't startable" where
  "cleanup_trafpol e d =
     obind (Service_Stop (d_dbus d)) (\<lambda>s. let d = d\<lparr>d_dbus := s\<rparr> in
     obind (Server_Stop (d_server d)) (\<lambda>s. cleanup_dbus e (d\<lparr>d_server := s\<rparr>)))"

definition cleanup_tnd :: "start_error \<Rightarrow> 't Daemon \<Rightarrow> 't startable" where
  "cleanup_tnd e d = obind (stopTrafPol d) (cleanup_trafpol e)"

definition setInitialStatus :: "'t Daemon \<Rightarrow> 't Daemon" where
  "setInitialStatus d =
     (let d = setStatusTrustedNetwork False d;
          d = setStatusConnectionState ConnectionStateDisconnected d;
          d = setStatusServers (nil_slice (GetVPNServerHostNames (d_profile d))) d;
          d = setStatusConnectedAt 0 d;
          d = setStatusOCRunning False d;
          d = setStatusTrafPolState TrafPolStateInactive d
      in setStatusTNDState TNDStateInactive d)"

definition Daemon_Start :: "'t lib \<Rightarrow> start_env \<Rightarrow> 't Daemon \<Rightarrow> 't startable" where
  "Daemon_Start L e d =
     (let d = daemon_cleanup d in
      case se_token e of
        None \<Rightarrow> Returns (Inl TokenFailed, d)
      | Some token \<Rightarrow>
          (let d = d\<lparr>d_token := token\<rparr> in
           if \<not> se_sleepmon e then Returns (Inl SleepMonFailed, d)
           else
             (let d = d\<lparr>d_sleepmon := Running\<rparr> in
              if \<not> se_profmon e then cleanup_profmon ProfileMonFailed d
              else
                (let d = d\<lparr>d_profmon := Running\<rparr>;
                     d = d\<lparr>d_vpnsetup := VPNSetup_Start (d_vpnsetup d)\<rparr>;
                     d = d\<lparr>d_runner := Running\<rparr>;
                     (ok, s) = Server_Start (se_server e) (d_server d);
                     d = d\<lparr>d_server := s\<rparr>
                 in if \<not> ok then cleanup_unix ServerFailed d
                    else
                      (let (r, s) = Service_Start (se_dbus e) (d_dbus d);
                           d = d\<lparr>d_dbus := s\<rparr>
                       in if isl r then cleanup_dbus DBusFailed d
                          else
                            obind (checkTrafPol L (se_devmon e) (se_dnsmon e) (setInitialStatus d)) (\<lambda>(r, d).
                            if isl r then cleanup_trafpol TrafPolFailed d
                            else
                              obind (checkTND (se_tnd e) d) (\<lambda>(r, d).
                              if isl r then cleanup_tnd TNDFailed d
                              else Returns (Inr (), d\<lparr>d_life := Running\<rparr>))))))))"

text \<open>Stopping makes the main loop end, which runs the deferred calls.\<close>

definition Daemon_Stop :: "'t lib \<Rightarrow> bool \<Rightarrow> 't Daemon \<Rightarrow> 't Daemon outcome" where
  "Daemon_Stop L ends d =
     (case d_life d of
        NotStarted \<Rightarrow> Blocks
      | Running \<Rightarrow> obind (daemon_shutdown L ends d) (\<lambda>d. Returns (d\<lparr>d_life := Stopped\<rparr>))
      | Ended \<Rightarrow> Returns (d\<lparr>d_life := Stopped\<rparr>)
      | Stopped \<Rightarrow> Panics)"

section \<open>Main loop\<close>

text \<open>
  The labels of the main loop's steps, with the answers of the system they need, and the steps of
  the components on their own: of the traffic policing other than those the daemon takes part in,
  and of the VPN setup other than its commands. A handler that fails makes the
  loop end and the deferred calls run; a handler that panics or blocks has no step.
\<close>

datatype daemon_event =
    ClientRequest bool bool int "api_Request option"
  | DBusRequest dbus_Request
  | TNDResult bool bool bool
  | RunnerEvent ConnectEvent
  | SleepEvent bool
  | ProfileUpdate bool bool bool "Profile option"
  | CPDStatus bool
  | InTrafPol trafpol_event
  | InVPNSetup splitrt_event
  | InVPNSetupPrefixes
  | InVPNSetupEnsure "string option"

fun own_event :: "trafpol_event \<Rightarrow> bool" where
  "own_event (TPStatus _) = False"
| "own_event (TPCommand _ _) = False"
| "own_event _ = True"

inductive daemon_step :: "'t lib \<Rightarrow> 't Daemon \<Rightarrow> daemon_event \<Rightarrow> 't Daemon \<Rightarrow> bool" for L where
  d_client: "d_life d = Running \<Longrightarrow> handleClientRequest L dev adr now r d = Returns (r', d') \<Longrightarrow>
    daemon_step L d (ClientRequest dev adr now r) d'"
| d_request: "d_life d = Running \<Longrightarrow> handleDBusRequest L r d = Returns (r', d') \<Longrightarrow>
    daemon_step L d (DBusRequest r) d'"
| d_result: "d_life d = Running \<Longrightarrow> d_tnd d \<noteq> None \<Longrightarrow>
    handleTNDResult L dev dns trusted d = Returns (Inr (), d') \<Longrightarrow>
    daemon_step L d (TNDResult dev dns trusted) d'"
| d_result_error: "d_life d = Running \<Longrightarrow> d_tnd d \<noteq> None \<Longrightarrow>
    handleTNDResult L dev dns trusted d = Returns (Inl e, d1) \<Longrightarrow> daemon_shutdown L ends d1 = Returns d' \<Longrightarrow>
    daemon_step L d (TNDResult dev dns trusted) d'"
| d_event: "d_life d = Running \<Longrightarrow> handleRunnerEvent L e d = Returns d' \<Longrightarrow>
    daemon_step L d (RunnerEvent e) d'"
| d_sleep: "d_life d = Running \<Longrightarrow> handleSleepMonEvent sleep d = Returns d' \<Longrightarrow>
    daemon_step L d (SleepEvent sleep) d'"
| d_update: "d_life d = Running \<Longrightarrow>
    handleProfileUpdate L dev dns tnd loaded d = Returns (Inr (), d') \<Longrightarrow>
    daemon_step L d (ProfileUpdate dev dns tnd loaded) d'"
| d_update_error: "d_life d = Running \<Longrightarrow>
    handleProfileUpdate L dev dns tnd loaded d = Returns (Inl e, d1) \<Longrightarrow> daemon_shutdown L ends d1 = Returns d' \<Longrightarrow>
    daemon_step L d (ProfileUpdate dev dns tnd loaded) d'"
| d_portal: "d_life d = Running \<Longrightarrow> d_trafpol d = Some c \<Longrightarrow> trafpol_step c (TPStatus b) c' \<Longrightarrow>
    daemon_step L d (CPDStatus b) (handleCPDStatusUpdate b (d\<lparr>d_trafpol := Some c'\<rparr>))"
| d_trafpol_own: "d_trafpol d = Some c \<Longrightarrow> trafpol_step c ev c' \<Longrightarrow> own_event ev \<Longrightarrow>
    daemon_step L d (InTrafPol ev) (d\<lparr>d_trafpol := Some c'\<rparr>)"
| d_vpnsetup_split: "vpnsetup_step (d_vpnsetup d) (VSplit ev) v \<Longrightarrow>
    daemon_step L d (InVPNSetup ev) (d\<lparr>d_vpnsetup := v\<rparr>)"
| d_vpnsetup_prefixes: "vpnsetup_step (d_vpnsetup d) VPrefixes v \<Longrightarrow>
    daemon_step L d InVPNSetupPrefixes (d\<lparr>d_vpnsetup := v\<rparr>)"
| d_vpnsetup_ensure: "vpnsetup_step (d_vpnsetup d) (VEnsure out) v \<Longrightarrow>
    daemon_step L d (InVPNSetupEnsure out) (d\<lparr>d_vpnsetup := v\<rparr>)"

definition daemon_init :: "'t lib \<Rightarrow> 't Daemon \<Rightarrow> bool" where
  "daemon_init L d \<longleftrightarrow> (\<exists>loaded config d0 e. NewDaemon loaded config = Some d0 \<and>
     Daemon_Start L e d0 = Returns (Inr (), d))"

section \<open>Lemmas on the status\<close>

text \<open>Everything but the status and its view.\<close>

definition core :: "'t Daemon \<Rightarrow> 't Daemon" where
  "core d = d\<lparr>d_status := NewStatus, d_dbus := NewService\<rparr>"

lemma coreD:
  "core d' = core d \<Longrightarrow> d_config d' = d_config d \<and> d_server d' = d_server d \<and> d_tnd d' = d_tnd d \<and>
     d_vpnsetup d' = d_vpnsetup d \<and> d_trafpol d' = d_trafpol d \<and> d_fw d' = d_fw d \<and>
     d_sleepmon d' = d_sleepmon d \<and> d_runner d' = d_runner d \<and> d_sent d' = d_sent d \<and>
     d_token d' = d_token d \<and> d_profile d' = d_profile d \<and> d_profmon d' = d_profmon d \<and>
     d_disableTrafPol d' = d_disableTrafPol d \<and> d_serverIP d' = d_serverIP d \<and>
     d_serverIPAllowed d' = d_serverIPAllowed d \<and> d_life d' = d_life d"
  by (cases d; cases d') (simp add: core_def)

lemma core_publish [simp]: "core (publish u d) = core d" "d_status (publish u d) = d_status d"
  by (simp_all add: publish_def core_def split: outcome.splits)

lemma core_status [simp]: "core (d\<lparr>d_status := s\<rparr>) = core d"
  by (simp add: core_def)

lemmas setStatus_defs = setStatusTrustedNetwork_def setStatusConnectionState_def setStatusIP_def
  setStatusDevice_def setStatusServer_def setStatusServerIP_def setStatusConnectedAt_def
  setStatusServers_def setStatusOCRunning_def setStatusOCPID_def setStatusTrafPolState_def
  setStatusAllowedHosts_def setStatusCaptivePortal_def setStatusTNDState_def
  setStatusTNDServers_def setStatusVPNConfig_def Let_def

lemma core_setStatus:
  "core (setStatusTrustedNetwork b d) = core d" "core (setStatusConnectionState cs d) = core d"
  "core (setStatusIP s d) = core d" "core (setStatusDevice s d) = core d"
  "core (setStatusServer s d) = core d" "core (setStatusServerIP s d) = core d"
  "core (setStatusConnectedAt i d) = core d" "core (setStatusServers l d) = core d"
  "core (setStatusOCRunning b d) = core d" "core (setStatusOCPID w d) = core d"
  "core (setStatusTrafPolState ts d) = core d" "core (setStatusAllowedHosts l d) = core d"
  "core (setStatusCaptivePortal cp d) = core d" "core (setStatusTNDState t d) = core d"
  "core (setStatusTNDServers l d) = core d" "core (setStatusVPNConfig L c d) = core d"
  by (simp_all add: setStatus_defs split: option.splits)

lemmas setStatus_frame [simp] = core_setStatus [THEN coreD]

lemma status_setStatus [simp]:
  "d_status (setStatusTrustedNetwork b d) =
     (d_status d)\<lparr>st_TrustedNetwork := if b then TrustedNetworkTrusted else TrustedNetworkNotTrusted\<rparr>"
  "d_status (setStatusConnectionState cs d) = (d_status d)\<lparr>st_ConnectionState := cs\<rparr>"
  "d_status (setStatusIP s d) = (d_status d)\<lparr>st_IP := s\<rparr>"
  "d_status (setStatusDevice s d) = (d_status d)\<lparr>st_Device := s\<rparr>"
  "d_status (setStatusServer s d) = (d_status d)\<lparr>st_Server := s\<rparr>"
  "d_status (setStatusServerIP s d) = (d_status d)\<lparr>st_ServerIP := s\<rparr>"
  "d_status (setStatusConnectedAt i d) = (d_status d)\<lparr>st_ConnectedAt := i\<rparr>"
  "d_status (setStatusOCRunning b d) =
     (d_status d)\<lparr>st_OCRunning := if b then OCRunningRunning else OCRunningNotRunning\<rparr>"
  "d_status (setStatusOCPID w d) = (d_status d)\<lparr>st_OCPID := w\<rparr>"
  "d_status (setStatusTrafPolState ts d) = (d_status d)\<lparr>st_TrafPolState := ts\<rparr>"
  "d_status (setStatusCaptivePortal cp d) = (d_status d)\<lparr>st_CaptivePortal := cp\<rparr>"
  "d_status (setStatusTNDState t d) = (d_status d)\<lparr>st_TNDState := t\<rparr>"
  "d_status (setStatusVPNConfig L c d) = (d_status d)\<lparr>st_VPNConfig := c\<rparr>"
  by (simp_all add: setStatus_defs vc_Equal_def split: option.splits)

text \<open>Lists of the status are compared, so a nil and an empty slice are the same.\<close>

definition status_but_lists :: "Status \<Rightarrow> Status" where
  "status_but_lists s = s\<lparr>st_Servers := None, st_AllowedHosts := None, st_TNDServers := None\<rparr>"

lemma status_but_listsD:
  "status_but_lists s' = status_but_lists s \<Longrightarrow>
     st_TrustedNetwork s' = st_TrustedNetwork s \<and> st_ConnectionState s' = st_ConnectionState s \<and>
     st_IP s' = st_IP s \<and> st_Device s' = st_Device s \<and> st_Server s' = st_Server s \<and>
     st_ServerIP s' = st_ServerIP s \<and> st_ConnectedAt s' = st_ConnectedAt s \<and>
     st_OCRunning s' = st_OCRunning s \<and> st_OCPID s' = st_OCPID s \<and>
     st_TrafPolState s' = st_TrafPolState s \<and> st_CaptivePortal s' = st_CaptivePortal s \<and>
     st_TNDState s' = st_TNDState s \<and> st_VPNConfig s' = st_VPNConfig s"
  by (cases s; cases s') (simp add: status_but_lists_def)

lemma status_lists:
  "status_but_lists (d_status (setStatusServers l d)) = status_but_lists (d_status d)"
  "status_but_lists (d_status (setStatusAllowedHosts l d)) = status_but_lists (d_status d)"
  "status_but_lists (d_status (setStatusTNDServers l d)) = status_but_lists (d_status d)"
  by (simp_all add: setStatus_defs status_but_lists_def)

lemmas status_lists_frame [simp] = status_lists [THEN status_but_listsD]

text \<open>The view: the service runs and its properties show the status.\<close>

definition view_ok :: "'t lib \<Rightarrow> 't Daemon \<Rightarrow> bool" where
  "view_ok L d \<longleftrightarrow> sv_life (d_dbus d) = Running \<and>
     (\<exists>p. sv_props (d_dbus d) = Some p \<and> props_show vc_JSON (d_status d) p)"

lemma view_setStatus [simp, intro]:
  assumes "view_ok L d"
  shows "view_ok L (setStatusTrustedNetwork b d)" "view_ok L (setStatusConnectionState cs d)"
    "view_ok L (setStatusIP s d)" "view_ok L (setStatusDevice s d)"
    "view_ok L (setStatusServer s d)" "view_ok L (setStatusServerIP s d)"
    "view_ok L (setStatusConnectedAt i d)" "view_ok L (setStatusServers l d)"
    "view_ok L (setStatusOCRunning b d)" "view_ok L (setStatusOCPID w d)"
    "view_ok L (setStatusTrafPolState ts d)" "view_ok L (setStatusAllowedHosts l d)"
    "view_ok L (setStatusCaptivePortal cp d)" "view_ok L (setStatusTNDState t d)"
    "view_ok L (setStatusTNDServers l d)" "view_ok L (setStatusVPNConfig L c d)"
  using assms
  by (auto simp: view_ok_def setStatus_defs publish_def SetProperty_def props_show_def json_property_def
      split: option.splits)

lemma view_frame [simp]:
  "view_ok L (d\<lparr>d_config := c\<rparr>) = view_ok L d" "view_ok L (d\<lparr>d_tnd := t\<rparr>) = view_ok L d"
  "view_ok L (d\<lparr>d_vpnsetup := v\<rparr>) = view_ok L d" "view_ok L (d\<lparr>d_trafpol := p\<rparr>) = view_ok L d"
  "view_ok L (d\<lparr>d_fw := f\<rparr>) = view_ok L d" "view_ok L (d\<lparr>d_sent := r\<rparr>) = view_ok L d"
  "view_ok L (d\<lparr>d_profile := q\<rparr>) = view_ok L d" "view_ok L (d\<lparr>d_disableTrafPol := b\<rparr>) = view_ok L d"
  "view_ok L (d\<lparr>d_serverIP := a\<rparr>) = view_ok L d" "view_ok L (d\<lparr>d_serverIPAllowed := b\<rparr>) = view_ok L d"
  "view_ok L (d\<lparr>d_life := l\<rparr>) = view_ok L d"
  by (simp_all add: view_ok_def)

end
