(* ===== verification/GoFlag.thy ===== *)
theory GoFlag
  imports Prelude
begin

text \<open>
  The command line options of Go's \<^verbatim>\<open>flag\<close> package (\<^verbatim>\<open>FlagSet.Parse\<close>), which the main functions use: text
  and boolean options, written with one or two minus signs, with the value after an equals sign
  or, for texts, in the next argument. The options end at the first argument that is none.
\<close>

section \<open>Parsing\<close>

datatype flag_kind = StringFlag | BoolFlag

datatype flag_value = FString string | FBool bool

datatype flag_error = BadSyntax string | NotDefined string | HelpRequested | InvalidBool string | NeedsArgument string

text \<open>\<^verbatim>\<open>strconv.ParseBool\<close>\<close>

definition ParseBool :: "string \<Rightarrow> bool option" where
  "ParseBool s =
     (if s \<in> {''1'', ''t'', ''T'', ''TRUE'', ''true'', ''True''} then Some True
      else if s \<in> {''0'', ''f'', ''F'', ''FALSE'', ''false'', ''False''} then Some False
      else None)"

text \<open>The name of an option, and the value after the first equals sign.\<close>

definition flag_name :: "string \<Rightarrow> string" where
  "flag_name s = takeWhile (\<lambda>c. c \<noteq> CHR ''='') s"

definition flag_text :: "string \<Rightarrow> string option" where
  "flag_text s = (case dropWhile (\<lambda>c. c \<noteq> CHR ''='') s of [] \<Rightarrow> None | _ # v \<Rightarrow> Some v)"

text \<open>
  The options set, with their last values, and the arguments after the options. The first argument is the kinds
  of the options that are defined.
\<close>

fun flag_Parse ::
  "(string \<times> flag_kind) list \<Rightarrow> (string \<rightharpoonup> flag_value) \<Rightarrow> string list \<Rightarrow> flag_error + ((string \<rightharpoonup> flag_value) \<times> string list)" where
  "flag_Parse fs m [] = Inr (m, [])"
| "flag_Parse fs m (s # args) =
     (if length s < 2 \<or> s ! 0 \<noteq> CHR ''-'' then Inr (m, s # args)
      else if s = ''--'' then Inr (m, args)
      else
        let name = drop (if s ! 1 = CHR ''-'' then 2 else 1) s in
        if name = '''' \<or> name ! 0 = CHR ''-'' \<or> name ! 0 = CHR ''='' then Inl (BadSyntax s)
        else
          (case map_of fs (flag_name name) of
             None \<Rightarrow> Inl (if flag_name name \<in> {''help'', ''h''} then HelpRequested else NotDefined (flag_name name))
           | Some BoolFlag \<Rightarrow>
               (case ParseBool (case flag_text name of None \<Rightarrow> ''true'' | Some v \<Rightarrow> v) of
                  None \<Rightarrow> Inl (InvalidBool (flag_name name))
                | Some b \<Rightarrow> flag_Parse fs (m(flag_name name \<mapsto> FBool b)) args)
           | Some StringFlag \<Rightarrow>
               (case flag_text name of
                  Some v \<Rightarrow> flag_Parse fs (m(flag_name name \<mapsto> FString v)) args
                | None \<Rightarrow>
                    (case args of [] \<Rightarrow> Inl (NeedsArgument (flag_name name))
                     | v # args' \<Rightarrow> flag_Parse fs (m(flag_name name \<mapsto> FString v)) args'))))"

text \<open>The value of an option: the one set, or its default.\<close>

definition flag_string :: "(string \<rightharpoonup> flag_value) \<Rightarrow> string \<Rightarrow> string \<Rightarrow> string" where
  "flag_string m n d = (case m n of Some (FString v) \<Rightarrow> v | _ \<Rightarrow> d)"

definition flag_bool :: "(string \<rightharpoonup> flag_value) \<Rightarrow> string \<Rightarrow> bool \<Rightarrow> bool" where
  "flag_bool m n d = (case m n of Some (FBool b) \<Rightarrow> b | _ \<Rightarrow> d)"

text \<open>\<^verbatim>\<open>FlagSet.Arg\<close>\<close>

definition flag_Arg :: "string list \<Rightarrow> nat \<Rightarrow> string" where
  "flag_Arg args i = (if i < length args then args ! i else '''')"

section \<open>Laws\<close>

text \<open>How an option is written: its text, and what it sets.\<close>

datatype setting = Text string string | TextNext string string | Switch string

primrec setting_args :: "setting \<Rightarrow> string list" where
  "setting_args (Text k v) = [''-'' @ k @ ''='' @ v]"
| "setting_args (TextNext k v) = [''-'' @ k, v]"
| "setting_args (Switch k) = [''-'' @ k]"

primrec setting_apply :: "setting \<Rightarrow> (string \<rightharpoonup> flag_value) \<Rightarrow> (string \<rightharpoonup> flag_value)" where
  "setting_apply (Text k v) m = m(k \<mapsto> FString v)"
| "setting_apply (TextNext k v) m = m(k \<mapsto> FString v)"
| "setting_apply (Switch k) m = m(k \<mapsto> FBool True)"

definition plain_name :: "string \<Rightarrow> bool" where
  "plain_name k \<longleftrightarrow> k \<noteq> '''' \<and> k ! 0 \<noteq> CHR ''-'' \<and> CHR ''='' \<notin> set k"

primrec setting_ok :: "(string \<times> flag_kind) list \<Rightarrow> setting \<Rightarrow> bool" where
  "setting_ok fs (Text k v) \<longleftrightarrow> plain_name k \<and> map_of fs k = Some StringFlag"
| "setting_ok fs (TextNext k v) \<longleftrightarrow> plain_name k \<and> map_of fs k = Some StringFlag"
| "setting_ok fs (Switch k) \<longleftrightarrow> plain_name k \<and> map_of fs k = Some BoolFlag"

lemma plain_name_parts:
  assumes "plain_name k"
  shows "flag_name k = k" "flag_text k = None" "flag_name (k @ CHR ''='' # v) = k" "flag_text (k @ CHR ''='' # v) = Some v"
    "k \<noteq> ''''" "k ! 0 \<noteq> CHR ''-''" "k ! 0 \<noteq> CHR ''=''"
proof -
  have n: "\<forall>c \<in> set k. c \<noteq> CHR ''=''" and k: "k \<noteq> ''''" "k ! 0 \<noteq> CHR ''-''" using assms by (auto simp: plain_name_def)
  then show "k \<noteq> ''''" "k ! 0 \<noteq> CHR ''-''" "k ! 0 \<noteq> CHR ''=''" by (simp_all add: nth_mem)
  have t: "takeWhile (\<lambda>c. c \<noteq> CHR ''='') k = k" "dropWhile (\<lambda>c. c \<noteq> CHR ''='') k = []" using n by (simp_all add: takeWhile_eq_all_conv)
  show "flag_name k = k" "flag_text k = None" by (simp_all add: flag_name_def flag_text_def t)
  show "flag_name (k @ CHR ''='' # v) = k" "flag_text (k @ CHR ''='' # v) = Some v"
    using n by (simp_all add: flag_name_def flag_text_def takeWhile_append2 dropWhile_append2)
qed

lemma ParseBool_true [simp]: "ParseBool ''true'' = Some True"
  by (simp add: ParseBool_def)

text \<open>An option that is written is parsed.\<close>

lemma flag_Parse_setting:
  assumes "setting_ok fs x"
  shows "flag_Parse fs m (setting_args x @ args) = flag_Parse fs (setting_apply x m) args"
proof (cases x)
  case (Text k v)
  then have p: "plain_name k" "map_of fs k = Some StringFlag" using assms by simp_all
  note parts = plain_name_parts [OF p(1)]
  then obtain c k' where "k = c # k'" "c \<noteq> CHR ''-''" "c \<noteq> CHR ''=''" by (cases k) auto
  with parts(3,4) p(2) Text show ?thesis by simp
next
  case (TextNext k v)
  then have p: "plain_name k" "map_of fs k = Some StringFlag" using assms by simp_all
  note parts = plain_name_parts [OF p(1)]
  then obtain c k' where "k = c # k'" "c \<noteq> CHR ''-''" "c \<noteq> CHR ''=''" by (cases k) auto
  with parts(1,2) p(2) TextNext show ?thesis by simp
next
  case (Switch k)
  then have p: "plain_name k" "map_of fs k = Some BoolFlag" using assms by simp_all
  note parts = plain_name_parts [OF p(1)]
  then obtain c k' where "k = c # k'" "c \<noteq> CHR ''-''" "c \<noteq> CHR ''=''" by (cases k) auto
  with parts(1,2) p(2) Switch show ?thesis by simp
qed

lemma flag_Parse_settings:
  "list_all (setting_ok fs) xs \<Longrightarrow> flag_Parse fs m (concat (map setting_args xs) @ args) = flag_Parse fs (fold setting_apply xs m) args"
  by (induction xs arbitrary: m) (simp_all del: flag_Parse.simps add: flag_Parse_setting)

text \<open>The first argument that is no option ends them.\<close>

lemma flag_Parse_stops: "s = '''' \<or> s ! 0 \<noteq> CHR ''-'' \<Longrightarrow> flag_Parse fs m (s # args) = Inr (m, s # args)"
  by auto

end
