(* ===== verification/VPNCScript.thy ===== *)
theory VPNCScript
  imports Daemon NetCIDR GoFlag
begin

text \<open>
  The script that OpenConnect runs (\<^verbatim>\<open>internal/vpncscript\<close>): the settings in its environment, the
  VPN configuration made from them and the configuration update sent to the daemon. The environment is a
  function that yields the empty string for a variable that is not set; XML texts are read by parameters.
\<close>

section \<open>Environment (\<^verbatim>\<open>env.go\<close>)\<close>

type_synonym getenv = "string \<Rightarrow> string"

record env =
  e_reason :: string
  e_vpnGateway :: string
  e_vpnPID :: string
  e_tunDev :: string
  e_idleTimeout :: string
  e_internalIP4Address :: string
  e_internalIP4MTU :: string
  e_internalIP4Netmask :: string
  e_internalIP4NetmaskLen :: string
  e_internalIP4NetAddr :: string
  e_internalIP4DNS :: string
  e_internalIP4NBNS :: string
  e_internalIP6Address :: string
  e_internalIP6Netmask :: string
  e_internalIP6DNS :: string
  e_ciscoDefDomain :: string
  e_ciscoBanner :: string
  e_ciscoSplitDNS :: string
  e_ciscoSplitInc :: "string list"
  e_ciscoSplitExc :: "string list"
  e_ciscoIPv6SplitInc :: "string list"
  e_ciscoIPv6SplitExc :: "string list"
  e_ciscoCSTPOptions :: "string list"
  e_dnsSplitExc :: "string slice"
  e_bypassVirtualSubnetsOnlyV4 :: bool
  e_disableAlwaysOnVPN :: bool
  e_token :: string
  e_socketFile :: string
  e_verbose :: bool

definition parseEnvironmentSplit :: "getenv \<Rightarrow> string \<Rightarrow> string list" where
  "parseEnvironmentSplit getenv prefix =
     (let num = getenv prefix in
      if num = '''' then []
      else (case Atoi num of None \<Rightarrow> []
        | Some n \<Rightarrow>
            foldl (\<lambda>splits i.
              let a = getenv (prefix @ ''_'' @ show_int (int i) @ ''_ADDR'');
                  m = getenv (prefix @ ''_'' @ show_int (int i) @ ''_MASKLEN'')
              in if a = '''' \<or> m = '''' then splits else splits @ [a @ ''/'' @ m]) [] [0..<nat n]))"

text \<open>The values that \<^verbatim>\<open>xml.Unmarshal\<close> finds in the post auth XML, nothing for an error.\<close>

record xml_lib =
  xml_domains :: "string \<Rightarrow> string option"
  xml_bypass :: "string \<Rightarrow> bool option"

definition parseDNSSplitExcXML :: "xml_lib \<Rightarrow> string \<Rightarrow> string slice" where
  "parseDNSSplitExcXML X postAuthXML =
     (case xml_domains X postAuthXML of None \<Rightarrow> None
      | Some domains \<Rightarrow> Some (split_char CHR '','' domains))"

definition parseBypassVSubnetsXML :: "xml_lib \<Rightarrow> string \<Rightarrow> bool" where
  "parseBypassVSubnetsXML X postAuthXML = (case xml_bypass X postAuthXML of None \<Rightarrow> False | Some b \<Rightarrow> b)"

text \<open>\<^verbatim>\<open>strings.SplitN(opt, "=", 2)\<close>: the key and, if there is one, the value.\<close>

definition split_option :: "string \<Rightarrow> string \<times> string option" where
  "split_option opt =
     (case cut_char CHR ''='' opt of None \<Rightarrow> (opt, None) | Some (k, v) \<Rightarrow> (k, Some v))"

fun getPostAuthXML :: "string list \<Rightarrow> string" where
  "getPostAuthXML [] = ''''"
| "getPostAuthXML (opt # opts) =
     (let (key, value) = split_option opt in
      if key \<noteq> ''X-CSTP-Post-Auth-XML'' then getPostAuthXML opts
      else (case value of None \<Rightarrow> '''' | Some v \<Rightarrow> v))"

definition parseDNSSplitExc :: "xml_lib \<Rightarrow> string list \<Rightarrow> string slice" where
  "parseDNSSplitExc X ciscoCSTPOptions =
     (let xml = getPostAuthXML ciscoCSTPOptions in if xml \<noteq> '''' then parseDNSSplitExcXML X xml else None)"

definition parseBypassVSubnets :: "xml_lib \<Rightarrow> string list \<Rightarrow> bool" where
  "parseBypassVSubnets X ciscoCSTPOptions =
     (let xml = getPostAuthXML ciscoCSTPOptions in if xml \<noteq> '''' then parseBypassVSubnetsXML X xml else False)"

fun parseDisableAlwaysOnVPN :: "string list \<Rightarrow> bool" where
  "parseDisableAlwaysOnVPN [] = False"
| "parseDisableAlwaysOnVPN (opt # opts) =
     (let (key, value) = split_option opt in
      if key \<noteq> ''X-CSTP-Disable-Always-On-VPN'' then parseDisableAlwaysOnVPN opts
      else value = Some ''true'')"

definition parseEnvironment :: "xml_lib \<Rightarrow> getenv \<Rightarrow> env" where
  "parseEnvironment X getenv =
     (let options = split_char (CHR 0x0A) (getenv ''CISCO_CSTP_OPTIONS'') in
      \<lparr>e_reason = getenv ''reason'',
       e_vpnGateway = getenv ''VPNGATEWAY'',
       e_vpnPID = getenv ''VPNPID'',
       e_tunDev = getenv ''TUNDEV'',
       e_idleTimeout = getenv ''IDLE_TIMEOUT'',
       e_internalIP4Address = getenv ''INTERNAL_IP4_ADDRESS'',
       e_internalIP4MTU = getenv ''INTERNAL_IP4_MTU'',
       e_internalIP4Netmask = getenv ''INTERNAL_IP4_NETMASK'',
       e_internalIP4NetmaskLen = getenv ''INTERNAL_IP4_NETMASKLEN'',
       e_internalIP4NetAddr = getenv ''INTERNAL_IP4_NETADDR'',
       e_internalIP4DNS = getenv ''INTERNAL_IP4_DNS'',
       e_internalIP4NBNS = getenv ''INTERNAL_IP4_NBNS'',
       e_internalIP6Address = getenv ''INTERNAL_IP6_ADDRESS'',
       e_internalIP6Netmask = getenv ''INTERNAL_IP6_NETMASK'',
       e_internalIP6DNS = getenv ''INTERNAL_IP6_DNS'',
       e_ciscoDefDomain = getenv ''CISCO_DEF_DOMAIN'',
       e_ciscoBanner = getenv ''CISCO_BANNER'',
       e_ciscoSplitDNS = getenv ''CISCO_SPLIT_DNS'',
       e_ciscoSplitInc = parseEnvironmentSplit getenv ''CISCO_SPLIT_INC'',
       e_ciscoSplitExc = parseEnvironmentSplit getenv ''CISCO_SPLIT_EXC'',
       e_ciscoIPv6SplitInc = parseEnvironmentSplit getenv ''CISCO_IPV6_SPLIT_INC'',
       e_ciscoIPv6SplitExc = parseEnvironmentSplit getenv ''CISCO_IPV6_SPLIT_EXC'',
       e_ciscoCSTPOptions = options,
       e_dnsSplitExc = parseDNSSplitExc X options,
       e_bypassVirtualSubnetsOnlyV4 = parseBypassVSubnets X options,
       e_disableAlwaysOnVPN = parseDisableAlwaysOnVPN options,
       e_token = getenv ''oc_daemon_token'',
       e_socketFile = getenv ''oc_daemon_socket_file'',
       e_verbose = (getenv ''oc_daemon_verbose'' = ''true'')\<rparr>)"

section \<open>Configuration (\<^verbatim>\<open>config.go\<close>)\<close>

datatype create_error = PIDError | TimeoutError | MTUError | NetmaskLenError | NetmaskError | DNSError string
  | ExcludeError

type_synonym 'a created = "create_error + 'a"

definition createConfigGeneral :: "env \<Rightarrow> vc_Config \<Rightarrow> vc_Config created" where
  "createConfigGeneral env config =
     (let config = (if e_vpnGateway env \<noteq> '''' then config\<lparr>vc_Gateway := ParseIP (e_vpnGateway env)\<rparr> else config) in
      ebind
        (if e_vpnPID env \<noteq> '''' then
           (case Atoi (e_vpnPID env) of None \<Rightarrow> Inl PIDError | Some pid \<Rightarrow> Inr (config\<lparr>vc_PID := pid\<rparr>))
         else Inr config)
        (\<lambda>config.
           if e_idleTimeout env \<noteq> '''' then
             (case Atoi (e_idleTimeout env) of None \<Rightarrow> Inl TimeoutError
              | Some timeout \<Rightarrow> Inr (config\<lparr>vc_Timeout := timeout\<rparr>))
           else Inr config))"

definition createConfigDevice :: "env \<Rightarrow> vc_Config \<Rightarrow> vc_Config created" where
  "createConfigDevice env config =
     (let config = (if e_tunDev env \<noteq> ''''
            then config\<lparr>vc_Device := (vc_Device config)\<lparr>vc_Device_Name := e_tunDev env\<rparr>\<rparr> else config) in
      if e_internalIP4MTU env \<noteq> '''' then
        (case Atoi (e_internalIP4MTU env) of None \<Rightarrow> Inl MTUError
         | Some mtu \<Rightarrow> Inr (config\<lparr>vc_Device := (vc_Device config)\<lparr>vc_Device_MTU := mtu\<rparr>\<rparr>))
      else Inr config)"

definition createConfigIPv4 :: "env \<Rightarrow> vc_Config \<Rightarrow> vc_Config created" where
  "createConfigIPv4 env config =
     (let config = (if e_internalIP4Address env \<noteq> ''''
            then config\<lparr>vc_IPv4 := (vc_IPv4 config)\<lparr>vc_Address_Address := ParseIP (e_internalIP4Address env)\<rparr>\<rparr>
            else config) in
      if e_internalIP4NetmaskLen env \<noteq> '''' then
        (case Atoi (e_internalIP4NetmaskLen env) of None \<Rightarrow> Inl NetmaskLenError
         | Some maskLen \<Rightarrow>
             Inr (config\<lparr>vc_IPv4 := (vc_IPv4 config)\<lparr>vc_Address_Netmask := CIDRMask maskLen 32\<rparr>\<rparr>))
      else Inr config)"

definition createConfigIPv6 :: "env \<Rightarrow> vc_Config \<Rightarrow> vc_Config created" where
  "createConfigIPv6 env config =
     (if e_internalIP6Netmask env \<noteq> '''' then
        (case ParseCIDR (e_internalIP6Netmask env) of None \<Rightarrow> Inl NetmaskError
         | Some (ip, _, m) \<Rightarrow>
             Inr (config\<lparr>vc_IPv6 := \<lparr>vc_Address_Address = Some ip, vc_Address_Netmask = Some m\<rparr>\<rparr>))
      else Inr config)"

text \<open>The closures \<^verbatim>\<open>parse\<close> of the DNS servers and of the excludes.\<close>

fun parse_servers :: "net_IP list \<Rightarrow> string list \<Rightarrow> net_IP list created" where
  "parse_servers ips [] = Inr ips"
| "parse_servers ips (d # ds) =
     (case ParseIP d of None \<Rightarrow> Inl (DNSError d) | Some ip \<Rightarrow> parse_servers (ips @ [Some ip]) ds)"

fun parse_excludes :: "net_IPNet option list \<Rightarrow> string list \<Rightarrow> net_IPNet option list created" where
  "parse_excludes ipnets [] = Inr ipnets"
| "parse_excludes ipnets (e # es) =
     (case ParseCIDR e of None \<Rightarrow> Inl ExcludeError
      | Some (_, ip, m) \<Rightarrow> parse_excludes (ipnets @ [Some \<lparr>IPNet_IP = ip, IPNet_Mask = Some m\<rparr>]) es)"

definition createConfigDNS :: "env \<Rightarrow> vc_Config \<Rightarrow> vc_Config created" where
  "createConfigDNS env config =
     (let config = (if e_ciscoDefDomain env \<noteq> ''''
            then config\<lparr>vc_DNS := (vc_DNS config)\<lparr>vc_DNS_DefaultDomain := e_ciscoDefDomain env\<rparr>\<rparr> else config) in
      ebind
        (if e_internalIP4DNS env \<noteq> '''' then
           ebind (parse_servers [] (split_char CHR '' '' (e_internalIP4DNS env)))
             (\<lambda>ips. Inr (config\<lparr>vc_DNS := (vc_DNS config)\<lparr>vc_DNS_ServersIPv4 := Some ips\<rparr>\<rparr>))
         else Inr config)
        (\<lambda>config.
           if e_internalIP6DNS env \<noteq> '''' then
             ebind (parse_servers [] (split_char CHR '' '' (e_internalIP6DNS env)))
               (\<lambda>ips. Inr (config\<lparr>vc_DNS := (vc_DNS config)\<lparr>vc_DNS_ServersIPv6 := Some ips\<rparr>\<rparr>))
           else Inr config))"

definition createConfigSplit :: "env \<Rightarrow> vc_Config \<Rightarrow> vc_Config created" where
  "createConfigSplit env config =
     ebind
       (if e_ciscoSplitExc env \<noteq> [] then
          ebind (parse_excludes [] (e_ciscoSplitExc env))
            (\<lambda>ipnets. Inr (config\<lparr>vc_Split := (vc_Split config)\<lparr>vc_Split_ExcludeIPv4 := Some ipnets\<rparr>\<rparr>))
        else Inr config)
       (\<lambda>config. ebind
         (if e_ciscoIPv6SplitExc env \<noteq> [] then
            ebind (parse_excludes [] (e_ciscoIPv6SplitExc env))
              (\<lambda>ipnets. Inr (config\<lparr>vc_Split := (vc_Split config)\<lparr>vc_Split_ExcludeIPv6 := Some ipnets\<rparr>\<rparr>))
          else Inr config)
         (\<lambda>config.
            let config = config\<lparr>vc_Split := (vc_Split config)\<lparr>vc_Split_ExcludeDNS := e_dnsSplitExc env\<rparr>\<rparr>
            in Inr (config\<lparr>vc_Split := (vc_Split config)
                 \<lparr>vc_Split_ExcludeVirtualSubnetsOnlyIPv4 := e_bypassVirtualSubnetsOnlyV4 env\<rparr>\<rparr>)))"

definition createConfigFlags :: "env \<Rightarrow> vc_Config \<Rightarrow> vc_Config" where
  "createConfigFlags env config =
     config\<lparr>vc_Flags := (vc_Flags config)\<lparr>vc_Flags_DisableAlwaysOnVPN := e_disableAlwaysOnVPN env\<rparr>\<rparr>"

definition createConfig :: "env \<Rightarrow> vc_Config created" where
  "createConfig env =
     ebind (createConfigGeneral env vc_New) (\<lambda>config.
     ebind (createConfigDevice env config) (\<lambda>config.
     ebind (createConfigIPv4 env config) (\<lambda>config.
     ebind (createConfigIPv6 env config) (\<lambda>config.
     ebind (createConfigDNS env config) (\<lambda>config.
     ebind (createConfigSplit env config) (\<lambda>config.
     Inr (createConfigFlags env config)))))))"

definition createConfigUpdate :: "env \<Rightarrow> VPNConfigUpdate created" where
  "createConfigUpdate env =
     (if e_reason env = ''connect''
      then ebind (createConfig env) (\<lambda>c. Inr \<lparr>vu_Reason = e_reason env, vu_Config = Some c\<rparr>)
      else Inr \<lparr>vu_Reason = e_reason env, vu_Config = None\<rparr>)"

section \<open>Client and main function (\<^verbatim>\<open>client.go\<close>, \<^verbatim>\<open>cmd.go\<close>)\<close>

datatype script_error = DialError | JSONError | WriteError | ReplyError read_error | TokenError
  | CreateError create_error | UnknownReason

text \<open>
  The arguments are whether the daemon's socket can be connected to, whether the message can be written,
  and the bytes that the daemon replies. The result are the bytes written and whether the client succeeds;
  an error reply of the daemon is only logged.
\<close>

definition runClient ::
  "u8 list \<Rightarrow> bool \<Rightarrow> bool \<Rightarrow> u8 list \<Rightarrow> VPNConfigUpdate \<Rightarrow> u8 list \<times> (script_error + unit)" where
  "runClient token dialOk writeOk reply update =
     (if \<not> dialOk then ([], Inl DialError)
      else (case VPNConfigUpdate_JSON update of None \<Rightarrow> ([], Inl JSONError)
        | Some b \<Rightarrow>
            (let msg = NewMessage token TypeVPNConfigUpdate b in
             if \<not> writeOk then ([], Inl WriteError)
             else (case ReadMessage token reply of
               Inl e \<Rightarrow> (WriteMessage msg, Inl (ReplyError e))
             | Inr (_, _) \<Rightarrow> (WriteMessage msg, Inr ())))))"

definition default_socket :: string where
  "default_socket = ''/run/oc-daemon/daemon.sock''"

text \<open>
  After the command line was parsed: the socket that is connected to, the bytes written and the
  result. The token of the package is zero initially.
\<close>

definition script_run ::
  "xml_lib \<Rightarrow> bool \<Rightarrow> bool \<Rightarrow> u8 list \<Rightarrow> getenv \<Rightarrow> string \<times> u8 list \<times> (script_error + unit)" where
  "script_run X dialOk writeOk reply getenv =
     (let e = parseEnvironment X getenv;
          sock = (if e_socketFile e \<noteq> '''' then e_socketFile e else default_socket)
      in case SetToken (e_token e) (replicate TokenLength 0) of
           None \<Rightarrow> (sock, [], Inl TokenError)
         | Some token \<Rightarrow>
             if e_reason e \<in> {''pre-init'', ''connect'', ''disconnect'', ''attempt-reconnect'', ''reconnect''}
             then (case createConfigUpdate e of
                 Inl err \<Rightarrow> (sock, [], Inl (CreateError err))
               | Inr c \<Rightarrow> (sock, runClient token dialOk writeOk reply c))
             else (sock, [], Inl UnknownReason))"

text \<open>
  The main function: the options, the version, or the update that is sent. Nothing is returned if the version
  was asked for, and no update is made after a wrong option.
\<close>

definition script_options :: "(string \<times> flag_kind) list" where
  "script_options = [(''verbose'', BoolFlag), (''version'', BoolFlag)]"

definition script_main ::
  "xml_lib \<Rightarrow> bool \<Rightarrow> bool \<Rightarrow> u8 list \<Rightarrow> getenv \<Rightarrow> string list \<Rightarrow>
     flag_error + (string \<times> u8 list \<times> (script_error + unit)) option" where
  "script_main X dialOk writeOk reply getenv args =
     map_sum id (\<lambda>(m, _). if flag_bool m ''version'' False then None else Some (script_run X dialOk writeOk reply getenv))
       (flag_Parse script_options Map.empty (drop 1 args))"

section \<open>Lemmas\<close>

lemma parse_excludes_iff:
  "parse_excludes acc es = Inr ns \<longleftrightarrow>
     (\<forall>e \<in> set es. ParseCIDR e \<noteq> None) \<and>
     ns = acc @ map (\<lambda>e. Some \<lparr>IPNet_IP = fst (snd (the (ParseCIDR e))), IPNet_Mask = Some (snd (snd (the (ParseCIDR e))))\<rparr>) es"
  by (induction acc es rule: parse_excludes.induct) (auto split: option.splits)

lemma parse_servers_iff:
  "parse_servers acc ds = Inr ips \<longleftrightarrow> (\<forall>d \<in> set ds. ParseIP d \<noteq> None) \<and> ips = acc @ map ParseIP ds"
  by (induction acc ds rule: parse_servers.induct) (auto split: option.splits)

text \<open>Only \<^verbatim>\<open>createConfigSplit\<close> touches the split routing settings.\<close>

lemma create_keeps_split:
  "createConfigGeneral e c = Inr c' \<Longrightarrow> vc_Split c' = vc_Split c"
  "createConfigDevice e c = Inr c' \<Longrightarrow> vc_Split c' = vc_Split c"
  "createConfigIPv4 e c = Inr c' \<Longrightarrow> vc_Split c' = vc_Split c"
  "createConfigIPv6 e c = Inr c' \<Longrightarrow> vc_Split c' = vc_Split c"
  "createConfigDNS e c = Inr c' \<Longrightarrow> vc_Split c' = vc_Split c"
  "vc_Split (createConfigFlags e c) = vc_Split c"
  by (auto simp: createConfigGeneral_def createConfigDevice_def createConfigIPv4_def createConfigIPv6_def
      createConfigDNS_def createConfigFlags_def Let_def ebind_Inr_iff split: if_splits option.splits)

definition excludes_of :: "string list \<Rightarrow> net_IPNet option slice" where
  "excludes_of es =
     (if es = [] then None
      else Some (map (\<lambda>e. Some \<lparr>IPNet_IP = fst (snd (the (ParseCIDR e))), IPNet_Mask = Some (snd (snd (the (ParseCIDR e))))\<rparr>) es))"

lemma createConfig_split:
  assumes "createConfig e = Inr c"
  shows "vc_Split c = \<lparr>vc_Split_ExcludeIPv4 = excludes_of (e_ciscoSplitExc e),
      vc_Split_ExcludeIPv6 = excludes_of (e_ciscoIPv6SplitExc e), vc_Split_ExcludeDNS = e_dnsSplitExc e,
      vc_Split_ExcludeVirtualSubnetsOnlyIPv4 = e_bypassVirtualSubnetsOnlyV4 e\<rparr>"
    "\<forall>s \<in> set (e_ciscoSplitExc e) \<union> set (e_ciscoIPv6SplitExc e). ParseCIDR s \<noteq> None"
proof -
  from assms obtain c1 c2 c3 c4 c5 c6 where
    s: "createConfigGeneral e vc_New = Inr c1" "createConfigDevice e c1 = Inr c2" "createConfigIPv4 e c2 = Inr c3"
    "createConfigIPv6 e c3 = Inr c4" "createConfigDNS e c4 = Inr c5" "createConfigSplit e c5 = Inr c6"
    "c = createConfigFlags e c6"
    by (auto simp: createConfig_def ebind_Inr_iff)
  then have "vc_Split c5 = vc_Split vc_New" "vc_Split c = vc_Split c6" using create_keeps_split by metis+
  with s(6) show "vc_Split c = \<lparr>vc_Split_ExcludeIPv4 = excludes_of (e_ciscoSplitExc e),
      vc_Split_ExcludeIPv6 = excludes_of (e_ciscoIPv6SplitExc e), vc_Split_ExcludeDNS = e_dnsSplitExc e,
      vc_Split_ExcludeVirtualSubnetsOnlyIPv4 = e_bypassVirtualSubnetsOnlyV4 e\<rparr>"
    "\<forall>s \<in> set (e_ciscoSplitExc e) \<union> set (e_ciscoIPv6SplitExc e). ParseCIDR s \<noteq> None"
    by (auto simp: createConfigSplit_def ebind_Inr_iff Let_def parse_excludes_iff excludes_of_def vc_New_def
        split: if_splits)
qed

lemma excludes_of_no_nil: "None \<notin> set (slice_list (excludes_of es))"
  by (auto simp: excludes_of_def)

lemma createConfig_no_nil: "createConfig e = Inr c \<Longrightarrow> vc_no_nil c"
  by (simp add: vc_no_nil_def createConfig_split excludes_of_no_nil)

lemma Atoi_show: "n < 2 ^ 63 \<Longrightarrow> Atoi (show_dec n) = Some (int n)"
proof -
  assume n: "n < 2 ^ 63"
  obtain c cs where s: "show_dec n = c # cs" using show_base_nonempty [of 10 n] by (cases "show_dec n") auto
  then have "c \<in> digit_chars" using show_base_chars [of 10 n] by auto
  then have "c \<noteq> CHR ''-''" "c \<noteq> CHR ''+''" by (auto simp: digit_chars_def)
  moreover have "read_base 10 (c # cs) = Some n" using s read_base_show_base [of 10 n] by simp
  moreover have "int n < 2 ^ 63" using n by (simp add: of_nat_less_numeral_power_cancel_iff [symmetric])
  ultimately show ?thesis by (simp add: Atoi_def s)
qed

text \<open>The list of the environment's excludes, when all of their variables are set.\<close>

lemma parseEnvironmentSplit_all:
  assumes "getenv prefix = show_dec n" "n < 2 ^ 63"
    and "\<And>i. i < n \<Longrightarrow> getenv (prefix @ ''_'' @ show_int (int i) @ ''_ADDR'') = a i \<and> a i \<noteq> ''''"
    and "\<And>i. i < n \<Longrightarrow> getenv (prefix @ ''_'' @ show_int (int i) @ ''_MASKLEN'') = m i \<and> m i \<noteq> ''''"
  shows "parseEnvironmentSplit getenv prefix = map (\<lambda>i. a i @ ''/'' @ m i) [0..<n]"
proof -
  let ?f = "\<lambda>splits i.
      let a = getenv (prefix @ ''_'' @ show_int (int i) @ ''_ADDR'');
          m = getenv (prefix @ ''_'' @ show_int (int i) @ ''_MASKLEN'')
      in if a = '''' \<or> m = '''' then splits else splits @ [a @ ''/'' @ m]"
  have "foldl ?f acc [0..<k] = acc @ map (\<lambda>i. a i @ ''/'' @ m i) [0..<k]" if "k \<le> n" for acc k
    using that assms(3,4) by (induction k) (simp_all add: Let_def)
  then show ?thesis using assms(1,2) by (simp add: parseEnvironmentSplit_def Atoi_show Let_def)
qed

text \<open>The prefix that the daemon makes from an exclude in CIDR form.\<close>

lemma exclude_prefix:
  assumes "n \<le> 32"
  shows "IPNet_prefix4 \<lparr>IPNet_IP = fst (snd (the (ParseCIDR (string4 w @ ''/'' @ show_dec n)))),
      IPNet_Mask = Some (snd (snd (the (ParseCIDR (string4 w @ ''/'' @ show_dec n)))))\<rparr> =
    Some (PrefixFrom (IP4 (top_bits n w)) (int n))"
proof -
  have "CHR ''/'' \<notin> set (string4 w)" using set_string4 [of w] by auto
  with ParseCIDR_v4 [OF ParseAddr_string4 this, of "show_dec n" n] assms show ?thesis
    by (simp add: IPNet_prefix4_def To4_def AddrFromSlice_As16)
qed

lemma map_filter_all: "(\<And>x. x \<in> set xs \<Longrightarrow> f x = Some (g x)) \<Longrightarrow> List.map_filter f xs = map g xs"
  by (induction xs) (auto simp: List.map_filter_def)

lemma map_filter_map: "List.map_filter f (map g xs) = List.map_filter (f \<circ> g) xs"
  by (induction xs) (auto simp: List.map_filter_def)

lemma string4_nonempty: "string4 w \<noteq> []"
  using ParseAddr_string4 [of w] by (auto simp: ParseAddr_def)

lemma deref_all_excludes_of:
  "deref_all (excludes_of es) = Some (map (\<lambda>e. \<lparr>IPNet_IP = fst (snd (the (ParseCIDR e))),
     IPNet_Mask = Some (snd (snd (the (ParseCIDR e))))\<rparr>) es)"
  by (simp add: excludes_of_def deref_all_def those_map_Some)

lemma GetVPNConfig_split4:
  assumes "GetVPNConfig v = Some c" "deref_all (vc_Split_ExcludeIPv4 (vc_Split v)) = Some nets"
  shows "vs_ExcludeIPv4 (vpn_Split c) = collect IPNet_prefix4 nets"
  using assms by (auto simp: GetVPNConfig_def Let_def split: option.splits)

text \<open>The configuration that the script makes can be encoded: its addresses are addresses and its numbers fit.\<close>

lemma Atoi_is_int64: "Atoi s = Some i \<Longrightarrow> is_int64 i"
  by (auto simp: Atoi_def is_int64_def split: list.splits if_splits option.splits)

lemma ParseIP_ok: "ok_IP (ParseIP s)"
  by (auto simp: ParseIP_def ok_IP_def slice_len_def slice_list_def split: option.splits)

lemma ParseCIDR_ok:
  assumes "ParseCIDR s = Some (ip, n, m)"
  shows "ok_IP (Some ip)" "ok_IP n"
proof -
  from assms obtain a k where a: "ip = As16 a" "n = IP_Mask (As16 a) m" "CIDRMask (int k) (int (BitLen a)) = Some m"
    by (auto simp: ParseCIDR_def split: option.splits prod.splits if_splits)
  then show "ok_IP (Some ip)" by (simp add: ok_IP_def slice_len_def slice_list_def)
  have "8 * length m = BitLen a" using CIDRMask_Size [OF a(3)] by simp
  then have "length m = 4 \<or> length m = 16 \<or> length m = 0" by (cases a) simp_all
  then show "ok_IP n" unfolding a(2)
    by (auto simp: IP_Mask_def Let_def ok_IP_def slice_len_def slice_list_def split: if_splits)
qed

lemma valid_utf8_cut:
  assumes "valid_utf8 (xs @ c # ys)" "(of_char c :: nat) < 128"
  shows "valid_utf8 xs \<and> valid_utf8 ys"
  using assms(1)
proof (induction "length xs" arbitrary: xs rule: less_induct)
  case less
  show ?case
  proof (cases xs)
    case Nil
    with less.prems assms(2) show ?thesis by (simp add: valid_utf8.simps [of "c # ys"] valid_utf8.simps [of "[]"])
  next
    case (Cons x xs')
    let ?s = "xs @ c # ys" and ?n = "rune_len (xs @ c # ys)"
    from less.prems Cons have n: "0 < ?n" "valid_utf8 (drop ?n ?s)"
      unfolding valid_utf8.simps [of ?s] by (simp_all split: if_splits)
    have le: "?n \<le> length xs"
    proof (rule ccontr)
      assume "\<not> ?n \<le> length xs"
      moreover define b where "b = (\<lambda>i. if i < length ?s then of_char (?s ! i) else 0 :: nat)"
      then have "rune_of b = ?n" by (simp add: rune_len_def)
      ultimately have "0x80 \<le> b (length xs)" using Cons by (intro rune_of_cont) simp_all
      with assms(2) show False by (simp add: b_def nth_append)
    qed
    have "take ?n ?s = take ?n xs" using le by simp
    then have "rune_len xs = ?n"
      using rune_len_take(2) [of ?s "drop ?n xs"] n(1) Cons by simp
    moreover have "drop ?n ?s = drop ?n xs @ c # ys" using le by simp
    then have "valid_utf8 (drop ?n xs) \<and> valid_utf8 ys" using less.hyps [of "drop ?n xs"] n Cons by simp
    ultimately show ?thesis using n(1) Cons by (simp add: valid_utf8.simps [of "x # xs'"])
  qed
qed

lemma valid_utf8_split:
  assumes "valid_utf8 s" "(of_char c :: nat) < 128"
  shows "list_all valid_utf8 (split_char c s)"
  using assms(1)
proof (induction "length s" arbitrary: s rule: less_induct)
  case less
  show ?case
  proof (cases "c \<in> set s")
    case True
    then obtain xs ys where s: "s = xs @ c # ys" "c \<notin> set xs" by (metis split_list_first)
    with valid_utf8_cut [OF _ assms(2), of xs ys] less.prems have "valid_utf8 xs" "valid_utf8 ys" by simp_all
    with less.hyps [of ys] s show ?thesis by (simp add: split_char_append_sep split_char_free)
  qed (use less.prems in \<open>simp add: split_char_free\<close>)
qed

definition env_utf8 :: "env \<Rightarrow> bool" where
  "env_utf8 e \<longleftrightarrow> valid_utf8 (e_reason e) \<and> valid_utf8 (e_tunDev e) \<and> valid_utf8 (e_ciscoDefDomain e) \<and>
     list_all valid_utf8 (slice_list (e_dnsSplitExc e))"

lemma ok_New: "ok_Config vc_New"
  by (simp add: ok_Config_def ok_DNS_def ok_Split_def ok_IP_def vc_New_def slice_list_def is_int64_def valid_utf8_ascii)

lemma create_ok:
  "createConfigGeneral e c = Inr c' \<Longrightarrow> ok_Config c \<Longrightarrow> ok_Config c'"
  "createConfigDevice e c = Inr c' \<Longrightarrow> env_utf8 e \<Longrightarrow> ok_Config c \<Longrightarrow> ok_Config c'"
  "createConfigIPv4 e c = Inr c' \<Longrightarrow> ok_Config c \<Longrightarrow> ok_Config c'"
  "createConfigIPv6 e c = Inr c' \<Longrightarrow> ok_Config c \<Longrightarrow> ok_Config c'"
  "ok_Config c \<Longrightarrow> ok_Config (createConfigFlags e c)"
  subgoal
    by (auto simp: createConfigGeneral_def Let_def ebind_Inr_iff ok_Config_def Atoi_is_int64 ParseIP_ok
        split: if_splits option.splits)
  subgoal
    by (auto simp: createConfigDevice_def Let_def ok_Config_def Atoi_is_int64 env_utf8_def split: if_splits option.splits)
  subgoal
    by (auto simp: createConfigIPv4_def Let_def ok_Config_def ParseIP_ok split: if_splits option.splits)
  subgoal
    by (auto simp: createConfigIPv6_def ok_Config_def ParseCIDR_ok split: if_splits option.splits)
  subgoal
    by (simp add: createConfigFlags_def ok_Config_def)
  done

lemma slice_list_Some: "slice_list (Some xs) = xs"
  by (simp add: slice_list_def)

lemma create_ok_DNS:
  assumes "createConfigDNS e c = Inr c'" "env_utf8 e" "ok_Config c"
  shows "ok_Config c'"
proof -
  have "ok_DNS (vc_DNS c) \<Longrightarrow> ok_DNS (vc_DNS c')"
    using assms(1,2)
    by (auto simp: createConfigDNS_def Let_def ebind_Inr_iff ok_DNS_def env_utf8_def ParseIP_ok parse_servers_iff
        slice_list_Some list_all_iff split: if_splits)
  moreover have "c' = c\<lparr>vc_DNS := vc_DNS c'\<rparr>"
    using assms(1) by (auto simp: createConfigDNS_def Let_def ebind_Inr_iff split: if_splits)
  then obtain n where "c' = c\<lparr>vc_DNS := n\<rparr>" by blast
  ultimately show ?thesis using assms(3) by (auto simp: ok_Config_def)
qed

lemma excludes_ok:
  assumes "\<forall>s \<in> set es. ParseCIDR s \<noteq> None"
  shows "list_all (\<lambda>p. \<forall>n \<in> set_option p. ok_IP (IPNet_IP n)) (slice_list (excludes_of es))"
proof -
  have "ok_IP (fst (snd (the (ParseCIDR s))))" if "s \<in> set es" for s
    using that assms ParseCIDR_ok(2) by (cases "the (ParseCIDR s)") fastforce
  then show ?thesis by (auto simp: excludes_of_def slice_list_def list_all_iff)
qed

lemma createConfig_ok:
  assumes "createConfig e = Inr c" "env_utf8 e"
  shows "ok_Config c"
proof -
  from assms(1) obtain c1 c2 c3 c4 c5 c6 where
    s: "createConfigGeneral e vc_New = Inr c1" "createConfigDevice e c1 = Inr c2" "createConfigIPv4 e c2 = Inr c3"
    "createConfigIPv6 e c3 = Inr c4" "createConfigDNS e c4 = Inr c5" "createConfigSplit e c5 = Inr c6"
    "c = createConfigFlags e c6"
    by (auto simp: createConfig_def ebind_Inr_iff)
  from s(1-5) have c5: "ok_Config c5" using create_ok(1-4) create_ok_DNS ok_New assms(2) by blast
  have "ok_Split (vc_Split c)"
    using createConfig_split [OF assms(1)] excludes_ok [of "e_ciscoSplitExc e"] excludes_ok [of "e_ciscoIPv6SplitExc e"] assms(2)
    by (simp add: ok_Split_def env_utf8_def)
  moreover have "\<exists>s'. c6 = c5\<lparr>vc_Split := s'\<rparr>"
    using s(6) by (auto simp: createConfigSplit_def ebind_Inr_iff Let_def split: if_splits)
  then have "\<exists>s' f. c = c5\<lparr>vc_Split := s', vc_Flags := f\<rparr>"
    unfolding s(7) createConfigFlags_def by auto
  ultimately show ?thesis using c5 by (auto simp: ok_Config_def)
qed

lemma createConfigUpdate_ok: "createConfigUpdate e = Inr u \<Longrightarrow> env_utf8 e \<Longrightarrow> ok_update u"
  using createConfig_ok by (auto simp: createConfigUpdate_def ebind_Inr_iff ok_update_def env_utf8_def split: if_splits)

text \<open>The environment of texts in UTF-8.\<close>

lemma parseEnvironment_utf8:
  assumes "\<forall>v. valid_utf8 (getenv v)" "\<forall>x d. xml_domains X x = Some d \<longrightarrow> valid_utf8 d"
  shows "env_utf8 (parseEnvironment X getenv)"
proof -
  have "(of_char CHR '','' :: nat) < 128" by simp
  then have "list_all valid_utf8 (slice_list (parseDNSSplitExc X options))" for options
    using assms(2) valid_utf8_split
    by (auto simp: parseDNSSplitExc_def parseDNSSplitExcXML_def Let_def slice_list_def split: option.splits)
  then show ?thesis using assms(1) by (simp add: env_utf8_def parseEnvironment_def Let_def)
qed

section \<open>Example\<close>

text \<open>The environment of a connect with one excluded network, and of a daemon with token zero.\<close>

definition example_vars :: "(string \<times> string) list" where
  "example_vars =
     [(''reason'', ''connect''), (''VPNGATEWAY'', ''10.0.0.1''), (''VPNPID'', ''12345''), (''IDLE_TIMEOUT'', ''300''),
      (''TUNDEV'', ''tun0''), (''INTERNAL_IP4_MTU'', ''1300''), (''INTERNAL_IP4_ADDRESS'', ''192.168.1.123''),
      (''INTERNAL_IP4_NETMASKLEN'', ''24''), (''INTERNAL_IP4_DNS'', ''192.168.1.1 192.168.1.2''),
      (''CISCO_SPLIT_EXC'', ''1''), (''CISCO_SPLIT_EXC_0_ADDR'', ''172.16.0.0''),
      (''CISCO_SPLIT_EXC_0_MASKLEN'', ''12''), (''CISCO_CSTP_OPTIONS'', ''X-CSTP-Disable-Always-On-VPN=true''),
      (''oc_daemon_token'', b64_encode (replicate TokenLength 0))]"

definition example_getenv :: getenv where
  "example_getenv k = (case map_of example_vars k of None \<Rightarrow> [] | Some v \<Rightarrow> v)"

definition example_xml :: xml_lib where
  "example_xml = \<lparr>xml_domains = (\<lambda>_. None), xml_bypass = (\<lambda>_. None)\<rparr>"

definition example_config :: vc_Config where
  "example_config = (case createConfig (parseEnvironment example_xml example_getenv) of Inl _ \<Rightarrow> vc_New | Inr c \<Rightarrow> c)"

lemma example_created: "createConfig (parseEnvironment example_xml example_getenv) = Inr example_config"
proof -
  have "isl (createConfig (parseEnvironment example_xml example_getenv)) = False" by code_simp
  then show ?thesis by (auto simp: example_config_def split: sum.splits)
qed

section \<open>Properties\<close>

text \<open>
  C32: The networks to exclude reach the daemon: when the environment lists IPv4 networks in its
  variables, address and mask length, the daemon's form of the script's configuration
  excludes exactly these networks, in their order, after it was sent and decoded.
\<close>

theorem script_excludes:
  assumes "getenv ''CISCO_SPLIT_EXC'' = show_dec (length nets)" "length nets < 2 ^ 63"
    and "\<And>i. i < length nets \<Longrightarrow> snd (nets ! i) \<le> 32 \<and>
      getenv (''CISCO_SPLIT_EXC_'' @ show_int (int i) @ ''_ADDR'') = string4 (fst (nets ! i)) \<and>
      getenv (''CISCO_SPLIT_EXC_'' @ show_int (int i) @ ''_MASKLEN'') = show_dec (snd (nets ! i))"
    and "createConfig (parseEnvironment X getenv) = Inr c"
    and "\<forall>v. valid_utf8 (getenv v)" "\<forall>x d. xml_domains X x = Some d \<longrightarrow> valid_utf8 d"
  shows "\<exists>b c' vpn. vc_JSON c = Some b \<and> vc_NewFromJSON b = Some c' \<and> GetVPNConfig c' = Some vpn \<and>
    slice_list (vs_ExcludeIPv4 (vpn_Split vpn)) = map (\<lambda>(w, n). PrefixFrom (IP4 (top_bits n w)) (int n)) nets"
proof -
  let ?s = "\<lambda>(w, n). string4 w @ ''/'' @ show_dec n"
  let ?x = "\<lambda>s. \<lparr>IPNet_IP = fst (snd (the (ParseCIDR s))), IPNet_Mask = Some (snd (snd (the (ParseCIDR s))))\<rparr>"
  have "parseEnvironmentSplit getenv ''CISCO_SPLIT_EXC'' =
      map (\<lambda>i. string4 (fst (nets ! i)) @ ''/'' @ show_dec (snd (nets ! i))) [0..<length nets]"
    by (rule parseEnvironmentSplit_all) (use assms(1-3) show_base_nonempty in \<open>auto simp: string4_nonempty\<close>)
  also have "\<dots> = map ?s (map ((!) nets) [0..<length nets])" by (simp add: case_prod_unfold)
  finally have e: "e_ciscoSplitExc (parseEnvironment X getenv) = map ?s nets"
    by (simp add: parseEnvironment_def Let_def map_nth)
  have "ok_Config c" using createConfig_ok [OF assms(4) parseEnvironment_utf8 [OF assms(5,6)]] .
  from vc_round_trip [OF this] obtain b where b: "vc_JSON c = Some b" "vc_NewFromJSON b = Some (norm_Config c)" .
  obtain vpn where v: "GetVPNConfig (norm_Config c) = Some vpn"
    using GetVPNConfig_total vc_no_nil_norm createConfig_no_nil [OF assms(4)] by blast
  have "deref_all (vc_Split_ExcludeIPv4 (vc_Split c)) = Some (map (?x \<circ> ?s) nets)"
    using createConfig_split(1) [OF assms(4)] e by (simp add: deref_all_excludes_of)
  then have "deref_all (vc_Split_ExcludeIPv4 (vc_Split (norm_Config c))) = Some (map norm_IPNet (map (?x \<circ> ?s) nets))"
    by (simp add: norm_select deref_all_def slice_list_map those_map_option)
  from GetVPNConfig_split4 [OF v this]
  have "slice_list (vs_ExcludeIPv4 (vpn_Split vpn)) = List.map_filter IPNet_prefix4 (map norm_IPNet (map (?x \<circ> ?s) nets))"
    by (simp only: collect_list)
  also have "\<dots> = List.map_filter IPNet_prefix4 (map (?x \<circ> ?s) nets)"
    by (rule map_filter_map_eq) (rule IPNet_prefix_norm(1))
  also have "\<dots> = List.map_filter (IPNet_prefix4 \<circ> (?x \<circ> ?s)) nets" by (simp only: map_filter_map)
  also have "\<dots> = map (\<lambda>(w, n). PrefixFrom (IP4 (top_bits n w)) (int n)) nets"
  proof (rule map_filter_all)
    fix x assume "x \<in> set nets"
    then have "snd x \<le> 32" using assms(3) by (metis in_set_conv_nth)
    then show "(IPNet_prefix4 \<circ> (?x \<circ> ?s)) x = Some ((\<lambda>(w, n). PrefixFrom (IP4 (top_bits n w)) (int n)) x)"
      using exclude_prefix [of "snd x" "fst x"] by (simp add: case_prod_unfold)
  qed
  finally show ?thesis using b v by blast
qed

lemma example_utf8: "\<forall>v. valid_utf8 (example_getenv v)"
proof -
  have "list_all (\<lambda>kv. \<forall>c \<in> set (snd kv). (of_char c :: nat) < 128) example_vars" by code_simp
  then have ascii: "\<forall>kv \<in> set example_vars. \<forall>c \<in> set (snd kv). (of_char c :: nat) < 128" by (simp add: list_all_iff)
  have "\<forall>c \<in> set (example_getenv v). (of_char c :: nat) < 128" for v
  proof (cases "map_of example_vars v")
    case (Some w)
    from map_of_SomeD [OF Some] ascii have "\<forall>c \<in> set w. (of_char c :: nat) < 128" by fastforce
    then show ?thesis unfolding example_getenv_def Some by simp
  qed (unfold example_getenv_def, simp)
  then show ?thesis using valid_utf8_ascii by blast
qed

theorem script_excludes_witness:
  "\<exists>b c' vpn. vc_JSON example_config = Some b \<and> vc_NewFromJSON b = Some c' \<and> GetVPNConfig c' = Some vpn \<and>
     slice_list (vs_ExcludeIPv4 (vpn_Split vpn)) = [PrefixFrom (IP4 (top_bits 12 0xAC100000)) 12]"
proof -
  have "example_getenv ''CISCO_SPLIT_EXC'' = show_dec 1"
    "example_getenv (''CISCO_SPLIT_EXC_'' @ show_int 0 @ ''_ADDR'') = string4 0xAC100000"
    "example_getenv (''CISCO_SPLIT_EXC_'' @ show_int 0 @ ''_MASKLEN'') = show_dec 12"
    by code_simp+
  then show ?thesis
    using script_excludes [of example_getenv "[(0xAC100000, 12)]" example_xml example_config] example_created example_utf8
    by (simp add: example_xml_def)
qed

text \<open>
  Updates of the script are safe for the daemon: their configuration has no nil exclude, so its
  conversion does not panic, and the daemon accepts them if and only if their configuration is valid.
\<close>

lemma script_update_safe:
  assumes "createConfigUpdate e = Inr u"
    and "e_reason e \<in> {''pre-init'', ''connect'', ''disconnect'', ''attempt-reconnect'', ''reconnect''}"
  shows "(VPNConfigUpdate_Valid u \<longleftrightarrow> (case vu_Config u of None \<Rightarrow> True | Some c \<Rightarrow> vc_Valid c)) \<and>
     (case vu_Config u of None \<Rightarrow> True | Some c \<Rightarrow> GetVPNConfig c \<noteq> None)"
proof (cases "e_reason e = ''connect''")
  case True
  with assms(1) obtain c where c: "createConfig e = Inr c" "u = \<lparr>vu_Reason = ''connect'', vu_Config = Some c\<rparr>"
    by (auto simp: createConfigUpdate_def ebind_Inr_iff)
  from GetVPNConfig_total [of c] createConfig_no_nil [OF c(1)] c(2) show ?thesis
    by (auto simp: VPNConfigUpdate_Valid_def)
next
  case False
  with assms show ?thesis by (auto simp: createConfigUpdate_def VPNConfigUpdate_Valid_def)
qed

text \<open>
  C33: The script that OpenConnect runs with the token of the daemon in its environment is
  authenticated, and its update arrives: what it writes to the socket is forwarded to the daemon as a
  configuration update, and what the daemon decodes is the update with its addresses in normal form, which is
  valid if and only if the update of the script is.
\<close>

theorem script_authenticated:
  assumes "GetToken (Some token) = Some (str, token')" "length token = TokenLength"
    and "getenv ''oc_daemon_token'' = str"
    and "getenv ''reason'' \<in> {''pre-init'', ''connect'', ''disconnect'', ''attempt-reconnect'', ''reconnect''}"
    and "createConfigUpdate (parseEnvironment X getenv) = Inr u"
    and "\<forall>b. VPNConfigUpdate_JSON u = Some b \<longrightarrow> length b < 2 ^ 32"
    and "\<forall>v. valid_utf8 (getenv v)" "\<forall>x d. xml_domains X x = Some d \<longrightarrow> valid_utf8 d"
  shows "\<exists>sock res bytes msg. script_run X True True reply getenv = (sock, bytes, res) \<and>
    Server_handleRequest token' True True bytes = Forwarded (api_NewRequest msg) \<and>
    h_Type msg = TypeVPNConfigUpdate \<and> VPNConfigUpdateFromJSON (m_Value msg) = Some (norm_update u) \<and>
    VPNConfigUpdate_Valid (norm_update u) = VPNConfigUpdate_Valid u"
proof -
  have ok: "ok_update u" using createConfigUpdate_ok [OF assms(5) parseEnvironment_utf8 [OF assms(7,8)]] .
  from update_round_trip [OF this] obtain b where
    b: "VPNConfigUpdate_JSON u = Some b" "VPNConfigUpdateFromJSON b = Some (norm_update u)" .
  with assms(6) have l: "length b < 2 ^ 32" by blast
  have t: "token' = token" "SetToken (getenv ''oc_daemon_token'') (replicate TokenLength 0) = Some token"
    using assms(1-3) SetToken_encode [of token "replicate TokenLength 0"] by (auto simp: GetToken_def)
  have "ReadMessage token (WriteMessage (NewMessage token TypeVPNConfigUpdate b) @ []) =
      Inr (NewMessage token TypeVPNConfigUpdate b, [])"
    by (rule ReadMessage_NewMessage [OF assms(2) l]) (simp_all add: TypeNone_def TypeUndefined_def TypeVPNConfigUpdate_def)
  then have f: "Server_handleRequest token True True (WriteMessage (NewMessage token TypeVPNConfigUpdate b)) =
      Forwarded (api_NewRequest (NewMessage token TypeVPNConfigUpdate b))"
    by (simp add: Server_handleRequest_def NewMessage_def)
  have "e_reason (parseEnvironment X getenv) = getenv ''reason''"
    "e_token (parseEnvironment X getenv) = getenv ''oc_daemon_token''"
    by (simp_all add: parseEnvironment_def Let_def)
  then have "\<exists>sock res. script_run X True True reply getenv =
      (sock, WriteMessage (NewMessage token TypeVPNConfigUpdate b), res)"
    using assms(4,5) t b(1) by (auto simp: script_run_def Let_def runClient_def split: sum.splits)
  with f t(1) b(2) VPNConfigUpdate_Valid_norm [OF ok] show ?thesis by (fastforce simp: NewMessage_def)
qed

theorem script_authenticated_witness:
  "\<exists>sock res bytes msg. script_run example_xml True True [] (example_getenv(''reason'' := ''disconnect'')) = (sock, bytes, res) \<and>
    Server_handleRequest (replicate TokenLength 0) True True bytes = Forwarded (api_NewRequest msg) \<and>
    h_Type msg = TypeVPNConfigUpdate \<and>
    VPNConfigUpdateFromJSON (m_Value msg) = Some \<lparr>vu_Reason = ''disconnect'', vu_Config = None\<rparr>"
proof -
  let ?u = "\<lparr>vu_Reason = ''disconnect'', vu_Config = None\<rparr>" and ?g = "example_getenv(''reason'' := ''disconnect'')"
  have esc: "esc_string '''' = ''''" "\<And>c cs. (of_char c :: nat) < 128 \<Longrightarrow> esc_string (c # cs) = esc_char c @ esc_string cs"
    by (simp_all add: esc_string.simps)
  have "\<forall>b. VPNConfigUpdate_JSON ?u = Some b \<longrightarrow> length b < 2 ^ 32"
    by (simp add: VPNConfigUpdate_JSON_def Marshal_def enc_VPNConfigUpdate_def enc_struct_def enc_string_def enc_ptr_def
        json_quote_def esc esc_char_def text_bytes_def)
  moreover have "example_getenv ''oc_daemon_token'' = b64_encode (replicate TokenLength 0)" by code_simp
  moreover have "e_reason (parseEnvironment example_xml ?g) = ''disconnect''" by (simp add: parseEnvironment_def Let_def)
  then have "createConfigUpdate (parseEnvironment example_xml ?g) = Inr ?u" by (simp add: createConfigUpdate_def)
  moreover have "\<forall>v. valid_utf8 (?g v)" using example_utf8 by (simp add: valid_utf8_ascii)
  ultimately have "\<exists>sock res bytes msg. script_run example_xml True True [] ?g = (sock, bytes, res) \<and>
    Server_handleRequest (replicate TokenLength 0) True True bytes = Forwarded (api_NewRequest msg) \<and>
    h_Type msg = TypeVPNConfigUpdate \<and> VPNConfigUpdateFromJSON (m_Value msg) = Some (norm_update ?u) \<and>
    VPNConfigUpdate_Valid (norm_update ?u) = VPNConfigUpdate_Valid ?u"
    by (intro script_authenticated [where str = "b64_encode (replicate TokenLength 0)" and token = "replicate TokenLength 0"])
      (simp_all add: GetToken_def example_xml_def)
  then show ?thesis by (simp add: norm_update_def)
qed

end
