(* ===== verification/ApiServer.thy ===== *)
theory ApiServer
  imports Api
begin

text \<open>
  The goroutine of the socket server (\<^verbatim>\<open>handleClients\<close> in \<^verbatim>\<open>internal/api/server.go\<close>) as a step relation: it accepts one
  client after the other, reads its message and offers its request to the daemon, until the listener
  fails. Shutting down and stopping the server interleave with it. The clients and what became of each are kept.
\<close>

section \<open>Model\<close>

datatype server_loop = Accepting | Reading "u8 list" | Offering api_Request | LoopEnded

record serving =
  as_token :: "u8 list"
  as_listening :: bool
  as_shutdown :: bool
  as_done :: bool
  as_loop :: server_loop
  as_clients :: "u8 list list"
  as_fates :: "client_fate list"

datatype server_event = ClientAccepted "u8 list" | AcceptFails | RequestRead bool | RequestTaken | RequestRefused
  | ShutdownCalled | StopCalled

text \<open>The state after \<^verbatim>\<open>Start\<close>.\<close>

definition serving_init :: "serving \<Rightarrow> bool" where
  "serving_init s \<longleftrightarrow> (\<exists>token. length token = TokenLength \<and>
     s = \<lparr>as_token = token, as_listening = True, as_shutdown = False, as_done = False, as_loop = Accepting,
       as_clients = [], as_fates = []\<rparr>)"

text \<open>What the goroutine does with a client whose message was read, before it waits for the daemon.\<close>

definition read_request :: "bool \<Rightarrow> u8 list \<Rightarrow> serving \<Rightarrow> serving" where
  "read_request deadlineOk conn s =
     (case Server_handleRequest (as_token s) deadlineOk True conn of
        Forwarded r \<Rightarrow> s\<lparr>as_loop := Offering r\<rparr>
      | ConnClosed bs \<Rightarrow> s\<lparr>as_loop := Accepting, as_fates := as_fates s @ [ConnClosed bs]\<rparr>)"

text \<open>
  A listener that is closed only fails. When the goroutine ends, it closes the listener and the channel of
  requests: the channel is closed if and only if the loop has ended.
\<close>

inductive serving_step :: "serving \<Rightarrow> server_event \<Rightarrow> serving \<Rightarrow> bool" where
  "accept": "as_loop s = Accepting \<Longrightarrow> as_listening s \<Longrightarrow>
    serving_step s (ClientAccepted conn) (s\<lparr>as_loop := Reading conn, as_clients := as_clients s @ [conn]\<rparr>)"
| accept_fails: "as_loop s = Accepting \<Longrightarrow> serving_step s AcceptFails (s\<lparr>as_loop := LoopEnded, as_listening := False\<rparr>)"
| read: "as_loop s = Reading conn \<Longrightarrow> serving_step s (RequestRead deadlineOk) (read_request deadlineOk conn s)"
| taken: "as_loop s = Offering r \<Longrightarrow>
    serving_step s RequestTaken (s\<lparr>as_loop := Accepting, as_fates := as_fates s @ [Forwarded r]\<rparr>)"
| refused: "as_loop s = Offering r \<Longrightarrow> as_shutdown s \<or> as_done s \<Longrightarrow>
    serving_step s RequestRefused (s\<lparr>as_loop := Accepting, as_fates := as_fates s @ [sendShuttingDownError (as_token s)]\<rparr>)"
| shutdown: "\<not> as_shutdown s \<Longrightarrow> serving_step s ShutdownCalled (s\<lparr>as_shutdown := True\<rparr>)"
| stop: "\<not> as_done s \<Longrightarrow> serving_step s StopCalled (s\<lparr>as_done := True, as_listening := False\<rparr>)"

inductive_cases serving_stepE: "serving_step s e s'"

section \<open>Invariant\<close>

text \<open>Each client but the one at hand has its fate, which is one of those that its bytes allow.\<close>

definition fate_of :: "u8 list \<Rightarrow> u8 list \<Rightarrow> client_fate \<Rightarrow> bool" where
  "fate_of token conn f \<longleftrightarrow> (\<exists>deadlineOk taken. f = Server_handleRequest token deadlineOk taken conn)"

definition serving_inv :: "serving \<Rightarrow> bool" where
  "serving_inv s \<longleftrightarrow>
     (case as_loop s of
        Reading conn \<Rightarrow> (\<exists>cs. as_clients s = cs @ [conn] \<and> list_all2 (fate_of (as_token s)) cs (as_fates s))
      | Offering r \<Rightarrow> (\<exists>cs conn. as_clients s = cs @ [conn] \<and> list_all2 (fate_of (as_token s)) cs (as_fates s) \<and>
          Server_handleRequest (as_token s) True True conn = Forwarded r)
      | _ \<Rightarrow> list_all2 (fate_of (as_token s)) (as_clients s) (as_fates s)) \<and>
     (as_done s \<or> as_loop s = LoopEnded \<longrightarrow> \<not> as_listening s)"

lemma fate_snoc: "list_all2 (fate_of token) cs fs \<Longrightarrow> fate_of token c f \<Longrightarrow> list_all2 (fate_of token) (cs @ [c]) (fs @ [f])"
  by (simp add: list_all2_appendI)

lemma offered_fates:
  assumes "Server_handleRequest token True True conn = Forwarded r"
  shows "fate_of token conn (Forwarded r)" "fate_of token conn (sendShuttingDownError token)"
proof -
  have "Server_handleRequest token True False conn = sendShuttingDownError token"
    using assms by (auto simp: Server_handleRequest_def split: sum.splits if_splits)
  with assms show "fate_of token conn (Forwarded r)" "fate_of token conn (sendShuttingDownError token)"
    unfolding fate_of_def by metis+
qed

lemma forwarded_deadline: "Server_handleRequest token d t conn = Forwarded r \<Longrightarrow> d \<and> t"
  by (auto simp: Server_handleRequest_def sendShuttingDownError_def split: sum.splits if_splits)

lemma serving_inv_step: "serving_inv s \<Longrightarrow> serving_step s e s' \<Longrightarrow> serving_inv s'"
proof (erule serving_stepE)
  fix conn deadlineOk
  assume inv: "serving_inv s" and l: "as_loop s = Reading conn" and s': "s' = read_request deadlineOk conn s"
  from inv l obtain cs where cs: "as_clients s = cs @ [conn]" "list_all2 (fate_of (as_token s)) cs (as_fates s)"
    "as_done s \<longrightarrow> \<not> as_listening s" by (auto simp: serving_inv_def)
  show "serving_inv s'"
  proof (cases "Server_handleRequest (as_token s) deadlineOk True conn")
    case (ConnClosed bs)
    then have "fate_of (as_token s) conn (ConnClosed bs)" unfolding fate_of_def by metis
    with ConnClosed cs show ?thesis by (simp add: s' read_request_def serving_inv_def fate_snoc)
  next
    case (Forwarded r)
    with forwarded_deadline [OF this] cs show ?thesis by (auto simp: s' read_request_def serving_inv_def)
  qed
qed (auto simp: serving_inv_def intro!: fate_snoc intro: offered_fates split: server_loop.splits)

interpretation serving: machine serving_init serving_step serving_inv
proof
  show "serving_inv s" if "serving_init s" for s using that by (auto simp: serving_init_def serving_inv_def)
qed (rule serving_inv_step)

section \<open>Properties\<close>

text \<open>The steps that are left once the server was stopped, besides a call of \<^verbatim>\<open>Shutdown\<close>.\<close>

definition steps_left :: "serving \<Rightarrow> nat" where
  "steps_left s = (case as_loop s of Reading _ \<Rightarrow> 3 | Offering _ \<Rightarrow> 2 | Accepting \<Rightarrow> 1 | LoopEnded \<Rightarrow> 0) +
     (if as_shutdown s then 0 else 1)"

lemma stopped_step:
  assumes "serving_step s e s'" "as_done s" "\<not> as_listening s"
  shows "as_done s' \<and> \<not> as_listening s' \<and> steps_left s' < steps_left s"
  using assms by (elim serving_stepE) (auto simp: steps_left_def read_request_def split: client_fate.split)

lemma stopped_run:
  assumes "run serving_step s es s'" "as_done s" "\<not> as_listening s"
  shows "length es + steps_left s' \<le> steps_left s"
  using assms by (induction rule: run.induct) (auto dest: stopped_step)

lemma stopped_progress:
  assumes "as_done s" "as_loop s \<noteq> LoopEnded"
  shows "\<exists>e s'. serving_step s e s'"
  using assms by (cases "as_loop s") (blast intro: serving_step.intros)+


text \<open>
  C40: What the daemon gets from the socket is authentic: each request forwarded to it is that of a client, in
  the order in which they were accepted, whose bytes begin with a complete message that carries the server's
  token and is a configuration update.
\<close>

theorem server_forwards_authenticated:
  assumes "reach serving_init serving_step s" "i < length (as_fates s)" "as_fates s ! i = Forwarded r"
  shows "i < length (as_clients s) \<and> h_Token (req_msg r) = as_token s \<and> h_Type (req_msg r) = TypeVPNConfigUpdate \<and>
     length (m_Value (req_msg r)) = unat (h_Length (req_msg r)) \<and>
     (\<exists>header rest. as_clients s ! i = header @ m_Value (req_msg r) @ rest \<and> length header = 6 + TokenLength)"
proof -
  have "serving_inv s" using assms(1) by (rule serving.reach_inv)
  then obtain cs ds where cs: "as_clients s = cs @ ds" "list_all2 (fate_of (as_token s)) cs (as_fates s)"
    by (auto simp: serving_inv_def split: server_loop.splits)
  then have i: "i < length cs" "fate_of (as_token s) (cs ! i) (Forwarded r)"
    using assms(2,3) by (auto simp: list_all2_conv_all_nth)
  then obtain d t where "Server_handleRequest (as_token s) d t (cs ! i) = Forwarded r" unfolding fate_of_def by metis
  from Server_forwards [OF this] i(1) show ?thesis by (simp add: cs(1) nth_append)
qed

text \<open>A server that gets one update.\<close>

definition example_serving :: serving where
  "example_serving = \<lparr>as_token = replicate 16 7, as_listening = True, as_shutdown = False, as_done = False,
     as_loop = Accepting, as_clients = [], as_fates = []\<rparr>"

definition example_conn :: "u8 list" where
  "example_conn = WriteMessage (NewMessage (replicate 16 7) TypeVPNConfigUpdate [1])"

lemma example_offered:
  "Server_handleRequest (replicate 16 7) True True example_conn =
     Forwarded (api_NewRequest (NewMessage (replicate 16 7) TypeVPNConfigUpdate [1]))"
  using ReadMessage_NewMessage [of "replicate 16 7" "[1]" TypeVPNConfigUpdate "[]"]
  by (simp add: Server_handleRequest_def TokenLength_def TypeNone_def TypeUndefined_def
      TypeVPNConfigUpdate_def NewMessage_def example_conn_def)

lemma example_serving_init: "serving_init example_serving"
  by (simp add: serving_init_def example_serving_def TokenLength_def)

lemma example_serving_run:
  "run serving_step example_serving [ClientAccepted example_conn, RequestRead True]
     (example_serving\<lparr>as_loop := Offering (api_NewRequest (NewMessage (replicate 16 7) TypeVPNConfigUpdate [1])), as_clients := [example_conn]\<rparr>)"
proof -
  let ?s = "example_serving\<lparr>as_loop := Reading example_conn, as_clients := [example_conn]\<rparr>"
  have "serving_step example_serving (ClientAccepted example_conn) ?s"
    using serving_step.accept [of example_serving example_conn] by (simp add: example_serving_def)
  moreover have "serving_step ?s (RequestRead True) (read_request True example_conn ?s)"
    by (rule serving_step.read) simp
  moreover have "read_request True example_conn ?s =
      example_serving\<lparr>as_loop := Offering (api_NewRequest (NewMessage (replicate 16 7) TypeVPNConfigUpdate [1])), as_clients := [example_conn]\<rparr>"
    using example_offered by (simp add: read_request_def example_serving_def)
  ultimately show ?thesis by (auto simp: run_Cons_iff)
qed

text \<open>A listener that fails closes the channel of requests, although nobody stopped the server.\<close>

lemma listener_error_ends_server:
  "\<exists>s. reach serving_init serving_step s \<and> as_loop s = LoopEnded \<and> \<not> as_shutdown s \<and> \<not> as_done s"
proof -
  have "serving_step example_serving AcceptFails (example_serving\<lparr>as_loop := LoopEnded, as_listening := False\<rparr>)"
    by (rule serving_step.accept_fails) (simp add: example_serving_def)
  then have "reach serving_init serving_step (example_serving\<lparr>as_loop := LoopEnded, as_listening := False\<rparr>)"
    using example_serving_init by (blast intro: reach.intros)
  then show ?thesis by (force simp: example_serving_def)
qed

definition example_stopped :: serving where
  "example_stopped = example_serving\<lparr>as_listening := False, as_done := True,
     as_loop := Offering (api_NewRequest (NewMessage (replicate 16 7) TypeVPNConfigUpdate [1])), as_clients := [example_conn]\<rparr>"


theorem server_forwards_authenticated_witness:
  "\<exists>s r. reach serving_init serving_step s \<and> as_fates s = [Forwarded r] \<and> h_Token (req_msg r) = replicate 16 7"
proof -
  let ?r = "api_NewRequest (NewMessage (replicate 16 7) TypeVPNConfigUpdate [1])"
  let ?o = "example_serving\<lparr>as_loop := Offering ?r, as_clients := [example_conn]\<rparr>"
  let ?s = "?o\<lparr>as_loop := Accepting, as_fates := as_fates ?o @ [Forwarded ?r]\<rparr>"
  have "reach serving_init serving_step ?o"
    using serving.run_reach [OF example_serving_run] example_serving_init by (blast intro: reach.intros)
  moreover have "serving_step ?o RequestTaken ?s" by (rule serving_step.taken) simp
  ultimately have "reach serving_init serving_step ?s" by (auto intro: reach.intros)
  from this server_forwards_authenticated [OF this, of 0 ?r] show ?thesis
    by (intro exI [of _ ?s] exI [of _ ?r]) (simp add: example_serving_def)
qed

end
