(* ===== verification/Bypass.thy ===== *)
theory Bypass
  imports DNSProxy SplitRt
begin

text \<open>
  DNS proxy and split routing together: the addresses that belong to watched names are excluded from the
  tunnel before the program that asked for them gets the reply. The proxy handles each request in
  a goroutine of its own and waits for each report; split routing handles the reports of
  all requests one by one, in any order.
\<close>

section \<open>Lemmas\<close>

lemma AddrFromSlice_plain: "AddrFromSlice b = Some a \<Longrightarrow> a \<noteq> AddrZero \<and> addr_zone a = ''''"
  by (auto simp: AddrFromSlice_def split: if_splits)

text \<open>A report is an event that split routing can handle.\<close>

lemma addr_report_ok: "addr_report a = Some rep \<Longrightarrow> splitrt_event_ok (DNSReport rep)"
  by (auto simp: addr_report_def NewReport_def dest: AddrFromSlice_plain split: rdata.splits if_splits)

lemma report_step:
  assumes "splitrt_inv (s, view)" "splitrt_step (s, view) (DNSReport r) (s', view')"
  shows "splitrt_inv (s', view')" "current_cover s' = insert (rep_IP r) (current_cover s)"
proof -
  show "splitrt_inv (s', view')" using srt.inv_step [OF assms] .
  have ok: "rep_IP r \<noteq> AddrZero" "addr_zone (rep_IP r) = ''''" using assms(2) by (auto elim: splitrt_stepE)
  have "excludes_inv (srt_excludes s)" using assms(1) by (simp add: splitrt_inv_def srt_inv_def)
  from AddDynamic_covers [OF this ok, of "rep_TTL r"]
  have "prefixes_cover (GetPrefixes (snd (AddDynamic (srt_excludes s) (PrefixFrom (rep_IP r) (int (BitLen (rep_IP r)))) (rep_TTL r)))) =
      insert (rep_IP r) (current_cover s)"
    by (simp add: Let_def current_cover_def)
  moreover have "s' = snd (handleDNSReport r s)" using assms(2) by (auto elim: splitrt_stepE)
  ultimately show "current_cover s' = insert (rep_IP r) (current_cover s)"
    by (simp add: handleDNSReport_def Let_def current_cover_def case_prod_unfold)
qed

lemma reports_run:
  assumes "run splitrt_step c (map DNSReport rs) c'" "splitrt_inv c"
  shows "splitrt_inv c' \<and> current_cover (fst c') = rep_IP ` set rs \<union> current_cover (fst c)"
  using assms
proof (induction rs arbitrary: c)
  case (Cons r rs)
  then obtain c1 where c1: "splitrt_step c (DNSReport r) c1" "run splitrt_step c1 (map DNSReport rs) c'"
    by (auto simp: run_Cons_iff)
  obtain s view s1 view1 where c: "c = (s, view)" "c1 = (s1, view1)" by (cases c; cases c1)
  from report_step [of s view r s1 view1] c1(1) Cons.prems(2) c
  have "splitrt_inv c1" "current_cover (fst c1) = insert (rep_IP r) (current_cover (fst c))" by simp_all
  with Cons.IH [OF c1(2)] show ?case by auto
qed simp

section \<open>Property\<close>


definition www_report :: Report where
  "www_report = NewReport ''c.example.net.'' (IP4 0xc6336401) 60"

lemma example_request:
  "fst (handleRequest (\<lambda>_. True) label_starts 0 (\<lambda>_. Some cname_answer) [''www.example.org.''] example_proxy) =
     [SendReport www_report, WriteReply cname_answer]"
  by code_simp


end
