(* ===== verification/ProxyLife.thy ===== *)
theory ProxyLife
  imports DNSProxy
begin

text \<open>
  The goroutines of the DNS proxy (\<^verbatim>\<open>start\<close>, \<^verbatim>\<open>startDNSServer\<close>, \<^verbatim>\<open>stopDNSServer\<close>, \<^verbatim>\<open>sendReport\<close> and \<^verbatim>\<open>waitReport\<close> in
  \<^verbatim>\<open>internal/dnsproxy/proxy.go\<close>) as a step relation: the UDP and TCP servers, a handler for each request, the
  consumer of the reports, and the goroutine that stops the servers and closes the channel of reports.
  The library's \<^verbatim>\<open>Shutdown\<close> fails for a server that does not listen yet, else it waits for the handlers.
\<close>

section \<open>Model\<close>

text \<open>A server is not configured, is being started, listens, has failed, or was told to shut down.\<close>

datatype dns_server = NoServer | Starting | Listening | ServerFailed | ShuttingDown | ShutDown

text \<open>
  A handler has reports left to send before it writes its reply, or waits for one that the consumer has
  taken or not, or has ended.
\<close>

datatype handler = Reporting "Report list" | Awaiting bool "Report list" | HandlerEnded

datatype stop_loop = WaitDone | Stopping nat | ProxyClosed

record proxy_run =
  pr_done :: bool
  pr_loop :: stop_loop
  pr_servers :: "dns_server list"
  pr_handlers :: "(nat \<times> handler) list"
  pr_panicked :: bool

datatype proxy_event = ServerListens nat | ServerFails nat | RequestArrives nat "Report list"
  | ReportTaken nat | SendAborted nat | SendPanics nat | ReportHandled nat | WaitAborted nat | ReplyWritten nat
  | StopCalled | LoopMoves

text \<open>Starting a server is skipped if it is not configured.\<close>

definition startDNSServer :: "bool \<Rightarrow> dns_server" where
  "startDNSServer configured = (if configured then Starting else NoServer)"

definition proxy_run_init :: "proxy_run \<Rightarrow> bool" where
  "proxy_run_init s \<longleftrightarrow> (\<exists>config :: DNSProxyConfig. s =
     \<lparr>pr_done = False, pr_loop = WaitDone,
      pr_servers = [startDNSServer (dp_ListenUDP config), startDNSServer (dp_ListenTCP config)],
      pr_handlers = [], pr_panicked = False\<rparr>)"

definition set_handler :: "nat \<Rightarrow> handler \<Rightarrow> proxy_run \<Rightarrow> proxy_run" where
  "set_handler i h s = s\<lparr>pr_handlers := (pr_handlers s)[i := (fst (pr_handlers s ! i), h)]\<rparr>"

definition at_handler :: "proxy_run \<Rightarrow> nat \<Rightarrow> handler \<Rightarrow> bool" where
  "at_handler s i h \<longleftrightarrow> i < length (pr_handlers s) \<and> snd (pr_handlers s ! i) = h"

definition set_server :: "nat \<Rightarrow> dns_server \<Rightarrow> proxy_run \<Rightarrow> proxy_run" where
  "set_server j d s = s\<lparr>pr_servers := (pr_servers s)[j := d]\<rparr>"

definition handlers_ended :: "proxy_run \<Rightarrow> nat \<Rightarrow> bool" where
  "handlers_ended s j \<longleftrightarrow> (\<forall>(k, h) \<in> set (pr_handlers s). k = j \<longrightarrow> h = HandlerEnded)"

text \<open>
  Stopping a server: one that listens is told to shut down, and has shut down with the next step. The error
  of the library for a server that does not listen is only logged.
\<close>

definition stopDNSServer :: "nat \<Rightarrow> proxy_run \<Rightarrow> proxy_run" where
  "stopDNSServer j s =
     (case pr_servers s ! j of
        NoServer \<Rightarrow> s\<lparr>pr_loop := Stopping (Suc j)\<rparr>
      | Listening \<Rightarrow> set_server j ShuttingDown s
      | ShuttingDown \<Rightarrow> (set_server j ShutDown s)\<lparr>pr_loop := Stopping (Suc j)\<rparr>
      | _ \<Rightarrow> s\<lparr>pr_loop := Stopping (Suc j)\<rparr>)"

text \<open>The next step of the goroutine, which waits until \<^verbatim>\<open>done\<close> is closed.\<close>

definition stop_moves :: "proxy_run \<Rightarrow> proxy_run option" where
  "stop_moves s =
     (case pr_loop s of
        WaitDone \<Rightarrow> if pr_done s then Some (s\<lparr>pr_loop := Stopping 0\<rparr>) else None
      | Stopping j \<Rightarrow>
          if length (pr_servers s) \<le> j then Some (s\<lparr>pr_loop := ProxyClosed\<rparr>)
          else Some (stopDNSServer j s)
      | ProxyClosed \<Rightarrow> None)"

text \<open>
  Sending selects between the channel of reports and \<^verbatim>\<open>done\<close>. Once the channel is closed, sending panics; with
  both closed the choice is random.
\<close>

inductive proxy_step :: "proxy_run \<Rightarrow> proxy_event \<Rightarrow> proxy_run \<Rightarrow> bool" where
  listens: "j < length (pr_servers s) \<Longrightarrow> pr_servers s ! j = Starting \<Longrightarrow>
    proxy_step s (ServerListens j) (set_server j Listening s)"
| fails: "j < length (pr_servers s) \<Longrightarrow> pr_servers s ! j = Starting \<Longrightarrow>
    proxy_step s (ServerFails j) (set_server j ServerFailed s)"
| request: "j < length (pr_servers s) \<Longrightarrow> pr_servers s ! j = Listening \<Longrightarrow>
    proxy_step s (RequestArrives j rs) (s\<lparr>pr_handlers := pr_handlers s @ [(j, Reporting rs)]\<rparr>)"
| taken: "at_handler s i (Reporting (r # rs)) \<Longrightarrow> pr_loop s \<noteq> ProxyClosed \<Longrightarrow>
    proxy_step s (ReportTaken i) (set_handler i (Awaiting True rs) s)"
| aborted: "at_handler s i (Reporting (r # rs)) \<Longrightarrow> pr_done s \<Longrightarrow>
    proxy_step s (SendAborted i) (set_handler i (Awaiting False rs) s)"
| panics: "at_handler s i (Reporting (r # rs)) \<Longrightarrow> pr_loop s = ProxyClosed \<Longrightarrow>
    proxy_step s (SendPanics i) (s\<lparr>pr_panicked := True\<rparr>)"
| handled: "at_handler s i (Awaiting True rs) \<Longrightarrow> proxy_step s (ReportHandled i) (set_handler i (Reporting rs) s)"
| wait_aborted: "at_handler s i (Awaiting b rs) \<Longrightarrow> pr_done s \<Longrightarrow>
    proxy_step s (WaitAborted i) (set_handler i (Reporting rs) s)"
| reply: "at_handler s i (Reporting []) \<Longrightarrow> proxy_step s (ReplyWritten i) (set_handler i HandlerEnded s)"
| stop: "\<not> pr_done s \<Longrightarrow> proxy_step s StopCalled (s\<lparr>pr_done := True\<rparr>)"
| loop: "stop_moves s = Some s' \<Longrightarrow> proxy_step s LoopMoves s'"

inductive_simps proxy_step_simps:
  "proxy_step s (ServerListens j) s'" "proxy_step s (ServerFails j) s'" "proxy_step s (RequestArrives j rs) s'"
  "proxy_step s (ReportTaken i) s'" "proxy_step s (SendAborted i) s'" "proxy_step s (SendPanics i) s'"
  "proxy_step s (ReportHandled i) s'" "proxy_step s (WaitAborted i) s'" "proxy_step s (ReplyWritten i) s'"
  "proxy_step s StopCalled s'" "proxy_step s LoopMoves s'"

text \<open>
  The library's promise for \<^verbatim>\<open>Shutdown\<close>: it returns when the server's handlers have ended. With it, steps in
  which the proxy is stopped only when none of its servers is still being started.
\<close>

definition shutdown_waits :: "proxy_run \<Rightarrow> proxy_event \<Rightarrow> bool" where
  "shutdown_waits s e \<longleftrightarrow> (case (e, pr_loop s) of
     (LoopMoves, Stopping j) \<Rightarrow> j < length (pr_servers s) \<and> pr_servers s ! j = ShuttingDown \<longrightarrow> handlers_ended s j
   | _ \<Rightarrow> True)"

definition started_step :: "proxy_run \<Rightarrow> proxy_event \<Rightarrow> proxy_run \<Rightarrow> bool" where
  "started_step s e s' \<longleftrightarrow> proxy_step s e s' \<and> shutdown_waits s e \<and>
     (e = StopCalled \<longrightarrow> Starting \<notin> set (pr_servers s))"

section \<open>Invariant\<close>

text \<open>The servers that the goroutine has stopped, and those that have no handlers any more.\<close>

definition stopped_server :: "proxy_run \<Rightarrow> nat \<Rightarrow> bool" where
  "stopped_server s j \<longleftrightarrow> (case pr_loop s of WaitDone \<Rightarrow> False | Stopping k \<Rightarrow> j < k | ProxyClosed \<Rightarrow> True)"

definition proxy_inv :: "proxy_run \<Rightarrow> bool" where
  "proxy_inv s \<longleftrightarrow> \<not> pr_panicked s \<and> (pr_loop s \<noteq> WaitDone \<longrightarrow> pr_done s) \<and>
     (pr_done s \<longrightarrow> Starting \<notin> set (pr_servers s)) \<and>
     (\<forall>(j, h) \<in> set (pr_handlers s). j < length (pr_servers s)) \<and>
     (\<forall>j < length (pr_servers s).
        (stopped_server s j \<longrightarrow> pr_servers s ! j \<notin> {Listening, ShuttingDown}) \<and>
        (pr_servers s ! j \<notin> {Listening, ShuttingDown} \<longrightarrow> handlers_ended s j))"

lemma set_handler_simps [simp]:
  "pr_done (set_handler i h s) = pr_done s" "pr_loop (set_handler i h s) = pr_loop s"
  "pr_servers (set_handler i h s) = pr_servers s" "pr_panicked (set_handler i h s) = pr_panicked s"
  by (simp_all add: set_handler_def)

lemma set_server_simps [simp]:
  "pr_done (set_server i h s) = pr_done s" "pr_loop (set_server i h s) = pr_loop s"
  "pr_handlers (set_server i h s) = pr_handlers s" "pr_panicked (set_server i h s) = pr_panicked s"
  "length (pr_servers (set_server i h s)) = length (pr_servers s)"
  by (simp_all add: set_server_def)

lemma pr_servers_set: "pr_servers (set_server j d s) = (pr_servers s)[j := d]"
  by (simp add: set_server_def)

lemma handlers_ended_simps [simp]:
  "handlers_ended (set_server i d s) j = handlers_ended s j" "handlers_ended (s\<lparr>pr_loop := l\<rparr>) j = handlers_ended s j"
  "handlers_ended (s\<lparr>pr_done := b\<rparr>) j = handlers_ended s j" "handlers_ended (s\<lparr>pr_panicked := b\<rparr>) j = handlers_ended s j"
  "handlers_ended (s\<lparr>pr_handlers := pr_handlers s @ [(k, h)]\<rparr>) j \<longleftrightarrow> handlers_ended s j \<and> (k = j \<longrightarrow> h = HandlerEnded)"
  by (auto simp: handlers_ended_def)

text \<open>A handler that is at work belongs to a server that listens or is shutting down, and stays with it.\<close>

lemma at_work:
  assumes "proxy_inv s" "at_handler s i h" "h \<noteq> HandlerEnded"
  shows "fst (pr_handlers s ! i) < length (pr_servers s)" "pr_servers s ! fst (pr_handlers s ! i) \<in> {Listening, ShuttingDown}"
    "pr_loop s \<noteq> ProxyClosed"
proof -
  let ?j = "fst (pr_handlers s ! i)"
  have m: "(?j, h) \<in> set (pr_handlers s)" using assms(2) by (auto simp: at_handler_def in_set_conv_nth)
  then show j: "?j < length (pr_servers s)" using assms(1) by (auto simp: proxy_inv_def)
  have "\<not> handlers_ended s ?j" using m assms(3) by (auto simp: handlers_ended_def)
  with assms(1) j show l: "pr_servers s ! ?j \<in> {Listening, ShuttingDown}" by (auto simp: proxy_inv_def)
  show "pr_loop s \<noteq> ProxyClosed"
  proof
    assume "pr_loop s = ProxyClosed"
    then have "stopped_server s ?j" by (simp add: stopped_server_def)
    with assms(1) j l show False by (auto simp: proxy_inv_def)
  qed
qed

lemma inv_set_handler:
  assumes "proxy_inv s" "at_handler s i h" "h \<noteq> HandlerEnded"
  shows "proxy_inv (set_handler i h' s)"
proof -
  let ?j = "fst (pr_handlers s ! i)"
  have i: "i < length (pr_handlers s)" using assms(2) by (simp add: at_handler_def)
  have sub: "set (pr_handlers (set_handler i h' s)) \<subseteq> insert (?j, h') (set (pr_handlers s))"
    by (simp add: set_handler_def set_update_subset_insert)
  have "handlers_ended (set_handler i h' s) j" if "handlers_ended s j" "j \<noteq> ?j" for j
    using that sub by (auto simp: handlers_ended_def)
  moreover have "\<forall>(j, h) \<in> set (pr_handlers (set_handler i h' s)). j < length (pr_servers s)"
    using sub assms(1) at_work(1) [OF assms] by (auto simp: proxy_inv_def)
  ultimately show ?thesis using assms(1) at_work(2) [OF assms] by (auto simp: proxy_inv_def stopped_server_def)
qed

lemma inv_stop_moves:
  assumes inv: "proxy_inv s" and w: "shutdown_waits s LoopMoves" and m: "stop_moves s = Some s'"
  shows "proxy_inv s'"
proof (cases "pr_loop s")
  case WaitDone
  with m inv show ?thesis by (auto simp: stop_moves_def stopDNSServer_def proxy_inv_def stopped_server_def split: if_splits)
next
  case (Stopping j)
  show ?thesis
  proof (cases "length (pr_servers s) \<le> j")
    case True
    with m inv Stopping show ?thesis
      by (auto simp: stop_moves_def stopDNSServer_def proxy_inv_def stopped_server_def)
  next
    case False
    have d: "pr_servers s ! j \<noteq> Starting"
      using inv Stopping False by (metis not_le nth_mem proxy_inv_def stop_loop.distinct(1))
    have e: "pr_servers s ! j = ShuttingDown \<Longrightarrow> handlers_ended s j" using w Stopping False by (simp add: shutdown_waits_def)
    show ?thesis
      using m inv Stopping False d e
      by (cases "pr_servers s ! j")
        (auto simp: stop_moves_def stopDNSServer_def proxy_inv_def stopped_server_def pr_servers_set nth_list_update less_Suc_eq
          split: if_splits dest: set_update_subset_insert [THEN subsetD])
  qed
next
  case ProxyClosed
  with m show ?thesis by (simp add: stop_moves_def stopDNSServer_def)
qed

text \<open>A server that was being started listens or has failed before anything stops.\<close>

lemma inv_starting:
  assumes inv: "proxy_inv s" and j: "j < length (pr_servers s)" "pr_servers s ! j = Starting" and d: "d \<noteq> Starting"
  shows "proxy_inv (set_server j d s)"
proof -
  have "Starting \<in> set (pr_servers s)" using j by (metis nth_mem)
  with inv have "\<not> pr_done s" "pr_loop s = WaitDone" by (auto simp: proxy_inv_def)
  then show ?thesis using inv j
    by (auto simp: proxy_inv_def stopped_server_def pr_servers_set nth_list_update split: if_splits)
qed

lemma started_step_inv:
  assumes "proxy_inv s" "started_step s e s'"
  shows "proxy_inv s'"
proof -
  from assms(2) have st: "proxy_step s e s'" "shutdown_waits s e" "e = StopCalled \<longrightarrow> Starting \<notin> set (pr_servers s)"
    by (simp_all add: started_step_def)
  from st(1) show ?thesis
  proof cases
    case (loop)
    then show ?thesis using assms(1) st(2) by (blast intro: inv_stop_moves)
  next
    case (panics i r rs)
    then show ?thesis using at_work(3) [OF assms(1), of i] by simp
  next
    case (listens j)
    then show ?thesis using inv_starting [OF assms(1)] by simp
  next
    case (fails j)
    then show ?thesis using inv_starting [OF assms(1)] by simp
  next
    case (request j rs)
    then show ?thesis using assms(1) by (auto simp: proxy_inv_def stopped_server_def)
  next
    case stop
    then show ?thesis using assms(1) st(3) by (auto simp: proxy_inv_def stopped_server_def)
  qed (use assms(1) in \<open>auto intro: inv_set_handler\<close>)
qed

lemma started_init_inv: "proxy_run_init s \<Longrightarrow> proxy_inv s"
  by (auto simp: proxy_run_init_def startDNSServer_def proxy_inv_def stopped_server_def handlers_ended_def)

interpretation proxy_life: machine proxy_run_init started_step proxy_inv
  by unfold_locales (auto intro: started_init_inv started_step_inv)

section \<open>Properties\<close>

text \<open>
  C19: A DNS proxy that is stopped after its servers have been started shuts down cleanly: no handler ever
  sends a report on the closed channel, which would panic, and when the channel has been closed every
  handler has ended and no server listens.
\<close>

theorem started_proxy_stops_cleanly:
  assumes "reach proxy_run_init started_step s"
  shows "\<not> pr_panicked s \<and>
    (pr_loop s = ProxyClosed \<longrightarrow>
       (\<forall>(j, h) \<in> set (pr_handlers s). h = HandlerEnded) \<and>
       set (pr_servers s) \<inter> {Starting, Listening, ShuttingDown} = {})"
proof (intro conjI impI)
  have inv: "proxy_inv s" by (rule proxy_life.reach_inv [OF assms])
  then show "\<not> pr_panicked s" by (simp add: proxy_inv_def)
  assume c: "pr_loop s = ProxyClosed"
  have s: "pr_servers s ! j \<notin> {Listening, ShuttingDown} \<and> handlers_ended s j" if "j < length (pr_servers s)" for j
    using inv c that by (auto simp: proxy_inv_def stopped_server_def)
  then show "\<forall>(j, h) \<in> set (pr_handlers s). h = HandlerEnded"
    using inv by (fastforce simp: proxy_inv_def handlers_ended_def)
  have "pr_done s" using inv c by (simp add: proxy_inv_def)
  then show "set (pr_servers s) \<inter> {Starting, Listening, ShuttingDown} = {}"
    using inv s by (auto simp: proxy_inv_def in_set_conv_nth)
qed

text \<open>
  Without that order it does not: when \<^verbatim>\<open>Stop\<close> comes while the server is being started, \<^verbatim>\<open>Shutdown\<close> fails,
  its error is only logged, and the server listens on after the channel was closed.
\<close>

definition example_proxy_run :: proxy_run where
  "example_proxy_run =
     \<lparr>pr_done = False, pr_loop = WaitDone, pr_servers = [Starting, NoServer], pr_handlers = [], pr_panicked = False\<rparr>"

lemma example_proxy_run_init: "proxy_run_init example_proxy_run"
  by (auto simp: proxy_run_init_def startDNSServer_def example_proxy_run_def intro: exI [of _ "\<lparr>dp_Address = [], dp_ListenUDP = True, dp_ListenTCP = False\<rparr>"])

lemma early_stop_panics:
  "\<exists>s. run proxy_step example_proxy_run
     [StopCalled, LoopMoves, LoopMoves, LoopMoves, LoopMoves, ServerListens 0, RequestArrives 0 [r], SendPanics 0] s \<and>
     pr_loop s = ProxyClosed \<and> pr_servers s = [Listening, NoServer] \<and> pr_panicked s"
  by (simp add: run_Cons_iff proxy_step_simps example_proxy_run_def stop_moves_def stopDNSServer_def set_server_def at_handler_def)

lemma example_started_run:
  "\<exists>s. run started_step example_proxy_run
       [ServerListens 0, RequestArrives 0 [r], ReportTaken 0, StopCalled, LoopMoves, LoopMoves, WaitAborted 0, ReplyWritten 0,
        LoopMoves, LoopMoves, LoopMoves] s \<and>
     pr_loop s = ProxyClosed \<and> pr_handlers s = [(0, HandlerEnded)] \<and> pr_servers s = [ShutDown, NoServer]"
  by (simp add: run_Cons_iff started_step_def shutdown_waits_def proxy_step_simps example_proxy_run_def stop_moves_def stopDNSServer_def
      set_server_def at_handler_def set_handler_def handlers_ended_def) blast

theorem started_proxy_stops_cleanly_witness:
  "\<exists>s. reach proxy_run_init started_step s \<and> pr_loop s = ProxyClosed \<and> pr_handlers s = [(0, HandlerEnded)] \<and>
     pr_servers s = [ShutDown, NoServer] \<and> \<not> pr_panicked s"
proof -
  obtain s es where s: "run started_step example_proxy_run es s" "pr_loop s = ProxyClosed"
      "pr_handlers s = [(0, HandlerEnded)]" "pr_servers s = [ShutDown, NoServer]"
    using example_started_run by blast
  have "reach proxy_run_init started_step s"
    using proxy_life.run_reach [OF s(1)] example_proxy_run_init by (blast intro: reach_init)
  with started_proxy_stops_cleanly [OF this] s show ?thesis by blast
qed

end
