(* ===== verification/GoPath.thy ===== *)
theory GoPath
  imports NetipText
begin

text \<open>
  The functions of Go's \<^verbatim>\<open>path/filepath\<close> and \<^verbatim>\<open>os\<close> packages that the clients and the daemon call on
  file names: cleaning, joining, the directory of a file, and the expansion of environment
  variables. File names are those of a Unix system.
\<close>

section \<open>File names\<close>

text \<open>
  The components of a cleaned name, in reverse: empty ones and dots are dropped, two dots drop the
  component before them, or stay at the begin of a relative name.
\<close>

fun clean_parts :: "bool \<Rightarrow> string list \<Rightarrow> string list \<Rightarrow> string list" where
  "clean_parts rooted out [] = out"
| "clean_parts rooted out (p # ps) =
     (if p = '''' \<or> p = ''.'' then clean_parts rooted out ps
      else if p = ''..'' then
        (case out of
           [] \<Rightarrow> clean_parts rooted (if rooted then [] else [''..'']) ps
         | q # qs \<Rightarrow> if q = ''..'' then clean_parts rooted (''..'' # out) ps else clean_parts rooted qs ps)
      else clean_parts rooted (p # out) ps)"

definition path_Clean :: "string \<Rightarrow> string" where
  "path_Clean path =
     (if path = '''' then ''.''
      else let rooted = hd path = CHR ''/'';
               body = join_with CHR ''/'' (rev (clean_parts rooted [] (split_char CHR ''/'' path)))
           in if rooted then CHR ''/'' # body else if body = '''' then ''.'' else body)"

definition path_Join :: "string list \<Rightarrow> string" where
  "path_Join elem =
     (case dropWhile (\<lambda>e. e = '''') elem of [] \<Rightarrow> ''''
      | es \<Rightarrow> path_Clean (join_with CHR ''/'' es))"

definition path_Dir :: "string \<Rightarrow> string" where
  "path_Dir path = path_Clean (rev (dropWhile (\<lambda>c. c \<noteq> CHR ''/'') (rev path)))"

section \<open>Environment variables in strings\<close>

definition isShellSpecialVar :: "char \<Rightarrow> bool" where
  "isShellSpecialVar c \<longleftrightarrow> c \<in> set ''*#$@!?-0123456789''"

text \<open>The codes of the underscore, the digits, the small and the capital letters.\<close>

definition isAlphaNum :: "char \<Rightarrow> bool" where
  "isAlphaNum c \<longleftrightarrow> (let n = of_char c :: nat in n = 95 \<or> n \<in> {48..57} \<or> n \<in> {97..122} \<or> n \<in> {65..90})"

text \<open>The name that starts the string, with the number of bytes it takes.\<close>

definition getShellName :: "string \<Rightarrow> string \<times> nat" where
  "getShellName s =
     (case s of [] \<Rightarrow> ([], 0)
      | c # cs \<Rightarrow>
          if c = CHR ''{'' then
            (if length s > 2 \<and> isShellSpecialVar (s ! 1) \<and> s ! 2 = CHR ''}'' then ([s ! 1], 3)
             else if CHR ''}'' \<in> set cs then
               (let name = takeWhile (\<lambda>x. x \<noteq> CHR ''}'') cs in
                if name = [] then ([], 2) else (name, length name + 2))
             else ([], 1))
          else if isShellSpecialVar c then ([c], 1)
          else (let name = takeWhile isAlphaNum s in (name, length name)))"

function Expand_env :: "(string \<Rightarrow> string) \<Rightarrow> string \<Rightarrow> string" where
  "Expand_env getenv [] = []"
| "Expand_env getenv (c # cs) =
     (if c = CHR ''$'' \<and> cs \<noteq> [] then
        (let (name, w) = getShellName cs in
         (if name = [] \<and> w > 0 then [] else if name = [] then [c] else getenv name) @
           Expand_env getenv (drop w cs))
      else c # Expand_env getenv cs)"
  by pat_completeness auto
termination by (relation "measure (\<lambda>(_, s). length s)") auto

lemma Expand_env_free [simp]: "CHR ''$'' \<notin> set s \<Longrightarrow> Expand_env getenv s = s"
  by (induction s) auto

lemma getShellName_word:
  assumes "name \<noteq> []" "list_all isAlphaNum name" "\<not> isShellSpecialVar (hd name)"
    and "rest = [] \<or> \<not> isAlphaNum (hd rest)"
  shows "getShellName (name @ rest) = (name, length name)"
proof -
  have t: "takeWhile isAlphaNum (name @ rest) = name"
    using assms(2,4) by (cases rest) (auto simp: list_all_iff takeWhile_append)
  obtain c cs where n: "name = c # cs" using assms(1) by (cases name) auto
  have "c \<noteq> CHR ''{''" using assms(2) n by (auto simp: isAlphaNum_def)
  with assms(3) n t show ?thesis by (simp add: getShellName_def Let_def)
qed

text \<open>A variable is replaced by its value.\<close>

lemma Expand_env_var:
  assumes "name \<noteq> []" "list_all isAlphaNum name" "\<not> isShellSpecialVar (hd name)"
    and "rest = [] \<or> \<not> isAlphaNum (hd rest)"
  shows "Expand_env getenv (CHR ''$'' # name @ rest) = getenv name @ Expand_env getenv rest"
  using assms(1) by (simp add: getShellName_word [OF assms])

end
