(* ===== verification/ClientCfg.thy ===== *)
theory ClientCfg
  imports GoPath XMLProfile JsonLaws
begin

text \<open>
  The configuration of the clients (\<^verbatim>\<open>pkg/client/config.go\<close>): validity, the expansion of paths and
  user name, and where it is loaded from and saved to. Reading and writing files are parameters.
\<close>

section \<open>Configuration\<close>

definition ConfigName :: string where
  "ConfigName = ''oc-client.json''"

definition ConfigDirName :: string where
  "ConfigDirName = ''oc-daemon''"

definition SystemConfigDirPath :: string where
  "SystemConfigDirPath = ''/var/lib''"

definition SystemProfile :: string where
  "SystemProfile = ''/var/lib/oc-daemon/profile.xml''"

record ClientConfig =
  cc_ClientCertificate :: string
  cc_ClientKey :: string
  cc_UserCertificate :: string
  cc_UserKey :: string
  cc_CACertificate :: string
  cc_XMLProfile :: string
  cc_VPNServer :: string
  cc_User :: string
  cc_UserGroup :: string
  cc_Password :: string
  cc_OpenConnect :: string
  cc_Protocol :: string
  cc_UserAgent :: string
  cc_Quiet :: bool
  cc_NoProxy :: bool
  cc_ExtraEnv :: "string slice"
  cc_ExtraArgs :: "string slice"

definition ClientConfig_Copy :: "ClientConfig option \<Rightarrow> ClientConfig option" where
  "ClientConfig_Copy p =
     (case p of None \<Rightarrow> None
      | Some c \<Rightarrow> Some (c\<lparr>cc_ExtraEnv := slice_append (slice_zero (cc_ExtraEnv c)) (slice_list (cc_ExtraEnv c)),
          cc_ExtraArgs := slice_append (slice_zero (cc_ExtraArgs c)) (slice_list (cc_ExtraArgs c))\<rparr>))"

definition ClientConfig_zero :: ClientConfig where
  "ClientConfig_zero =
     \<lparr>cc_ClientCertificate = '''', cc_ClientKey = '''', cc_UserCertificate = '''', cc_UserKey = '''',
      cc_CACertificate = '''', cc_XMLProfile = '''', cc_VPNServer = '''', cc_User = '''', cc_UserGroup = '''',
      cc_Password = '''', cc_OpenConnect = '''', cc_Protocol = '''', cc_UserAgent = '''', cc_Quiet = False,
      cc_NoProxy = False, cc_ExtraEnv = None, cc_ExtraArgs = None\<rparr>"

definition ClientConfig_Empty :: "ClientConfig option \<Rightarrow> bool" where
  "ClientConfig_Empty p = (case p of None \<Rightarrow> True | Some c \<Rightarrow> c = ClientConfig_zero)"

definition ClientConfig_Valid :: "ClientConfig option \<Rightarrow> bool" where
  "ClientConfig_Valid p =
     (if ClientConfig_Empty p then False
      else (case p of None \<Rightarrow> False
        | Some c \<Rightarrow> \<not> (cc_ClientCertificate c = '''' \<or> cc_ClientKey c = '''' \<or> cc_XMLProfile c = '''' \<or>
            cc_VPNServer c = '''' \<or> cc_OpenConnect c = '''' \<or> cc_Protocol c = '''' \<or> cc_UserAgent c = '''')))"

definition expandPath :: "(string \<Rightarrow> string) \<Rightarrow> string \<Rightarrow> string" where
  "expandPath getenv path =
     Expand_env getenv (if has_prefix path ''~'' then path_Join [''$HOME'', drop 1 path] else path)"

definition expandPaths :: "(string \<Rightarrow> string) \<Rightarrow> ClientConfig \<Rightarrow> ClientConfig" where
  "expandPaths getenv c =
     c\<lparr>cc_ClientCertificate := expandPath getenv (cc_ClientCertificate c),
       cc_ClientKey := expandPath getenv (cc_ClientKey c),
       cc_CACertificate := expandPath getenv (cc_CACertificate c)\<rparr>"

definition expandUser :: "(string \<Rightarrow> string) \<Rightarrow> ClientConfig \<Rightarrow> ClientConfig" where
  "expandUser getenv c = c\<lparr>cc_User := Expand_env getenv (cc_User c)\<rparr>"

definition ClientConfig_Expand :: "(string \<Rightarrow> string) \<Rightarrow> ClientConfig \<Rightarrow> ClientConfig" where
  "ClientConfig_Expand getenv c = expandUser getenv (expandPaths getenv c)"

definition NewClientConfig :: ClientConfig where
  "NewClientConfig =
     ClientConfig_zero\<lparr>cc_XMLProfile := SystemProfile, cc_OpenConnect := ''openconnect'',
       cc_Protocol := ''anyconnect'', cc_UserAgent := ''AnyConnect'', cc_Quiet := True, cc_NoProxy := True,
       cc_ExtraEnv := Some [], cc_ExtraArgs := Some []\<rparr>"

section \<open>Files\<close>

text \<open>
  The system around the client: the environment, the contents of files and the user's
  configuration directory.
\<close>

record client_sys =
  cs_getenv :: "string \<Rightarrow> string"
  cs_ReadFile :: "string \<Rightarrow> string option"
  cs_UserConfigDir :: "string option"

text \<open>The JSON of a configuration, without the password.\<close>

definition enc_ClientConfig :: "ClientConfig enc" where
  "enc_ClientConfig c = enc_struct
     [(''ClientCertificate'', enc_string (cc_ClientCertificate c)),
      (''ClientKey'', enc_string (cc_ClientKey c)),
      (''UserCertificate'', enc_string (cc_UserCertificate c)),
      (''UserKey'', enc_string (cc_UserKey c)),
      (''CACertificate'', enc_string (cc_CACertificate c)),
      (''XMLProfile'', enc_string (cc_XMLProfile c)),
      (''VPNServer'', enc_string (cc_VPNServer c)),
      (''User'', enc_string (cc_User c)),
      (''UserGroup'', enc_string (cc_UserGroup c)),
      (''OpenConnect'', enc_string (cc_OpenConnect c)),
      (''Protocol'', enc_string (cc_Protocol c)),
      (''UserAgent'', enc_string (cc_UserAgent c)),
      (''Quiet'', enc_bool (cc_Quiet c)),
      (''NoProxy'', enc_bool (cc_NoProxy c)),
      (''ExtraEnv'', enc_slice enc_string (cc_ExtraEnv c)),
      (''ExtraArgs'', enc_slice enc_string (cc_ExtraArgs c))]"

definition dec_ClientConfig :: "ClientConfig dec" where
  "dec_ClientConfig = dec_struct
     [(''ClientCertificate'', at_field cc_ClientCertificate cc_ClientCertificate_update dec_string),
      (''ClientKey'', at_field cc_ClientKey cc_ClientKey_update dec_string),
      (''UserCertificate'', at_field cc_UserCertificate cc_UserCertificate_update dec_string),
      (''UserKey'', at_field cc_UserKey cc_UserKey_update dec_string),
      (''CACertificate'', at_field cc_CACertificate cc_CACertificate_update dec_string),
      (''XMLProfile'', at_field cc_XMLProfile cc_XMLProfile_update dec_string),
      (''VPNServer'', at_field cc_VPNServer cc_VPNServer_update dec_string),
      (''User'', at_field cc_User cc_User_update dec_string),
      (''UserGroup'', at_field cc_UserGroup cc_UserGroup_update dec_string),
      (''OpenConnect'', at_field cc_OpenConnect cc_OpenConnect_update dec_string),
      (''Protocol'', at_field cc_Protocol cc_Protocol_update dec_string),
      (''UserAgent'', at_field cc_UserAgent cc_UserAgent_update dec_string),
      (''Quiet'', at_field cc_Quiet cc_Quiet_update dec_bool),
      (''NoProxy'', at_field cc_NoProxy cc_NoProxy_update dec_bool),
      (''ExtraEnv'', at_field cc_ExtraEnv cc_ExtraEnv_update (dec_slice dec_string '''')),
      (''ExtraArgs'', at_field cc_ExtraArgs cc_ExtraArgs_update (dec_slice dec_string ''''))]"

text \<open>The file operation, with permissions 0600 (384), nothing for an error of the encoding.\<close>

definition ClientConfig_Save :: "ClientConfig \<Rightarrow> string \<Rightarrow> file_op option" where
  "ClientConfig_Save c file = map_option (\<lambda>j. WriteFile file (json_indent 0 j) 384) (enc_ClientConfig c)"

definition LoadConfig :: "client_sys \<Rightarrow> string \<Rightarrow> ClientConfig option" where
  "LoadConfig S file =
     (case cs_ReadFile S file of None \<Rightarrow> None | Some b \<Rightarrow> from_JSON dec_ClientConfig NewClientConfig b)"

definition SystemConfig :: string where
  "SystemConfig = path_Join [SystemConfigDirPath, ConfigDirName, ConfigName]"

definition UserConfig :: "client_sys \<Rightarrow> string" where
  "UserConfig S =
     (case cs_UserConfigDir S of None \<Rightarrow> '''' | Some dir \<Rightarrow> path_Join [dir, ConfigDirName, ConfigName])"

definition LoadUserSystemConfig :: "client_sys \<Rightarrow> ClientConfig option" where
  "LoadUserSystemConfig S =
     (case LoadConfig S (UserConfig S) of
        Some config \<Rightarrow> Some (ClientConfig_Expand (cs_getenv S) config)
      | None \<Rightarrow>
          (case LoadConfig S SystemConfig of
             Some config \<Rightarrow> Some (ClientConfig_Expand (cs_getenv S) config)
           | None \<Rightarrow> None))"

section \<open>Lemmas\<close>

definition ok_ClientConfig :: "ClientConfig \<Rightarrow> bool" where
  "ok_ClientConfig c \<longleftrightarrow>
     list_all valid_utf8 [cc_ClientCertificate c, cc_ClientKey c, cc_UserCertificate c, cc_UserKey c, cc_CACertificate c,
       cc_XMLProfile c, cc_VPNServer c, cc_User c, cc_UserGroup c, cc_OpenConnect c, cc_Protocol c, cc_UserAgent c] \<and>
     list_all valid_utf8 (slice_list (cc_ExtraEnv c)) \<and> list_all valid_utf8 (slice_list (cc_ExtraArgs c))"

lemma ClientConfig_round_trip:
  assumes "ok_ClientConfig c"
  obtains j where "enc_ClientConfig c = Some j" "json_ok j"
    "\<And>old. dec_ClientConfig j old = (True, c\<lparr>cc_Password := cc_Password old\<rparr>)"
proof -
  let ?fs = "[struct_member ''ClientCertificate'' cc_ClientCertificate cc_ClientCertificate_update enc_string dec_string id,
    struct_member ''ClientKey'' cc_ClientKey cc_ClientKey_update enc_string dec_string id,
    struct_member ''UserCertificate'' cc_UserCertificate cc_UserCertificate_update enc_string dec_string id,
    struct_member ''UserKey'' cc_UserKey cc_UserKey_update enc_string dec_string id,
    struct_member ''CACertificate'' cc_CACertificate cc_CACertificate_update enc_string dec_string id,
    struct_member ''XMLProfile'' cc_XMLProfile cc_XMLProfile_update enc_string dec_string id,
    struct_member ''VPNServer'' cc_VPNServer cc_VPNServer_update enc_string dec_string id,
    struct_member ''User'' cc_User cc_User_update enc_string dec_string id,
    struct_member ''UserGroup'' cc_UserGroup cc_UserGroup_update enc_string dec_string id,
    struct_member ''OpenConnect'' cc_OpenConnect cc_OpenConnect_update enc_string dec_string id,
    struct_member ''Protocol'' cc_Protocol cc_Protocol_update enc_string dec_string id,
    struct_member ''UserAgent'' cc_UserAgent cc_UserAgent_update enc_string dec_string id,
    struct_member ''Quiet'' cc_Quiet cc_Quiet_update enc_bool dec_bool id,
    struct_member ''NoProxy'' cc_NoProxy cc_NoProxy_update enc_bool dec_bool id,
    struct_member ''ExtraEnv'' cc_ExtraEnv cc_ExtraEnv_update (enc_slice enc_string) (dec_slice dec_string '''') id,
    struct_member ''ExtraArgs'' cc_ExtraArgs cc_ExtraArgs_update (enc_slice enc_string) (dec_slice dec_string '''') id]"
  have "enc_ClientConfig c = enc_struct (enc_fields ?fs c)" "dec_ClientConfig = dec_struct (dec_fields ?fs)"
    "distinct (map fst ?fs)"
    by (simp_all add: enc_ClientConfig_def dec_ClientConfig_def struct_member_def)
  moreover have "list_all (field_law c) ?fs"
    using assms by (simp add: ok_ClientConfig_def basic_members struct_member_law [OF codec_strings])
  ultimately obtain j where j: "enc_ClientConfig c = Some j" "json_ok j"
    "\<And>old. dec_ClientConfig j old = (True, fold (\<lambda>f. snd (snd (snd f)) c) ?fs old)"
    by (rule struct_law [where enc = enc_ClientConfig]) blast
  moreover have "fold (\<lambda>f. snd (snd (snd f)) c) ?fs old = c\<lparr>cc_Password := cc_Password old\<rparr>" for old
    by (cases c; cases old) (simp add: struct_member_def)
  ultimately show thesis using that by simp
qed

lemma ClientConfig_Copy_id [simp]: "ClientConfig_Copy p = p"
  by (cases p) (simp_all add: ClientConfig_Copy_def)

lemma SystemConfig_eq: "SystemConfig = ''/var/lib/oc-daemon/oc-client.json''"
  by code_simp

text \<open>What a configuration file does not set keeps its default.\<close>

lemma LoadConfig_null: "cs_ReadFile S file = Some ''null'' \<Longrightarrow> LoadConfig S file = Some NewClientConfig"
proof -
  have "json_parse ''null'' = Some JNull" by code_simp
  then show "cs_ReadFile S file = Some ''null'' \<Longrightarrow> LoadConfig S file = Some NewClientConfig"
    by (simp add: LoadConfig_def from_JSON_def Unmarshal_def dec_ClientConfig_def)
qed

lemma LoadConfig_password: "LoadConfig S file = Some c \<Longrightarrow> cc_Password c = ''''"
proof -
  have "cc_Password (snd (dec_ClientConfig j r)) = cc_Password r" for j r
    unfolding dec_ClientConfig_def by (rule dec_struct_keeps) (simp add: at_field_keeps)
  then have p: "cc_Password (snd (Unmarshal dec_ClientConfig b NewClientConfig)) = cc_Password NewClientConfig" for b
    by (rule Unmarshal_keeps)
  assume "LoadConfig S file = Some c"
  then obtain b where b: "from_JSON dec_ClientConfig NewClientConfig b = Some c"
    by (auto simp: LoadConfig_def split: option.splits)
  obtain ok r where "Unmarshal dec_ClientConfig b NewClientConfig = (ok, r)" by force
  with p [of b] b show "cc_Password c = ''''"
    by (simp add: from_JSON_def NewClientConfig_def ClientConfig_zero_def split: if_splits)
qed

text \<open>A saved configuration is loaded without its password.\<close>

lemma LoadConfig_saved:
  assumes "ok_ClientConfig c" "ClientConfig_Save c file = Some (WriteFile f b mode)" "cs_ReadFile S f' = Some b"
  shows "f = file" "mode = 384" "LoadConfig S f' = Some (c\<lparr>cc_Password := ''''\<rparr>)"
proof -
  obtain j where j: "enc_ClientConfig c = Some j" "json_ok j" "\<And>old. dec_ClientConfig j old = (True, c\<lparr>cc_Password := cc_Password old\<rparr>)"
    using ClientConfig_round_trip [OF assms(1)] by blast
  from assms(2) j(1) show "f = file" "mode = 384" by (simp_all add: ClientConfig_Save_def)
  from assms(2) j have "json_parse b = Some j" by (auto simp: ClientConfig_Save_def json_parse_indent)
  with assms(3) j(3) show "LoadConfig S f' = Some (c\<lparr>cc_Password := ''''\<rparr>)"
    by (simp add: LoadConfig_def from_JSON_def Unmarshal_def NewClientConfig_def ClientConfig_zero_def)
qed

text \<open>Settings without variables and home directory stay as they are.\<close>

definition plain_settings :: "ClientConfig \<Rightarrow> bool" where
  "plain_settings c \<longleftrightarrow> CHR ''$'' \<notin> set (cc_User c) \<and>
     list_all (\<lambda>p. CHR ''$'' \<notin> set p \<and> \<not> has_prefix p ''~'') [cc_ClientCertificate c, cc_ClientKey c, cc_CACertificate c]"

lemma Expand_plain: "plain_settings c \<Longrightarrow> ClientConfig_Expand getenv c = c"
  by (simp add: plain_settings_def ClientConfig_Expand_def expandUser_def expandPaths_def expandPath_def Expand_env_free)

text \<open>Validity is exactly that the needed settings are there; an empty configuration is not valid.\<close>

lemma ClientConfig_Valid_iff:
  "ClientConfig_Valid (Some c) \<longleftrightarrow>
     '''' \<notin> {cc_ClientCertificate c, cc_ClientKey c, cc_XMLProfile c, cc_VPNServer c, cc_OpenConnect c,
       cc_Protocol c, cc_UserAgent c}"
  by (auto simp: ClientConfig_Valid_def ClientConfig_Empty_def ClientConfig_zero_def)

lemma clean_parts_plain:
  "\<forall>p \<in> set ps. p \<notin> {'''', ''.'', ''..''} \<Longrightarrow> clean_parts rooted out ps = rev ps @ out"
  by (induction ps arbitrary: out) auto

text \<open>A file name in the home directory.\<close>

lemma expandPath_home:
  assumes "ps \<noteq> []" "\<forall>p \<in> set ps. p \<notin> {'''', ''.'', ''..''} \<and> CHR ''/'' \<notin> set p \<and> CHR ''$'' \<notin> set p"
  shows "expandPath getenv (''~/'' @ join_with CHR ''/'' ps) = getenv ''HOME'' @ ''/'' @ join_with CHR ''/'' ps"
proof -
  let ?ps = "''$HOME'' # '''' # ps"
  have j: "join_with CHR ''/'' ?ps = ''$HOME//'' @ join_with CHR ''/'' ps" using assms(1) by (cases ps) auto
  have "split_char CHR ''/'' (join_with CHR ''/'' ?ps) = ?ps"
    by (rule split_char_join) (use assms in auto)
  moreover have "clean_parts False [] ?ps = rev ps @ [''$HOME'']"
    using assms by (simp add: clean_parts_plain)
  ultimately have "path_Clean (join_with CHR ''/'' ?ps) = ''$HOME/'' @ join_with CHR ''/'' ps"
    using assms(1) by (cases ps) (simp_all add: path_Clean_def Let_def)
  with j have "path_Join [''$HOME'', ''/'' @ join_with CHR ''/'' ps] = CHR ''$'' # ''HOME'' @ ''/'' @ join_with CHR ''/'' ps"
    by (simp add: path_Join_def)
  moreover have "CHR ''$'' \<notin> set (''/'' @ join_with CHR ''/'' ps)"
    using assms(2) set_join_with by fastforce
  ultimately show ?thesis
    using Expand_env_var [of "''HOME''" "''/'' @ join_with CHR ''/'' ps" getenv]
    by (simp add: expandPath_def has_prefix_def isAlphaNum_def isShellSpecialVar_def)
qed

end
