(* ===== verification/DaemonInv.thy ===== *)
theory DaemonInv
  imports Daemon
begin

text \<open>
  What holds in every state of the daemon's main loop: the view of the status, the connection, the
  VPN setup, the traffic policing with the server's address and the trusted network
  detection agree with each other. The invariant is kept by every handler, and by every step of
  the components on their own.
\<close>

section \<open>The invariant\<close>

text \<open>The addresses and networks that the traffic policing allows by configuration.\<close>

definition allowed_base :: "TrafficPolicing option \<Rightarrow> CPDConfig option \<Rightarrow> string list \<Rightarrow> prefix set" where
  "allowed_base tp cpd hosts =
     (case (tp, cpd) of
        (Some tp, Some cpd) \<Rightarrow>
          set (List.map_filter host_prefix ((slice_list (tp_AllowedHosts tp) @ hosts) @ [cpd_Host cpd]))
      | _ \<Rightarrow> {})"

definition configured :: "'t Daemon \<Rightarrow> prefix set" where
  "configured d =
     allowed_base (cfg_TrafficPolicing (d_config d)) (cfg_CPD (d_config d)) (getProfileAllowedHosts d)"

text \<open>
  OpenConnect runs whenever a connection is being made, used or ended. Without it there is no
  server address and no VPN configuration.
\<close>

definition conn_ok :: "ConnectionState \<Rightarrow> OCRunning \<Rightarrow> addr \<Rightarrow> vc_Config option \<Rightarrow> bool" where
  "conn_ok cs running ip config \<longleftrightarrow>
     cs \<noteq> ConnectionStateUnknown \<and> (cs \<noteq> ConnectionStateDisconnected \<longrightarrow> OC_Running running) \<and>
     (\<not> OC_Running running \<longrightarrow> ip = AddrZero \<and> config = None)"

text \<open>The VPN setup is active exactly while the status has a VPN configuration.\<close>

definition setup_ok :: "'t VPNSetup \<Rightarrow> vc_Config option \<Rightarrow> bool" where
  "setup_ok v config \<longleftrightarrow> vset_inv v \<and> vset_life v = Running \<and>
     (config = None \<longleftrightarrow> vset_splitrt v = None)"

text \<open>
  The traffic policing: the server's address is allowed in addition to the configured ones, and
  the daemon remembers whether it has to be removed again.
\<close>

definition server_allowed :: "prefix set \<Rightarrow> addr \<Rightarrow> bool \<Rightarrow> trafpol_conf \<Rightarrow> bool" where
  "server_allowed base ip added c \<longleftrightarrow>
     tc_allowed c = base \<union> (if addr_IsValid ip then {single ip} else {}) \<and>
     (added \<longleftrightarrow> addr_IsValid ip \<and> single ip \<notin> base)"

definition pol_ok ::
  "trafpol_conf option \<Rightarrow> Filter \<Rightarrow> TrafPolState \<Rightarrow> CaptivePortal \<Rightarrow> bool \<Rightarrow> TrustedNetwork \<Rightarrow>
   prefix set \<Rightarrow> addr \<Rightarrow> bool \<Rightarrow> bool" where
  "pol_ok tp fw state portal alwaysOn trusted base ip added \<longleftrightarrow>
     (case tp of
        None \<Rightarrow> \<not> added \<and> fw = no_filter \<and> state \<in> {TrafPolStateInactive, TrafPolStateDisabled} \<and>
          portal = CaptivePortalUnknown
      | Some c \<Rightarrow> tp_inv c \<and> state = TrafPolStateActive \<and> alwaysOn \<and> \<not> Trusted trusted \<and>
          server_allowed base ip added c \<and>
          portal = (if tc_status c then CaptivePortalDetected else CaptivePortalNotDetected))"

definition tnd_ok :: "'t tnd option \<Rightarrow> TNDState \<Rightarrow> Profile \<Rightarrow> bool" where
  "tnd_ok t state profile \<longleftrightarrow>
     (case t of
        None \<Rightarrow> state = TNDStateInactive \<and> GetTNDServers profile = []
      | Some t \<Rightarrow> state = TNDStateActive \<and> GetTNDServers profile \<noteq> [] \<and>
          tnd_started t \<and> tnd_servers t = GetTNDHTTPSServers profile)"

definition conn_inv :: "'t Daemon \<Rightarrow> bool" where
  "conn_inv d \<longleftrightarrow> conn_ok (st_ConnectionState (d_status d)) (st_OCRunning (d_status d)) (d_serverIP d)
     (st_VPNConfig (d_status d))"

definition setup_inv :: "'t Daemon \<Rightarrow> bool" where
  "setup_inv d \<longleftrightarrow> setup_ok (d_vpnsetup d) (st_VPNConfig (d_status d))"

definition pol_inv :: "'t Daemon \<Rightarrow> bool" where
  "pol_inv d \<longleftrightarrow> pol_ok (d_trafpol d) (d_fw d) (st_TrafPolState (d_status d))
     (st_CaptivePortal (d_status d)) (GetAlwaysOn (d_profile d)) (st_TrustedNetwork (d_status d))
     (configured d) (d_serverIP d) (d_serverIPAllowed d)"

definition tnd_inv :: "'t Daemon \<Rightarrow> bool" where
  "tnd_inv d \<longleftrightarrow> tnd_ok (d_tnd d) (st_TNDState (d_status d)) (d_profile d)"

definition lives_inv :: "'t Daemon \<Rightarrow> bool" where
  "lives_inv d \<longleftrightarrow> d_runner d = Running \<and> srv_life (d_server d) = Running \<and>
     \<not> srv_shutdown (d_server d) \<and> d_profmon d = Running \<and> d_sleepmon d = Running"

definition run_inv :: "'t lib \<Rightarrow> 't Daemon \<Rightarrow> bool" where
  "run_inv L d \<longleftrightarrow> view_ok L d \<and> conn_inv d \<and> setup_inv d \<and> pol_inv d \<and> tnd_inv d \<and> lives_inv d"

definition daemon_inv :: "'t lib \<Rightarrow> 't Daemon \<Rightarrow> bool" where
  "daemon_inv L d \<longleftrightarrow> (d_life d = Running \<longrightarrow> run_inv L d)"

lemmas inv_defs = conn_inv_def setup_inv_def pol_inv_def tnd_inv_def lives_inv_def

lemmas status_tests = OC_Running_def Connected_def Connecting_def Trusted_def

section \<open>Parts\<close>

lemma obind_Returns_iff: "obind x f = Returns y \<longleftrightarrow> (\<exists>z. x = Returns z \<and> f z = Returns y)"
  by (cases x) auto

lemma or_panic_Returns [simp]: "or_panic x = Returns y \<longleftrightarrow> x = Some y"
  by (cases x) (auto simp: or_panic_def)

lemma fallible_case:
  "(case r of Inl e \<Rightarrow> Returns (Inl e, d) | Inr _ \<Rightarrow> x) = Returns (Inr (), d') \<longleftrightarrow>
     r = Inr () \<and> x = Returns (Inr (), d')"
  by (cases r) auto

lemma Config_Copy_SomeD:
  "Config_Copy f c = Some c' \<Longrightarrow> c' = c\<lparr>cfg_TND := f (cfg_TND c)\<rparr>"
  by (auto simp: Config_Copy_def split: option.splits)

lemma configured_core: "d_config d' = d_config d \<Longrightarrow> d_profile d' = d_profile d \<Longrightarrow> configured d' = configured d"
  by (simp add: configured_def getProfileAllowedHosts_def)

lemma configured_frame [simp]:
  "configured (d\<lparr>d_vpnsetup := v\<rparr>) = configured d" "configured (d\<lparr>d_trafpol := p\<rparr>) = configured d"
  "configured (d\<lparr>d_sent := r\<rparr>) = configured d" "configured (d\<lparr>d_disableTrafPol := b\<rparr>) = configured d"
  "configured (d\<lparr>d_serverIP := a\<rparr>) = configured d" "configured (d\<lparr>d_serverIPAllowed := b\<rparr>) = configured d"
  "configured (d\<lparr>d_config := (d_config d)\<lparr>cfg_LoginInfo := l\<rparr>\<rparr>) = configured d"
  "configured (d\<lparr>d_config := (d_config d)\<lparr>cfg_VPNConfig := w\<rparr>\<rparr>) = configured d"
  "configured (d\<lparr>d_config := (d_config d)\<lparr>cfg_LoginInfo := l, cfg_VPNConfig := w\<rparr>\<rparr>) = configured d"
  "configured (d\<lparr>d_tnd := t\<rparr>) = configured d"
  by (simp_all add: configured_def getProfileAllowedHosts_def)

lemma configured_setStatus [simp]:
  "configured (setStatusTrustedNetwork b d) = configured d" "configured (setStatusConnectionState cs d) = configured d"
  "configured (setStatusIP s d) = configured d" "configured (setStatusDevice s d) = configured d"
  "configured (setStatusServer s d) = configured d" "configured (setStatusServerIP s d) = configured d"
  "configured (setStatusConnectedAt i d) = configured d" "configured (setStatusServers l d) = configured d"
  "configured (setStatusOCRunning b d) = configured d" "configured (setStatusOCPID w d) = configured d"
  "configured (setStatusTrafPolState ts d) = configured d" "configured (setStatusAllowedHosts l d) = configured d"
  "configured (setStatusCaptivePortal cp d) = configured d" "configured (setStatusTNDState t d) = configured d"
  "configured (setStatusTNDServers l d) = configured d" "configured (setStatusVPNConfig L c d) = configured d"
  by (simp_all add: configured_def getProfileAllowedHosts_def)

lemma tp_add_status [simp]: "tc_status (snd (tp_add a c)) = tc_status c"
  by (simp add: tp_add_eq Let_def)

lemma tp_remove_status [simp]: "tc_status (snd (tp_remove a c)) = tc_status c"
  by (simp add: tp_remove_eq Let_def)

lemma tp_inv_Running: "tp_inv c \<Longrightarrow> tp_life (tc_t c) = Running"
  by (simp add: tp_inv_def)

text \<open>The server address, added by the daemon and removed by it again.\<close>

lemma server_allowed_add:
  assumes "tp_inv c" "server_allowed base AddrZero added c" "addr_IsValid a"
  shows "server_allowed base a (fst (tp_add a c)) (snd (tp_add a c))"
  using assms tp.add_flag [OF assms(1), of a] tp.add_allowed [OF assms(1), of a]
  by (simp add: server_allowed_def addr_IsValid_def)

lemma server_allowed_remove:
  assumes "tp_inv c" "server_allowed base a added c"
  shows "server_allowed base AddrZero False (if added then snd (tp_remove a c) else c)"
  using assms tp.remove_allowed [OF assms(1), of a]
  by (auto simp: server_allowed_def addr_IsValid_def split: if_splits)

lemma trafpol_own_allowed:
  assumes "trafpol_step c ev c'" "own_event ev"
  shows "tc_allowed c' = tc_allowed c" "tc_status c' = tc_status c"
proof -
  from assms have "tc_allowed c' = tc_allowed c \<and> tc_status c' = tc_status c"
  proof cases
    case (tp_device u es t)
    then show ?thesis by (auto simp: tc_allowed_def TP_handleDeviceUpdate_def Let_def split: if_splits prod.splits)
  next
    case (tp_result r changed es t)
    then show ?thesis by (auto simp: tc_allowed_def handleCPDReport_def split: if_splits)
  qed (auto simp: tc_allowed_def handleDNSUpdate_def handleResolverUpdate_def Let_def)
  then show "tc_allowed c' = tc_allowed c" "tc_status c' = tc_status c" by auto
qed

section \<open>Handlers\<close>

lemma inv_runner_send:
  assumes "run_inv L d" "runner_send cmd d = Returns d'"
  shows "run_inv L d'"
  using assms by (simp add: runner_send_def run_inv_def inv_defs split: if_splits) auto

lemma inv_disconnectVPN:
  assumes "run_inv L d" "disconnectVPN d = Returns d'"
  shows "run_inv L d'"
proof (cases "OC_Running (st_OCRunning (d_status d))")
  case True
  with assms(1) have "run_inv L (setStatusConnectionState ConnectionStateDisconnecting d)"
    by (simp add: run_inv_def inv_defs conn_ok_def)
  with True assms(2) show ?thesis by (auto simp: disconnectVPN_def intro: inv_runner_send)
next
  case False
  with assms show ?thesis by (simp add: disconnectVPN_def)
qed

lemma allow_server_pol:
  assumes "pol_ok (d_trafpol d) fw ts cp ao tr base AddrZero (d_serverIPAllowed d)"
  shows "\<exists>tp added. allow_server d = Returns (d\<lparr>d_trafpol := tp, d_serverIPAllowed := added\<rparr>) \<and>
     pol_ok tp fw ts cp ao tr base (d_serverIP d) added"
proof (cases "d_trafpol d")
  case None
  with assms have "allow_server d = Returns (d\<lparr>d_trafpol := None, d_serverIPAllowed := False\<rparr>)"
    by (cases d) (simp add: allow_server_def pol_ok_def)
  moreover have "pol_ok None fw ts cp ao tr base (d_serverIP d) False" using None assms by (simp add: pol_ok_def)
  ultimately show ?thesis by blast
next
  case (Some c)
  with assms have c: "tp_inv c" "server_allowed base AddrZero (d_serverIPAllowed d) c"
    "ts = TrafPolStateActive" "ao" "\<not> Trusted tr"
    "cp = (if tc_status c then CaptivePortalDetected else CaptivePortalNotDetected)"
    by (simp_all add: pol_ok_def)
  show ?thesis
  proof (cases "addr_IsValid (d_serverIP d)")
    case True
    then have "allow_server d = Returns (d\<lparr>d_trafpol := Some (snd (tp_add (d_serverIP d) c)),
        d_serverIPAllowed := fst (tp_add (d_serverIP d) c)\<rparr>)"
      using Some c(1) by (simp add: allow_server_def allow_addr_def tp_inv_Running split_beta)
    moreover have "pol_ok (Some (snd (tp_add (d_serverIP d) c))) fw ts cp ao tr base (d_serverIP d)
        (fst (tp_add (d_serverIP d) c))"
      using c True server_allowed_add [OF c(1,2) True] tp.add_inv [OF c(1)] by (simp add: pol_ok_def)
    ultimately show ?thesis by blast
  next
    case False
    then have "allow_server d = Returns (d\<lparr>d_trafpol := Some c, d_serverIPAllowed := d_serverIPAllowed d\<rparr>)"
      using Some by (cases d) (simp add: allow_server_def)
    moreover have "pol_ok (Some c) fw ts cp ao tr base (d_serverIP d) (d_serverIPAllowed d)"
      using c False by (simp add: pol_ok_def server_allowed_def addr_IsValid_def)
    ultimately show ?thesis by blast
  qed
qed

lemma inv_connectVPN:
  assumes "run_inv L d" "connectVPN L login d = Returns d'"
  shows "run_inv L d'"
proof (cases "OC_Running (st_OCRunning (d_status d)) \<or> \<not> LoginInfo_Valid (Some login)")
  case True
  then have "connectVPN L login d = Returns d" by (elim disjE) (simp_all add: connectVPN_def)
  with assms show ?thesis by simp
next
  case False
  let ?ip = "case ParseAddr (trim_chars ''[]'' (li_Host login)) of Some a \<Rightarrow> a | None \<Rightarrow> d_serverIP d"
  let ?d1 = "setStatusConnectionState ConnectionStateConnecting (setStatusServerIP (addr_String ?ip)
     (setStatusServer (li_Server login) (setStatusOCRunning True (d\<lparr>d_serverIP := ?ip\<rparr>))))"
  have ip: "(case ParseAddr (trim_chars ''[]'' (li_Host login)) of
      Some a \<Rightarrow> d\<lparr>d_serverIP := a\<rparr> | None \<Rightarrow> d) = d\<lparr>d_serverIP := ?ip\<rparr>"
    by (cases d) (simp split: option.split)
  have inv: "view_ok L d" "setup_inv d" "pol_inv d" "tnd_inv d" "lives_inv d" "d_serverIP d = AddrZero"
    using assms(1) False by (simp_all add: run_inv_def conn_inv_def conn_ok_def)
  from inv(3,6) have "pol_ok (d_trafpol ?d1) (d_fw d) (st_TrafPolState (d_status d)) (st_CaptivePortal (d_status d))
      (GetAlwaysOn (d_profile d)) (st_TrustedNetwork (d_status d)) (configured d) AddrZero (d_serverIPAllowed ?d1)"
    by (simp add: pol_inv_def)
  from allow_server_pol [OF this] obtain tp added where
    a: "allow_server ?d1 = Returns (?d1\<lparr>d_trafpol := tp, d_serverIPAllowed := added\<rparr>)" and
    p: "pol_ok tp (d_fw d) (st_TrafPolState (d_status d)) (st_CaptivePortal (d_status d))
      (GetAlwaysOn (d_profile d)) (st_TrustedNetwork (d_status d)) (configured d) (d_serverIP ?d1) added" by blast
  let ?d2 = "?d1\<lparr>d_trafpol := tp, d_serverIPAllowed := added,
     d_config := (d_config d)\<lparr>cfg_LoginInfo := Some login\<rparr>\<rparr>"
  have "configured ?d2 = configured d" by (simp add: configured_def getProfileAllowedHosts_def)
  with inv p have "run_inv L ?d2"
    by (simp add: run_inv_def inv_defs conn_ok_def status_tests)
  moreover have "\<exists>cmd. runner_send cmd ?d2 = Returns d'"
    using assms(2) False a by (auto simp: connectVPN_def ip Let_def obind_Returns_iff)
  ultimately show ?thesis using inv_runner_send by blast
qed

text \<open>Setting up and tearing down the VPN configuration.\<close>

lemma setup_ok_Setup:
  assumes "VPNSetup_Setup dev addr conf v = Returns v'" "conf_ok conf"
  shows "setup_ok v' (Some config)"
proof -
  from assms(1) have s: "vset_life v = Running" "vpn_setup dev addr conf v = Returns v'"
    by (simp_all add: VPNSetup_Setup_def split: if_splits)
  have "vset_splitrt v' \<noteq> None" "vset_life v' = vset_life v" by (rule vpn_setup_facts [OF s(2)]; simp)+
  with s(1) vpn_setup_inv [OF assms(2) s(2)] show ?thesis by (simp add: setup_ok_def)
qed

lemma setup_ok_Teardown:
  assumes "VPNSetup_Teardown v = Returns v'"
  shows "setup_ok v' None"
proof -
  from assms have s: "vset_life v = Running" "vpn_teardown v = Returns v'"
    by (simp_all add: VPNSetup_Teardown_def split: if_splits)
  from vpn_teardown_facts [OF s(2)] s(1) show ?thesis by (simp add: setup_ok_def vset_inv_def)
qed

lemma inv_updateVPNConfigUp:
  assumes "run_inv L d" "updateVPNConfigUp L dev adr now config d = Returns d'"
  shows "run_inv L d'"
proof (cases "vc_Equal (Some config) (st_VPNConfig (d_status d)) \<or>
    \<not> OC_Running (st_OCRunning (d_status d)) \<or> Connected (st_ConnectionState (d_status d))")
  case True
  then have "updateVPNConfigUp L dev adr now config d = Returns d"
    by (elim disjE) (simp_all add: updateVPNConfigUp_def)
  with assms show ?thesis by simp
next
  case False
  then obtain vpn conf v where u: "GetVPNConfig config = Some vpn"
    "Config_Copy (lib_tnd_Copy L) ((d_config d)\<lparr>cfg_VPNConfig := Some vpn\<rparr>) = Some conf"
    "VPNSetup_Setup dev adr conf (d_vpnsetup d) = Returns v"
    "d' = setStatusConnectedAt now (setStatusConnectionState ConnectionStateConnected
      (setStatusDevice (vc_Device_Name (vc_Device config)) (setStatusIP (vpn_ip vpn)
      (setStatusVPNConfig L (Some config) (d\<lparr>d_config := (d_config d)\<lparr>cfg_VPNConfig := Some vpn\<rparr>,
        d_vpnsetup := v, d_disableTrafPol := vc_Flags_DisableAlwaysOnVPN (vc_Flags config)\<rparr>)))))"
    using assms(2) by (auto simp: updateVPNConfigUp_def Let_def obind_Returns_iff)
  have "conf_ok conf" using Config_Copy_SomeD [OF u(2)] GetVPNConfig_wf [OF u(1)] by (simp add: conf_ok_def)
  from setup_ok_Setup [OF u(3) this] have "setup_ok v (Some config)" .
  moreover have "configured (d\<lparr>d_config := (d_config d)\<lparr>cfg_VPNConfig := Some vpn\<rparr>,
        d_vpnsetup := v, d_disableTrafPol := vc_Flags_DisableAlwaysOnVPN (vc_Flags config)\<rparr>) = configured d"
    by (simp add: configured_def getProfileAllowedHosts_def)
  ultimately show ?thesis
    using assms(1) False by (simp add: u(4) run_inv_def inv_defs conn_ok_def)
qed

lemma updateVPNConfigDown_facts:
  assumes "updateVPNConfigDown L d = Returns d'" "setup_inv d"
    and "\<not> Connecting (st_ConnectionState (d_status d))" "\<not> Connected (st_ConnectionState (d_status d))"
  obtains v where "setup_ok v None"
    "d' = setStatusDevice '''' (setStatusIP '''' (setStatusConnectedAt 0 (setStatusServerIP ''''
      (setStatusServer '''' (setStatusVPNConfig L None (d\<lparr>d_vpnsetup := v,
        d_config := (d_config d)\<lparr>cfg_LoginInfo := Some LoginInfo_zero, cfg_VPNConfig := Some VPNConfig_zero\<rparr>\<rparr>))))))"
proof -
  let ?d1 = "\<lambda>v. d\<lparr>d_vpnsetup := v,
        d_config := (d_config d)\<lparr>cfg_LoginInfo := Some LoginInfo_zero, cfg_VPNConfig := Some VPNConfig_zero\<rparr>\<rparr>"
  show thesis
  proof (cases "st_VPNConfig (d_status d) = None")
    case True
    then have "setup_ok (d_vpnsetup d) None" using assms(2) by (simp add: setup_inv_def)
    moreover have "?d1 (d_vpnsetup d) = d\<lparr>d_config := (d_config d)\<lparr>cfg_LoginInfo := Some LoginInfo_zero,
        cfg_VPNConfig := Some VPNConfig_zero\<rparr>\<rparr>" by (cases d) simp
    ultimately show thesis
      using assms(1,3,4) True that [of "d_vpnsetup d"] by (simp add: updateVPNConfigDown_def)
  next
    case False
    then obtain v where "VPNSetup_Teardown (d_vpnsetup d) = Returns v"
      "d' = setStatusDevice '''' (setStatusIP '''' (setStatusConnectedAt 0 (setStatusServerIP ''''
        (setStatusServer '''' (setStatusVPNConfig L None (?d1 v))))))"
      using assms(1,3,4) by (auto simp: updateVPNConfigDown_def obind_Returns_iff Let_def)
    then show thesis using that setup_ok_Teardown by blast
  qed
qed

lemma inv_updateVPNConfigDown:
  assumes "run_inv L d" "updateVPNConfigDown L d = Returns d'"
  shows "run_inv L d'"
proof (cases "Connecting (st_ConnectionState (d_status d)) \<or> Connected (st_ConnectionState (d_status d))")
  case True
  then have "updateVPNConfigDown L d = Returns d" by (simp add: updateVPNConfigDown_def)
  with assms show ?thesis by simp
next
  case False
  have "setup_inv d" using assms(1) by (simp add: run_inv_def)
  with False obtain v where v: "setup_ok v None"
    "d' = setStatusDevice '''' (setStatusIP '''' (setStatusConnectedAt 0 (setStatusServerIP ''''
      (setStatusServer '''' (setStatusVPNConfig L None (d\<lparr>d_vpnsetup := v,
        d_config := (d_config d)\<lparr>cfg_LoginInfo := Some LoginInfo_zero, cfg_VPNConfig := Some VPNConfig_zero\<rparr>\<rparr>))))))"
    using updateVPNConfigDown_facts [OF assms(2)] by blast
  have "configured (d\<lparr>d_vpnsetup := v, d_config := (d_config d)\<lparr>cfg_LoginInfo := Some LoginInfo_zero,
      cfg_VPNConfig := Some VPNConfig_zero\<rparr>\<rparr>) = configured d"
    by (simp add: configured_def getProfileAllowedHosts_def)
  with assms(1) v show ?thesis by (simp add: run_inv_def inv_defs conn_ok_def)
qed

lemma inv_handleVPNAttemptReconnect: "run_inv L d \<Longrightarrow> run_inv L (handleVPNAttemptReconnect d)"
  by (auto simp: handleVPNAttemptReconnect_def run_inv_def inv_defs conn_ok_def)

lemma inv_handleVPNReconnect: "run_inv L d \<Longrightarrow> run_inv L (handleVPNReconnect d)"
  by (auto simp: handleVPNReconnect_def run_inv_def inv_defs conn_ok_def)

lemma handleClientRequest_cases:
  assumes "handleClientRequest L dev adr now r d = Returns (r', d')"
  obtains "d' = d" | config where "updateVPNConfigUp L dev adr now config d = Returns d'"
    | "updateVPNConfigDown L d = Returns d'" | "d' = handleVPNAttemptReconnect d" | "d' = handleVPNReconnect d"
proof -
  have up: "obind x (\<lambda>d. Returns (r, d)) = Returns (r', d') \<longleftrightarrow> x = Returns d' \<and> r' = r" for x and r :: api_Request
    by (cases x) auto
  show thesis
  proof (cases "\<exists>r0 u. r = Some r0 \<and> h_Type (req_msg r0) = TypeVPNConfigUpdate \<and>
      VPNConfigUpdateFromJSON (m_Value (req_msg r0)) = Some u \<and> VPNConfigUpdate_Valid u")
    case True
    then obtain r0 u where r: "r = Some r0" "h_Type (req_msg r0) = TypeVPNConfigUpdate"
      "VPNConfigUpdateFromJSON (m_Value (req_msg r0)) = Some u" "VPNConfigUpdate_Valid u" by blast
    have x: "(if vu_Reason u = ''connect'' then
               obind (or_panic (vu_Config u)) (\<lambda>config. updateVPNConfigUp L dev adr now config d)
             else if vu_Reason u = ''disconnect'' then updateVPNConfigDown L d
             else if vu_Reason u = ''attempt-reconnect'' then Returns (handleVPNAttemptReconnect d)
             else if vu_Reason u = ''reconnect'' then Returns (handleVPNReconnect d)
             else Returns d) = Returns d'"
      using assms r by (simp only: handleClientRequest_def updateVPNConfig_def option.case if_True not_True_eq_False if_False up simp_thms)
    consider "vu_Reason u = ''connect''" | "vu_Reason u = ''disconnect''" | "vu_Reason u = ''attempt-reconnect''"
      | "vu_Reason u = ''reconnect''" | "vu_Reason u \<notin> {''connect'', ''disconnect'', ''attempt-reconnect'', ''reconnect''}" by blast
    then show thesis
    proof cases
      case 1
      with x have "\<exists>config. updateVPNConfigUp L dev adr now config d = Returns d'" by (auto simp: obind_Returns_iff)
      then show thesis using that(2) by blast
    next
      case 2
      with x show thesis using that(3) by simp
    next
      case 3
      with x show thesis using that(4) by simp
    next
      case 4
      with x show thesis using that(5) by simp
    next
      case 5
      with x show thesis using that(1) by simp
    qed
  next
    case False
    with assms have "d' = d"
      by (cases r) (auto simp: handleClientRequest_def updateVPNConfig_def split: if_splits option.splits)
    then show thesis using that(1) by blast
  qed
qed

lemma inv_handleClientRequest:
  assumes "run_inv L d" "handleClientRequest L dev adr now r d = Returns (r', d')"
  shows "run_inv L d'"
  using assms(2)
proof (cases rule: handleClientRequest_cases)
  case (2 config)
  with assms(1) show ?thesis by (rule inv_updateVPNConfigUp)
next
  case 3
  with assms(1) show ?thesis by (rule inv_updateVPNConfigDown)
qed (use assms(1) inv_handleVPNAttemptReconnect inv_handleVPNReconnect in simp_all)

lemma inv_handleDBusRequest:
  assumes "run_inv L d" "handleDBusRequest L r d = Returns (r', d')"
  shows "run_inv L d'"
proof -
  from assms(2) consider "d' = d" | login where "connectVPN L login d = Returns d'" | "disconnectVPN d = Returns d'"
    by (auto simp: handleDBusRequest_def obind_Returns_iff split: list.splits if_splits)
  then show ?thesis using assms(1) inv_connectVPN inv_disconnectVPN by cases blast+
qed

text \<open>What a disconnect leaves of the connection.\<close>

definition cleared :: "'t Daemon \<Rightarrow> bool" where
  "cleared d \<longleftrightarrow> st_ConnectionState (d_status d) = ConnectionStateDisconnected \<and> st_OCPID (d_status d) = 0 \<and>
     st_Server (d_status d) = '''' \<and> st_ServerIP (d_status d) = '''' \<and> st_IP (d_status d) = '''' \<and>
     st_Device (d_status d) = '''' \<and> st_ConnectedAt (d_status d) = 0 \<and> st_VPNConfig (d_status d) = None \<and>
     cfg_LoginInfo (d_config d) = Some LoginInfo_zero \<and> cfg_VPNConfig (d_config d) = Some VPNConfig_zero"

lemma handleRunnerDisconnect_facts:
  assumes "pol_inv d" "setup_inv d" "handleRunnerDisconnect L d = Returns d'"
  shows "cleared d' \<and> configured d' = configured d \<and> d_serverIPAllowed d' = False \<and> conn_inv d' \<and> setup_inv d' \<and> pol_inv d' \<and> d_serverIP d' = AddrZero \<and>
     st_OCRunning (d_status d') = OCRunningNotRunning \<and> d_tnd d' = d_tnd d \<and>
     st_TNDState (d_status d') = st_TNDState (d_status d) \<and> d_profile d' = d_profile d \<and>
     (view_ok L d \<longrightarrow> view_ok L d') \<and> (lives_inv d \<longrightarrow> lives_inv d') \<and>
     d_server d' = d_server d \<and> d_runner d' = d_runner d \<and> d_profmon d' = d_profmon d \<and>
     d_sleepmon d' = d_sleepmon d \<and> d_life d' = d_life d"
proof -
  let ?d1 = "setStatusConnectedAt 0 (setStatusServerIP '''' (setStatusServer ''''
    (setStatusConnectionState ConnectionStateDisconnected (setStatusOCPID 0 (setStatusOCRunning False d)))))"
  obtain d2 where d2: "updateVPNConfigDown L ?d1 = Returns d2"
    using assms(3) by (auto simp: handleRunnerDisconnect_def Let_def obind_Returns_iff)
  have "setup_inv ?d1" using assms(2) by (simp add: setup_inv_def)
  then obtain v where v: "setup_ok v None"
    "d2 = setStatusDevice '''' (setStatusIP '''' (setStatusConnectedAt 0 (setStatusServerIP ''''
      (setStatusServer '''' (setStatusVPNConfig L None (?d1\<lparr>d_vpnsetup := v,
        d_config := (d_config d)\<lparr>cfg_LoginInfo := Some LoginInfo_zero, cfg_VPNConfig := Some VPNConfig_zero\<rparr>\<rparr>))))))"
    using updateVPNConfigDown_facts [OF d2] by (auto simp: status_tests)
  define base where "base = configured d"
  have base: "configured d2 = base" by (simp add: v(2) base_def configured_def getProfileAllowedHosts_def)
  have p: "pol_ok (d_trafpol d) (d_fw d) (st_TrafPolState (d_status d)) (st_CaptivePortal (d_status d))
    (GetAlwaysOn (d_profile d)) (st_TrustedNetwork (d_status d)) base (d_serverIP d) (d_serverIPAllowed d)"
    using assms(1) by (simp add: pol_inv_def base_def)
  have "\<exists>tp. d' = d2\<lparr>d_trafpol := tp, d_serverIP := AddrZero, d_serverIPAllowed := False\<rparr> \<and>
    pol_ok tp (d_fw d) (st_TrafPolState (d_status d)) (st_CaptivePortal (d_status d))
      (GetAlwaysOn (d_profile d)) (st_TrustedNetwork (d_status d)) base AddrZero False"
  proof (cases "d_trafpol d")
    case None
    then have "d_trafpol d2 = None" by (simp add: v(2))
    then have "d' = d2\<lparr>d_trafpol := None, d_serverIP := AddrZero, d_serverIPAllowed := False\<rparr>"
      using assms(3) d2 by (cases d2) (simp add: handleRunnerDisconnect_def Let_def)
    with None p show ?thesis by (auto simp: pol_ok_def)
  next
    case (Some c)
    let ?c = "if d_serverIPAllowed d then snd (tp_remove (d_serverIP d) c) else c"
    have c: "tp_inv c" "server_allowed base (d_serverIP d) (d_serverIPAllowed d) c" using Some p by (simp_all add: pol_ok_def)
    have "d_trafpol d2 = Some c" "d_serverIP d2 = d_serverIP d" "d_serverIPAllowed d2 = d_serverIPAllowed d"
      using Some by (simp_all add: v(2))
    then have "d' = d2\<lparr>d_trafpol := Some ?c, d_serverIP := AddrZero, d_serverIPAllowed := False\<rparr>"
      using assms(3) d2 c(1)
      by (cases d2) (auto simp: handleRunnerDisconnect_def Let_def disallow_addr_def tp_inv_Running split_beta split: if_splits)
    moreover have "pol_ok (Some ?c) (d_fw d) (st_TrafPolState (d_status d)) (st_CaptivePortal (d_status d))
      (GetAlwaysOn (d_profile d)) (st_TrustedNetwork (d_status d)) base AddrZero False"
      using Some p server_allowed_remove [OF c] tp.remove_inv [OF c(1)] by (simp add: pol_ok_def)
    ultimately show ?thesis by blast
  qed
  then obtain tp where tp: "d' = d2\<lparr>d_trafpol := tp, d_serverIP := AddrZero, d_serverIPAllowed := False\<rparr>"
    "pol_ok tp (d_fw d) (st_TrafPolState (d_status d)) (st_CaptivePortal (d_status d))
      (GetAlwaysOn (d_profile d)) (st_TrustedNetwork (d_status d)) base AddrZero False" by blast
  have "configured d' = base" using base by (simp add: tp(1))
  with tp v show ?thesis by (simp add: inv_defs conn_ok_def status_tests cleared_def base_def)
qed

text \<open>Starting and stopping the traffic policing changes nothing else.\<close>

definition rest_same :: "'t lib \<Rightarrow> 't Daemon \<Rightarrow> 't Daemon \<Rightarrow> bool" where
  "rest_same L d d' \<longleftrightarrow> (view_ok L d \<longrightarrow> view_ok L d') \<and> d_config d' = d_config d \<and>
     d_server d' = d_server d \<and> d_vpnsetup d' = d_vpnsetup d \<and> d_sleepmon d' = d_sleepmon d \<and>
     d_runner d' = d_runner d \<and> d_sent d' = d_sent d \<and> d_profile d' = d_profile d \<and>
     d_profmon d' = d_profmon d \<and> d_disableTrafPol d' = d_disableTrafPol d \<and>
     d_serverIP d' = d_serverIP d \<and> d_life d' = d_life d \<and> d_tnd d' = d_tnd d \<and>
     st_TrustedNetwork (d_status d') = st_TrustedNetwork (d_status d) \<and>
     st_ConnectionState (d_status d') = st_ConnectionState (d_status d) \<and>
     st_OCRunning (d_status d') = st_OCRunning (d_status d) \<and>
     st_VPNConfig (d_status d') = st_VPNConfig (d_status d) \<and>
     st_TNDState (d_status d') = st_TNDState (d_status d)"

lemma rest_same_refl [simp]: "rest_same L d d"
  by (simp add: rest_same_def)

lemma rest_same_inv:
  assumes "rest_same L d d'"
  shows "conn_inv d' = conn_inv d" "setup_inv d' = setup_inv d" "tnd_inv d' = tnd_inv d"
    "lives_inv d' = lives_inv d" "configured d' = configured d"
  using assms by (simp_all add: rest_same_def inv_defs configured_def getProfileAllowedHosts_def)

text \<open>
  The traffic policing while the trusted network is being checked: as in the invariant, but maybe
  in a trusted network.
\<close>

definition pol_pre :: "'t Daemon \<Rightarrow> bool" where
  "pol_pre d \<longleftrightarrow> pol_ok (d_trafpol d) (d_fw d) (st_TrafPolState (d_status d))
     (st_CaptivePortal (d_status d)) (GetAlwaysOn (d_profile d)) TrustedNetworkNotTrusted
     (configured d) (d_serverIP d) (d_serverIPAllowed d)"

lemma pol_inv_iff:
  "pol_inv d \<longleftrightarrow> pol_pre d \<and> (d_trafpol d \<noteq> None \<longrightarrow> \<not> Trusted (st_TrustedNetwork (d_status d)))"
  by (auto simp: pol_inv_def pol_pre_def pol_ok_def Trusted_def split: option.splits)

lemma stopTrafPol_facts:
  assumes "\<And>c. d_trafpol d = Some c \<Longrightarrow> tp_inv c" "d_trafpol d = None \<Longrightarrow> pol_pre d"
  obtains d' where "stopTrafPol d = Returns d'" "d_trafpol d' = None" "pol_pre d'" "rest_same L d d'"
proof (cases "d_trafpol d")
  case None
  with assms(2) show thesis using that [of d] by (simp add: stopTrafPol_def)
next
  case (Some c)
  then have "TrafPol_Stop (tc_t c) = Returns ([UnsetFilterRules],
      (tc_t c)\<lparr>tp_life := Stopped, tp_dnsmon := Stopped, tp_devmon := Stopped, tp_cpd := Stopped, tp_resolver := Stopped\<rparr>)"
    using assms(1) [OF Some] by (simp add: TrafPol_Stop_def tp_inv_Running life_Stop_def)
  with Some obtain d' where d': "stopTrafPol d = Returns d'"
    "d' = setStatusCaptivePortal CaptivePortalUnknown (setStatusAllowedHosts None
      (setStatusTrafPolState (if d_disableTrafPol d then TrafPolStateDisabled else TrafPolStateInactive)
        (d\<lparr>d_trafpol := None, d_fw := no_filter, d_serverIPAllowed := False\<rparr>)))"
    by (auto simp: stopTrafPol_def Let_def)
  show thesis
  proof (rule that [OF d'(1)])
    show "d_trafpol d' = None" by (simp add: d'(2))
    show "pol_pre d'" by (simp add: d'(2) pol_pre_def pol_ok_def)
    show "rest_same L d d'" by (simp add: d'(2) rest_same_def)
  qed
qed

lemma startTrafPol_facts:
  assumes "startTrafPol L dev dns d = Returns (Inr (), d')" "d_trafpol d = None" "pol_pre d"
    and "GetAlwaysOn (d_profile d)"
  shows "d_trafpol d' \<noteq> None \<and> pol_pre d' \<and> rest_same L d d'"
proof -
  from assms(1,2) obtain c tp t where s: "Config_Copy (lib_tnd_Copy L) (d_config d) = Some c"
    "cfg_TrafficPolicing c = Some tp"
    "NewTrafPol (c\<lparr>cfg_TrafficPolicing := Some (tp\<lparr>tp_AllowedHosts :=
       slice_append (tp_AllowedHosts tp) (getProfileAllowedHosts d)\<rparr>)\<rparr>) = Some t"
    by (auto simp: startTrafPol_def Let_def obind_Returns_iff)
  obtain r es t' where st: "TrafPol_Start dev dns t = (r, es, t')" by (cases "TrafPol_Start dev dns t")
  let ?hosts = "slice_append (tp_AllowedHosts tp) (getProfileAllowedHosts d)"
  let ?c = "c\<lparr>cfg_TrafficPolicing := Some (tp\<lparr>tp_AllowedHosts := ?hosts\<rparr>)\<rparr>"
  let ?tc = "\<lparr>tc_t = t', tc_fw = fw_run es (d_fw d), tc_status = False\<rparr>"
  let ?d1 = "setStatusCaptivePortal CaptivePortalNotDetected (setStatusAllowedHosts ?hosts
    (setStatusTrafPolState TrafPolStateActive (d\<lparr>d_trafpol := Some ?tc\<rparr>)))"
  have r: "r = Inr ()" "allow_server ?d1 = Returns d'"
    using assms(1,2) s st by (auto simp: startTrafPol_def Let_def obind_Returns_iff split: sum.splits)
  then have ok: "dev" "dns" "TrafPol_Start True True t = (Inr (), es, t')"
    using st by (auto simp: TrafPol_Start_def Let_def split: if_splits)
  obtain tpc cpdc where sec: "cfg_TrafficPolicing ?c = Some tpc" "cfg_CPD ?c = Some cpdc"
    using NewTrafPol_present [OF s(3)] by blast
  note props = NewTrafPol_props [OF s(3) sec]
  have inv: "tp_inv ?tc" using TrafPol_Start_inv [OF props(1) _ _ props(5) ok(3)] props(3,4) by blast
  have "tp_allowAddrs t' = tp_allowAddrs t" using ok(3) by (auto simp: TrafPol_Start_def Let_def)
  moreover have "slice_list ?hosts = slice_list (tp_AllowedHosts tp) @ getProfileAllowedHosts d"
    by (cases "tp_AllowedHosts tp") (auto simp: slice_append_def)
  ultimately have "tc_allowed ?tc = configured d"
    using props(7) sec s(2) Config_Copy_SomeD [OF s(1)]
    by (auto simp: tc_allowed_def configured_def allowed_base_def)
  then have "server_allowed (configured d) AddrZero False ?tc" by (simp add: server_allowed_def addr_IsValid_def)
  moreover have "\<not> d_serverIPAllowed d" using assms(2,3) by (simp add: pol_pre_def pol_ok_def)
  ultimately have "pol_ok (d_trafpol ?d1) (d_fw d) TrafPolStateActive CaptivePortalNotDetected True
      TrustedNetworkNotTrusted (configured d) AddrZero (d_serverIPAllowed ?d1)"
    using inv by (simp add: pol_ok_def Trusted_def)
  from allow_server_pol [OF this] r(2) obtain tp' added where d': "d' = ?d1\<lparr>d_trafpol := tp', d_serverIPAllowed := added\<rparr>"
    "pol_ok tp' (d_fw d) TrafPolStateActive CaptivePortalNotDetected True TrustedNetworkNotTrusted (configured d)
      (d_serverIP d) added" by auto
  have "configured d' = configured d" by (simp add: d'(1) configured_def getProfileAllowedHosts_def)
  moreover have "tp' \<noteq> None" using d'(2) by (cases tp') (simp_all add: pol_ok_def)
  moreover have "rest_same L d d'" by (simp add: d'(1) rest_same_def)
  ultimately show ?thesis using d'(2) assms(4) by (simp add: pol_pre_def) (simp add: d'(1))
qed

lemma checkTrafPol_facts:
  assumes "checkTrafPol L dev dns d = Returns (Inr (), d')" "pol_pre d"
  shows "pol_inv d' \<and> rest_same L d d' \<and>
     (d_trafpol d' \<noteq> None \<longleftrightarrow> \<not> d_disableTrafPol d \<and> GetAlwaysOn (d_profile d) \<and>
        \<not> Trusted (st_TrustedNetwork (d_status d)))"
proof (cases "d_disableTrafPol d \<or> \<not> GetAlwaysOn (d_profile d) \<or> Trusted (st_TrustedNetwork (d_status d))")
  case True
  have "\<And>c. d_trafpol d = Some c \<Longrightarrow> tp_inv c" using assms(2) by (simp add: pol_pre_def pol_ok_def)
  then obtain d1 where d1: "stopTrafPol d = Returns d1" "d_trafpol d1 = None" "pol_pre d1" "rest_same L d d1"
    using stopTrafPol_facts [of d L] assms(2) by blast
  have "checkTrafPol L dev dns d = obind (stopTrafPol d) (\<lambda>d. Returns (Inr (), d))"
    using True by (elim disjE) (simp_all add: checkTrafPol_def Let_def)
  with assms(1) d1(1) have "d' = d1" by simp
  with d1 True show ?thesis by (auto simp: pol_inv_iff)
next
  case False
  then have s: "startTrafPol L dev dns d = Returns (Inr (), d')"
    using assms(1) by (simp add: checkTrafPol_def Let_def)
  have "d_trafpol d' \<noteq> None \<and> pol_pre d' \<and> rest_same L d d'"
  proof (cases "d_trafpol d")
    case None
    with s False assms(2) show ?thesis by (intro startTrafPol_facts) auto
  next
    case (Some c)
    with s assms(2) show ?thesis by (auto simp: startTrafPol_def)
  qed
  with False show ?thesis by (auto simp: pol_inv_iff rest_same_def)
qed

lemma core_stopTND: "core (stopTND d) = core (d\<lparr>d_tnd := None\<rparr>)"
proof (cases "d_tnd d = None")
  case True
  then have "d\<lparr>d_tnd := None\<rparr> = d" by (cases d) simp
  then show ?thesis using True by (simp only: stopTND_def if_True simp_thms)
qed (auto simp: stopTND_def core_setStatus)

lemma status_stopTND:
  "status_but_lists (d_status (stopTND d)) = status_but_lists ((d_status d)\<lparr>st_TNDState :=
     if d_tnd d = None then st_TNDState (d_status d) else TNDStateInactive\<rparr>)"
  by (simp add: stopTND_def status_lists)

lemmas stopTND_frame [simp] = core_stopTND [THEN coreD] status_stopTND [THEN status_but_listsD]

lemma view_stopTND [simp, intro]: "view_ok L d \<Longrightarrow> view_ok L (stopTND d)"
  by (simp add: stopTND_def Let_def)

lemma startTND_facts:
  assumes "startTND tndOk d = Returns (Inr (), d')" "d_tnd d = None"
  obtains t where "core d' = core (d\<lparr>d_tnd := Some t\<rparr>)" "tnd_started t"
    "tnd_servers t = GetTNDHTTPSServers (d_profile d)" "view_ok L d \<Longrightarrow> view_ok L d'"
    "status_but_lists (d_status d') = status_but_lists ((d_status d)\<lparr>st_TNDState := TNDStateActive\<rparr>)"
proof -
  let ?t = "\<lambda>mark. \<lparr>tnd_config = cfg_TND (d_config d), tnd_servers = GetTNDHTTPSServers (d_profile d),
    tnd_dialer = mark, tnd_started = True\<rparr>"
  obtain mark s where d': "d' = setStatusTNDServers s (setStatusTNDState TNDStateActive (d\<lparr>d_tnd := Some (?t mark)\<rparr>))"
    using assms
    by (auto simp: startTND_def Let_def obind_Returns_iff setTNDDialer_def split: option.splits if_splits)
  show thesis
    by (rule that [of "?t mark"]) (simp_all add: d' core_setStatus status_lists)
qed

lemma checkTND_inv:
  assumes "checkTND tndOk d = Returns (Inr (), d')" "d_tnd d = None" "st_TNDState (d_status d) = TNDStateInactive"
    and "view_ok L d" "conn_inv d" "setup_inv d" "pol_inv d" "lives_inv d"
  shows "run_inv L d'"
proof (cases "GetTNDServers (d_profile d) = []")
  case True
  with assms(1,2) have "d' = d" by (simp add: checkTND_def stopTND_def)
  with True assms(2-) show ?thesis by (simp add: run_inv_def tnd_inv_def tnd_ok_def)
next
  case False
  with assms(1) have "startTND tndOk d = Returns (Inr (), d')" by (simp add: checkTND_def)
  from startTND_facts [OF this assms(2)] obtain t where t: "core d' = core (d\<lparr>d_tnd := Some t\<rparr>)" "tnd_started t"
    "tnd_servers t = GetTNDHTTPSServers (d_profile d)" "view_ok L d'"
    "status_but_lists (d_status d') = status_but_lists ((d_status d)\<lparr>st_TNDState := TNDStateActive\<rparr>)"
    using assms(4) by metis
  note f [simp] = coreD [OF t(1)] status_but_listsD [OF t(5)]
  have "configured d' = configured d" by (simp add: configured_def getProfileAllowedHosts_def)
  with t(2-4) False assms(5-) show ?thesis by (simp add: run_inv_def inv_defs tnd_ok_def)
qed

text \<open>The stages of a profile update.\<close>

lemma handleProfileUpdate_stages:
  assumes "pol_inv d" "handleProfileUpdate L dev dns tndOk loaded d = Returns (Inr (), d')"
  obtains d2 d3 d4 where "rest_same L (stopTND (d\<lparr>d_profile := readXMLProfile loaded\<rparr>)) d2"
    "pol_pre d2" "checkTrafPol L dev dns d2 = Returns (Inr (), d3)"
    "checkTND tndOk d3 = Returns (Inr (), d4)"
    "d' = setStatusServers (nil_slice (GetVPNServerHostNames (d_profile d4))) d4"
proof -
  let ?d1 = "stopTND (d\<lparr>d_profile := readXMLProfile loaded\<rparr>)"
  note pol = assms(1)
  then have w1: "d_trafpol ?d1 = Some c \<Longrightarrow> tp_inv c" for c by (simp add: pol_inv_def pol_ok_def)
  have w2: "pol_pre ?d1" if "d_trafpol ?d1 = None"
    using pol that by (simp add: pol_inv_def pol_pre_def pol_ok_def)
  obtain d2 where d2: "stopTrafPol ?d1 = Returns d2" "pol_pre d2" "rest_same L ?d1 d2"
    by (rule stopTrafPol_facts [OF w1 w2, of L])
  obtain d3 d4 where d3: "checkTrafPol L dev dns d2 = Returns (Inr (), d3)"
    "checkTND tndOk d3 = Returns (Inr (), d4)"
    "d' = setStatusServers (nil_slice (GetVPNServerHostNames (d_profile d4))) d4"
    using assms(2) d2(1)
    by (auto simp: handleProfileUpdate_def Let_def obind_Returns_iff fallible_case)
  show thesis by (rule that [OF d2(3,2) d3])
qed

lemma inv_handleProfileUpdate:
  assumes "run_inv L d" "handleProfileUpdate L dev dns tndOk loaded d = Returns (Inr (), d')"
  shows "run_inv L d'"
proof -
  let ?d1 = "stopTND (d\<lparr>d_profile := readXMLProfile loaded\<rparr>)"
  have inv: "view_ok L ?d1" "conn_inv ?d1" "setup_inv ?d1" "lives_inv ?d1" "d_tnd ?d1 = None"
    "st_TNDState (d_status ?d1) = TNDStateInactive"
    using assms(1) by (auto simp: run_inv_def inv_defs tnd_ok_def split: option.splits)
  have "pol_inv d" using assms(1) by (simp add: run_inv_def)
  then obtain d2 d3 d4 where d2: "rest_same L ?d1 d2" "pol_pre d2" and
    d3: "checkTrafPol L dev dns d2 = Returns (Inr (), d3)" "checkTND tndOk d3 = Returns (Inr (), d4)"
    "d' = setStatusServers (nil_slice (GetVPNServerHostNames (d_profile d4))) d4"
    using handleProfileUpdate_stages [OF _ assms(2)] by metis
  from checkTrafPol_facts [OF d3(1) d2(2)] have p3: "pol_inv d3" "rest_same L d2 d3" by simp_all
  note rs = rest_same_inv [OF d2(1)] rest_same_inv [OF p3(2)]
  have "run_inv L d4"
  proof (rule checkTND_inv [OF d3(2)])
    show "d_tnd d3 = None" "st_TNDState (d_status d3) = TNDStateInactive" "view_ok L d3"
      using inv d2(1) p3(2) unfolding rest_same_def by simp_all
    show "conn_inv d3" "setup_inv d3" "pol_inv d3" "lives_inv d3" using inv rs p3(1) by simp_all
  qed
  then show ?thesis by (simp add: d3(3) run_inv_def inv_defs)
qed

lemma inv_handleTNDResult:
  assumes "run_inv L d" "handleTNDResult L dev dns trusted d = Returns (Inr (), d')"
  shows "run_inv L d'"
proof -
  let ?d1 = "setStatusTrustedNetwork trusted d"
  from assms(2) obtain d2 where d2: "checkDisconnectVPN ?d1 = Returns d2"
    "checkTrafPol L dev dns d2 = Returns (Inr (), d')"
    by (auto simp: handleTNDResult_def obind_Returns_iff)
  have "view_ok L ?d1" "conn_inv ?d1" "setup_inv ?d1" "pol_pre ?d1" "tnd_inv ?d1" "lives_inv ?d1"
    using assms(1) by (simp_all add: run_inv_def pol_inv_iff) (simp_all add: inv_defs pol_pre_def)
  with d2(1) have "view_ok L d2 \<and> conn_inv d2 \<and> setup_inv d2 \<and> pol_pre d2 \<and> tnd_inv d2 \<and> lives_inv d2"
    by (auto simp: checkDisconnectVPN_def disconnectVPN_def runner_send_def inv_defs pol_pre_def conn_ok_def
        split: if_splits)
  with checkTrafPol_facts [OF d2(2)] show ?thesis
    by (auto simp: run_inv_def rest_same_inv) (auto simp: rest_same_def)
qed

lemma inv_handleRunnerEvent:
  assumes "run_inv L d" "handleRunnerEvent L e d = Returns d'"
  shows "run_inv L d'"
proof (cases "ce_Connect e")
  case True
  with assms show ?thesis
    by (auto simp: handleRunnerEvent_def run_inv_def inv_defs conn_ok_def status_tests)
next
  case False
  with assms(2) have h: "handleRunnerDisconnect L d = Returns d'" by (simp add: handleRunnerEvent_def)
  from assms(1) handleRunnerDisconnect_facts [OF _ _ h] show ?thesis by (simp add: run_inv_def tnd_inv_def)
qed

lemma inv_handleSleepMonEvent:
  assumes "run_inv L d" "handleSleepMonEvent sleep d = Returns d'"
  shows "run_inv L d'"
  using assms inv_disconnectVPN by (auto simp: handleSleepMonEvent_def split: if_splits)

lemma inv_handleCPDStatusUpdate:
  assumes "run_inv L d" "d_trafpol d = Some c" "trafpol_step c (TPStatus b) c'"
  shows "run_inv L (handleCPDStatusUpdate b (d\<lparr>d_trafpol := Some c'\<rparr>))"
proof -
  have c: "tp_inv c" using assms(1,2) by (simp add: run_inv_def pol_inv_def pol_ok_def)
  have "tp_inv c'" by (rule tpm.inv_step [OF c assms(3)])
  moreover have "tc_status c' = b" "tc_allowed c' = tc_allowed c"
    using assms(3) by (cases; simp add: tc_allowed_def)+
  ultimately show ?thesis
    using assms(1,2)
    by (simp add: handleCPDStatusUpdate_def run_inv_def inv_defs pol_ok_def server_allowed_def)
qed

lemma inv_own_trafpol:
  assumes "run_inv L d" "d_trafpol d = Some c" "trafpol_step c ev c'" "own_event ev"
  shows "run_inv L (d\<lparr>d_trafpol := Some c'\<rparr>)"
proof -
  have c: "tp_inv c" using assms(1,2) by (simp add: run_inv_def pol_inv_def pol_ok_def)
  from tpm.inv_step [OF c assms(3)] trafpol_own_allowed [OF assms(3,4)] assms(1,2) show ?thesis
    by (simp add: run_inv_def inv_defs pol_ok_def server_allowed_def)
qed

lemma inv_own_vpnsetup:
  assumes "run_inv L d" "vpnsetup_step (d_vpnsetup d) e v" "e = VSplit ev \<or> e = VPrefixes \<or> e = VEnsure out"
  shows "run_inv L (d\<lparr>d_vpnsetup := v\<rparr>)"
proof -
  have "vset_life v = vset_life (d_vpnsetup d) \<and> (vset_splitrt v = None \<longleftrightarrow> vset_splitrt (d_vpnsetup d) = None)"
    using assms(2,3) by cases (auto simp: handlePrefixes_def split_moves_def Let_def split: option.splits)
  moreover have "vset_inv v"
    using assms(1) vset.inv_step [OF _ assms(2)] by (simp add: run_inv_def setup_inv_def setup_ok_def)
  ultimately show ?thesis using assms(1) by (simp add: run_inv_def inv_defs setup_ok_def)
qed

section \<open>Start\<close>

lemma daemon_shutdown_life: "daemon_shutdown L ends d = Returns d' \<Longrightarrow> d_life d' = Ended"
  by (auto simp: daemon_shutdown_def Let_def obind_Returns_iff)

lemma cleanup_not_Inr:
  "cleanup_profmon e d \<noteq> Returns (Inr (), d')" "cleanup_unix e d \<noteq> Returns (Inr (), d')"
  "cleanup_dbus e d \<noteq> Returns (Inr (), d')" "cleanup_trafpol e d \<noteq> Returns (Inr (), d')"
  "cleanup_tnd e d \<noteq> Returns (Inr (), d')"
  by (auto simp: cleanup_profmon_def cleanup_unix_def cleanup_dbus_def cleanup_trafpol_def cleanup_tnd_def
      obind_Returns_iff Let_def)

text \<open>The state in which \<^verbatim>\<open>Start\<close> sets the initial status: all services run.\<close>

definition started :: "string \<Rightarrow> 't Daemon \<Rightarrow> 't Daemon" where
  "started token d = (daemon_cleanup d)\<lparr>d_token := token, d_sleepmon := Running, d_profmon := Running,
     d_vpnsetup := VPNSetup_Start (d_vpnsetup (daemon_cleanup d)), d_runner := Running,
     d_server := (d_server d)\<lparr>srv_life := Running\<rparr>,
     d_dbus := snd (Service_Start None (d_dbus d))\<rparr>"

lemma Daemon_Start_started:
  assumes "se_token e = Some token" "se_sleepmon e" "se_profmon e" "se_server e" "se_dbus e = None"
  shows "Daemon_Start L e d =
    obind (checkTrafPol L (se_devmon e) (se_dnsmon e) (setInitialStatus (started token d))) (\<lambda>(r, d).
      if isl r then cleanup_trafpol TrafPolFailed d
      else obind (checkTND (se_tnd e) d) (\<lambda>(r, d). if isl r then cleanup_tnd TNDFailed d
        else Returns (Inr (), d\<lparr>d_life := Running\<rparr>)))"
  using assms
  by (simp add: Daemon_Start_def Let_def Server_Start_def Service_Start_def started_def daemon_cleanup_def)

lemma Daemon_Start_facts:
  assumes "Daemon_Start L e d = Returns (Inr (), d')"
  obtains token d1 d2 where
    "checkTrafPol L (se_devmon e) (se_dnsmon e) (setInitialStatus (started token d)) = Returns (Inr (), d1)"
    "checkTND (se_tnd e) d1 = Returns (Inr (), d2)" "d' = d2\<lparr>d_life := Running\<rparr>"
proof -
  obtain token where t: "se_token e = Some token"
    using assms by (cases "se_token e") (simp_all add: Daemon_Start_def Let_def)
  have sl: "se_sleepmon e"
    using assms t by (cases "se_sleepmon e") (simp_all add: Daemon_Start_def Let_def)
  have pm: "se_profmon e"
    using assms t sl by (cases "se_profmon e") (simp_all add: Daemon_Start_def Let_def cleanup_not_Inr)
  have sv: "se_server e"
    using assms t sl pm
    by (cases "se_server e") (simp_all add: Daemon_Start_def Let_def Server_Start_def cleanup_not_Inr)
  have "se_dbus e = None"
    using assms t sl pm sv
    by (cases "se_dbus e"; cases "the (se_dbus e)")
      (simp_all add: Daemon_Start_def Let_def Server_Start_def Service_Start_def cleanup_not_Inr split_beta)
  note e = t sl pm sv this
  have ok: "(if isl r then cleanup_trafpol TrafPolFailed d else x) = Returns (Inr (), d')
      \<longleftrightarrow> r = Inr () \<and> x = Returns (Inr (), d')"
    "(if isl r then cleanup_tnd TNDFailed d else x) = Returns (Inr (), d')
      \<longleftrightarrow> r = Inr () \<and> x = Returns (Inr (), d')"
    for r :: "daemon_error + unit" and x d
    by (cases r; simp add: cleanup_not_Inr)+
  have "obind (checkTrafPol L (se_devmon e) (se_dnsmon e) (setInitialStatus (started token d))) (\<lambda>(r, d).
      if isl r then cleanup_trafpol TrafPolFailed d
      else obind (checkTND (se_tnd e) d) (\<lambda>(r, d). if isl r then cleanup_tnd TNDFailed d
        else Returns (Inr (), d\<lparr>d_life := Running\<rparr>))) = Returns (Inr (), d')"
    using assms unfolding Daemon_Start_started [OF e] .
  then obtain r1 d1 where 1: "checkTrafPol L (se_devmon e) (se_dnsmon e) (setInitialStatus (started token d)) = Returns (r1, d1)"
    "r1 = Inr ()" "obind (checkTND (se_tnd e) d1) (\<lambda>(r, d). if isl r then cleanup_tnd TNDFailed d
        else Returns (Inr (), d\<lparr>d_life := Running\<rparr>)) = Returns (Inr (), d')"
    unfolding obind_Returns_iff by (auto simp: ok obind_Returns_iff)
  then obtain r2 d2 where "checkTND (se_tnd e) d1 = Returns (r2, d2)" "r2 = Inr ()" "d' = d2\<lparr>d_life := Running\<rparr>"
    unfolding obind_Returns_iff by (auto simp: ok)
  with 1(1,2) show thesis using that by blast
qed

lemma started_view:
  assumes "d_status d = NewStatus"
  shows "view_ok L (setInitialStatus (started token d))"
proof -
  have "view_ok L (started token d)"
    using Service_Start_shows [of "d_dbus d" "vc_JSON"] assms
    by (auto simp: view_ok_def started_def daemon_cleanup_def Service_Start_def)
  then show ?thesis by (simp add: setInitialStatus_def Let_def)
qed

lemma started_inv:
  assumes "NewDaemon loaded config = Some d0" and d_def: "d = setInitialStatus (started token d0)"
  shows "view_ok L d" "conn_inv d" "setup_inv d" "lives_inv d" "pol_pre d" "d_tnd d = None"
    "st_TNDState (d_status d) = TNDStateInactive" "st_OCRunning (d_status d) = OCRunningNotRunning"
proof -
  have new: "d_trafpol d0 = None" "d_serverIP d0 = AddrZero" "\<not> d_serverIPAllowed d0" "d_tnd d0 = None"
    "d_status d0 = NewStatus" "d_server d0 = NewServer" "\<exists>p. d_vpnsetup d0 = NewVPNSetup (NewProxy p)"
    using assms(1) by (auto simp: NewDaemon_def split: option.splits)
  show "view_ok L d" unfolding d_def using new(5) by (rule started_view)
  show "conn_inv d" "setup_inv d" "lives_inv d" "pol_pre d" "d_tnd d = None"
    "st_TNDState (d_status d) = TNDStateInactive" "st_OCRunning (d_status d) = OCRunningNotRunning"
    using new unfolding d_def
    by (auto simp: setInitialStatus_def Let_def started_def daemon_cleanup_def inv_defs conn_ok_def
        setup_ok_def pol_pre_def pol_ok_def NewStatus_def NewServer_def NewVPNSetup_def VPNSetup_Start_def
        vset_inv_def VPNSetup_Cleanup_def TrafPol_Cleanup_def status_tests)
qed

text \<open>The stages of a start that succeeds.\<close>

lemma daemon_init_stages:
  assumes "daemon_init L d"
  obtains loaded config d0 token devmonOk dnsmonOk tndOk d1 d2 where "NewDaemon loaded config = Some d0"
    "checkTrafPol L devmonOk dnsmonOk (setInitialStatus (started token d0)) = Returns (Inr (), d1)"
    "pol_inv d1" "rest_same L (setInitialStatus (started token d0)) d1" "d_tnd d1 = None"
    "checkTND tndOk d1 = Returns (Inr (), d2)" "d = d2\<lparr>d_life := Running\<rparr>"
proof -
  from assms obtain loaded config d0 e where i: "NewDaemon loaded config = Some d0"
    "Daemon_Start L e d0 = Returns (Inr (), d)" unfolding daemon_init_def by blast
  obtain token d1 d2 where s:
    "checkTrafPol L (se_devmon e) (se_dnsmon e) (setInitialStatus (started token d0)) = Returns (Inr (), d1)"
    "checkTND (se_tnd e) d1 = Returns (Inr (), d2)" "d = d2\<lparr>d_life := Running\<rparr>"
    by (rule Daemon_Start_facts [OF i(2)])
  note st = started_inv [OF i(1) refl, where token = token]
  from checkTrafPol_facts [OF s(1) st(5)] have c: "pol_inv d1" "rest_same L (setInitialStatus (started token d0)) d1"
    by simp_all
  moreover have "d_tnd d1 = None" using c(2) st(6) by (simp add: rest_same_def)
  ultimately show thesis using that i(1) s by blast
qed

lemma daemon_init_inv:
  assumes "daemon_init L d"
  shows "run_inv L d"
proof -
  from assms obtain loaded config d0 token devmonOk dnsmonOk tndOk d1 d2 where s: "NewDaemon loaded config = Some d0"
    "pol_inv d1" "rest_same L (setInitialStatus (started token d0)) d1" "d_tnd d1 = None"
    "checkTND tndOk d1 = Returns (Inr (), d2)" "d = d2\<lparr>d_life := Running\<rparr>"
    by (rule daemon_init_stages)
  note st = started_inv [OF s(1) refl, where token = token]
  have "run_inv L d2"
    using s(2) st by (intro checkTND_inv [OF s(5,4)])
      (simp_all add: rest_same_inv [OF s(3)], simp_all add: s(3) [unfolded rest_same_def])
  then show ?thesis by (simp add: s(6) run_inv_def inv_defs configured_def getProfileAllowedHosts_def)
qed

lemma daemon_step_inv:
  assumes "daemon_inv L d" "daemon_step L d e d'"
  shows "daemon_inv L d'"
  using assms(2)
proof cases
  case (d_client dev adr now r r')
  with assms(1) show ?thesis by (auto simp: daemon_inv_def intro: inv_handleClientRequest)
next
  case (d_request r r')
  with assms(1) show ?thesis by (auto simp: daemon_inv_def intro: inv_handleDBusRequest)
next
  case (d_result dev dns trusted)
  with assms(1) show ?thesis by (auto simp: daemon_inv_def intro: inv_handleTNDResult)
next
  case (d_result_error dev dns trusted e d1 ends)
  then show ?thesis by (simp add: daemon_inv_def daemon_shutdown_life)
next
  case (d_event e)
  with assms(1) show ?thesis by (auto simp: daemon_inv_def intro: inv_handleRunnerEvent)
next
  case (d_sleep sleep)
  with assms(1) show ?thesis by (auto simp: daemon_inv_def intro: inv_handleSleepMonEvent)
next
  case (d_update dev dns tnd loaded)
  with assms(1) show ?thesis by (auto simp: daemon_inv_def intro: inv_handleProfileUpdate)
next
  case (d_update_error dev dns tnd loaded e d1 ends)
  then show ?thesis by (simp add: daemon_inv_def daemon_shutdown_life)
next
  case (d_portal c b c')
  with assms(1) show ?thesis by (auto simp: daemon_inv_def intro: inv_handleCPDStatusUpdate)
next
  case (d_trafpol_own c ev c')
  with assms(1) show ?thesis by (auto simp: daemon_inv_def intro: inv_own_trafpol)
next
  case (d_vpnsetup_split ev v)
  with assms(1) show ?thesis by (auto simp: daemon_inv_def intro: inv_own_vpnsetup)
next
  case (d_vpnsetup_prefixes v)
  with assms(1) show ?thesis by (auto simp: daemon_inv_def intro: inv_own_vpnsetup)
next
  case (d_vpnsetup_ensure out v)
  with assms(1) show ?thesis by (auto simp: daemon_inv_def intro: inv_own_vpnsetup)
qed

interpretation dm: machine "daemon_init L" "daemon_step L" "daemon_inv L" for L
proof
  show "daemon_inv L d" if "daemon_init L d" for d
    using daemon_init_inv [OF that] by (simp add: daemon_inv_def)
qed (rule daemon_step_inv)

lemma reach_run_inv: "reach (daemon_init L) (daemon_step L) d \<Longrightarrow> d_life d = Running \<Longrightarrow> run_inv L d"
  using dm.reach_inv by (auto simp: daemon_inv_def)

end
