(* ===== verification/DaemonLive.thy ===== *)
theory DaemonLive
  imports DaemonInv
begin

text \<open>
  Progress of the daemon: with a complete configuration and a working split routing every handler
  returns, it neither dereferences a nil pointer nor waits for a component that does not answer.
  \<^verbatim>\<open>Start\<close> succeeds when the system's calls do.
\<close>

section \<open>Operations that return\<close>

text \<open>A configuration whose sections are present, as those that were validated are.\<close>

definition complete :: "'t Config \<Rightarrow> bool" where
  "complete c \<longleftrightarrow> cfg_SocketServer c \<noteq> None \<and> cfg_CPD c \<noteq> None \<and> cfg_DNSProxy c \<noteq> None \<and>
     cfg_OpenConnect c \<noteq> None \<and> cfg_Executables c \<noteq> None \<and> cfg_SplitRouting c \<noteq> None \<and>
     cfg_TrafficPolicing c \<noteq> None \<and> cfg_CommandLists c \<noteq> None \<and> cfg_LoginInfo c \<noteq> None"

text \<open>Split routing is running if the VPN is set up.\<close>

definition splitrt_up :: "'t VPNSetup \<Rightarrow> bool" where
  "splitrt_up v \<longleftrightarrow> (case vset_splitrt v of None \<Rightarrow> True | Some (s, _) \<Rightarrow> srt_life s = Running)"

definition returns :: "'a outcome \<Rightarrow> bool" where
  "returns x \<longleftrightarrow> (\<exists>y. x = Returns y)"

lemma returns_simps [simp]: "returns (Returns y)" "\<not> returns Panics" "\<not> returns Blocks"
  by (simp_all add: returns_def)

lemma returns_or_panic [simp]: "returns (or_panic x) \<longleftrightarrow> x \<noteq> None"
  by (cases x) (simp_all add: or_panic_def)

lemma returns_obind:
  "returns (obind x f) \<longleftrightarrow> (\<exists>y. x = Returns y \<and> returns (f y))"
  by (cases x) simp_all

lemma returns_obindI [intro]:
  "returns x \<Longrightarrow> (\<And>y. x = Returns y \<Longrightarrow> returns (f y)) \<Longrightarrow> returns (obind x f)"
  by (auto simp: returns_obind returns_def)

lemma complete_Copy: "complete c \<Longrightarrow> Config_Copy f c = Some (c\<lparr>cfg_TND := f (cfg_TND c)\<rparr>)"
  by (cases c) (auto simp: complete_def Config_Copy_def)

lemma complete_update [simp]:
  "complete (c\<lparr>cfg_VPNConfig := w\<rparr>) \<longleftrightarrow> complete c"
  "complete c \<Longrightarrow> complete (c\<lparr>cfg_LoginInfo := Some l\<rparr>)"
  "complete c \<Longrightarrow> complete (c\<lparr>cfg_LoginInfo := Some l, cfg_VPNConfig := w\<rparr>)"
  by (simp_all add: complete_def)

lemma completeD:
  assumes "complete c"
  obtains ss cpd dp oc sr tp l where "cfg_SocketServer c = Some ss" "cfg_CPD c = Some cpd"
    "cfg_DNSProxy c = Some dp" "cfg_OpenConnect c = Some oc" "cfg_SplitRouting c = Some sr"
    "cfg_TrafficPolicing c = Some tp" "cfg_LoginInfo c = Some l"
  using assms by (auto simp: complete_def)

lemma runner_send_returns: "lives_inv d \<Longrightarrow> returns (runner_send cmd d)"
  by (simp add: runner_send_def lives_inv_def)

lemma disconnectVPN_returns: "lives_inv d \<Longrightarrow> returns (disconnectVPN d)"
  by (simp add: disconnectVPN_def runner_send_returns lives_inv_def)

lemma allow_server_returns:
  "(\<And>c. d_trafpol d = Some c \<Longrightarrow> tp_life (tc_t c) = Running) \<Longrightarrow> returns (allow_server d)"
  by (auto simp: allow_server_def allow_addr_def split_beta split: option.splits)

lemma pol_inv_life: "pol_inv d \<Longrightarrow> d_trafpol d = Some c \<Longrightarrow> tp_life (tc_t c) = Running"
  by (simp add: pol_inv_def pol_ok_def tp_inv_Running)

lemma allow_server_frame:
  assumes "allow_server d = Returns d'"
  shows "d_config d' = d_config d" "d_runner d' = d_runner d" "d_token d' = d_token d"
  using assms by (auto simp: allow_server_def obind_Returns_iff split: option.splits if_splits)

lemma connectVPN_returns:
  assumes "lives_inv d" "pol_inv d" "complete (d_config d)"
  shows "returns (connectVPN L login d)"
proof (cases "OC_Running (st_OCRunning (d_status d)) \<or> \<not> LoginInfo_Valid (Some login)")
  case True
  then show ?thesis by (elim disjE) (simp_all add: connectVPN_def)
next
  case False
  let ?d = "setStatusConnectionState ConnectionStateConnecting (setStatusServerIP
    (addr_String (d_serverIP (case ParseAddr (trim_chars ''[]'' (li_Host login)) of
       Some a \<Rightarrow> d\<lparr>d_serverIP := a\<rparr> | None \<Rightarrow> d)))
    (setStatusServer (li_Server login) (setStatusOCRunning True
      (case ParseAddr (trim_chars ''[]'' (li_Host login)) of Some a \<Rightarrow> d\<lparr>d_serverIP := a\<rparr> | None \<Rightarrow> d))))"
  have same: "d_config ?d = d_config d" "d_runner ?d = d_runner d" "d_trafpol ?d = d_trafpol d"
    by (auto split: option.split)
  have "returns (allow_server ?d)"
    using pol_inv_life [OF assms(2)] by (intro allow_server_returns) (auto split: option.splits)
  then obtain d1 where d1: "allow_server ?d = Returns d1" by (auto simp: returns_def)
  have c: "d_config d1 = d_config d" "d_runner d1 = Running"
    using allow_server_frame [OF d1] same assms(1) by (simp_all add: lives_inv_def)
  obtain ss oc where s: "cfg_SocketServer (d_config d) = Some ss" "cfg_OpenConnect (d_config d) = Some oc"
    using completeD [OF assms(3)] by blast
  show ?thesis
    using False d1 c s complete_Copy [of "(d_config d)\<lparr>cfg_LoginInfo := Some login\<rparr>"] assms(3)
    by (simp add: connectVPN_def Let_def runner_send_def or_panic_def)
qed

lemma VPNSetup_Setup_returns:
  "vset_life v = Running \<Longrightarrow> cfg_VPNConfig c \<noteq> None \<Longrightarrow> cfg_DNSProxy c \<noteq> None \<Longrightarrow>
     returns (VPNSetup_Setup dev adr c v)"
  by (auto simp: VPNSetup_Setup_def vpn_setup_def Let_def split_beta)

lemma updateVPNConfigUp_returns:
  assumes "setup_inv d" "complete (d_config d)" "GetVPNConfig config \<noteq> None"
  shows "returns (updateVPNConfigUp L dev adr now config d)"
proof -
  obtain vpn where vpn: "GetVPNConfig config = Some vpn" using assms(3) by blast
  let ?c = "(d_config d)\<lparr>cfg_VPNConfig := Some vpn\<rparr>"
  have "returns (VPNSetup_Setup dev adr (?c\<lparr>cfg_TND := lib_tnd_Copy L (cfg_TND ?c)\<rparr>) (d_vpnsetup d))"
    using assms(1,2) by (intro VPNSetup_Setup_returns) (simp_all add: setup_inv_def setup_ok_def complete_def)
  then show ?thesis
    using vpn complete_Copy [of ?c "lib_tnd_Copy L"] assms(2)
    by (auto simp: updateVPNConfigUp_def Let_def or_panic_def returns_obind returns_def)
qed

lemma VPNSetup_Teardown_returns:
  assumes "vset_inv v" "vset_life v = Running" "vset_splitrt v \<noteq> None" "splitrt_up v"
  shows "returns (VPNSetup_Teardown v)"
  using assms
  by (auto simp: VPNSetup_Teardown_def vpn_teardown_def vset_inv_def stopEnsure_def SplitRouting_Stop_def
      life_Stop_def splitrt_up_def Let_def)

lemma updateVPNConfigDown_returns:
  assumes "setup_inv d" "splitrt_up (d_vpnsetup d)"
  shows "returns (updateVPNConfigDown L d)"
proof (cases "st_VPNConfig (d_status d) = None")
  case True
  then show ?thesis by (simp add: updateVPNConfigDown_def Let_def)
next
  case False
  then have "returns (VPNSetup_Teardown (d_vpnsetup d))"
    using assms by (intro VPNSetup_Teardown_returns) (auto simp: setup_inv_def setup_ok_def)
  then show ?thesis by (auto simp: updateVPNConfigDown_def returns_def Let_def)
qed

lemma handleRunnerDisconnect_returns:
  assumes "pol_inv d" "setup_inv d" "splitrt_up (d_vpnsetup d)"
  shows "returns (handleRunnerDisconnect L d)"
proof -
  let ?d1 = "setStatusConnectedAt 0 (setStatusServerIP '''' (setStatusServer ''''
    (setStatusConnectionState ConnectionStateDisconnected (setStatusOCPID 0 (setStatusOCRunning False d)))))"
  have s: "setup_inv ?d1" using assms(2) by (simp add: setup_inv_def)
  have "returns (updateVPNConfigDown L ?d1)"
    using s assms(3) by (intro updateVPNConfigDown_returns) simp_all
  then obtain d2 where d2: "updateVPNConfigDown L ?d1 = Returns d2" by (auto simp: returns_def)
  have "d_trafpol d2 = d_trafpol d"
    by (rule updateVPNConfigDown_facts [OF d2 s]) (simp_all add: status_tests)
  then show ?thesis
    using d2 pol_inv_life [OF assms(1)]
    by (auto simp: handleRunnerDisconnect_def Let_def disallow_addr_def returns_obind split_beta split: option.split)
qed

lemma startTrafPol_returns:
  assumes "complete (d_config d)"
  shows "returns (startTrafPol L dev dns d)"
proof (cases "d_trafpol d")
  case (Some c)
  then show ?thesis by (simp add: startTrafPol_def)
next
  case None
  obtain cpd tp sr where s: "cfg_CPD (d_config d) = Some cpd" "cfg_TrafficPolicing (d_config d) = Some tp"
    "cfg_SplitRouting (d_config d) = Some sr" using completeD [OF assms] by blast
  let ?c = "(d_config d)\<lparr>cfg_TND := lib_tnd_Copy L (cfg_TND (d_config d)), cfg_TrafficPolicing :=
      Some (tp\<lparr>tp_AllowedHosts := slice_append (tp_AllowedHosts tp) (getProfileAllowedHosts d)\<rparr>)\<rparr>"
  obtain t where t: "NewTrafPol ?c = Some t"
    using s by (cases "NewTrafPol ?c") (simp_all add: NewTrafPol_def Let_def split_beta split: if_splits)
  obtain r es t' where st: "TrafPol_Start dev dns t = (r, es, t')" by (cases "TrafPol_Start dev dns t")
  have "r = Inr () \<Longrightarrow> tp_life t' = Running" using st by (auto simp: TrafPol_Start_def Let_def split: if_splits)
  then have ret: "r = Inr () \<Longrightarrow> d_trafpol e = Some \<lparr>tc_t = t', tc_fw = fw_run es (d_fw d), tc_status = False\<rparr> \<Longrightarrow>
      returns (allow_server e)" for e :: "'a Daemon"
    by (intro allow_server_returns) auto
  show ?thesis
    using None s t st ret
    by (cases r) (simp_all add: startTrafPol_def complete_Copy [OF assms] or_panic_def Let_def returns_obindI)
qed

lemma stopTrafPol_returns:
  assumes "\<And>c. d_trafpol d = Some c \<Longrightarrow> tp_life (tc_t c) = Running"
  shows "returns (stopTrafPol d)"
  using assms by (auto simp: stopTrafPol_def TrafPol_Stop_def life_Stop_def Let_def split: option.split)

lemma checkTrafPol_returns:
  assumes "\<And>c. d_trafpol d = Some c \<Longrightarrow> tp_life (tc_t c) = Running" "complete (d_config d)"
  shows "returns (checkTrafPol L dev dns d)"
proof -
  have "returns (obind (stopTrafPol d) (\<lambda>d. Returns (Inr () :: daemon_error + unit, d)))"
    using stopTrafPol_returns [of d] assms(1) by auto
  then show ?thesis using startTrafPol_returns [OF assms(2)] by (simp add: checkTrafPol_def Let_def)
qed

lemma checkTND_returns:
  assumes "complete (d_config d)"
  shows "returns (checkTND ok d)"
proof -
  obtain sr where "cfg_SplitRouting (d_config d) = Some sr" using completeD [OF assms] by blast
  then show ?thesis
    by (cases "GetTNDServers (d_profile d) = []"; cases "d_tnd d"; cases ok; cases "Atoi (sr_FirewallMark sr)")
      (simp_all add: checkTND_def startTND_def setTNDDialer_def Let_def)
qed

lemma dumpState_returns:
  assumes "pol_inv d" "setup_inv d" "complete (d_config d)"
  shows "returns (dumpState L d)"
proof -
  obtain l where l: "cfg_LoginInfo (d_config d) = Some l" using completeD [OF assms(3)] by blast
  show ?thesis
    using l pol_inv_life [OF assms(1)] assms(2)
    by (auto simp: dumpState_def complete_Copy [OF assms(3)] or_panic_def Let_def VPNSetup_GetState_def
        setup_inv_def setup_ok_def returns_obind split: option.split)
qed

lemma disconnectVPN_frame:
  assumes "disconnectVPN d = Returns d'"
  shows "d_config d' = d_config d" "d_trafpol d' = d_trafpol d" "d_profile d' = d_profile d"
    "d_disableTrafPol d' = d_disableTrafPol d" "d_life d' = d_life d"
    "st_TrustedNetwork (d_status d') = st_TrustedNetwork (d_status d)"
  using assms by (auto simp: disconnectVPN_def runner_send_def split: if_splits)

lemma checkDisconnectVPN_frame:
  assumes "checkDisconnectVPN d = Returns d'"
  shows "d_config d' = d_config d" "d_trafpol d' = d_trafpol d" "d_profile d' = d_profile d"
    "d_disableTrafPol d' = d_disableTrafPol d" "d_life d' = d_life d"
    "st_TrustedNetwork (d_status d') = st_TrustedNetwork (d_status d)"
  using assms disconnectVPN_frame [of d d'] by (simp_all add: checkDisconnectVPN_def split: if_splits)

lemma handleTNDResult_returns:
  assumes "lives_inv d" "pol_inv d" "complete (d_config d)"
  shows "returns (handleTNDResult L dev dns trusted d)"
  unfolding handleTNDResult_def
proof (rule returns_obindI)
  show "returns (checkDisconnectVPN (setStatusTrustedNetwork trusted d))"
    using assms(1) by (simp add: checkDisconnectVPN_def disconnectVPN_returns lives_inv_def)
  fix d' assume d': "checkDisconnectVPN (setStatusTrustedNetwork trusted d) = Returns d'"
  show "returns (checkTrafPol L dev dns d')"
    using checkDisconnectVPN_frame [OF d'] assms(3) pol_inv_life [OF assms(2)]
    by (intro checkTrafPol_returns) simp_all
qed

lemma stopTrafPol_config:
  "stopTrafPol d = Returns d' \<Longrightarrow> d_config d' = d_config d \<and> d_trafpol d' = None \<and> d_profile d' = d_profile d \<and>
     d_disableTrafPol d' = d_disableTrafPol d \<and> d_life d' = d_life d"
  by (auto simp: stopTrafPol_def obind_Returns_iff Let_def split: option.splits if_splits)

lemma startTrafPol_config:
  assumes "startTrafPol L dev dns d = Returns (r, d')"
  shows "d_config d' = d_config d"
proof (cases "d_trafpol d")
  case None
  from assms None obtain c tp t where s: "Config_Copy (lib_tnd_Copy L) (d_config d) = Some c"
    "cfg_TrafficPolicing c = Some tp"
    "NewTrafPol (c\<lparr>cfg_TrafficPolicing := Some (tp\<lparr>tp_AllowedHosts :=
       slice_append (tp_AllowedHosts tp) (getProfileAllowedHosts d)\<rparr>)\<rparr>) = Some t"
    by (auto simp: startTrafPol_def Let_def obind_Returns_iff)
  obtain r' es t' where st: "TrafPol_Start dev dns t = (r', es, t')" by (cases "TrafPol_Start dev dns t")
  show ?thesis
  proof (cases r')
    case (Inl e)
    with assms None s st show ?thesis by (auto simp: startTrafPol_def Let_def or_panic_def)
  next
    case (Inr u)
    with assms None s st show ?thesis
      by (auto simp: startTrafPol_def Let_def or_panic_def obind_Returns_iff dest: allow_server_frame)
  qed
qed (use assms in \<open>simp add: startTrafPol_def\<close>)

lemma checkTrafPol_cases:
  "checkTrafPol L dev dns d =
     (if d_disableTrafPol d \<or> \<not> GetAlwaysOn (d_profile d) \<or> Trusted (st_TrustedNetwork (d_status d))
      then obind (stopTrafPol d) (\<lambda>d. Returns (Inr (), d)) else startTrafPol L dev dns d)"
  by (simp add: checkTrafPol_def Let_def)

lemma checkTrafPol_config:
  assumes "checkTrafPol L dev dns d = Returns (r, d')"
  shows "d_config d' = d_config d"
proof (cases "d_disableTrafPol d \<or> \<not> GetAlwaysOn (d_profile d) \<or> Trusted (st_TrustedNetwork (d_status d))")
  case True
  with assms have "stopTrafPol d = Returns d'" by (auto simp: checkTrafPol_cases obind_Returns_iff)
  then show ?thesis by (simp add: stopTrafPol_config)
next
  case False
  with assms have "startTrafPol L dev dns d = Returns (r, d')" by (simp add: checkTrafPol_cases)
  then show ?thesis by (rule startTrafPol_config)
qed

lemma handleProfileUpdate_returns:
  assumes "pol_inv d" "complete (d_config d)"
  shows "returns (handleProfileUpdate L dev dns tnd loaded d)"
  unfolding handleProfileUpdate_def Let_def
proof (rule returns_obindI)
  let ?d1 = "stopTND (d\<lparr>d_profile := readXMLProfile loaded\<rparr>)"
  show "returns (stopTrafPol ?d1)" using pol_inv_life [OF assms(1)] by (intro stopTrafPol_returns) simp
  fix d2 assume "stopTrafPol ?d1 = Returns d2"
  then have d2: "d_config d2 = d_config d" "d_trafpol d2 = None" using stopTrafPol_config by force+
  have "returns (checkTrafPol L dev dns d2)" using d2 assms(2) by (intro checkTrafPol_returns) simp_all
  then obtain r d3 where d3: "checkTrafPol L dev dns d2 = Returns (r, d3)" by (auto simp: returns_def)
  have "returns (checkTND tnd d3)"
    using checkTrafPol_config [OF d3] d2 assms(2) by (intro checkTND_returns) simp
  then show "returns (obind (checkTrafPol L dev dns d2) (\<lambda>(r, d). case r of Inl e \<Rightarrow> Returns (Inl e, d)
      | Inr _ \<Rightarrow> obind (checkTND tnd d) (\<lambda>(r, d). case r of Inl e \<Rightarrow> Returns (Inl e, d)
        | Inr _ \<Rightarrow> Returns (Inr (), setStatusServers (nil_slice (GetVPNServerHostNames (d_profile d))) d))))"
    by (auto simp: d3 split_beta split: sum.split)
qed

lemma handleDBusRequest_returns:
  assumes "lives_inv d" "pol_inv d" "setup_inv d" "complete (d_config d)"
    and "rq_Name r = ''Connect'' \<longrightarrow> 6 \<le> length (rq_Parameters r)"
  shows "returns (handleDBusRequest L r d)"
proof -
  note ret = connectVPN_returns [OF assms(1,2,4), of L] disconnectVPN_returns [OF assms(1)]
    dumpState_returns [OF assms(2-4), of L]
  consider "rq_Name r = ''Connect''" | "rq_Name r = ''Disconnect''" | "rq_Name r = ''DumpState''"
    | "rq_Name r \<notin> {''Connect'', ''Disconnect'', ''DumpState''}" by blast
  then show ?thesis
  proof cases
    case 1
    with assms(5) obtain a b c e f g rest where "rq_Parameters r = a # b # c # e # f # g # rest"
      by (auto simp: Suc_le_length_iff eval_nat_numeral)
    with 1 ret(1) show ?thesis by (auto simp: handleDBusRequest_def)
  qed (use ret in \<open>auto simp: handleDBusRequest_def\<close>)
qed

lemma handleClientRequest_returns:
  assumes "setup_inv d" "splitrt_up (d_vpnsetup d)" "complete (d_config d)"
    and "\<And>u config. VPNConfigUpdateFromJSON (m_Value (req_msg r)) = Some u \<Longrightarrow> vu_Config u = Some config \<Longrightarrow> vc_no_nil config"
  shows "returns (handleClientRequest L dev adr now (Some r) d)"
proof (cases "h_Type (req_msg r) = TypeVPNConfigUpdate")
  case type: True
  show ?thesis
  proof (cases "\<exists>u. VPNConfigUpdateFromJSON (m_Value (req_msg r)) = Some u \<and> VPNConfigUpdate_Valid u")
    case True
    then obtain u where u: "VPNConfigUpdateFromJSON (m_Value (req_msg r)) = Some u" "VPNConfigUpdate_Valid u" by blast
    have up: "returns (updateVPNConfigUp L dev adr now config d)" if "vu_Config u = Some config" for config
      using updateVPNConfigUp_returns [OF assms(1,3)] GetVPNConfig_total [of config] assms(4) [OF u(1) that]
      by fastforce
    have "vu_Reason u = ''connect'' \<Longrightarrow> vu_Config u \<noteq> None"
      using u(2) by (cases "vu_Config u") (simp_all add: VPNConfigUpdate_Valid_def)
    then have "returns (if vu_Reason u = ''connect'' then
               obind (or_panic (vu_Config u)) (\<lambda>config. updateVPNConfigUp L dev adr now config d)
             else if vu_Reason u = ''disconnect'' then updateVPNConfigDown L d
             else if vu_Reason u = ''attempt-reconnect'' then Returns (handleVPNAttemptReconnect d)
             else if vu_Reason u = ''reconnect'' then Returns (handleVPNReconnect d)
             else Returns d)" (is "returns ?x")
      using up updateVPNConfigDown_returns [OF assms(1,2)] by (auto simp: or_panic_def)
    moreover have "handleClientRequest L dev adr now (Some r) d = obind ?x (\<lambda>d. Returns (r, d))"
      using type u by (simp only: handleClientRequest_def updateVPNConfig_def option.case if_True
          not_True_eq_False if_False simp_thms)
    ultimately show ?thesis by (simp only:) (rule returns_obindI, simp_all)
  next
    case False
    with type show ?thesis by (auto simp: handleClientRequest_def updateVPNConfig_def split: option.splits)
  qed
next
  case False
  then show ?thesis by (simp add: handleClientRequest_def)
qed

section \<open>Operations that succeed\<close>

lemma startTrafPol_result:
  assumes "startTrafPol L dev dns d = Returns (r, d')" "d_trafpol d = None"
  shows "isl r \<longleftrightarrow> \<not> (dev \<and> dns)"
proof -
  from assms obtain c tp t where s: "Config_Copy (lib_tnd_Copy L) (d_config d) = Some c"
    "cfg_TrafficPolicing c = Some tp"
    "NewTrafPol (c\<lparr>cfg_TrafficPolicing := Some (tp\<lparr>tp_AllowedHosts :=
       slice_append (tp_AllowedHosts tp) (getProfileAllowedHosts d)\<rparr>)\<rparr>) = Some t"
    by (auto simp: startTrafPol_def Let_def obind_Returns_iff)
  obtain r' es t' where st: "TrafPol_Start dev dns t = (r', es, t')" by (cases "TrafPol_Start dev dns t")
  have "isl r' \<longleftrightarrow> \<not> (dev \<and> dns)" using st by (auto simp: TrafPol_Start_def Let_def split: if_splits)
  moreover have "isl r \<longleftrightarrow> isl r'"
    using assms s st by (cases r') (auto simp: startTrafPol_def Let_def or_panic_def obind_Returns_iff)
  ultimately show ?thesis by simp
qed

lemma checkTrafPol_result:
  assumes "checkTrafPol L dev dns d = Returns (r, d')" "d_trafpol d = None"
  shows "isl r \<longleftrightarrow> \<not> (dev \<and> dns) \<and> \<not> d_disableTrafPol d \<and> GetAlwaysOn (d_profile d) \<and>
     \<not> Trusted (st_TrustedNetwork (d_status d))"
proof (cases "d_disableTrafPol d \<or> \<not> GetAlwaysOn (d_profile d) \<or> Trusted (st_TrustedNetwork (d_status d))")
  case True
  with assms(1) have "r = Inr ()" by (auto simp: checkTrafPol_cases obind_Returns_iff)
  with True show ?thesis by auto
next
  case False
  with assms(1) have "startTrafPol L dev dns d = Returns (r, d')" by (simp add: checkTrafPol_cases)
  from startTrafPol_result [OF this assms(2)] False show ?thesis by simp
qed

lemma checkTND_ok: "complete (d_config d) \<Longrightarrow> \<exists>d'. checkTND True d = Returns (Inr (), d') \<and> d_config d' = d_config d"
proof -
  assume "complete (d_config d)"
  then obtain sr where "cfg_SplitRouting (d_config d) = Some sr" by (auto simp: complete_def)
  then show ?thesis
    by (cases "GetTNDServers (d_profile d) = []"; cases "d_tnd d"; cases "Atoi (sr_FirewallMark sr)")
      (simp_all add: checkTND_def startTND_def setTNDDialer_def Let_def)
qed

lemma handleProfileUpdate_ok:
  assumes "pol_inv d" "complete (d_config d)"
  shows "\<exists>d'. handleProfileUpdate L True True True loaded d = Returns (Inr (), d')"
proof -
  let ?d1 = "stopTND (d\<lparr>d_profile := readXMLProfile loaded\<rparr>)"
  have "returns (stopTrafPol ?d1)" using pol_inv_life [OF assms(1)] by (intro stopTrafPol_returns) simp
  then obtain d2 where d2: "stopTrafPol ?d1 = Returns d2" by (auto simp: returns_def)
  then have c2: "d_config d2 = d_config d" "d_trafpol d2 = None" using stopTrafPol_config by force+
  have "returns (checkTrafPol L True True d2)" using c2 assms(2) by (intro checkTrafPol_returns) simp_all
  then obtain r d3 where d3: "checkTrafPol L True True d2 = Returns (r, d3)" by (auto simp: returns_def)
  have r: "r = Inr ()" using checkTrafPol_result [OF d3 c2(2)] by (cases r) simp_all
  obtain d4 where "checkTND True d3 = Returns (Inr (), d4)"
    using checkTND_ok [of d3] checkTrafPol_config [OF d3] c2 assms(2) by auto
  with d2 d3 r show ?thesis by (simp add: handleProfileUpdate_def)
qed

text \<open>The environment in which all calls to the system succeed.\<close>

definition good_env :: "start_env \<Rightarrow> bool" where
  "good_env e \<longleftrightarrow> se_token e \<noteq> None \<and> se_sleepmon e \<and> se_profmon e \<and> se_server e \<and> se_dbus e = None \<and>
     se_devmon e \<and> se_dnsmon e \<and> se_tnd e"

lemma initial_frame:
  "d_config (setInitialStatus (started token d)) = d_config d"
  "d_trafpol (setInitialStatus (started token d)) = d_trafpol d"
  "d_profile (setInitialStatus (started token d)) = d_profile d"
  "d_disableTrafPol (setInitialStatus (started token d)) = d_disableTrafPol d"
  "\<not> Trusted (st_TrustedNetwork (d_status (setInitialStatus (started token d))))"
  by (simp_all add: setInitialStatus_def Let_def started_def daemon_cleanup_def Trusted_def)

lemma Daemon_Start_ok:
  assumes "NewDaemon loaded config = Some d" "complete config" "good_env e"
  obtains d' where "Daemon_Start L e d = Returns (Inr (), d')" "d_config d' = config" "d_life d' = Running"
proof -
  obtain token where e: "se_token e = Some token" "se_sleepmon e" "se_profmon e" "se_server e" "se_dbus e = None"
    "se_devmon e" "se_dnsmon e" "se_tnd e" using assms(3) by (auto simp: good_env_def)
  have d: "d_config d = config" "d_trafpol d = None"
    using assms(1) by (auto simp: NewDaemon_def split: option.splits)
  let ?d = "setInitialStatus (started token d)"
  have "returns (checkTrafPol L True True ?d)"
    using d assms(2) by (intro checkTrafPol_returns) (simp_all add: initial_frame)
  then obtain r d1 where c: "checkTrafPol L True True ?d = Returns (r, d1)" by (auto simp: returns_def)
  have r: "\<not> isl r" using checkTrafPol_result [OF c] d by (simp add: initial_frame)
  have "d_config d1 = config" using checkTrafPol_config [OF c] d by (simp add: initial_frame)
  moreover from this assms(2) obtain d2 where "checkTND True d1 = Returns (Inr (), d2)" "d_config d2 = d_config d1"
    using checkTND_ok by blast
  ultimately show thesis
    using that [of "d2\<lparr>d_life := Running\<rparr>"] e c r by (simp add: Daemon_Start_started)
qed

end
