(* ===== verification/DaemonProps.thy ===== *)
theory DaemonProps
  imports DaemonLive
begin

text \<open>
  The properties of the daemon that follow from its invariant and from the progress of its
  handlers, with a daemon that was started as the example.
\<close>

section \<open>An example\<close>

definition example_lib :: "unit lib" where
  "example_lib = \<lparr>lib_tnd_Copy = id, lib_dump = (\<lambda>_ _ _. Some ''dump'')\<rparr>"

text \<open>An always-on profile with a server for trusted network detection.\<close>

definition always_on_profile :: Profile where
  "always_on_profile = NewProfile\<lparr>pr_AutomaticVPNPolicy := (pr_AutomaticVPNPolicy NewProfile)
     \<lparr>avp_AlwaysOn := (avp_AlwaysOn (pr_AutomaticVPNPolicy NewProfile))\<lparr>ao_Flag := True\<rparr>,
      avp_TrustedHTTPSServerList := [\<lparr>ths_Address = ''tnd.example.com'', ths_Port = ''443'',
        ths_CertificateHash = ''hash''\<rparr>]\<rparr>\<rparr>"

definition example_env :: start_env where
  "example_env = \<lparr>se_token = Some ''token'', se_sleepmon = True, se_profmon = True, se_server = True,
     se_dbus = None, se_devmon = True, se_dnsmon = True, se_tnd = True\<rparr>"

definition example_new :: "unit Daemon" where
  "example_new = the (NewDaemon (Some always_on_profile) (NewConfig ()))"

definition example_daemon :: "unit Daemon" where
  "example_daemon = (case Daemon_Start example_lib example_env example_new of Returns (_, d) \<Rightarrow> d | _ \<Rightarrow> example_new)"

lemma complete_NewConfig: "complete (NewConfig t)"
  by (simp add: complete_def NewConfig_def)

lemma example_new: "NewDaemon (Some always_on_profile) (NewConfig ()) = Some example_new"
  by (simp add: example_new_def NewDaemon_def NewConfig_def)

lemma example_new_facts: "d_config example_new = NewConfig ()" "d_profile example_new = always_on_profile"
  "d_trafpol example_new = None" "\<not> d_disableTrafPol example_new" "d_server example_new = NewServer"
  "d_dbus example_new = NewService" "d_serverIP example_new = AddrZero" "\<not> d_serverIPAllowed example_new"
  "d_status example_new = NewStatus" "d_tnd example_new = None" "vset_splitrt (d_vpnsetup example_new) = None"
  by (simp_all add: example_new_def NewDaemon_def NewConfig_def readXMLProfile_def NewVPNSetup_def)

lemma example_started: "Daemon_Start example_lib example_env example_new = Returns (Inr (), example_daemon)"
  "d_config example_daemon = NewConfig ()" "d_life example_daemon = Running"
proof -
  have "good_env example_env" by (simp add: good_env_def example_env_def)
  then obtain d where "Daemon_Start example_lib example_env example_new = Returns (Inr (), d)"
    "d_config d = NewConfig ()" "d_life d = Running"
    using Daemon_Start_ok [OF example_new complete_NewConfig, of example_env example_lib] by blast
  then show "Daemon_Start example_lib example_env example_new = Returns (Inr (), example_daemon)"
    "d_config example_daemon = NewConfig ()" "d_life example_daemon = Running"
    by (simp_all add: example_daemon_def)
qed

lemma example_reach: "reach (daemon_init example_lib) (daemon_step example_lib) example_daemon"
  using example_new example_started(1) by (intro reach_init) (auto simp: daemon_init_def)

lemma example_profile_facts [simp]: "GetAlwaysOn always_on_profile" "GetTNDServers always_on_profile = [''tnd.example.com'']"
  by (simp_all add: GetAlwaysOn_def GetTNDServers_def always_on_profile_def)

text \<open>Its traffic policing is active, and so is its trusted network detection.\<close>

lemma example_daemon_facts: "d_trafpol example_daemon \<noteq> None" "d_profile example_daemon = always_on_profile"
  "d_serverIP example_daemon = AddrZero" "vset_splitrt (d_vpnsetup example_daemon) = None"
  "\<not> d_disableTrafPol example_daemon"
proof -
  obtain token d1 d2 where s:
    "checkTrafPol example_lib True True (setInitialStatus (started token example_new)) = Returns (Inr (), d1)"
    "checkTND True d1 = Returns (Inr (), d2)" "example_daemon = d2\<lparr>d_life := Running\<rparr>"
    using Daemon_Start_facts [OF example_started(1)] by (auto simp: example_env_def)
  have "d_trafpol d1 \<noteq> None \<and> d_profile d1 = always_on_profile \<and> d_serverIP d1 = AddrZero \<and> d_tnd d1 = None \<and>
    vset_splitrt (d_vpnsetup d1) = None \<and> \<not> d_disableTrafPol d1"
  proof -
    let ?d = "setInitialStatus (started token example_new)"
    note new = example_new_facts(7-)
    have "pol_pre ?d" by (rule started_inv [OF example_new refl])
    moreover have "d_serverIP ?d = AddrZero" "d_tnd ?d = None" "vset_splitrt (d_vpnsetup ?d) = None"
      using new by (simp_all add: setInitialStatus_def Let_def started_def daemon_cleanup_def VPNSetup_Start_def)
    ultimately show ?thesis
      using checkTrafPol_facts [OF s(1)] initial_frame [of token example_new] example_new_facts
      by (simp add: rest_same_def)
  qed
  note d1 = this
  from s(2) d1 have "startTND True d1 = Returns (Inr (), d2)" by (simp add: checkTND_def)
  from startTND_facts [OF this] d1 obtain t where "core d2 = core (d1\<lparr>d_tnd := Some t\<rparr>)" by metis
  from coreD [OF this] d1
  show "d_trafpol example_daemon \<noteq> None" "d_profile example_daemon = always_on_profile"
    "d_serverIP example_daemon = AddrZero" "vset_splitrt (d_vpnsetup example_daemon) = None"
    "\<not> d_disableTrafPol example_daemon"
    by (simp_all add: s(3))
qed

section \<open>Properties\<close>

text \<open>
  C6: In every state of the main loop the D-Bus properties show the daemon's status, field by field,
  with the VPN configuration in its JSON form.
\<close>

theorem status_published:
  assumes "reach (daemon_init L) (daemon_step L) d" "d_life d = Running"
  shows "sv_props (d_dbus d) = Some (let s = d_status d in
     \<lparr>dp_TrustedNetwork = st_TrustedNetwork s, dp_ConnectionState = st_ConnectionState s,
      dp_IP = st_IP s, dp_Device = st_Device s, dp_Server = st_Server s,
      dp_ServerIP = st_ServerIP s, dp_ConnectedAt = st_ConnectedAt s, dp_Servers = st_Servers s,
      dp_OCRunning = st_OCRunning s, dp_OCPID = st_OCPID s,
      dp_TrafPolState = st_TrafPolState s, dp_AllowedHosts = st_AllowedHosts s,
      dp_CaptivePortal = st_CaptivePortal s, dp_TNDState = st_TNDState s,
      dp_TNDServers = st_TNDServers s,
      dp_VPNConfig = (case st_VPNConfig s of None \<Rightarrow> VPNConfigInvalid
        | Some c \<Rightarrow> (case vc_JSON c of None \<Rightarrow> VPNConfigInvalid | Some j \<Rightarrow> j))\<rparr>)"
  using reach_run_inv [OF assms]
  by (auto simp: run_inv_def view_ok_def props_show_def json_property_def Let_def)

theorem status_published_witness:
  "map_option dp_TrafPolState (sv_props (d_dbus example_daemon)) = Some (st_TrafPolState (d_status example_daemon))"
  using status_published [OF example_reach example_started(3)] by (simp add: Let_def)

text \<open>
  C5: In every state of the main loop the parts of a connection agree: OpenConnect runs unless the
  connection state is disconnected; without it there is neither a server address nor a VPN
  configuration; the VPN is set up exactly while the status has a VPN configuration; and
  when it is not, the network settings of the system are those without VPN.
\<close>

theorem connection_consistent:
  assumes "reach (daemon_init L) (daemon_step L) d" "d_life d = Running"
  shows "(OC_Running (st_OCRunning (d_status d)) \<or> st_ConnectionState (d_status d) = ConnectionStateDisconnected \<and>
       d_serverIP d = AddrZero \<and> st_VPNConfig (d_status d) = None) \<and>
     (st_VPNConfig (d_status d) = None \<longleftrightarrow> vset_splitrt (d_vpnsetup d) = None) \<and>
     (vset_net (d_vpnsetup d) = no_net \<or> vset_splitrt (d_vpnsetup d) \<noteq> None)"
  using reach_run_inv [OF assms]
  by (auto simp: run_inv_def conn_inv_def conn_ok_def setup_inv_def setup_ok_def vset_inv_def)

theorem connection_consistent_witness:
  "OC_Running (st_OCRunning (d_status example_daemon)) \<or>
     st_ConnectionState (d_status example_daemon) = ConnectionStateDisconnected"
  using connection_consistent [OF example_reach example_started(3)] by blast

text \<open>
  C1: In every state of the main loop, if there is no traffic policing, there is no packet filter. Otherwise
  the profile is always-on, the network is not trusted, and the filter admits exactly the hosts of
  the configuration and of the profile, the addresses that their names resolved to, and the VPN
  server that the daemon connects to.
\<close>

theorem policing_admits_server:
  assumes "reach (daemon_init L) (daemon_step L) d" "d_life d = Running"
  shows "case d_trafpol d of
      None \<Rightarrow> d_fw d = no_filter \<and> st_TrafPolState (d_status d) \<noteq> TrafPolStateActive
    | Some c \<Rightarrow> st_TrafPolState (d_status d) = TrafPolStateActive \<and> GetAlwaysOn (d_profile d) \<and>
        \<not> Trusted (st_TrustedNetwork (d_status d)) \<and> fw_table (tc_fw c) \<and>
        fw_hosts4 (tc_fw c) \<union> fw_hosts6 (tc_fw c) =
          configured d \<union> (if addr_IsValid (d_serverIP d) then {single (d_serverIP d)} else {}) \<union>
          (\<Union>n \<in> snd ` set (tp_allowNames (tc_t c)). single ` set n)"
proof (cases "d_trafpol d")
  case None
  then show ?thesis using reach_run_inv [OF assms] by (auto simp: run_inv_def pol_inv_def pol_ok_def)
next
  case (Some c)
  then have p: "tp_inv c" "server_allowed (configured d) (d_serverIP d) (d_serverIPAllowed d) c"
    "st_TrafPolState (d_status d) = TrafPolStateActive" "GetAlwaysOn (d_profile d)"
    "\<not> Trusted (st_TrustedNetwork (d_status d))"
    using reach_run_inv [OF assms] by (simp_all add: run_inv_def pol_inv_def pol_ok_def)
  have "fw_hosts4 (tc_fw c) \<union> fw_hosts6 (tc_fw c) = allowed_hosts (tc_t c)" "fw_table (tc_fw c)"
    using p(1) by (auto simp: tp_inv_def fw_shows_def)
  with p(2-) Some show ?thesis by (auto simp: allowed_hosts_def server_allowed_def tc_allowed_def)
qed

theorem policing_admits_server_witness:
  "fw_table (tc_fw (the (d_trafpol example_daemon))) \<and> \<not> Trusted (st_TrustedNetwork (d_status example_daemon))"
  using policing_admits_server [OF example_reach example_started(3)] example_daemon_facts(1) by auto

lemma checkTND_frame:
  assumes "checkTND tndOk d = Returns (Inr (), d')" "d_tnd d = None"
  shows "d_trafpol d' = d_trafpol d" "d_profile d' = d_profile d" "d_serverIP d' = d_serverIP d"
    "d_vpnsetup d' = d_vpnsetup d" "st_ConnectionState (d_status d') = st_ConnectionState (d_status d)"
    "d_sent d' = d_sent d" "st_OCRunning (d_status d') = st_OCRunning (d_status d)" "d_life d' = d_life d"
proof -
  have "d_trafpol d' = d_trafpol d \<and> d_profile d' = d_profile d \<and> d_serverIP d' = d_serverIP d \<and>
    d_vpnsetup d' = d_vpnsetup d \<and> st_ConnectionState (d_status d') = st_ConnectionState (d_status d) \<and>
    d_sent d' = d_sent d \<and> st_OCRunning (d_status d') = st_OCRunning (d_status d) \<and> d_life d' = d_life d"
  proof (cases "GetTNDServers (d_profile d) = []")
    case True
    with assms show ?thesis by (simp add: checkTND_def stopTND_def)
  next
    case False
    with assms(1) have "startTND tndOk d = Returns (Inr (), d')" by (simp add: checkTND_def)
    from startTND_facts [OF this assms(2)] obtain t where "core d' = core (d\<lparr>d_tnd := Some t\<rparr>)"
      "status_but_lists (d_status d') = status_but_lists ((d_status d)\<lparr>st_TNDState := TNDStateActive\<rparr>)"
      by metis
    from coreD [OF this(1)] status_but_listsD [OF this(2)] show ?thesis by simp
  qed
  then show "d_trafpol d' = d_trafpol d" "d_profile d' = d_profile d" "d_serverIP d' = d_serverIP d"
    "d_vpnsetup d' = d_vpnsetup d" "st_ConnectionState (d_status d') = st_ConnectionState (d_status d)"
    "d_sent d' = d_sent d" "st_OCRunning (d_status d') = st_OCRunning (d_status d)" "d_life d' = d_life d" by auto
qed

text \<open>
  C9: A profile update that succeeds applies the new profile: traffic policing is active exactly
  when the profile is always-on, the network is not trusted and it was not disabled; trusted
  network detection is active exactly when the profile names servers for it, with these servers; the VPN servers
  shown are those of the profile; and the connection is left as it is. A profile that cannot be
  read counts as an empty one.
\<close>

theorem profile_update_applies:
  assumes "reach (daemon_init L) (daemon_step L) d" "d_life d = Running"
    and "handleProfileUpdate L dev dns tndOk loaded d = Returns (Inr (), d')"
  defines "profile \<equiv> (case loaded of None \<Rightarrow> NewProfile | Some p \<Rightarrow> p)"
  shows "(d_trafpol d' \<noteq> None \<longleftrightarrow> \<not> d_disableTrafPol d \<and> GetAlwaysOn profile \<and> \<not> Trusted (st_TrustedNetwork (d_status d))) \<and>
     map_option tnd_servers (d_tnd d') =
       (if GetTNDServers profile = [] then None else Some (GetTNDHTTPSServers profile)) \<and>
     slice_list (st_Servers (d_status d')) = GetVPNServerHostNames profile \<and>
     d_vpnsetup d' = d_vpnsetup d \<and> d_serverIP d' = d_serverIP d \<and>
     st_ConnectionState (d_status d') = st_ConnectionState (d_status d)"
proof -
  let ?d1 = "stopTND (d\<lparr>d_profile := readXMLProfile loaded\<rparr>)"
  have p: "profile = readXMLProfile loaded" by (simp add: profile_def readXMLProfile_def)
  note inv = reach_run_inv [OF assms(1,2)]
  have "pol_inv d" using inv by (simp add: run_inv_def)
  then obtain d2 d3 d4 where d2: "rest_same L ?d1 d2" "pol_pre d2" and
    d3: "checkTrafPol L dev dns d2 = Returns (Inr (), d3)" "checkTND tndOk d3 = Returns (Inr (), d4)"
    "d' = setStatusServers (nil_slice (GetVPNServerHostNames (d_profile d4))) d4"
    using handleProfileUpdate_stages [OF _ assms(3)] by metis
  from checkTrafPol_facts [OF d3(1) d2(2)] have p3: "rest_same L d2 d3"
    "d_trafpol d3 \<noteq> None \<longleftrightarrow> \<not> d_disableTrafPol d2 \<and> GetAlwaysOn (d_profile d2) \<and> \<not> Trusted (st_TrustedNetwork (d_status d2))"
    by simp_all
  have "d_tnd d3 = None" using d2(1) p3(1) by (simp add: rest_same_def)
  note f = checkTND_frame [OF d3(2) this]
  have prof: "d_profile d4 = profile" using f(2) d2(1) p3(1) by (simp add: rest_same_def p)
  have "tnd_ok (d_tnd d') (st_TNDState (d_status d')) profile"
    using inv_handleProfileUpdate [OF inv assms(3)] prof by (simp add: run_inv_def tnd_inv_def d3(3))
  moreover have "slice_list (st_Servers (d_status d')) = GetVPNServerHostNames profile"
    by (simp add: d3(3) prof setStatusServers_def nil_slice_def)
  moreover have "d_trafpol d' \<noteq> None \<longleftrightarrow> \<not> d_disableTrafPol d \<and> GetAlwaysOn profile \<and> \<not> Trusted (st_TrustedNetwork (d_status d))"
    using p3(2) f(1) d2(1) by (simp add: d3(3) rest_same_def p)
  ultimately show ?thesis
    using f d2(1) p3(1) by (simp add: d3(3) rest_same_def tnd_ok_def split: option.splits)
qed

theorem profile_update_applies_witness:
  "\<exists>d. handleProfileUpdate example_lib True True True None example_daemon = Returns (Inr (), d) \<and>
     d_trafpol d = None \<and> d_tnd d = None"
proof -
  have "pol_inv example_daemon" using reach_run_inv [OF example_reach example_started(3)] by (simp add: run_inv_def)
  then obtain d where d: "handleProfileUpdate example_lib True True True None example_daemon = Returns (Inr (), d)"
    using handleProfileUpdate_ok example_started(2) complete_NewConfig by metis
  from profile_update_applies [OF example_reach example_started(3) d] d show ?thesis
    by (auto simp: GetAlwaysOn_def GetTNDServers_def NewProfile_def)
qed

text \<open>
  A state dump hides the cookie of the login information: two daemons that differ in
  the cookie only have the same dump.
\<close>

lemma dump_hides_cookie:
  "dumpState L (d\<lparr>d_config := (d_config d)\<lparr>cfg_LoginInfo := Some (login\<lparr>li_Cookie := cookie\<rparr>)\<rparr>\<rparr>) =
   dumpState L (d\<lparr>d_config := (d_config d)\<lparr>cfg_LoginInfo := Some (login\<lparr>li_Cookie := cookie'\<rparr>)\<rparr>\<rparr>)"
proof -
  have copy: "Config_Copy f (c\<lparr>cfg_LoginInfo := Some l\<rparr>) =
      map_option (\<lambda>c. c\<lparr>cfg_LoginInfo := Some l\<rparr>) (Config_Copy f c)" for f l and c :: "'a Config"
    by (auto simp: Config_Copy_def split: option.split)
  show ?thesis
    by (cases "Config_Copy (lib_tnd_Copy L) (d_config d)")
      (simp_all add: dumpState_def copy or_panic_def Let_def)
qed




lemma no_update: "VPNConfigUpdateFromJSON [] = None"
  by (simp add: VPNConfigUpdateFromJSON_def bytes_text_def from_JSON_def Unmarshal_def json_parse_def json_lex_Nil)


text \<open>Traffic policing whose start failed is kept, not running.\<close>

lemma startTrafPol_failed:
  assumes "startTrafPol L dev dns d = Returns (Inl e, d')" "d_trafpol d = None"
  obtains c where "d_trafpol d' = Some c" "tp_life (tc_t c) = NotStarted" "d' = d\<lparr>d_trafpol := Some c\<rparr>"
proof -
  from assms obtain c tp t where s: "Config_Copy (lib_tnd_Copy L) (d_config d) = Some c"
    "cfg_TrafficPolicing c = Some tp"
    "NewTrafPol (c\<lparr>cfg_TrafficPolicing := Some (tp\<lparr>tp_AllowedHosts :=
       slice_append (tp_AllowedHosts tp) (getProfileAllowedHosts d)\<rparr>)\<rparr>) = Some t"
    by (auto simp: startTrafPol_def Let_def obind_Returns_iff)
  obtain r es t' where st: "TrafPol_Start dev dns t = (r, es, t')" by (cases "TrafPol_Start dev dns t")
  have "isl r"
    using assms s st by (cases r) (auto simp: startTrafPol_def Let_def or_panic_def obind_Returns_iff)
  then have d': "d' = d\<lparr>d_trafpol := Some \<lparr>tc_t = t', tc_fw = fw_run es (d_fw d), tc_status = False\<rparr>\<rparr>"
    using assms s st by (cases r) (auto simp: startTrafPol_def Let_def or_panic_def)
  have "tp_life t = NotStarted"
    using NewTrafPol_present [OF s(3)] NewTrafPol_props(2) [OF s(3)] by blast
  then have "tp_life t' = NotStarted"
    using st \<open>isl r\<close> by (auto simp: TrafPol_Start_def Let_def split: if_splits)
  then show thesis using that d' by simp
qed

lemma shutdown_blocked:
  assumes "d_trafpol d = Some c" "tp_life (tc_t c) = NotStarted"
  shows "daemon_shutdown L ends d \<noteq> Returns d'"
proof
  assume "daemon_shutdown L ends d = Returns d'"
  then obtain sv db d1 l sv' v d2 where d1: "handleRunnerDisconnect L (d\<lparr>d_server := sv, d_dbus := db\<rparr>) = Returns d1"
    and d2: "stopTrafPol (stopTND (d1\<lparr>d_runner := l, d_server := sv', d_vpnsetup := v\<rparr>)) = Returns d2"
    by (auto simp: daemon_shutdown_def Let_def obind_Returns_iff stop_runner_def stop_life_def
        split: if_splits)
  have "d_trafpol d1 = Some c"
    using d1 assms
    by (auto simp: handleRunnerDisconnect_def updateVPNConfigDown_def Let_def obind_Returns_iff disallow_addr_def
        split: if_splits)
  with d2 assms(2) show False by (simp add: stopTrafPol_def TrafPol_Stop_def life_Stop_def)
qed

text \<open>
  A start of the daemon whose traffic policing cannot be started does not return its error: the
  clean-up stops the socket server twice, which panics.
\<close>

lemma failed_start_panics:
  assumes "NewDaemon loaded config = Some d" "complete config" "GetAlwaysOn (readXMLProfile loaded)"
    and "se_token e \<noteq> None" "se_sleepmon e" "se_profmon e" "se_server e" "se_dbus e = None"
    and "\<not> (se_devmon e \<and> se_dnsmon e)"
  shows "Daemon_Start L e d = Panics"
proof -
  obtain token where t: "se_token e = Some token" using assms(4) by blast
  have d: "d_config d = config" "d_trafpol d = None" "\<not> d_disableTrafPol d" "d_server d = NewServer"
    "d_dbus d = NewService" "d_profile d = readXMLProfile loaded" "d_status d = NewStatus"
    using assms(1) by (auto simp: NewDaemon_def split: option.splits)
  let ?d = "setInitialStatus (started token d)"
  have "returns (checkTrafPol L (se_devmon e) (se_dnsmon e) ?d)"
    using d assms(2) by (intro checkTrafPol_returns) (simp_all add: initial_frame)
  then obtain r d1 where c: "checkTrafPol L (se_devmon e) (se_dnsmon e) ?d = Returns (r, d1)" by (auto simp: returns_def)
  have r: "isl r" using checkTrafPol_result [OF c] d assms(3,9) by (simp add: initial_frame)
  then obtain err where err: "r = Inl err" by (cases r) simp_all
  have s: "startTrafPol L (se_devmon e) (se_dnsmon e) ?d = Returns (Inl err, d1)"
    using c d assms(3) initial_frame [of token d] by (simp add: checkTrafPol_cases err)
  have "d_trafpol ?d = None" using d by (simp add: initial_frame)
  from startTrafPol_failed [OF s this] obtain pol where d1: "d1 = ?d\<lparr>d_trafpol := Some pol\<rparr>" by blast
  have "sv_life (d_dbus ?d) = Running"
    using started_view [of d L token] d(7) by (simp add: view_ok_def)
  moreover have "srv_life (d_server ?d) = Running"
    by (simp add: setInitialStatus_def Let_def started_def daemon_cleanup_def)
  ultimately have "srv_life (d_server d1) = Running" "sv_life (d_dbus d1) = Running" by (simp_all add: d1)
  then show ?thesis
    using c r t assms(5-8)
    by (simp add: Daemon_Start_started cleanup_trafpol_def cleanup_dbus_def Service_Stop_def Server_Stop_def
        life_Stop_def)
qed

text \<open>
  When the daemon notices that it left a trusted network and its traffic policing cannot be
  started, the error ends the main loop, and the daemon never terminates: the deferred calls
  wait for the traffic policing, which was never started.
\<close>

lemma failed_policing_blocks_shutdown:
  assumes "reach (daemon_init L) (daemon_step L) d" "d_life d = Running" "complete (d_config d)"
    and "d_trafpol d = None" "\<not> d_disableTrafPol d" "GetAlwaysOn (d_profile d)" "\<not> (dev \<and> dns)"
  shows "\<exists>e d'. handleTNDResult L dev dns False d = Returns (Inl e, d') \<and> (\<forall>ends d''. daemon_shutdown L ends d' \<noteq> Returns d'')"
proof -
  let ?d1 = "setStatusTrustedNetwork False d"
  have inv: "pol_inv d" "lives_inv d" using reach_run_inv [OF assms(1,2)] by (simp_all add: run_inv_def)
  obtain r d' where h: "handleTNDResult L dev dns False d = Returns (r, d')"
    using handleTNDResult_returns [OF inv(2,1) assms(3), of L dev dns False] by (auto simp: returns_def)
  have c: "checkTrafPol L dev dns ?d1 = Returns (r, d')"
    using h by (simp add: handleTNDResult_def checkDisconnectVPN_def Trusted_def)
  have "isl r" using checkTrafPol_result [OF c] assms by (simp add: Trusted_def)
  then obtain e where e: "r = Inl e" by (cases r) simp_all
  have "startTrafPol L dev dns ?d1 = Returns (Inl e, d')" "d_trafpol ?d1 = None"
    using c e assms(4-6) by (simp_all add: checkTrafPol_cases Trusted_def)
  then obtain pol where "d_trafpol d' = Some pol" "tp_life (tc_t pol) = NotStarted"
    using startTrafPol_failed by metis
  from shutdown_blocked [OF this] h e show ?thesis by blast
qed

text \<open>In a trusted network the example daemon stops its traffic policing.\<close>

lemma example_trusted:
  obtains d where "reach (daemon_init example_lib) (daemon_step example_lib) d" "d_life d = Running"
    "d_config d = NewConfig ()" "d_trafpol d = None" "\<not> d_disableTrafPol d" "d_profile d = always_on_profile"
proof -
  let ?d1 = "setStatusTrustedNetwork True example_daemon"
  have inv: "pol_inv example_daemon" "lives_inv example_daemon" "tnd_inv example_daemon"
    using reach_run_inv [OF example_reach example_started(3)] by (simp_all add: run_inv_def)
  have "complete (d_config example_daemon)" by (simp add: example_started(2) complete_NewConfig)
  from handleTNDResult_returns [OF inv(2,1) this, of example_lib True True True] obtain r d where
    h: "handleTNDResult example_lib True True True example_daemon = Returns (r, d)" by (auto simp: returns_def)
  then obtain d2 where d2: "checkDisconnectVPN ?d1 = Returns d2" "checkTrafPol example_lib True True d2 = Returns (r, d)"
    by (auto simp: handleTNDResult_def obind_Returns_iff)
  note f = checkDisconnectVPN_frame [OF d2(1)]
  then have s: "stopTrafPol d2 = Returns d" "r = Inr ()"
    using d2(2) by (auto simp: checkTrafPol_cases obind_Returns_iff Trusted_def)
  have "d_tnd example_daemon \<noteq> None"
    using inv(3) example_daemon_facts(2) by (cases "d_tnd example_daemon") (simp_all add: tnd_inv_def tnd_ok_def)
  then have "daemon_step example_lib example_daemon (TNDResult True True True) d"
    using h s(2) by (intro d_result [OF example_started(3)]) simp_all
  from reach_step [OF example_reach this] stopTrafPol_config [OF s(1)] f example_started
    example_daemon_facts(2,5)
  show thesis using that [of d] by simp
qed

end
