(* ===== verification/DaemonRunner.thy ===== *)
theory DaemonRunner
  imports DaemonProps
begin

text \<open>
  The daemon and the OpenConnect runner together: the daemon sends commands to the runner and the
  runner events to the daemon, both over channels without buffer. What the daemon says of OpenConnect
  agrees with the runner, and the two can wait for each other.
\<close>

section \<open>The system\<close>

text \<open>The command that the daemon is sending is kept until the runner takes it.\<close>

record 't system =
  sys_d :: "'t Daemon"
  sys_cmd :: "runner_cmd option"
  sys_r :: Runner

datatype system_event = SDaemon daemon_event | STake | SRunner runner_event | SEvent ConnectEvent

fun is_runner_event :: "daemon_event \<Rightarrow> bool" where
  "is_runner_event (RunnerEvent _) = True"
| "is_runner_event _ = False"

text \<open>Steps of the daemon's components, which happen while its main loop waits too.\<close>

fun component_event :: "daemon_event \<Rightarrow> bool" where
  "component_event (InTrafPol _) = True"
| "component_event (InVPNSetup _) = True"
| "component_event InVPNSetupPrefixes = True"
| "component_event (InVPNSetupEnsure _) = True"
| "component_event _ = False"

definition new_cmd :: "'t Daemon \<Rightarrow> 't Daemon \<Rightarrow> runner_cmd option" where
  "new_cmd d d' = (if d_sent d' = d_sent d then None else Some (last (d_sent d')))"

text \<open>
  Until it shuts down, the daemon handles an event only while it is not sending a command, and
  takes the runner's event only then.
\<close>

inductive sys_step :: "'t lib \<Rightarrow> 't system \<Rightarrow> system_event \<Rightarrow> 't system \<Rightarrow> bool" for L where
  sys_loop: "sys_cmd s = None \<Longrightarrow> daemon_step L (sys_d s) ev d \<Longrightarrow> \<not> is_runner_event ev \<Longrightarrow>
    d_life d = Running \<Longrightarrow> sys_step L s (SDaemon ev) (s\<lparr>sys_d := d, sys_cmd := new_cmd (sys_d s) d\<rparr>)"
| sys_component: "daemon_step L (sys_d s) ev d \<Longrightarrow> component_event ev \<Longrightarrow>
    sys_step L s (SDaemon ev) (s\<lparr>sys_d := d\<rparr>)"
| sys_take: "sys_cmd s = Some cmd \<Longrightarrow> runner_step (sys_r s) (RCommand cmd) r \<Longrightarrow>
    sys_step L s STake (s\<lparr>sys_cmd := None, sys_r := r\<rparr>)"
| sys_runner: "runner_step (sys_r s) e r \<Longrightarrow> e = ProcessEnds \<or> e = ExitTaken \<Longrightarrow>
    sys_step L s (SRunner e) (s\<lparr>sys_r := r\<rparr>)"
| sys_event: "sys_cmd s = None \<Longrightarrow> runner_step (sys_r s) (EventSent e) r \<Longrightarrow>
    daemon_step L (sys_d s) (RunnerEvent e) d \<Longrightarrow>
    sys_step L s (SEvent e) (s\<lparr>sys_d := d, sys_r := r\<rparr>)"

inductive_cases sys_stepE: "sys_step L s e s'"

definition sys_init :: "'t lib \<Rightarrow> 't system \<Rightarrow> bool" where
  "sys_init L s \<longleftrightarrow> daemon_init L (sys_d s) \<and> sys_cmd s = None \<and> runner_init (sys_r s)"

section \<open>What a handler sends\<close>

abbreviation running :: "'t Daemon \<Rightarrow> bool" where
  "running d \<equiv> OC_Running (st_OCRunning (d_status d))"

text \<open>
  A handler sends at most one command: to disconnect while OpenConnect runs, or to connect when it
  did not, which it does from then on.
\<close>

definition quiet :: "'t Daemon \<Rightarrow> 't Daemon \<Rightarrow> bool" where
  "quiet d d' \<longleftrightarrow> d_sent d' = d_sent d \<and> st_OCRunning (d_status d') = st_OCRunning (d_status d) \<and>
     d_life d' = d_life d"

definition sends :: "'t Daemon \<Rightarrow> 't Daemon \<Rightarrow> bool" where
  "sends d d' \<longleftrightarrow> d_life d' = d_life d \<and>
     (quiet d d' \<or> d_sent d' = d_sent d @ [RDisconnect] \<and> running d \<and> running d' \<or>
      (\<exists>oc login env. d_sent d' = d_sent d @ [RConnect oc login env] \<and> \<not> running d \<and> running d'))"

lemma quiet_sends: "quiet d d' \<Longrightarrow> sends d d'"
  by (simp add: sends_def quiet_def)

lemma sends_quiet: "sends d d' \<Longrightarrow> quiet d' d'' \<Longrightarrow> sends d d''"
  by (auto simp: sends_def quiet_def)

lemma quiet_refl [simp]: "quiet d d"
  by (simp add: quiet_def)

lemma disconnectVPN_sends: "disconnectVPN d = Returns d' \<Longrightarrow> sends d d'"
  by (auto simp: disconnectVPN_def runner_send_def sends_def split: if_splits)

lemma allow_server_quiet: "allow_server d = Returns d' \<Longrightarrow> quiet d d'"
  by (auto simp: allow_server_def obind_Returns_iff quiet_def split: option.splits if_splits)

lemma connectVPN_sends:
  assumes "connectVPN L login d = Returns d'"
  shows "sends d d' \<and> (\<not> running d \<longrightarrow> LoginInfo_Valid (Some login) \<longrightarrow>
    running d' \<and> (\<exists>oc env. d_sent d' = d_sent d @ [RConnect oc login env]))"
proof (cases "running d \<or> \<not> LoginInfo_Valid (Some login)")
  case True
  then have "connectVPN L login d = Returns d" by (elim disjE) (simp_all add: connectVPN_def)
  with assms True show ?thesis by (auto simp: quiet_sends)
next
  case False
  let ?d = "setStatusConnectionState ConnectionStateConnecting (setStatusServerIP
    (addr_String (d_serverIP (case ParseAddr (trim_chars ''[]'' (li_Host login)) of
       Some a \<Rightarrow> d\<lparr>d_serverIP := a\<rparr> | None \<Rightarrow> d)))
    (setStatusServer (li_Server login) (setStatusOCRunning True
      (case ParseAddr (trim_chars ''[]'' (li_Host login)) of Some a \<Rightarrow> d\<lparr>d_serverIP := a\<rparr> | None \<Rightarrow> d))))"
  obtain d1 oc env where d1: "allow_server ?d = Returns d1"
    and s: "runner_send (RConnect oc login env) (d1\<lparr>d_config := (d_config d1)\<lparr>cfg_LoginInfo := Some login\<rparr>\<rparr>) = Returns d'"
    using assms False by (auto simp: connectVPN_def Let_def obind_Returns_iff)
  have d: "d_sent ?d = d_sent d" "running ?d" "d_life ?d = d_life d"
    by (auto simp: OC_Running_def split: option.split)
  from allow_server_quiet [OF d1] d have "d_sent d1 = d_sent d" "running d1" "d_life d1 = d_life d"
    unfolding quiet_def by simp_all
  with s have "d_sent d' = d_sent d @ [RConnect oc login env]" "running d'" "d_life d' = d_life d"
    by (auto simp: runner_send_def split: if_splits)
  with False show ?thesis by (auto simp: sends_def)
qed

lemma handleDBusRequest_sends: "handleDBusRequest L r d = Returns (r', d') \<Longrightarrow> sends d d'"
  using connectVPN_sends disconnectVPN_sends
  by (auto simp: handleDBusRequest_def obind_Returns_iff quiet_sends split: list.splits if_splits)

lemma updateVPNConfig_quiet:
  "updateVPNConfigUp L dev adr now config d = Returns d' \<Longrightarrow> quiet d d'"
  "updateVPNConfigDown L d = Returns d' \<Longrightarrow> quiet d d'"
  by (auto simp: updateVPNConfigUp_def updateVPNConfigDown_def Let_def obind_Returns_iff quiet_def split: if_splits)

lemma handleClientRequest_quiet:
  assumes "handleClientRequest L dev adr now r d = Returns (r', d')"
  shows "quiet d d'"
  using assms
proof (cases rule: handleClientRequest_cases)
  case (2 config)
  then show ?thesis by (rule updateVPNConfig_quiet)
next
  case 3
  then show ?thesis by (rule updateVPNConfig_quiet)
qed (auto simp: handleVPNAttemptReconnect_def handleVPNReconnect_def quiet_def)

lemma rest_same_quiet: "rest_same L d d' \<Longrightarrow> quiet d d'"
  by (simp add: rest_same_def quiet_def)

lemma quiet_trans: "quiet d d' \<Longrightarrow> quiet d' d'' \<Longrightarrow> quiet d d''"
  by (simp add: quiet_def)

lemma handleTNDResult_sends:
  assumes "run_inv L d" "handleTNDResult L dev dns trusted d = Returns (Inr (), d')"
  shows "sends d d'"
proof -
  let ?d1 = "setStatusTrustedNetwork trusted d"
  from assms(2) obtain d2 where d2: "checkDisconnectVPN ?d1 = Returns d2"
    "checkTrafPol L dev dns d2 = Returns (Inr (), d')"
    by (auto simp: handleTNDResult_def obind_Returns_iff)
  have "pol_pre ?d1" using assms(1) by (simp add: run_inv_def pol_inv_iff) (simp add: pol_pre_def)
  then have "pol_pre d2"
    using d2(1) by (auto simp: checkDisconnectVPN_def disconnectVPN_def runner_send_def pol_pre_def split: if_splits)
  with checkTrafPol_facts [OF d2(2)] have q: "quiet d2 d'" by (auto intro: rest_same_quiet)
  have "sends ?d1 d2"
    using d2(1) disconnectVPN_sends [of ?d1 d2] by (auto simp: checkDisconnectVPN_def quiet_sends split: if_splits)
  then have "sends d d2" by (auto simp: sends_def quiet_def)
  then show ?thesis using q by (rule sends_quiet)
qed

lemma handleProfileUpdate_quiet:
  assumes "run_inv L d" "handleProfileUpdate L dev dns tndOk loaded d = Returns (Inr (), d')"
  shows "quiet d d'"
proof -
  let ?d1 = "stopTND (d\<lparr>d_profile := readXMLProfile loaded\<rparr>)"
  have "pol_inv d" using assms(1) by (simp add: run_inv_def)
  then obtain d2 d3 d4 where d2: "rest_same L ?d1 d2" "pol_pre d2" and
    d3: "checkTrafPol L dev dns d2 = Returns (Inr (), d3)" "checkTND tndOk d3 = Returns (Inr (), d4)"
    "d' = setStatusServers (nil_slice (GetVPNServerHostNames (d_profile d4))) d4"
    using handleProfileUpdate_stages [OF _ assms(2)] by metis
  from checkTrafPol_facts [OF d3(1) d2(2)] have p3: "rest_same L d2 d3" by simp
  have "d_tnd d3 = None" using d2(1) p3 by (simp add: rest_same_def)
  from checkTND_frame [OF d3(2) this] have "quiet d3 d'" by (simp add: d3(3) quiet_def)
  moreover have "quiet d ?d1" by (simp add: quiet_def)
  ultimately show ?thesis using rest_same_quiet [OF d2(1)] rest_same_quiet [OF p3] quiet_trans by blast
qed

text \<open>All steps of the daemon's main loop but those that take an event of the runner.\<close>

lemma daemon_step_sends:
  assumes "daemon_step L d ev d'" "d_life d = Running" "run_inv L d" "\<not> is_runner_event ev" "d_life d' = Running"
  shows "sends d d'"
  using assms(1)
proof cases
  case (d_client dev adr now r r')
  then show ?thesis using handleClientRequest_quiet quiet_sends by blast
next
  case (d_request r r')
  then show ?thesis using handleDBusRequest_sends by blast
next
  case (d_result dev dns trusted)
  then show ?thesis using handleTNDResult_sends assms(3) by blast
next
  case (d_sleep sleep)
  then show ?thesis using disconnectVPN_sends by (auto simp: handleSleepMonEvent_def quiet_sends split: if_splits)
next
  case (d_update dev dns tnd loaded)
  then show ?thesis using handleProfileUpdate_quiet assms(3) quiet_sends by blast
next
  case (d_result_error dev dns trusted e d1 ends)
  then show ?thesis using assms(5) daemon_shutdown_life [of L ends d1 d'] by simp
next
  case (d_update_error dev dns tnd loaded e d1 ends)
  then show ?thesis using assms(5) daemon_shutdown_life [of L ends d1 d'] by simp
next
  case (d_event e)
  then show ?thesis using assms(4) by simp
qed (auto simp: handleCPDStatusUpdate_def quiet_def intro!: quiet_sends)

lemma component_quiet: "daemon_step L d ev d' \<Longrightarrow> component_event ev \<Longrightarrow> quiet d d'"
  by (cases rule: daemon_step.cases) (auto simp: quiet_def)

section \<open>Agreement\<close>

text \<open>The runner works on a connection: it has a process or an event to hand over.\<close>

definition busy :: "Runner \<Rightarrow> bool" where
  "busy r \<longleftrightarrow> oc_cmd r \<noteq> None \<or> oc_sending r \<noteq> None"

definition agrees :: "bool \<Rightarrow> runner_cmd option \<Rightarrow> Runner \<Rightarrow> bool" where
  "agrees on cmd r \<longleftrightarrow>
     (case cmd of
        None \<Rightarrow> on = busy r
      | Some RDisconnect \<Rightarrow> on \<and> busy r
      | Some (RConnect _ _ _) \<Rightarrow> on \<and> \<not> busy r)"

definition sys_inv :: "'t lib \<Rightarrow> 't system \<Rightarrow> bool" where
  "sys_inv L s \<longleftrightarrow> d_life (sys_d s) = Running \<and> run_inv L (sys_d s) \<and> runner_inv (sys_r s) \<and>
     oc_life (sys_r s) = Running \<and>
     agrees (running (sys_d s)) (sys_cmd s) (sys_r s)"

lemma agrees_sends:
  assumes "sends d d'" "agrees (running d) None r"
  shows "agrees (running d') (new_cmd d d') r"
  using assms by (auto simp: sends_def quiet_def agrees_def new_cmd_def)

lemma agrees_take:
  assumes "agrees on (Some cmd) r" "runner_step r (RCommand cmd) r'"
  shows "agrees on None r'"
  using assms(2)
proof cases
  case (r_command environ pid)
  then show ?thesis
    using assms(1)
    by (cases cmd; cases pid)
      (auto simp: agrees_def busy_def runner_defs split: option.splits)
qed

lemma agrees_runner:
  assumes "agrees on cmd r" "runner_step r e r'" "e = ProcessEnds \<or> e = ExitTaken" "runner_inv r"
  shows "agrees on cmd r'"
proof -
  have "busy r \<and> busy r'"
    using assms(2,3,4) by cases (auto simp: busy_def runner_inv_def runner_defs split: option.splits)
  with assms(1) show ?thesis by (auto simp: agrees_def split: option.splits runner_cmd.splits)
qed

lemma run_inv_daemon_step:
  assumes "run_inv L d" "d_life d = Running" "daemon_step L d ev d'" "d_life d' = Running"
  shows "run_inv L d'"
  using daemon_step_inv [OF _ assms(3)] assms(1,4) by (simp add: daemon_inv_def)

lemma event_step:
  assumes "daemon_step L d (RunnerEvent e) d'" "run_inv L d"
  shows "d_life d' = d_life d \<and> running d' = ce_Connect e"
  using assms(1)
proof cases
  case d_event
  show ?thesis
  proof (cases "ce_Connect e")
    case True
    with d_event show ?thesis by (auto simp: handleRunnerEvent_def OC_Running_def)
  next
    case False
    with d_event have "handleRunnerDisconnect L d = Returns d'" by (simp add: handleRunnerEvent_def)
    from handleRunnerDisconnect_facts [OF _ _ this] assms(2) False show ?thesis
      by (simp add: run_inv_def OC_Running_def)
  qed
qed

lemma agrees_event:
  assumes "runner_step r (EventSent e) r'" "runner_inv r"
  shows "agrees (ce_Connect e) None r'"
  using assms by cases (auto simp: agrees_def busy_def runner_inv_def runner_defs split: option.splits)

lemma init_not_running:
  assumes "daemon_init L d"
  shows "\<not> running d \<and> d_life d = Running"
proof -
  from assms obtain loaded config d0 token devmonOk dnsmonOk tndOk d1 d2 where s: "NewDaemon loaded config = Some d0"
    "rest_same L (setInitialStatus (started token d0)) d1" "d_tnd d1 = None"
    "checkTND tndOk d1 = Returns (Inr (), d2)" "d = d2\<lparr>d_life := Running\<rparr>"
    by (rule daemon_init_stages)
  from started_inv(8) [OF s(1) refl, of token] s(2) have "st_OCRunning (d_status d1) = OCRunningNotRunning"
    by (simp add: rest_same_def)
  then show ?thesis using checkTND_frame(7) [OF s(4,3)] by (simp add: s(5) OC_Running_def)
qed

lemma runner_take_life [simp]: "oc_life (runner_take environ pid cmd r) = oc_life r"
  by (cases cmd) (auto simp: runner_defs split: option.splits)

lemma runner_step_life: "runner_step r e r' \<Longrightarrow> oc_life r' = oc_life r"
  by (elim runner_stepE) (auto simp: runner_defs)

interpretation sys: machine "sys_init L" "sys_step L" "sys_inv L" for L
proof
  show "sys_inv L s" if "sys_init L s" for s
  proof -
    have d: "daemon_init L (sys_d s)" "sys_cmd s = None" "runner_init (sys_r s)"
      using that by (simp_all add: sys_init_def)
    from init_not_running [OF d(1)] show ?thesis
      using d daemon_init_inv [OF d(1)] runner.inv_init [OF d(3)]
      by (simp add: sys_inv_def agrees_def busy_def runner_init_def Runner_Start_def NewRunner_def)
  qed
  show "sys_inv L s'" if inv: "sys_inv L s" and step: "sys_step L s e s'" for s e s'
    using step
  proof cases
    case (sys_loop ev d)
    have "sends (sys_d s) d"
      using daemon_step_sends [OF sys_loop(4)] sys_loop inv by (simp add: sys_inv_def)
    with sys_loop inv agrees_sends [of "sys_d s" d "sys_r s"] run_inv_daemon_step [OF _ _ sys_loop(4)] show ?thesis
      by (simp add: sys_inv_def)
  next
    case (sys_component ev d)
    from component_quiet [OF sys_component(3,4)] sys_component inv run_inv_daemon_step [OF _ _ sys_component(3)]
    show ?thesis by (simp add: sys_inv_def quiet_def)
  next
    case (sys_take cmd r)
    with inv agrees_take [OF _ sys_take(4)] runner.inv_step [OF _ sys_take(4)] runner_step_life [OF sys_take(4)]
    show ?thesis
      by (simp add: sys_inv_def)
  next
    case (sys_runner e r)
    with inv agrees_runner [OF _ sys_runner(3,4)] runner.inv_step [OF _ sys_runner(3)]
      runner_step_life [OF sys_runner(3)] show ?thesis
      by (simp add: sys_inv_def)
  next
    case (sys_event e r d)
    with inv event_step [OF sys_event(5)] agrees_event [OF sys_event(4)] runner.inv_step [OF _ sys_event(4)]
      run_inv_daemon_step [OF _ _ sys_event(5)] runner_step_life [OF sys_event(4)] show ?thesis
      by (simp add: sys_inv_def)
  qed
qed

section \<open>Properties\<close>

text \<open>
  C2: The daemon and the runner agree: unless a command is on its way, the status says
  that OpenConnect runs exactly while the runner has a process or an event to hand over; a
  command to disconnect finds such a runner; and a command to connect finds an idle
  one, so it is never refused.
\<close>

theorem runner_agreement:
  assumes "reach (sys_init L) (sys_step L) s"
  shows "let on = OC_Running (st_OCRunning (d_status (sys_d s)));
       idle = (oc_cmd (sys_r s) = None \<and> oc_sending (sys_r s) = None)
     in case sys_cmd s of
          None \<Rightarrow> on = (\<not> idle)
        | Some RDisconnect \<Rightarrow> on \<and> \<not> idle
        | Some (RConnect _ _ _) \<Rightarrow> on \<and> idle"
  using sys.reach_inv [OF assms]
  by (auto simp: sys_inv_def agrees_def busy_def Let_def split: option.splits runner_cmd.splits)

definition example_system :: "unit system" where
  "example_system = \<lparr>sys_d = example_daemon, sys_cmd = None, sys_r = Runner_Start NewRunner\<rparr>"

lemma example_system_reach: "reach (sys_init example_lib) (sys_step example_lib) example_system"
  using example_new example_started(1)
  by (intro reach_init) (auto simp: sys_init_def example_system_def daemon_init_def runner_init_def)

theorem runner_agreement_witness: "\<not> OC_Running (st_OCRunning (d_status (sys_d example_system)))"
  using runner_agreement [OF example_system_reach]
  by (simp add: Let_def example_system_def Runner_Start_def NewRunner_def)

text \<open>The daemon sends a command while the runner hands over an event: neither can go on.\<close>

definition stuck :: "'t system \<Rightarrow> bool" where
  "stuck s \<longleftrightarrow> sys_cmd s \<noteq> None \<and> oc_sending (sys_r s) \<noteq> None"

lemma stuck_step:
  assumes "sys_step L s ev s'" "stuck s"
  shows "sys_cmd s' = sys_cmd s \<and> oc_sending (sys_r s') = oc_sending (sys_r s)"
  using assms(1)
proof cases
  case (sys_take cmd r)
  then show ?thesis using assms(2) by (auto simp: stuck_def elim: runner_stepE)
next
  case (sys_runner e r)
  then show ?thesis using assms(2) by (auto simp: stuck_def elim: runner_stepE)
qed (use assms(2) in \<open>simp_all add: stuck_def\<close>)

lemma stuck_run:
  "run (sys_step L) s es s' \<Longrightarrow> stuck s \<Longrightarrow>
     sys_cmd s' = sys_cmd s \<and> oc_sending (sys_r s') = oc_sending (sys_r s)"
proof (induction rule: run.induct)
  case (run_Cons s e s1 es s2)
  from stuck_step [OF run_Cons.hyps(1) run_Cons.prems] have "stuck s1" using run_Cons.prems by (simp add: stuck_def)
  with run_Cons stuck_step [OF run_Cons.hyps(1) run_Cons.prems] show ?case by simp
qed simp

text \<open>A request to connect, and one to disconnect before the runner handed over its event.\<close>

text \<open>The request that a client makes to connect with some login information.\<close>

abbreviation connect_call :: "LoginInfo \<Rightarrow> dbus_Request" where
  "connect_call login \<equiv> (dbus_NewRequest ''Connect'')\<lparr>rq_Parameters := [li_Server login, li_Cookie login,
     li_Host login, li_ConnectURL login, li_Fingerprint login, li_Resolve login]\<rparr>"

lemma connect_call_sends:
  assumes "run_inv L d" "complete (d_config d)" "\<not> running d" "LoginInfo_Valid (Some login)"
  obtains r d' oc env where "handleDBusRequest L (connect_call login) d = Returns (r, d')" "sends d d'" "running d'"
    "d_sent d' = d_sent d @ [RConnect oc login env]"
proof -
  have "returns (handleDBusRequest L (connect_call login) d)"
    using assms(1,2) by (intro handleDBusRequest_returns) (simp_all add: run_inv_def dbus_NewRequest_def)
  then obtain r d' where h: "handleDBusRequest L (connect_call login) d = Returns (r, d')" by (auto simp: returns_def)
  have login: "\<lparr>li_Server = li_Server login, li_Cookie = li_Cookie login, li_Host = li_Host login,
      li_ConnectURL = li_ConnectURL login, li_Fingerprint = li_Fingerprint login, li_Resolve = li_Resolve login\<rparr> = login"
    by (cases login) simp
  from h have "connectVPN L login d = Returns d'"
    by (auto simp: handleDBusRequest_def dbus_NewRequest_def obind_Returns_iff login)
  from connectVPN_sends [OF this] assms(3,4) h show thesis using that by auto
qed

lemma connect_request:
  assumes "sys_inv L s" "sys_cmd s = None" "\<not> running (sys_d s)" "complete (d_config (sys_d s))"
    and "LoginInfo_Valid (Some login)"
  obtains d oc login' env ev where
    "sys_step L s ev (s\<lparr>sys_d := d, sys_cmd := Some (RConnect oc login' env)\<rparr>)" "running d"
proof -
  have inv: "run_inv L (sys_d s)" "d_life (sys_d s) = Running" using assms(1) by (simp_all add: sys_inv_def)
  from connect_call_sends [OF inv(1) assms(4,3,5)] obtain r d oc env where
    h: "handleDBusRequest L (connect_call login) (sys_d s) = Returns (r, d)" "sends (sys_d s) d" "running d"
    "d_sent d = d_sent (sys_d s) @ [RConnect oc login env]" .
  have life: "d_life d = Running" using h(2) inv(2) by (simp add: sends_def)
  have "daemon_step L (sys_d s) (DBusRequest (connect_call login)) d" by (rule d_request [OF inv(2) h(1)])
  from sys_loop [OF assms(2) this _ life] h(3,4) show thesis using that by (simp add: new_cmd_def)
qed

lemma disconnect_request:
  assumes "sys_inv L s" "sys_cmd s = None" "running (sys_d s)"
  obtains d ev where "sys_step L s ev (s\<lparr>sys_d := d, sys_cmd := Some RDisconnect\<rparr>)"
proof -
  have inv: "lives_inv (sys_d s)" "d_life (sys_d s) = Running" using assms(1) by (simp_all add: sys_inv_def run_inv_def)
  obtain d where d: "disconnectVPN (sys_d s) = Returns d" "d_sent d = d_sent (sys_d s) @ [RDisconnect]"
    "d_life d = Running"
    using assms(3) inv by (auto simp: disconnectVPN_def runner_send_def lives_inv_def)
  then have "handleDBusRequest L (dbus_NewRequest ''Disconnect'') (sys_d s) = Returns (dbus_NewRequest ''Disconnect'', d)"
    by (simp add: handleDBusRequest_def dbus_NewRequest_def)
  from sys_loop [OF assms(2) d_request [OF inv(2) this] _ d(3)] d(2) show thesis using that by (simp add: new_cmd_def)
qed

text \<open>
  C10: The daemon and the runner can wait for each other forever. When a client
  requests to connect and, before the daemon has taken the runner's event of the started
  process, to disconnect, the daemon waits for the runner to take the command and
  the runner waits for the daemon to take the event, whatever happens afterwards.
\<close>

theorem connect_disconnect_deadlock:
  assumes "reach (sys_init L) (sys_step L) s" "sys_cmd s = None"
    and "\<not> OC_Running (st_OCRunning (d_status (sys_d s)))" "complete (d_config (sys_d s))"
    and "LoginInfo_Valid (Some login)"
  shows "\<exists>es s'. run (sys_step L) s es s' \<and>
     (\<forall>es' s''. run (sys_step L) s' es' s'' \<longrightarrow> sys_cmd s'' = Some RDisconnect \<and> oc_sending (sys_r s'') \<noteq> None)"
proof -
  have inv: "sys_inv L s" by (rule sys.reach_inv [OF assms(1)])
  obtain d1 oc login' env e1 where
    s1: "sys_step L s e1 (s\<lparr>sys_d := d1, sys_cmd := Some (RConnect oc login' env)\<rparr>)" (is "sys_step L s e1 ?s1")
    and d1: "running d1" by (rule connect_request [OF inv assms(2-)])
  have inv1: "sys_inv L ?s1" by (rule sys.inv_step [OF inv s1])
  then have r1: "oc_cmd (sys_r s) = None" "oc_sending (sys_r s) = None"
    by (simp_all add: sys_inv_def agrees_def busy_def)
  define r2 where "r2 = runner_take [] (Some 1) (RConnect oc login' env) (sys_r s)"
  have life: "oc_life (sys_r s) = Running" using inv by (simp add: sys_inv_def)
  have "runner_step (sys_r s) (RCommand (RConnect oc login' env)) r2"
    unfolding r2_def by (rule r_command [OF life r1(2)])
  then have s2: "sys_step L ?s1 STake (?s1\<lparr>sys_cmd := None, sys_r := r2\<rparr>)" (is "sys_step L ?s1 STake ?s2")
    by (intro sys_take [where cmd = "RConnect oc login' env"]) simp_all
  have send: "oc_sending r2 \<noteq> None" using r1 by (simp add: r2_def handleConnect_def Let_def)
  have inv2: "sys_inv L ?s2" by (rule sys.inv_step [OF inv1 s2])
  obtain d3 e3 where s3: "sys_step L ?s2 e3 (?s2\<lparr>sys_d := d3, sys_cmd := Some RDisconnect\<rparr>)"
    (is "sys_step L ?s2 e3 ?s3")
    by (rule disconnect_request [OF inv2]) (simp_all add: d1)
  have "stuck ?s3" using send by (simp add: stuck_def)
  from stuck_run [OF _ this] send
  have "\<forall>es' s''. run (sys_step L) ?s3 es' s'' \<longrightarrow> sys_cmd s'' = Some RDisconnect \<and> oc_sending (sys_r s'') \<noteq> None"
    by fastforce
  moreover have "run (sys_step L) s [e1, STake, e3] ?s3" using s1 s2 s3 by (simp only: run_Cons_iff run_Nil_iff) blast
  ultimately show ?thesis by blast
qed

theorem connect_disconnect_deadlock_witness:
  "\<exists>es s. run (sys_step example_lib) example_system es s \<and> sys_cmd s = Some RDisconnect \<and> oc_sending (sys_r s) \<noteq> None"
proof -
  have "LoginInfo_Valid (Some \<lparr>li_Server = ''vpn'', li_Cookie = ''cookie'', li_Host = ''192.0.2.1'', li_ConnectURL = '''',
      li_Fingerprint = ''fp'', li_Resolve = ''''\<rparr>)"
    by (simp add: LoginInfo_Valid_def)
  moreover have "\<not> running example_daemon"
    using sys.reach_inv [OF example_system_reach]
    by (simp add: sys_inv_def agrees_def busy_def example_system_def Runner_Start_def NewRunner_def)
  moreover have "complete (d_config example_daemon)" by (simp add: example_started(2) complete_NewConfig)
  ultimately show ?thesis
    using connect_disconnect_deadlock [OF example_system_reach] run_Nil
    by (fastforce simp: example_system_def)
qed

end
