(* ===== verification/Client.thy ===== *)
theory Client
  imports ClientCfg DaemonRunner
begin

text \<open>
  The client library (\<^verbatim>\<open>pkg/client/client.go\<close>): queries of the daemon's properties, the subscription to
  their changes, authentication by OpenConnect and the requests to the daemon. The D-Bus
  connection is outside: the answers to calls and the signals are arguments; what
  OpenConnect prints is a parameter.
\<close>

section \<open>The status from properties\<close>

text \<open>
  An entry of a map of properties: a property with a value of its type, a property whose value
  has another type, or an entry with a name the client does not know.
\<close>

datatype dbus_value = Typed property | IllTyped string | Unknown string

text \<open>The body of the loop: nothing for an error.\<close>

fun store :: "dbus_value \<Rightarrow> Status \<Rightarrow> Status option" where
  "store (Typed (PropertyTrustedNetwork v)) s = Some (s\<lparr>st_TrustedNetwork := v\<rparr>)"
| "store (Typed (PropertyConnectionState v)) s = Some (s\<lparr>st_ConnectionState := v\<rparr>)"
| "store (Typed (PropertyIP v)) s = Some (s\<lparr>st_IP := v\<rparr>)"
| "store (Typed (PropertyDevice v)) s = Some (s\<lparr>st_Device := v\<rparr>)"
| "store (Typed (PropertyServer v)) s = Some (s\<lparr>st_Server := v\<rparr>)"
| "store (Typed (PropertyServerIP v)) s = Some (s\<lparr>st_ServerIP := v\<rparr>)"
| "store (Typed (PropertyConnectedAt v)) s = Some (s\<lparr>st_ConnectedAt := v\<rparr>)"
| "store (Typed (PropertyServers v)) s = Some (s\<lparr>st_Servers := v\<rparr>)"
| "store (Typed (PropertyOCRunning v)) s = Some (s\<lparr>st_OCRunning := v\<rparr>)"
| "store (Typed (PropertyOCPID v)) s = Some (s\<lparr>st_OCPID := v\<rparr>)"
| "store (Typed (PropertyTrafPolState v)) s = Some (s\<lparr>st_TrafPolState := v\<rparr>)"
| "store (Typed (PropertyAllowedHosts v)) s = Some (s\<lparr>st_AllowedHosts := v\<rparr>)"
| "store (Typed (PropertyCaptivePortal v)) s = Some (s\<lparr>st_CaptivePortal := v\<rparr>)"
| "store (Typed (PropertyTNDState v)) s = Some (s\<lparr>st_TNDState := v\<rparr>)"
| "store (Typed (PropertyTNDServers v)) s = Some (s\<lparr>st_TNDServers := v\<rparr>)"
| "store (Typed (PropertyVPNConfig v)) s =
     (if v = VPNConfigInvalid then Some (s\<lparr>st_VPNConfig := None\<rparr>)
      else (case vc_NewFromJSON v of None \<Rightarrow> None | Some config \<Rightarrow> Some (s\<lparr>st_VPNConfig := Some config\<rparr>)))"
| "store (IllTyped name) s = None"
| "store (Unknown name) s = Some s"

text \<open>One pass over the properties: whether there was no error, and the status so far.\<close>

fun store_all :: "dbus_value list \<Rightarrow> Status \<Rightarrow> bool \<times> Status" where
  "store_all [] s = (True, s)"
| "store_all (p # ps) s = (case store p s of None \<Rightarrow> (False, s) | Some s \<Rightarrow> store_all ps s)"

definition updateStatusFromProperties ::
  "Status \<Rightarrow> dbus_value list \<Rightarrow> bool \<times> Status" where
  "updateStatusFromProperties status props =
     (if fst (store_all props NewStatus) then store_all props status else (False, status))"

datatype client_error = QueryError | StatusError | AlreadySubscribed | MatchError | TrustedNetworkError
  | AlreadyConnected | AlreadyRunning | NotRunning | CommandError | CallError

text \<open>The answer to the call of \<^verbatim>\<open>GetAll\<close> is nothing for an error.\<close>

definition Query :: "dbus_value list option \<Rightarrow> client_error + Status" where
  "Query answer =
     (case answer of None \<Rightarrow> Inl QueryError
      | Some props \<Rightarrow>
          (let (ok, status) = updateStatusFromProperties NewStatus props in
           if ok then Inr status else Inl StatusError))"

section \<open>Signals\<close>

definition dbus_Path :: string where
  "dbus_Path = ''/com/telekom_mms/oc_daemon/Daemon''"

definition dbus_Interface :: string where
  "dbus_Interface = ''com.telekom_mms.oc_daemon.Daemon''"

definition PropertiesChanged :: string where
  "PropertiesChanged = ''org.freedesktop.DBus.Properties.PropertiesChanged''"

datatype body = BString string | BProps "dbus_value list" | BNames "string list" | BOther

record dbus_signal =
  sg_Path :: string
  sg_Name :: string
  sg_Body :: "body list"

definition invalidate :: "Status \<Rightarrow> string \<Rightarrow> Status" where
  "invalidate s name =
     (if name = ''TrustedNetwork'' then s\<lparr>st_TrustedNetwork := TrustedNetworkUnknown\<rparr>
      else if name = ''ConnectionState'' then s\<lparr>st_ConnectionState := ConnectionStateUnknown\<rparr>
      else if name = ''IP'' then s\<lparr>st_IP := IPInvalid\<rparr>
      else if name = ''Device'' then s\<lparr>st_Device := DeviceInvalid\<rparr>
      else if name = ''Server'' then s\<lparr>st_Server := ServerInvalid\<rparr>
      else if name = ''ServerIP'' then s\<lparr>st_ServerIP := ServerIPInvalid\<rparr>
      else if name = ''ConnectedAt'' then s\<lparr>st_ConnectedAt := ConnectedAtInvalid\<rparr>
      else if name = ''Servers'' then s\<lparr>st_Servers := None\<rparr>
      else if name = ''OCRunning'' then s\<lparr>st_OCRunning := OCRunningUnknown\<rparr>
      else if name = ''OCPID'' then s\<lparr>st_OCPID := OCPIDInvalid\<rparr>
      else if name = ''TrafPolState'' then s\<lparr>st_TrafPolState := TrafPolStateUnknown\<rparr>
      else if name = ''AllowedHosts'' then s\<lparr>st_AllowedHosts := None\<rparr>
      else if name = ''CaptivePortal'' then s\<lparr>st_CaptivePortal := CaptivePortalUnknown\<rparr>
      else if name = ''TNDState'' then s\<lparr>st_TNDState := TNDStateUnknown\<rparr>
      else if name = ''TNDServers'' then s\<lparr>st_TNDServers := None\<rparr>
      else if name = ''VPNConfig'' then s\<lparr>st_VPNConfig := None\<rparr>
      else s)"

text \<open>The body is indexed without a check of its length.\<close>

definition handlePropertiesChanged ::
  "dbus_signal \<Rightarrow> Status \<Rightarrow> Status option outcome" where
  "handlePropertiesChanged s status =
     (if sg_Path s \<noteq> dbus_Path \<or> sg_Name s \<noteq> PropertiesChanged then Returns None
      else (case sg_Body s of
          [] \<Rightarrow> Panics
        | b0 # rest \<Rightarrow>
            if b0 \<noteq> BString dbus_Interface then Returns None
            else (case rest of
                [] \<Rightarrow> Panics
              | BProps changed # rest \<Rightarrow>
                  (let (ok, status) = updateStatusFromProperties status changed in
                   if \<not> ok then Returns None
                   else (case rest of
                       [] \<Rightarrow> Panics
                     | BNames invalid # _ \<Rightarrow> Returns (Some (foldl invalidate status invalid))
                     | _ \<Rightarrow> Returns None))
              | _ \<Rightarrow> Returns None)))"

section \<open>The client\<close>

text \<open>
  The goroutine of the subscription has not been started, is to send the initial status, waits
  for signals, or has ended. The statuses sent are those the receiver has taken.
\<close>

datatype sub_loop = NoLoop | SendInitial | Waiting | LoopEnded

record DBusClient =
  cl_config :: "ClientConfig option"
  cl_env :: "string slice"
  cl_login :: "LoginInfo option"
  cl_subscribed :: bool
  cl_done :: bool
  cl_loop :: sub_loop
  cl_status :: Status
  cl_updates :: "Status list"

definition NewDBusClient :: "bool \<Rightarrow> ClientConfig option \<Rightarrow> DBusClient option" where
  "NewDBusClient busOk config =
     (if \<not> busOk then None
      else Some \<lparr>cl_config = config, cl_env = None, cl_login = None, cl_subscribed = False, cl_done = False,
        cl_loop = NoLoop, cl_status = NewStatus, cl_updates = []\<rparr>)"

definition SetConfig :: "ClientConfig option \<Rightarrow> DBusClient \<Rightarrow> DBusClient" where
  "SetConfig config d = d\<lparr>cl_config := ClientConfig_Copy config\<rparr>"

definition GetConfig :: "DBusClient \<Rightarrow> ClientConfig option" where
  "GetConfig d = ClientConfig_Copy (cl_config d)"

definition SetEnv :: "string slice \<Rightarrow> DBusClient \<Rightarrow> DBusClient" where
  "SetEnv env d = d\<lparr>cl_env := slice_append (slice_zero env) (slice_list env)\<rparr>"

definition GetEnv :: "DBusClient \<Rightarrow> string slice" where
  "GetEnv d = slice_append (slice_zero (cl_env d)) (slice_list (cl_env d))"

definition SetLogin :: "LoginInfo option \<Rightarrow> DBusClient \<Rightarrow> DBusClient" where
  "SetLogin login d = d\<lparr>cl_login := LoginInfo_Copy login\<rparr>"

definition GetLogin :: "DBusClient \<Rightarrow> LoginInfo option" where
  "GetLogin d = LoginInfo_Copy (cl_login d)"

definition setSubscribed :: "DBusClient \<Rightarrow> bool \<times> DBusClient" where
  "setSubscribed d = (if cl_subscribed d then (False, d) else (True, d\<lparr>cl_subscribed := True\<rparr>))"

definition Subscribe ::
  "dbus_value list option \<Rightarrow> bool \<Rightarrow> DBusClient \<Rightarrow>
   (client_error + unit) \<times> DBusClient" where
  "Subscribe answer matchOk d =
     (let (ok, d) = setSubscribed d in
      if \<not> ok then (Inl AlreadySubscribed, d)
      else (case Query answer of
          Inl e \<Rightarrow> (Inl e, d)
        | Inr status \<Rightarrow>
            if \<not> matchOk then (Inl MatchError, d)
            else (Inr (), d\<lparr>cl_loop := SendInitial, cl_status := status\<rparr>)))"

text \<open>
  The goroutine: the initial status, and a signal, with the argument whether the receiver takes the
  status or the client is closed. Copying a status panics for a nil exclude.
\<close>

definition send_initial :: "bool \<Rightarrow> DBusClient \<Rightarrow> DBusClient outcome" where
  "send_initial taken d =
     (case Status_Copy (Some (cl_status d)) of
        Some (Some u) \<Rightarrow>
          Returns (if taken then d\<lparr>cl_updates := cl_updates d @ [u], cl_loop := Waiting\<rparr>
                   else d\<lparr>cl_loop := LoopEnded\<rparr>)
      | _ \<Rightarrow> Panics)"

definition handle_signal ::
  "bool \<Rightarrow> dbus_signal \<Rightarrow> DBusClient \<Rightarrow> DBusClient outcome" where
  "handle_signal taken s d =
     (case Status_Copy (Some (cl_status d)) of
        Some (Some status) \<Rightarrow>
          obind (handlePropertiesChanged s status) (\<lambda>update.
            case update of
              None \<Rightarrow> Returns d
            | Some u \<Rightarrow>
                (case Status_Copy (Some u) of
                   Some (Some status) \<Rightarrow>
                     (let d = d\<lparr>cl_status := status\<rparr> in
                      Returns (if taken then d\<lparr>cl_updates := cl_updates d @ [u]\<rparr> else d\<lparr>cl_loop := LoopEnded\<rparr>))
                 | _ \<Rightarrow> Panics))
      | _ \<Rightarrow> Panics)"

text \<open>
  Closing the connection closes the channel of signals, which ends a waiting goroutine; a goroutine
  that was never started never tells that it has ended.
\<close>

definition Client_Close :: "DBusClient \<Rightarrow> DBusClient outcome" where
  "Client_Close d =
     (if \<not> cl_subscribed d then Returns d
      else if cl_done d then Panics
      else if cl_loop d = NoLoop then Blocks
      else Returns (d\<lparr>cl_done := True, cl_loop := LoopEnded\<rparr>))"

section \<open>Requests\<close>

definition checkStatus :: "dbus_value list option \<Rightarrow> client_error + unit" where
  "checkStatus answer =
     (case Query answer of
        Inl e \<Rightarrow> Inl QueryError
      | Inr status \<Rightarrow>
          if Trusted (st_TrustedNetwork status) then Inl TrustedNetworkError
          else if Connected (st_ConnectionState status) then Inl AlreadyConnected
          else if OC_Running (st_OCRunning status) then Inl AlreadyRunning
          else Inr ())"

text \<open>The command that authenticates; its standard input is the terminal's if there is no text.\<close>

record auth_Cmd =
  ac_path :: string
  ac_args :: "string list"
  ac_stdin :: "string option"
  ac_env :: "string list"

definition auth_parameters :: "ClientConfig \<Rightarrow> string list" where
  "auth_parameters config =
     (let parameters = [''--protocol='' @ cc_Protocol config, ''--useragent='' @ cc_UserAgent config,
            ''--certificate='' @ cc_ClientCertificate config, ''--sslkey='' @ cc_ClientKey config,
            ''--xmlconfig='' @ cc_XMLProfile config, ''--authenticate''];
          parameters = (if cc_UserCertificate config \<noteq> ''''
            then parameters @ [''--mca-certificate='' @ cc_UserCertificate config] else parameters);
          parameters = (if cc_UserKey config \<noteq> '''' then parameters @ [''--mca-key='' @ cc_UserKey config] else parameters);
          parameters = (if cc_Quiet config then parameters @ [''--quiet''] else parameters);
          parameters = (if cc_NoProxy config then parameters @ [''--no-proxy''] else parameters);
          parameters = (if cc_CACertificate config \<noteq> '''' then parameters @ [''--cafile='' @ cc_CACertificate config] else parameters);
          parameters = (if cc_User config \<noteq> '''' then parameters @ [''--user='' @ cc_User config] else parameters);
          parameters = (if cc_UserGroup config \<noteq> '''' then parameters @ [''--usergroup='' @ cc_UserGroup config] else parameters);
          parameters = (if cc_Password config \<noteq> '''' then (parameters @ [''--passwd-on-stdin'']) @ [''--non-inter''] else parameters);
          parameters = parameters @ slice_list (cc_ExtraArgs config)
      in parameters @ [cc_VPNServer config])"

definition auth_command :: "string list \<Rightarrow> string slice \<Rightarrow> ClientConfig \<Rightarrow> auth_Cmd" where
  "auth_command environ env config =
     \<lparr>ac_path = cc_OpenConnect config, ac_args = auth_parameters config,
      ac_stdin = (if cc_Password config \<noteq> '''' then Some (cc_Password config) else None),
      ac_env = (environ @ slice_list (cc_ExtraEnv config)) @ slice_list env\<rparr>"

text \<open>
  The lines that \<^verbatim>\<open>bufio.Scanner\<close> reads: without line ends, an empty last line is none, and a line
  that does not fit into its buffer ends the reading.
\<close>

definition scan_lines :: "string \<Rightarrow> string list" where
  "scan_lines s =
     (let parts = split_char (CHR 0x0A) s;
          parts = (if last parts = '''' then butlast parts else parts)
      in map (\<lambda>l. if l \<noteq> '''' \<and> last l = CHR 0x0D then butlast l else l)
           (takeWhile (\<lambda>l. length l < 65536) parts))"

text \<open>The parameter is what the command prints, nothing if it fails.\<close>

definition authenticate ::
  "string list \<Rightarrow> (auth_Cmd \<Rightarrow> string option) \<Rightarrow> DBusClient \<Rightarrow> ((client_error + unit) \<times> DBusClient) outcome" where
  "authenticate environ run_cmd d =
     (case GetConfig d of None \<Rightarrow> Panics
      | Some config \<Rightarrow>
          (case run_cmd (auth_command environ (GetEnv d) config) of
             None \<Rightarrow> Returns (Inl CommandError, d)
           | Some b \<Rightarrow>
               (let login = ParseLines (scan_lines b) (LoginInfo_zero\<lparr>li_Server := cc_VPNServer config\<rparr>) in
                Returns (Inr (), SetLogin (Some login) d))))"

definition Authenticate ::
  "dbus_value list option \<Rightarrow> string list \<Rightarrow> (auth_Cmd \<Rightarrow> string option) \<Rightarrow>
   DBusClient \<Rightarrow> ((client_error + unit) \<times> DBusClient) outcome" where
  "Authenticate answer environ run_cmd d =
     (case checkStatus answer of
        Inl e \<Rightarrow> Returns (Inl e, d)
      | Inr _ \<Rightarrow> authenticate environ run_cmd d)"

text \<open>
  Calls of methods: the name with the arguments, and the results, nothing for an error. A request
  yields the calls made and its result.
\<close>

type_synonym dbus_call = "string \<times> string list"

definition client_connect ::
  "(dbus_call \<Rightarrow> string list option) \<Rightarrow> DBusClient \<Rightarrow> (dbus_call list \<times> (client_error + unit)) outcome" where
  "client_connect call d =
     (case GetLogin d of None \<Rightarrow> Panics
      | Some login \<Rightarrow>
          (let c = (dbus_Interface @ ''.Connect'', [li_Server login, li_Cookie login, li_Host login,
                 li_ConnectURL login, li_Fingerprint login, li_Resolve login])
           in Returns ([c], if call c = None then Inl CallError else Inr ())))"

definition Connect ::
  "dbus_value list option \<Rightarrow> (dbus_call \<Rightarrow> string list option) \<Rightarrow> DBusClient \<Rightarrow>
   (dbus_call list \<times> (client_error + unit)) outcome" where
  "Connect answer call d =
     (case checkStatus answer of Inl e \<Rightarrow> Returns ([], Inl e) | Inr _ \<Rightarrow> client_connect call d)"

definition client_disconnect :: "(dbus_call \<Rightarrow> string list option) \<Rightarrow> dbus_call list \<times> (client_error + unit)" where
  "client_disconnect call =
     (let c = (dbus_Interface @ ''.Disconnect'', []) in ([c], if call c = None then Inl CallError else Inr ()))"

definition Disconnect ::
  "dbus_value list option \<Rightarrow> (dbus_call \<Rightarrow> string list option) \<Rightarrow>
   dbus_call list \<times> (client_error + unit)" where
  "Disconnect answer call =
     (case Query answer of
        Inl e \<Rightarrow> ([], Inl QueryError)
      | Inr status \<Rightarrow>
          if \<not> OC_Running (st_OCRunning status) then ([], Inl NotRunning) else client_disconnect call)"

definition DumpState :: "(dbus_call \<Rightarrow> string list option) \<Rightarrow> dbus_call list \<times> (client_error + string)" where
  "DumpState call =
     (let c = (dbus_Interface @ ''.DumpState'', []) in
      ([c], case call c of Some [state] \<Rightarrow> Inr state | _ \<Rightarrow> Inl CallError))"

section \<open>What a status shows of the properties\<close>

fun prop_name :: "property \<Rightarrow> string" where
  "prop_name (PropertyTrustedNetwork v) = ''TrustedNetwork''"
| "prop_name (PropertyConnectionState v) = ''ConnectionState''"
| "prop_name (PropertyIP v) = ''IP''"
| "prop_name (PropertyDevice v) = ''Device''"
| "prop_name (PropertyServer v) = ''Server''"
| "prop_name (PropertyServerIP v) = ''ServerIP''"
| "prop_name (PropertyConnectedAt v) = ''ConnectedAt''"
| "prop_name (PropertyServers v) = ''Servers''"
| "prop_name (PropertyOCRunning v) = ''OCRunning''"
| "prop_name (PropertyOCPID v) = ''OCPID''"
| "prop_name (PropertyTrafPolState v) = ''TrafPolState''"
| "prop_name (PropertyAllowedHosts v) = ''AllowedHosts''"
| "prop_name (PropertyCaptivePortal v) = ''CaptivePortal''"
| "prop_name (PropertyTNDState v) = ''TNDState''"
| "prop_name (PropertyTNDServers v) = ''TNDServers''"
| "prop_name (PropertyVPNConfig v) = ''VPNConfig''"

definition props_of :: "Properties \<Rightarrow> property list" where
  "props_of p =
     [PropertyTrustedNetwork (dp_TrustedNetwork p), PropertyConnectionState (dp_ConnectionState p),
      PropertyIP (dp_IP p), PropertyDevice (dp_Device p), PropertyServer (dp_Server p),
      PropertyServerIP (dp_ServerIP p), PropertyConnectedAt (dp_ConnectedAt p), PropertyServers (dp_Servers p),
      PropertyOCRunning (dp_OCRunning p), PropertyOCPID (dp_OCPID p), PropertyTrafPolState (dp_TrafPolState p),
      PropertyAllowedHosts (dp_AllowedHosts p), PropertyCaptivePortal (dp_CaptivePortal p),
      PropertyTNDState (dp_TNDState p), PropertyTNDServers (dp_TNDServers p), PropertyVPNConfig (dp_VPNConfig p)]"

text \<open>The bus transfers lists of strings, so a nil slice arrives as an empty one.\<close>

definition same_prop :: "property \<Rightarrow> property \<Rightarrow> bool" where
  "same_prop v u \<longleftrightarrow>
     (case (v, u) of
        (PropertyServers a, PropertyServers b) \<Rightarrow> slice_list a = slice_list b
      | (PropertyAllowedHosts a, PropertyAllowedHosts b) \<Rightarrow> slice_list a = slice_list b
      | (PropertyTNDServers a, PropertyTNDServers b) \<Rightarrow> slice_list a = slice_list b
      | _ \<Rightarrow> v = u)"

text \<open>The answer to \<^verbatim>\<open>GetAll\<close>: all properties, in any order.\<close>

definition delivers :: "Properties \<Rightarrow> dbus_value list \<Rightarrow> bool" where
  "delivers p props \<longleftrightarrow>
     (\<forall>x \<in> set props. \<exists>v. x = Typed v \<and> (\<exists>u \<in> set (props_of p). same_prop v u)) \<and>
     (\<forall>u \<in> set (props_of p). \<exists>v. Typed v \<in> set props \<and> same_prop v u)"

text \<open>The signal by which the bus tells that a property was set.\<close>

definition emits :: "property \<Rightarrow> dbus_signal \<Rightarrow> bool" where
  "emits u s \<longleftrightarrow> (\<exists>v. same_prop v u \<and>
     s = \<lparr>sg_Path = dbus_Path, sg_Name = PropertiesChanged,
          sg_Body = [BString dbus_Interface, BProps [Typed v], BNames []]\<rparr>)"

fun shows_prop :: "Status \<Rightarrow> property \<Rightarrow> bool" where
  "shows_prop s (PropertyTrustedNetwork v) \<longleftrightarrow> st_TrustedNetwork s = v"
| "shows_prop s (PropertyConnectionState v) \<longleftrightarrow> st_ConnectionState s = v"
| "shows_prop s (PropertyIP v) \<longleftrightarrow> st_IP s = v"
| "shows_prop s (PropertyDevice v) \<longleftrightarrow> st_Device s = v"
| "shows_prop s (PropertyServer v) \<longleftrightarrow> st_Server s = v"
| "shows_prop s (PropertyServerIP v) \<longleftrightarrow> st_ServerIP s = v"
| "shows_prop s (PropertyConnectedAt v) \<longleftrightarrow> st_ConnectedAt s = v"
| "shows_prop s (PropertyServers v) \<longleftrightarrow> slice_list (st_Servers s) = slice_list v"
| "shows_prop s (PropertyOCRunning v) \<longleftrightarrow> st_OCRunning s = v"
| "shows_prop s (PropertyOCPID v) \<longleftrightarrow> st_OCPID s = v"
| "shows_prop s (PropertyTrafPolState v) \<longleftrightarrow> st_TrafPolState s = v"
| "shows_prop s (PropertyAllowedHosts v) \<longleftrightarrow> slice_list (st_AllowedHosts s) = slice_list v"
| "shows_prop s (PropertyCaptivePortal v) \<longleftrightarrow> st_CaptivePortal s = v"
| "shows_prop s (PropertyTNDState v) \<longleftrightarrow> st_TNDState s = v"
| "shows_prop s (PropertyTNDServers v) \<longleftrightarrow> slice_list (st_TNDServers s) = slice_list v"
| "shows_prop s (PropertyVPNConfig v) \<longleftrightarrow> st_VPNConfig s = (if v = VPNConfigInvalid then None else vc_NewFromJSON v)"

definition shows_props :: "Status \<Rightarrow> Properties \<Rightarrow> bool" where
  "shows_props s p \<longleftrightarrow> (\<forall>u \<in> set (props_of p). shows_prop s u)"

text \<open>The client can decode a property, and can copy the result as well.\<close>

fun readable :: "property \<Rightarrow> bool" where
  "readable (PropertyVPNConfig v) \<longleftrightarrow> v = VPNConfigInvalid \<or> vc_NewFromJSON v \<noteq> None"
| "readable _ \<longleftrightarrow> True"

fun decodes :: "property \<Rightarrow> bool" where
  "decodes (PropertyVPNConfig v) \<longleftrightarrow> v = VPNConfigInvalid \<or> (\<exists>c. vc_NewFromJSON v = Some c \<and> vc_no_nil c)"
| "decodes _ \<longleftrightarrow> True"

lemma store_shows: "store (Typed v) s = Some s' \<Longrightarrow> shows_prop s' v"
  by (cases v) (auto split: if_splits option.splits)

lemma store_keeps:
  "store (Typed v) s = Some s' \<Longrightarrow> prop_name u \<noteq> prop_name v \<Longrightarrow> shows_prop s' u \<longleftrightarrow> shows_prop s u"
  by (cases v; cases u; clarsimp split: if_splits option.splits)

lemma store_readable: "readable v \<Longrightarrow> \<exists>s'. store (Typed v) s = Some s'"
  by (cases v) auto

lemma decodes_readable: "decodes v \<Longrightarrow> readable v"
  by (cases v) auto

lemma same_prop_refl [simp]: "same_prop u u"
  by (cases u) (simp_all add: same_prop_def)

lemma same_prop_name: "same_prop v u \<Longrightarrow> prop_name v = prop_name u"
  by (auto simp: same_prop_def split: property.splits)

lemma same_prop_shows: "same_prop v u \<Longrightarrow> shows_prop s v \<longleftrightarrow> shows_prop s u"
  by (auto simp: same_prop_def split: property.splits)

lemma same_prop_readable: "same_prop v u \<Longrightarrow> readable v \<longleftrightarrow> readable u"
  by (auto simp: same_prop_def split: property.splits)

lemma props_of_name: "u \<in> set (props_of p) \<Longrightarrow> u' \<in> set (props_of p) \<Longrightarrow> prop_name u = prop_name u' \<Longrightarrow> u = u'"
  unfolding props_of_def by auto

lemma props_of_SetMust:
  "u' \<in> set (props_of (SetMust u p)) \<longleftrightarrow> u' = u \<or> (u' \<in> set (props_of p) \<and> prop_name u' \<noteq> prop_name u)"
  by (cases u; cases u'; simp add: props_of_def)

text \<open>A pass over properties that agree with the published ones succeeds and makes the status show them.\<close>

lemma store_all_shows:
  assumes "\<forall>x \<in> set props. \<exists>v. x = Typed v \<and> (\<exists>u \<in> set (props_of p). same_prop v u)"
    and "\<forall>u \<in> set (props_of p). readable u"
  shows "\<exists>s'. store_all props s = (True, s') \<and>
     (\<forall>u \<in> set (props_of p). shows_prop s u \<or> (\<exists>v. Typed v \<in> set props \<and> same_prop v u) \<longrightarrow> shows_prop s' u)"
  using assms(1)
proof (induction props arbitrary: s)
  case (Cons x props)
  from Cons.prems obtain v w where x: "x = Typed v" "w \<in> set (props_of p)" "same_prop v w" by auto
  then obtain s1 where s1: "store x s = Some s1"
    using assms(2) store_readable same_prop_readable by blast
  from Cons.IH [of s1] Cons.prems obtain s' where s': "store_all props s1 = (True, s')"
    "\<forall>u \<in> set (props_of p). shows_prop s1 u \<or> (\<exists>v. Typed v \<in> set props \<and> same_prop v u) \<longrightarrow> shows_prop s' u"
    by auto
  have "shows_prop s1 u" if "u \<in> set (props_of p)" "shows_prop s u \<or> same_prop v u" for u
  proof (cases "prop_name u = prop_name v")
    case True
    then have "u = w" using that(1) x props_of_name same_prop_name by metis
    then show ?thesis using store_shows s1 x same_prop_shows by blast
  next
    case False
    then show ?thesis using that store_keeps s1 x(1) same_prop_name by metis
  qed
  with s1 s' x(1) show ?case by (auto split: option.splits)
qed simp

lemma update_delivered:
  assumes "delivers p props" "\<forall>u \<in> set (props_of p). readable u"
  shows "\<exists>s'. updateStatusFromProperties s props = (True, s') \<and> shows_props s' p"
proof -
  have *: "\<exists>s'. store_all props s = (True, s') \<and> shows_props s' p" for s
    using store_all_shows [OF _ assms(2), of props s] assms(1) unfolding delivers_def shows_props_def by blast
  from * [of NewStatus] * [of s] show ?thesis by (auto simp: updateStatusFromProperties_def)
qed

lemma Query_delivered:
  assumes "delivers p props" "\<forall>u \<in> set (props_of p). readable u"
  shows "\<exists>s. Query (Some props) = Inr s \<and> shows_props s p"
  using update_delivered [OF assms, of NewStatus] by (auto simp: Query_def)

text \<open>One changed property.\<close>

lemma update_changed:
  assumes "shows_props s p" "same_prop v u" "decodes u"
  shows "\<exists>s'. updateStatusFromProperties s [Typed v] = (True, s') \<and> shows_props s' (SetMust u p)"
proof -
  have "readable v" using assms(2,3) decodes_readable same_prop_readable by blast
  then obtain t s' where t: "store (Typed v) NewStatus = Some t" and s': "store (Typed v) s = Some s'"
    using store_readable by meson
  have "shows_prop s' w" if "w \<in> set (props_of (SetMust u p))" for w
  proof (cases "w = u")
    case True
    then show ?thesis using store_shows [OF s'] same_prop_shows [OF assms(2)] by simp
  next
    case False
    with that have w: "w \<in> set (props_of p)" "prop_name w \<noteq> prop_name u" by (simp_all add: props_of_SetMust)
    then show ?thesis using store_keeps [OF s'] assms(1) same_prop_name [OF assms(2)] by (simp add: shows_props_def)
  qed
  with s' t show ?thesis by (auto simp: updateStatusFromProperties_def shows_props_def)
qed

text \<open>A status that shows decodable properties can be copied.\<close>

lemma shows_copy:
  assumes "shows_props s p" "\<forall>u \<in> set (props_of p). decodes u"
  shows "Status_Copy (Some s) = Some (Some s)"
proof (rule Status_Copy_id, intro allI impI)
  fix c assume c: "st_VPNConfig s = Some c"
  have "PropertyVPNConfig (dp_VPNConfig p) \<in> set (props_of p)" by (simp add: props_of_def)
  then have "shows_prop s (PropertyVPNConfig (dp_VPNConfig p))" "decodes (PropertyVPNConfig (dp_VPNConfig p))"
    using assms by (simp_all only: shows_props_def)
  with c show "vc_no_nil c" by (auto split: if_splits)
qed

lemma decodes_SetMust:
  "\<forall>u \<in> set (props_of p). decodes u \<Longrightarrow> decodes u' \<Longrightarrow> \<forall>u \<in> set (props_of (SetMust u' p)). decodes u"
  by (auto simp only: Ball_def props_of_SetMust)

lemma handle_signal_tracks:
  assumes "shows_props (cl_status d) p" "\<forall>u \<in> set (props_of p). decodes u" "emits u sig" "decodes u"
  shows "\<exists>s. handle_signal True sig d = Returns (d\<lparr>cl_status := s, cl_updates := cl_updates d @ [s]\<rparr>) \<and>
     shows_props s (SetMust u p)"
proof -
  from assms(3) obtain v where v: "same_prop v u" "sig = \<lparr>sg_Path = dbus_Path, sg_Name = PropertiesChanged,
      sg_Body = [BString dbus_Interface, BProps [Typed v], BNames []]\<rparr>" by (auto simp: emits_def)
  obtain s where s: "updateStatusFromProperties (cl_status d) [Typed v] = (True, s)" "shows_props s (SetMust u p)"
    using update_changed [OF assms(1) v(1) assms(4)] by blast
  from shows_copy [OF s(2) decodes_SetMust [OF assms(2,4)]] shows_copy [OF assms(1,2)] s v(2)
  show ?thesis by (intro exI [of _ s]) (simp add: handle_signal_def handlePropertiesChanged_def Let_def)
qed

text \<open>The goroutine handles signals in their order, and the receiver takes every status.\<close>

fun handle_signals ::
  "dbus_signal list \<Rightarrow> DBusClient \<Rightarrow> DBusClient outcome" where
  "handle_signals [] d = Returns d"
| "handle_signals (s # ss) d = obind (handle_signal True s d) (handle_signals ss)"

definition set_props :: "property list \<Rightarrow> Properties \<Rightarrow> Properties" where
  "set_props us p = foldl (\<lambda>p u. SetMust u p) p us"

lemma set_props_simps [simp]: "set_props [] p = p" "set_props (u # us) p = set_props us (SetMust u p)"
  by (simp_all add: set_props_def)

lemma handle_signals_track:
  assumes "list_all2 emits us sigs" "shows_props (cl_status d) p" "\<forall>u \<in> set (props_of p). decodes u"
    and "\<forall>u \<in> set us. decodes u"
  shows "\<exists>d' ss. handle_signals sigs d = Returns d' \<and> cl_updates d' = cl_updates d @ ss \<and>
     length ss = length us \<and> (\<forall>i < length us. shows_props (ss ! i) (set_props (take (Suc i) us) p))"
  using assms
proof (induction us sigs arbitrary: d p rule: list_all2_induct)
  case (Cons u us sig sigs)
  then obtain s where s: "handle_signal True sig d = Returns (d\<lparr>cl_status := s, cl_updates := cl_updates d @ [s]\<rparr>)"
    "shows_props s (SetMust u p)" using handle_signal_tracks by (meson list.set_intros(1))
  let ?d = "d\<lparr>cl_status := s, cl_updates := cl_updates d @ [s]\<rparr>"
  have "shows_props (cl_status ?d) (SetMust u p)" "\<forall>w \<in> set us. decodes w" using s(2) Cons.prems(3) by simp_all
  moreover have "\<forall>w \<in> set (props_of (SetMust u p)). decodes w"
    by (rule decodes_SetMust) (use Cons.prems in simp_all)
  ultimately obtain d' ss where
    r: "handle_signals sigs ?d = Returns d'" "cl_updates d' = cl_updates ?d @ ss" "length ss = length us"
    "\<forall>i < length us. shows_props (ss ! i) (set_props (take (Suc i) us) (SetMust u p))"
    using Cons.IH by blast
  have "shows_props ((s # ss) ! i) (set_props (take (Suc i) (u # us)) p)" if "i < Suc (length us)" for i
    using that r(4) s(2) by (cases i) simp_all
  with r s(1) show ?case by (intro exI [of _ d'] exI [of _ "s # ss"]) simp
qed simp

text \<open>The daemon's properties, and the status a client makes from them.\<close>

lemma daemon_props_readable:
  assumes "run_inv L d" "sv_props (d_dbus d) = Some p"
    and "\<forall>c. st_VPNConfig (d_status d) = Some c \<longrightarrow> ok_Config c"
  shows "\<forall>u \<in> set (props_of p). readable u" "props_show vc_JSON (d_status d) p"
proof -
  show p: "props_show vc_JSON (d_status d) p" using assms(1,2) by (auto simp: run_inv_def view_ok_def)
  have "readable (PropertyVPNConfig (dp_VPNConfig p))"
    using p assms(3) by (auto simp: props_show_def json_property_def split: option.splits elim: vc_round_trip)
  then show "\<forall>u \<in> set (props_of p). readable u" by (simp add: props_of_def)
qed

lemma Query_daemon:
  assumes "run_inv L d" "sv_props (d_dbus d) = Some p" "delivers p props"
    and "\<forall>c. st_VPNConfig (d_status d) = Some c \<longrightarrow> ok_Config c"
  shows "\<exists>s. Query (Some props) = Inr s \<and> shows_props s p \<and> props_show vc_JSON (d_status d) p"
  using daemon_props_readable [OF assms(1,2,4)] Query_delivered [OF assms(3)] by blast

lemma subscription_follows:
  assumes "delivers p props" "\<forall>u \<in> set (props_of p) \<union> set us. decodes u" "list_all2 emits us sigs"
    and "\<not> cl_subscribed d" "cl_updates d = []"
  shows "\<exists>d1 d2 d3. Subscribe (Some props) True d = (Inr (), d1) \<and> send_initial True d1 = Returns d2 \<and>
     handle_signals sigs d2 = Returns d3 \<and> length (cl_updates d3) = Suc (length us) \<and>
     (\<forall>i \<le> length us. shows_props (cl_updates d3 ! i) (set_props (take i us) p))"
proof -
  have dec: "\<forall>u \<in> set (props_of p). decodes u" using assms(2) by blast
  then obtain s where s: "Query (Some props) = Inr s" "shows_props s p"
    using Query_delivered [OF assms(1)] decodes_readable by blast
  let ?d1 = "d\<lparr>cl_subscribed := True, cl_loop := SendInitial, cl_status := s\<rparr>"
  let ?d2 = "?d1\<lparr>cl_updates := [s], cl_loop := Waiting\<rparr>"
  have 1: "Subscribe (Some props) True d = (Inr (), ?d1)" "send_initial True ?d1 = Returns ?d2"
    using s(1) assms(4,5) shows_copy [OF s(2) dec] by (simp_all add: Subscribe_def setSubscribed_def send_initial_def)
  have "shows_props (cl_status ?d2) p" "\<forall>u \<in> set us. decodes u" using s(2) assms(2) by auto
  from handle_signals_track [OF assms(3) this(1) dec this(2)] obtain d3 ss where
    h: "handle_signals sigs ?d2 = Returns d3" "cl_updates d3 = s # ss" "length ss = length us"
    "\<forall>i < length us. shows_props (ss ! i) (set_props (take (Suc i) us) p)" by auto
  have "shows_props (cl_updates d3 ! i) (set_props (take i us) p)" if "i \<le> length us" for i
    using that h(2,4) s(2) by (cases i) simp_all
  with 1 h show ?thesis by auto
qed

lemma SetMust_IP: "prop_name u \<noteq> ''IP'' \<Longrightarrow> dp_IP (SetMust u p) = dp_IP p"
  by (cases u) simp_all

lemma set_props_IP: "\<forall>u \<in> set us. prop_name u \<noteq> ''IP'' \<Longrightarrow> dp_IP (set_props us p) = dp_IP p"
  by (induction us arbitrary: p) (simp_all add: SetMust_IP)

section \<open>Example\<close>

text \<open>The answer to a query in the order of the properties, a new client, and its login information.\<close>

lemma delivers_all: "delivers p (map Typed (props_of p))"
  unfolding delivers_def set_map by (blast intro: same_prop_refl)

definition example_props :: Properties where
  "example_props = (case sv_props (d_dbus example_daemon) of None \<Rightarrow> propsSpec | Some p \<Rightarrow> p)"

definition example_login :: LoginInfo where
  "example_login = \<lparr>li_Server = ''vpn'', li_Cookie = ''cookie'', li_Host = ''192.0.2.1'', li_ConnectURL = '''',
     li_Fingerprint = ''fp'', li_Resolve = ''''\<rparr>"

definition example_client :: DBusClient where
  "example_client = \<lparr>cl_config = Some NewClientConfig, cl_env = None, cl_login = Some example_login,
     cl_subscribed = False, cl_done = False, cl_loop = NoLoop, cl_status = NewStatus, cl_updates = []\<rparr>"

lemma example_props: "sv_props (d_dbus example_daemon) = Some example_props"
  using reach_run_inv [OF example_reach example_started(3)]
  by (auto simp: example_props_def run_inv_def view_ok_def split: option.splits)

lemma example_untrusted: "\<not> running example_daemon" "\<not> Trusted (st_TrustedNetwork (d_status example_daemon))"
proof -
  show "\<not> running example_daemon"
    using sys.reach_inv [OF example_system_reach]
    by (simp add: sys_inv_def agrees_def busy_def example_system_def Runner_Start_def NewRunner_def)
  show "\<not> Trusted (st_TrustedNetwork (d_status example_daemon))"
    using reach_run_inv [OF example_reach example_started(3)] example_daemon_facts(1)
    by (auto simp: run_inv_def pol_inv_def pol_ok_def split: option.splits)
qed

lemma example_no_config: "st_VPNConfig (d_status example_daemon) = None"
  using reach_run_inv [OF example_reach example_started(3)] example_untrusted(1)
  by (auto simp: run_inv_def conn_inv_def conn_ok_def)

section \<open>Properties\<close>

text \<open>
  C35: A client sees the status of the daemon: in every state of the main loop, the answer with
  the published properties, in any order, makes the status that \<^verbatim>\<open>Query\<close> returns equal to the daemon's,
  up to nil slices and to the normal form of the addresses in the VPN configuration.
\<close>

theorem query_shows_status:
  assumes "reach (daemon_init L) (daemon_step L) d" "d_life d = Running"
    and "sv_props (d_dbus d) = Some p" "delivers p props"
    and "\<forall>c. st_VPNConfig (d_status d) = Some c \<longrightarrow> ok_Config c"
  shows "\<exists>s. Query (Some props) = Inr s \<and>
     s\<lparr>st_Servers := None, st_AllowedHosts := None, st_TNDServers := None, st_VPNConfig := None\<rparr> =
       (d_status d)\<lparr>st_Servers := None, st_AllowedHosts := None, st_TNDServers := None, st_VPNConfig := None\<rparr> \<and>
     slice_list (st_Servers s) = slice_list (st_Servers (d_status d)) \<and>
     slice_list (st_AllowedHosts s) = slice_list (st_AllowedHosts (d_status d)) \<and>
     slice_list (st_TNDServers s) = slice_list (st_TNDServers (d_status d)) \<and>
     st_VPNConfig s = map_option norm_Config (st_VPNConfig (d_status d))"
proof -
  from Query_daemon [OF reach_run_inv [OF assms(1,2)] assms(3-5)] obtain s where
    s: "Query (Some props) = Inr s" "shows_props s p" "props_show vc_JSON (d_status d) p" by blast
  have "st_VPNConfig s = map_option norm_Config (st_VPNConfig (d_status d))"
  proof (cases "st_VPNConfig (d_status d)")
    case (Some c)
    with assms(5) obtain b where "vc_JSON c = Some b" "vc_NewFromJSON b = Some (norm_Config c)"
      using vc_round_trip by blast
    with s(2,3) Some vc_JSON_nonempty show ?thesis
      by (auto simp: shows_props_def props_of_def props_show_def json_property_def VPNConfigInvalid_def)
  qed (use s(2,3) in \<open>auto simp: shows_props_def props_of_def props_show_def json_property_def\<close>)
  with s show ?thesis
    by (intro exI [of _ s]) (auto simp: shows_props_def props_of_def props_show_def)
qed

theorem query_shows_status_witness:
  "\<exists>s. Query (Some (map Typed (props_of example_props))) = Inr s \<and>
     st_OCRunning s = st_OCRunning (d_status example_daemon)"
proof -
  have "\<forall>c. st_VPNConfig (d_status example_daemon) = Some c \<longrightarrow> ok_Config c"
    by (simp add: example_no_config)
  from query_shows_status [OF example_reach example_started(3) example_props delivers_all this] obtain s where
    "Query (Some (map Typed (props_of example_props))) = Inr s"
    "s\<lparr>st_Servers := None, st_AllowedHosts := None, st_TNDServers := None, st_VPNConfig := None\<rparr> =
       (d_status example_daemon)\<lparr>st_Servers := None, st_AllowedHosts := None, st_TNDServers := None, st_VPNConfig := None\<rparr>"
    by blast
  from this(1) arg_cong [OF this(2), of st_OCRunning] show ?thesis by auto
qed



text \<open>
  The client queries the properties before it subscribes to their changes. A property that changes
  in between is missed: every status the client sends shows the old address, no matter what other
  properties change later.
\<close>

lemma subscribe_misses_change:
  assumes "delivers p props" "\<forall>u \<in> set (props_of p) \<union> set us. decodes u" "list_all2 emits us sigs"
    and "\<not> cl_subscribed d" "cl_updates d = []"
    and "ip \<noteq> dp_IP p" "\<forall>u \<in> set us. prop_name u \<noteq> ''IP''"
  shows "\<exists>d1 d2 d3. Subscribe (Some props) True d = (Inr (), d1) \<and> send_initial True d1 = Returns d2 \<and>
     handle_signals sigs d2 = Returns d3 \<and> cl_updates d3 \<noteq> [] \<and>
     (\<forall>s \<in> set (cl_updates d3). st_IP s \<noteq> dp_IP (foldl (\<lambda>p u. SetMust u p) (SetMust (PropertyIP ip) p) us))"
proof -
  obtain d1 d2 d3 where d: "Subscribe (Some props) True d = (Inr (), d1)" "send_initial True d1 = Returns d2"
    "handle_signals sigs d2 = Returns d3" "length (cl_updates d3) = Suc (length us)"
    "\<forall>i \<le> length us. shows_props (cl_updates d3 ! i) (set_props (take i us) p)"
    using subscription_follows [OF assms(1-5)] by blast
  have "st_IP s = dp_IP p" if s: "s \<in> set (cl_updates d3)" for s
  proof -
    from s d(4) obtain i where i: "i \<le> length us" "s = cl_updates d3 ! i" by (auto simp: in_set_conv_nth less_Suc_eq_le)
    then have "shows_props s (set_props (take i us) p)" using d(5) by simp
    moreover have "dp_IP (set_props (take i us) p) = dp_IP p"
      using assms(7) by (intro set_props_IP) (auto dest: in_set_takeD)
    ultimately show ?thesis by (simp add: shows_props_def props_of_def)
  qed
  moreover have "dp_IP (set_props us (SetMust (PropertyIP ip) p)) = ip" using set_props_IP [OF assms(7)] by simp
  moreover have "cl_updates d3 \<noteq> []" using d(4) by auto
  ultimately show ?thesis using d(1-3) assms(6) unfolding set_props_def
    by (intro exI [of _ d1] exI [of _ d2] exI [of _ d3]) simp
qed

text \<open>
  After a subscription of a new client that failed, for whatever reason, closing the client
  blocks forever.
\<close>

lemma failed_subscribe_blocks_close:
  assumes "NewDBusClient True config = Some d" "Subscribe answer matchOk d = (Inl e, d')"
  shows "Client_Close d' = Blocks"
  using assms
  by (auto simp: NewDBusClient_def Subscribe_def setSubscribed_def Client_Close_def split: sum.splits if_splits)

text \<open>
  C34: A client's request to connect reaches OpenConnect: if the status of the daemon shows an
  untrusted network and no connection, the client makes one call, and the daemon that handles it sends
  the runner the command to connect with the login information of the client; otherwise the
  client calls nothing.
\<close>

theorem connect_end_to_end:
  assumes "reach (daemon_init L) (daemon_step L) d" "d_life d = Running" "complete (d_config d)"
    and "sv_props (d_dbus d) = Some p" "delivers p props"
    and "\<forall>c. st_VPNConfig (d_status d) = Some c \<longrightarrow> ok_Config c"
    and "cl_login c = Some login" "LoginInfo_Valid (Some login)"
  shows "if Trusted (st_TrustedNetwork (d_status d)) \<or> OC_Running (st_OCRunning (d_status d))
     then \<exists>e. Connect (Some props) call c = Returns ([], Inl e)
     else \<exists>params res r d' oc env.
       Connect (Some props) call c = Returns ([(dbus_Interface @ ''.Connect'', params)], res) \<and>
       handleDBusRequest L ((dbus_NewRequest ''Connect'')\<lparr>rq_Parameters := params\<rparr>) d = Returns (r, d') \<and>
       d_sent d' = d_sent d @ [RConnect oc login env]"
proof -
  have inv: "run_inv L d" by (rule reach_run_inv [OF assms(1,2)])
  obtain s where s: "Query (Some props) = Inr s" "shows_props s p" "props_show vc_JSON (d_status d) p"
    using Query_daemon [OF inv assms(4-6)] by blast
  then have st: "st_TrustedNetwork s = st_TrustedNetwork (d_status d)" "st_OCRunning s = st_OCRunning (d_status d)"
    "st_ConnectionState s = st_ConnectionState (d_status d)"
    by (simp_all add: shows_props_def props_of_def props_show_def)
  have con: "OC_Running (st_OCRunning (d_status d))" if "Connected (st_ConnectionState (d_status d))"
    using inv that by (auto simp: run_inv_def conn_inv_def conn_ok_def Connected_def)
  show ?thesis
  proof (cases "Trusted (st_TrustedNetwork (d_status d)) \<or> OC_Running (st_OCRunning (d_status d))")
    case True
    with s(1) st show ?thesis by (auto simp: Connect_def checkStatus_def)
  next
    case False
    with con s(1) st have "checkStatus (Some props) = Inr ()" by (auto simp: checkStatus_def)
    with assms(7) obtain res where 1: "Connect (Some props) call c = Returns ([(dbus_Interface @ ''.Connect'',
        [li_Server login, li_Cookie login, li_Host login, li_ConnectURL login, li_Fingerprint login, li_Resolve login])], res)"
      by (simp add: Connect_def client_connect_def GetLogin_def LoginInfo_Copy_def Let_def)
    obtain r d' oc env where 2: "handleDBusRequest L (connect_call login) d = Returns (r, d')"
      "d_sent d' = d_sent d @ [RConnect oc login env]"
      by (rule connect_call_sends [OF inv assms(3) _ assms(8)]) (use False in simp)
    have "\<exists>params res r d' oc env.
       Connect (Some props) call c = Returns ([(dbus_Interface @ ''.Connect'', params)], res) \<and>
       handleDBusRequest L ((dbus_NewRequest ''Connect'')\<lparr>rq_Parameters := params\<rparr>) d = Returns (r, d') \<and>
       d_sent d' = d_sent d @ [RConnect oc login env]"
      using 1 2 by (intro exI conjI)
    with False show ?thesis by (simp only: if_False)
  qed
qed

theorem connect_end_to_end_witness:
  "\<exists>params res r d' oc env.
     Connect (Some (map Typed (props_of example_props))) (\<lambda>_. Some []) example_client =
       Returns ([(dbus_Interface @ ''.Connect'', params)], res) \<and>
     handleDBusRequest example_lib ((dbus_NewRequest ''Connect'')\<lparr>rq_Parameters := params\<rparr>) example_daemon =
       Returns (r, d') \<and>
     d_sent d' = d_sent example_daemon @ [RConnect oc example_login env]"
proof -
  have "complete (d_config example_daemon)" by (simp add: example_started(2) complete_NewConfig)
  moreover have "LoginInfo_Valid (Some example_login)" by (simp add: LoginInfo_Valid_def example_login_def)
  ultimately show ?thesis
    using connect_end_to_end [OF example_reach example_started(3) _ example_props delivers_all, of
        example_client example_login "\<lambda>_. Some []"] example_untrusted example_no_config
    by (simp add: example_client_def)
qed

end
