(* ===== verification/CmdTmpl.thy ===== *)
theory CmdTmpl
  imports TrafPol VPNSetup
begin

text \<open>
  Command lists with templates (\<^verbatim>\<open>internal/cmdtmpl/command.go\<close>): the templates and the
  default command lists of the file, the execution of a template on data, loading templates and
  command lists from files, and the commands that \<^verbatim>\<open>GetCmds\<close> returns.
\<close>

section \<open>Data of templates\<close>

text \<open>
  The values a template works on: nil pointers, strings, numbers, booleans, addresses, prefixes,
  slices, and structs with their fields. A pointer to a struct is the struct, because templates
  follow pointers. A field of an embedded struct is listed after the fields of the struct itself.
\<close>

datatype data =
    DNil
  | DStr string
  | DInt int
  | DBool bool
  | DAddr addr
  | DPrefix prefix
  | DList "data list"
  | DStruct "(string \<times> data) list"

text \<open>
  Evaluating \<^verbatim>\<open>.X\<close>: a field of a struct or a method without arguments of an address or a
  prefix. There is no value if a pointer is nil or the field does not exist.
\<close>

fun field :: "string \<Rightarrow> data \<Rightarrow> data option" where
  "field x (DStruct fs) = map_of fs x"
| "field x (DAddr a) =
     (if x = ''Is4'' then Some (DBool (addr_Is4 a))
      else if x = ''Is6'' then Some (DBool (addr_Is6 a))
      else if x = ''IsValid'' then Some (DBool (addr_IsValid a))
      else if x = ''BitLen'' then Some (DInt (int (BitLen a)))
      else if x = ''Zone'' then Some (DStr (addr_zone a))
      else if x = ''Unmap'' then Some (DAddr (Unmap a))
      else if x = ''String'' then Some (DStr (addr_String a))
      else None)"
| "field x (DPrefix p) =
     (if x = ''Addr'' then Some (DAddr (prefix_Addr p))
      else if x = ''Bits'' then Some (DInt (prefix_Bits p))
      else if x = ''IsValid'' then Some (DBool (prefix_IsValid p))
      else if x = ''IsSingleIP'' then Some (DBool (IsSingleIP p))
      else if x = ''String'' then Some (DStr (prefix_String p))
      else None)"
| "field x v = None"

fun path_value :: "string list \<Rightarrow> data \<Rightarrow> data option" where
  "path_value [] v = Some v"
| "path_value (x # xs) v = (case field x v of None \<Rightarrow> None | Some w \<Rightarrow> path_value xs w)"

text \<open>The text of a value as \<^verbatim>\<open>fmt.Fprint\<close> prints it: structs in braces, slices in brackets.\<close>

fun show_data :: "data \<Rightarrow> string" where
  "show_data DNil = ''<nil>''"
| "show_data (DStr s) = s"
| "show_data (DInt i) = show_int i"
| "show_data (DBool b) = (if b then ''true'' else ''false'')"
| "show_data (DAddr a) = addr_String a"
| "show_data (DPrefix p) = prefix_String p"
| "show_data (DList xs) = ''['' @ join_with CHR '' '' (map show_data xs) @ '']''"
| "show_data (DStruct fs) = ''{'' @ join_with CHR '' '' (map (\<lambda>f. show_data (snd f)) fs) @ ''}''"

text \<open>The condition of \<^verbatim>\<open>if\<close>: not the zero value; a struct is always true.\<close>

fun data_truth :: "data \<Rightarrow> bool" where
  "data_truth DNil = False"
| "data_truth (DStr s) = (s \<noteq> '''')"
| "data_truth (DInt i) = (i \<noteq> 0)"
| "data_truth (DBool b) = b"
| "data_truth (DList xs) = (xs \<noteq> [])"
| "data_truth (DAddr a) = True"
| "data_truth (DPrefix p) = True"
| "data_truth (DStruct fs) = True"

text \<open>The elements of \<^verbatim>\<open>range\<close>: those of a slice or the numbers below an integer.\<close>

fun range_items :: "data \<Rightarrow> data list option" where
  "range_items (DList xs) = Some xs"
| "range_items (DInt i) = Some (map (\<lambda>k. DInt (int k)) [0..<nat i])"
| "range_items v = None"

section \<open>Templates\<close>

text \<open>
  The nodes of a parsed template (\<^verbatim>\<open>text/template/parse\<close>): text, an action that prints a
  field path, \<^verbatim>\<open>if\<close> with its two branches, \<^verbatim>\<open>range\<close> with its body and the
  branch for no elements, and the call of a named template. Comments and definitions leave no
  nodes; text next to a trim marker is stored trimmed.
\<close>

datatype node =
    Txt string
  | Act "string list"
  | IfN "string list" "node list" "node list"
  | RangeN "string list" "node list" "node list"
  | CallN string "string list"

text \<open>A set of templates by name; the text that is executed has the name \<^verbatim>\<open>Template\<close>.\<close>

type_synonym tmpl = "(string, node list) gomap"

datatype tmpl_error = ParseError | ExecError | NoTemplate string | DepthError

definition maxExecDepth :: nat where
  "maxExecDepth = 100000"

definition path_eval :: "string list \<Rightarrow> data \<Rightarrow> tmpl_error + data" where
  "path_eval path v = (case path_value path v of None \<Rightarrow> Inl ExecError | Some w \<Rightarrow> Inr w)"

text \<open>The outputs of a list of calls one after the other; the first error ends it.\<close>

fun emit :: "('a \<Rightarrow> 'e + string) \<Rightarrow> 'a list \<Rightarrow> 'e + string" where
  "emit f [] = Inr []"
| "emit f (x # xs) = ebind (f x) (\<lambda>s. ebind (emit f xs) (\<lambda>t. Inr (s @ t)))"

lemma emit_cong [fundef_cong]:
  "xs = ys \<Longrightarrow> (\<And>x. x \<in> set ys \<Longrightarrow> f x = g x) \<Longrightarrow> emit f xs = emit g ys"
  by (induction ys arbitrary: xs) auto

lemma ebind_cong [fundef_cong]:
  "x = y \<Longrightarrow> (\<And>z. y = Inr z \<Longrightarrow> f z = g z) \<Longrightarrow> ebind x f = ebind y g"
  by (cases y) auto

text \<open>
  Executing a node: the first argument is the set of templates, the second the number of nested
  template calls that are still allowed (\<^verbatim>\<open>maxExecDepth\<close> at the start).
\<close>

function exec :: "tmpl \<Rightarrow> nat \<Rightarrow> data \<Rightarrow> node \<Rightarrow> tmpl_error + string" where
  "exec T n v (Txt s) = Inr s"
| "exec T n v (Act path) = ebind (path_eval path v) (\<lambda>w. Inr (show_data w))"
| "exec T n v (IfN path yes no) =
     ebind (path_eval path v) (\<lambda>w. if data_truth w then emit (exec T n v) yes else emit (exec T n v) no)"
| "exec T n v (RangeN path body none) =
     ebind (path_eval path v) (\<lambda>w.
       case range_items w of None \<Rightarrow> Inl ExecError
       | Some xs \<Rightarrow> (if xs = [] then emit (exec T n v) none
                     else emit (\<lambda>x. emit (exec T n x) body) xs))"
| "exec T n v (CallN name path) =
     (case gm_get T name of None \<Rightarrow> Inl (NoTemplate name)
      | Some body \<Rightarrow>
          ebind (path_eval path v) (\<lambda>w.
            if n = 0 then Inl DepthError else emit (exec T (n - 1) w) body))"
  by pat_completeness auto
termination
  by (relation "measures [\<lambda>(T, n, v, node). n, \<lambda>(T, n, v, node). size node]")
    (auto simp: less_Suc_eq_le intro: size_list_estimation' le_SucI trans_le_add1 trans_le_add2)

text \<open>
  \<^verbatim>\<open>Parse\<close> of a text into a set of templates: each template of the text replaces the one of
  its name, except that a text of white space does not replace a template that is already there.
\<close>

definition tmpl_empty :: "node list \<Rightarrow> bool" where
  "tmpl_empty ns \<longleftrightarrow> list_all (\<lambda>n. case n of Txt s \<Rightarrow> trim_space s = '''' | _ \<Rightarrow> False) ns"

definition tmpl_add :: "tmpl \<Rightarrow> tmpl \<Rightarrow> tmpl" where
  "tmpl_add new T =
     foldl (\<lambda>T (name, ns). if tmpl_empty ns \<and> gm_get T name \<noteq> None then T else gm_put name ns T) T new"

definition tmpl_Execute :: "tmpl \<Rightarrow> data \<Rightarrow> tmpl_error + string" where
  "tmpl_Execute T v =
     (case gm_get T ''Template'' of None \<Rightarrow> Inl (NoTemplate ''Template'')
      | Some ns \<Rightarrow> emit (exec T maxExecDepth v) ns)"

section \<open>Command lists\<close>

text \<open>
  A command with its two texts, as the templates they parse to: a text without definitions has
  one, its own; None is a text that does not parse.
\<close>

record Command =
  c_Line :: "tmpl option"
  c_Stdin :: "tmpl option"

record CommandList =
  cl_Name :: string
  cl_Commands :: "Command option list"
  cl_template :: tmpl

definition executeTemplate :: "CommandList \<Rightarrow> tmpl option \<Rightarrow> data \<Rightarrow> tmpl_error + string" where
  "executeTemplate cl text v =
     (case text of None \<Rightarrow> Inl ParseError | Some new \<Rightarrow> tmpl_Execute (tmpl_add new (cl_template cl)) v)"

text \<open>Lines of text, each with its indentation by spaces or by tabs.\<close>

definition indented :: "char \<Rightarrow> (nat \<times> string) list \<Rightarrow> string" where
  "indented c ls = join_with CHR 0x0A (map (\<lambda>(n, s). replicate n c @ s) ls)"

abbreviation spaces :: "(nat \<times> string) list \<Rightarrow> string" where
  "spaces \<equiv> indented CHR 0x20"

abbreviation tabs :: "(nat \<times> string) list \<Rightarrow> string" where
  "tabs \<equiv> indented CHR 0x09"

definition cmd :: "node list \<Rightarrow> node list \<Rightarrow> Command" where
  "cmd line stdin = \<lparr>c_Line = Some [(''Template'', line)], c_Stdin = Some [(''Template'', stdin)]\<rparr>"

section \<open>Default templates\<close>

definition TrafPolRules :: "node list" where
  "TrafPolRules =
    [Txt (spaces [(0, ''''), (0, ''table inet oc-daemon-filter {''), (8, ''# set for allowed devices''),
       (8, ''set allowdevs {''), (16, ''type ifname''), (16, ''elements = { lo }''), (8, ''}''),
       (0, ''''), (8, ''# set for allowed ipv4 hosts''), (8, ''set allowhosts4 {''),
       (16, ''type ipv4_addr''), (16, ''flags interval''), (8, ''}''), (0, ''''),
       (8, ''# set for allowed ipv6 hosts''), (8, ''set allowhosts6 {''),
       (16, ''type ipv6_addr''), (16, ''flags interval''), (8, ''}''), (0, ''''),
       (8, ''# set for allowed ports''), (8, ''set allowports {''), (16, ''type inet_service''),
       (8, ''}''), (0, ''''), (8, ''chain input {''),
       (16, ''type filter hook input priority 0; policy drop;''), (0, ''''),
       (16, ''# accept related traffic''),
       (16, ''ct state established,related counter accept''), (0, ''''),
       (16, ''# accept traffic on allowed devices, e.g., lo''),
       (16, ''iifname @allowdevs counter accept''), (0, ''''), (16, ''# accept ICMP traffic''),
       (16, ''icmp type {''), (24, ''echo-reply,''), (24, ''destination-unreachable,''),
       (24, ''source-quench,''), (24, ''redirect,''), (24, ''time-exceeded,''),
       (24, ''parameter-problem,''), (24, ''timestamp-reply,''), (24, ''info-reply,''),
       (24, ''address-mask-reply,''), (24, ''router-advertisement,''),
       (16, ''} counter accept''), (0, ''''),
       (16, ''# accept ICMPv6 traffic otherwise IPv6 connectivity breaks''),
       (16, ''icmpv6 type {''), (24, ''destination-unreachable,''), (24, ''packet-too-big,''),
       (24, ''time-exceeded,''), (24, ''echo-reply,''), (24, ''mld-listener-query,''),
       (24, ''mld-listener-report,''), (24, ''mld2-listener-report,''),
       (24, ''mld-listener-done,''), (24, ''nd-router-advert,''),
       (24, ''nd-neighbor-solicit,''), (24, ''nd-neighbor-advert,''),
       (24, ''ind-neighbor-solicit,''), (24, ''ind-neighbor-advert,''), (24, ''nd-redirect,''),
       (24, ''parameter-problem,''), (24, ''router-renumbering''), (16, ''} counter accept''),
       (0, ''''), (16, ''# accept DHCPv4 traffic''),
       (16, ''udp dport 68 udp sport 67 counter accept''), (0, ''''),
       (16, ''# accept DHCPv6 traffic''), (16, ''udp dport 546 udp sport 547 counter accept''),
       (8, ''}''), (0, ''''), (8, ''chain output {''),
       (16, ''type filter hook output priority 0; policy drop;''), (0, ''''),
       (16, ''# accept related traffic''),
       (16, ''ct state established,related counter accept''), (0, ''''),
       (16, ''# accept traffic on allowed devices, e.g., lo''),
       (16, ''oifname @allowdevs counter accept''), (0, ''''),
       (16, ''# accept traffic to allowed hosts''),
       (16, ''ip daddr @allowhosts4 counter accept''),
       (16, ''ip6 daddr @allowhosts6 counter accept''), (0, ''''),
       (16, ''# accept ICMP traffic''), (16, ''icmp type {''), (24, ''source-quench,''),
       (24, ''echo-request,''), (24, ''timestamp-request,''), (24, ''info-request,''),
       (24, ''address-mask-request,''), (24, ''router-solicitation''),
       (16, ''} counter accept''), (0, ''''),
       (16, ''# accept ICMPv6 traffic otherwise IPv6 connectivity breaks''),
       (16, ''icmpv6 type {''), (24, ''echo-request,''), (24, ''mld-listener-report,''),
       (24, ''mld2-listener-report,''), (24, ''mld-listener-done,''),
       (24, ''nd-router-solicit,''), (24, ''nd-neighbor-solicit,''),
       (24, ''nd-neighbor-advert,''), (24, ''ind-neighbor-solicit,''),
       (24, ''ind-neighbor-advert,''), (16, ''} counter accept''), (0, ''''),
       (16, ''# accept traffic to allowed ports''),
       (16, ''udp dport @allowports counter accept''),
       (16, ''tcp dport @allowports counter accept''), (0, ''''),
       (16, ''# accept DNS traffic''), (16, ''udp dport 53 counter accept''),
       (16, ''tcp dport 53 counter accept''), (0, ''''), (16, ''# accept DHCPv4 traffic''),
       (16, ''udp dport 67 udp sport 68 counter accept''), (0, ''''),
       (16, ''# accept DHCPv6 traffic''), (16, ''udp dport 547 udp sport 546 counter accept''),
       (0, ''''), (16, ''# reject everything else''), (16, ''counter reject''), (8, ''}''),
       (0, ''''), (8, ''chain forward {''),
       (16, ''type filter hook forward priority 0; policy drop;''), (0, ''''),
       (16, ''# accept related traffic''),
       (16, ''ct state established,related counter accept''), (0, ''''),
       (16, ''# accept split exclude traffic''), (16, ''iifname @allowdevs ct mark '')]),
     Act [''SplitRouting'', ''FirewallMark''],
     Txt (spaces [(0, '' counter accept''), (0, ''''), (16, ''# accept traffic on allowed devices''),
       (16, ''iifname @allowdevs oifname @allowdevs counter accept''), (8, ''}''), (0, ''}''),
       (0, '''')])]"

definition SplitRoutingRules :: "node list" where
  "SplitRoutingRules =
    [Txt (tabs [(0, ''''), (0, ''table inet oc-daemon-routing {''), (1, ''# set for ipv4 excludes''),
       (1, ''set excludes4 {''), (2, ''type ipv4_addr''), (2, ''flags interval''), (2, '''')]),
     IfN [''VPNConfig'', ''Gateway'', ''Is4''] [Txt (tabs [(0, ''''), (2, ''elements = { '')]),
        Act [''VPNConfig'', ''Gateway''],
        Txt (tabs [(0, ''/32 }''), (2, '''')])] [],
     Txt (tabs [(0, ''''), (1, ''}''), (0, ''''), (1, ''# set for ipv6 excludes''),
       (1, ''set excludes6 {''), (2, ''type ipv6_addr''), (2, ''flags interval''), (2, '''')]),
     IfN [''VPNConfig'', ''Gateway'', ''Is6''] [Txt (tabs [(0, ''''), (2, ''elements = { '')]),
        Act [''VPNConfig'', ''Gateway''],
        Txt (tabs [(0, ''/128 }''), (2, '''')])] [],
     Txt (tabs [(0, ''''), (1, ''}''), (0, ''''), (1, ''chain preraw {''),
       (2, ''type filter hook prerouting priority raw; policy accept;''), (0, ''''),
       (2, ''# add drop rules for non-local traffic from other devices to''),
       (2, ''# tunnel network addresses here''), (2, '''')]),
     IfN [''VPNConfig'', ''IPv4'', ''IsValid''] [Txt (tabs [(0, ''''), (2, ''iifname != '')]),
        Act [''VPNConfig'', ''Device'', ''Name''],
        Txt '' ip daddr '',
        Act [''VPNConfig'', ''IPv4''],
        Txt (tabs [(0, '' fib saddr type != local counter drop''), (2, '''')])] [],
     Txt (tabs [(0, ''''), (2, '''')]),
     IfN [''VPNConfig'', ''IPv6'', ''IsValid''] [Txt (tabs [(0, ''''), (2, ''iifname != '')]),
        Act [''VPNConfig'', ''Device'', ''Name''],
        Txt '' ip6 daddr '',
        Act [''VPNConfig'', ''IPv6''],
        Txt (tabs [(0, '' fib saddr type != local counter drop''), (2, '''')])] [],
     Txt (tabs [(0, ''''), (1, ''}''), (0, ''''), (1, ''chain splitrouting {''),
       (2, ''# restore mark from conntracking''),
       (2, ''ct mark != 0 meta mark set ct mark counter''),
       (2, ''meta mark != 0 counter accept''), (0, ''''),
       (2, ''# mark packets in exclude sets''),
       (2, ''ip daddr @excludes4 counter meta mark set '')]),
     Act [''SplitRouting'', ''FirewallMark''],
     Txt (tabs [(0, ''''), (2, ''ip6 daddr @excludes6 counter meta mark set '')]),
     Act [''SplitRouting'', ''FirewallMark''],
     Txt (tabs [(0, ''''), (0, ''''), (2, ''# save mark in conntraction''),
       (2, ''ct mark set meta mark counter''), (1, ''}''), (0, ''''),
       (1, ''chain premangle {''),
       (2, ''type filter hook prerouting priority mangle; policy accept;''), (0, ''''),
       (2, ''# handle split routing''), (2, ''counter jump splitrouting''), (1, ''}''),
       (0, ''''), (1, ''chain output {''),
       (2, ''type route hook output priority mangle; policy accept;''), (0, ''''),
       (2, ''# handle split routing''), (2, ''counter jump splitrouting''), (1, ''}''),
       (0, ''''), (1, ''chain postmangle {''),
       (2, ''type filter hook postrouting priority mangle; policy accept;''), (0, ''''),
       (2, ''# save mark in conntracking''), (2, ''meta mark '')]),
     Act [''SplitRouting'', ''FirewallMark''],
     Txt (tabs [(0, '' ct mark set meta mark counter''), (1, ''}''), (0, ''''),
       (1, ''chain postrouting {''),
       (2, ''type nat hook postrouting priority srcnat; policy accept;''), (0, ''''),
       (2, ''# masquerare tunnel/exclude traffic to make sure the source IP''),
       (2, ''# matches the outgoing interface''), (2, ''ct mark '')]),
     Act [''SplitRouting'', ''FirewallMark''],
     Txt (tabs [(0, '' counter masquerade''), (1, ''}''), (0, ''''), (1, ''chain rejectipversion {''),
       (2, ''# used to reject unsupported ip version on the tunnel device''), (0, ''''),
       (2, ''# make sure exclude traffic is not filtered''), (2, ''ct mark '')]),
     Act [''SplitRouting'', ''FirewallMark''],
     Txt (tabs [(0, '' counter accept''), (0, ''''), (2, ''# use tcp reset and icmp admin prohibited''),
       (2, ''meta l4proto tcp counter reject with tcp reset''),
       (2, ''counter reject with icmpx admin-prohibited''), (1, ''}''), (0, ''''),
       (1, ''chain rejectforward {''),
       (2, ''type filter hook forward priority filter; policy accept;''), (0, ''''),
       (2, ''# reject unsupported ip versions when forwarding packets,''),
       (2, ''# add matching jump rule to rejectipversion if necessary''), (2, '''')]),
     IfN [''VPNConfig'', ''IPv4'', ''IsValid''] [Txt (tabs [(0, ''''), (2, ''meta oifname '')]),
        Act [''VPNConfig'', ''Device'', ''Name''],
        Txt (tabs [(0, '' meta nfproto ipv6 counter jump rejectipversion''), (2, '''')])] [],
     Txt (tabs [(0, ''''), (2, '''')]),
     IfN [''VPNConfig'', ''IPv6'', ''IsValid''] [Txt (tabs [(0, ''''), (2, ''meta oifname '')]),
        Act [''VPNConfig'', ''Device'', ''Name''],
        Txt (tabs [(0, '' meta nfproto ipv4 counter jump rejectipversion''), (2, '''')])] [],
     Txt (tabs [(0, ''''), (1, ''}''), (0, ''''), (1, ''chain rejectoutput {''),
       (2, ''type filter hook output priority filter; policy accept;''), (0, ''''),
       (2, ''# reject unsupported ip versions when sending packets,''),
       (2, ''# add matching jump rule to rejectipversion if necessary''), (2, '''')]),
     IfN [''VPNConfig'', ''IPv4'', ''IsValid''] [Txt (tabs [(0, ''''), (2, ''meta oifname '')]),
        Act [''VPNConfig'', ''Device'', ''Name''],
        Txt (tabs [(0, '' meta nfproto ipv6 counter jump rejectipversion''), (2, '''')])] [],
     Txt (tabs [(0, ''''), (2, '''')]),
     IfN [''VPNConfig'', ''IPv6'', ''IsValid''] [Txt (tabs [(0, ''''), (2, ''meta oifname '')]),
        Act [''VPNConfig'', ''Device'', ''Name''],
        Txt (tabs [(0, '' meta nfproto ipv4 counter jump rejectipversion''), (2, '''')])] [],
     Txt (tabs [(0, ''''), (1, ''}''), (0, ''}''), (0, '''')])]"

text \<open>The body of \<^verbatim>\<open>DefaultTemplate\<close> itself is empty: comments and definitions.\<close>

definition DefaultTemplate :: tmpl where
  "DefaultTemplate =
     [(''Template'', []), (''TrafPolRules'', TrafPolRules), (''SplitRoutingRules'', SplitRoutingRules)]"

section \<open>Default command lists\<close>

definition TrafPolSetFilterRules_cmds :: "Command list" where
  "TrafPolSetFilterRules_cmds =
    [cmd [Act [''Executables'', ''Nft''], Txt '' -f -''] [CallN ''TrafPolRules'' []]]"

definition TrafPolUnsetFilterRules_cmds :: "Command list" where
  "TrafPolUnsetFilterRules_cmds =
    [cmd [Act [''Executables'', ''Nft''], Txt '' -f - delete table inet oc-daemon-filter''] []]"

definition TrafPolSetAllowedDevices_cmds :: "Command list" where
  "TrafPolSetAllowedDevices_cmds =
    [cmd [Act [''Executables'', ''Nft''], Txt '' -f -''] [Txt (spaces [(0, ''flush set inet oc-daemon-filter allowdevs''), (0, '''')]),
           RangeN [''Devices''] [Txt ''add element inet oc-daemon-filter allowdevs { '',
              Act [],
              Txt (spaces [(0, '' }''), (0, '''')])] []]]"

definition TrafPolSetAllowedHosts_cmds :: "Command list" where
  "TrafPolSetAllowedHosts_cmds =
    [cmd [Act [''Executables'', ''Nft''], Txt '' -f -''] [Txt (spaces [(0, ''flush set inet oc-daemon-filter allowhosts4''),
             (0, ''flush set inet oc-daemon-filter allowhosts6''), (0, '''')]),
           RangeN [''AllowedIPs''] [IfN [''Addr'', ''Is4''] [Txt ''add element inet oc-daemon-filter allowhosts4 { '',
                Act [],
                Txt (spaces [(0, '' }''), (0, '''')])] [Txt ''add element inet oc-daemon-filter allowhosts6 { '',
                Act [],
                Txt (spaces [(0, '' }''), (0, '''')])]] []]]"

definition TrafPolSetAllowedPorts_cmds :: "Command list" where
  "TrafPolSetAllowedPorts_cmds =
    [cmd [Act [''Executables'', ''Nft''], Txt '' -f -''] [Txt (spaces [(0, ''flush set inet oc-daemon-filter allowports''), (0, '''')]),
           RangeN [''Ports''] [Txt ''add element inet oc-daemon-filter allowports { '',
              Act [],
              Txt (spaces [(0, '' }''), (0, '''')])] []]]"

definition TrafPolCleanup_cmds :: "Command list" where
  "TrafPolCleanup_cmds =
    [cmd [Act [''Executables'', ''Nft''], Txt '' -f - delete table inet oc-daemon-filter''] []]"

definition VPNSetupSetup_cmds :: "Command list" where
  "VPNSetupSetup_cmds =
    [cmd [Act [''Executables'', ''IP''],
          Txt '' link set '',
          Act [''VPNConfig'', ''Device'', ''Name''],
          Txt '' mtu '',
          Act [''VPNConfig'', ''Device'', ''MTU'']] [],
     cmd [Act [''Executables'', ''IP''],
          Txt '' link set '',
          Act [''VPNConfig'', ''Device'', ''Name''],
          Txt '' up''] [],
     cmd [IfN [''VPNConfig'', ''IPv4'', ''IsValid''] [Act [''Executables'', ''IP''],
            Txt '' address add '',
            Act [''VPNConfig'', ''IPv4''],
            Txt '' dev '',
            Act [''VPNConfig'', ''Device'', ''Name'']] []] [],
     cmd [IfN [''VPNConfig'', ''IPv6'', ''IsValid''] [Act [''Executables'', ''IP''],
            Txt '' address add '',
            Act [''VPNConfig'', ''IPv6''],
            Txt '' dev '',
            Act [''VPNConfig'', ''Device'', ''Name'']] []] [],
     cmd [Act [''Executables'', ''Nft''], Txt '' -f -''] [CallN ''SplitRoutingRules'' []],
     cmd [Act [''Executables'', ''IP''],
          Txt '' -4 route add 0.0.0.0/0 dev '',
          Act [''VPNConfig'', ''Device'', ''Name''],
          Txt '' table '',
          Act [''SplitRouting'', ''RoutingTable'']] [],
     cmd [Act [''Executables'', ''IP''],
          Txt '' -4 rule add iif '',
          Act [''VPNConfig'', ''Device'', ''Name''],
          Txt '' table main pref '',
          Act [''SplitRouting'', ''RulePriority1'']] [],
     cmd [Act [''Executables'', ''IP''],
          Txt '' -4 rule add not fwmark '',
          Act [''SplitRouting'', ''FirewallMark''],
          Txt '' table '',
          Act [''SplitRouting'', ''RoutingTable''],
          Txt '' pref '',
          Act [''SplitRouting'', ''RulePriority2'']] [],
     cmd [Act [''Executables'', ''Sysctl''], Txt '' -q net.ipv4.conf.all.src_valid_mark=1''] [],
     cmd [Act [''Executables'', ''IP''],
          Txt '' -6 route add ::/0 dev '',
          Act [''VPNConfig'', ''Device'', ''Name''],
          Txt '' table '',
          Act [''SplitRouting'', ''RoutingTable'']] [],
     cmd [Act [''Executables'', ''IP''],
          Txt '' -6 rule add iif '',
          Act [''VPNConfig'', ''Device'', ''Name''],
          Txt '' table main pref '',
          Act [''SplitRouting'', ''RulePriority1'']] [],
     cmd [Act [''Executables'', ''IP''],
          Txt '' -6 rule add not fwmark '',
          Act [''SplitRouting'', ''FirewallMark''],
          Txt '' table '',
          Act [''SplitRouting'', ''RoutingTable''],
          Txt '' pref '',
          Act [''SplitRouting'', ''RulePriority2'']] [],
     cmd [Act [''Executables'', ''Resolvectl''],
          Txt '' dns '',
          Act [''VPNConfig'', ''Device'', ''Name''],
          Txt '' '',
          Act [''DNSProxy'', ''Address'']] [],
     cmd [Act [''Executables'', ''Resolvectl''],
          Txt '' domain '',
          Act [''VPNConfig'', ''Device'', ''Name''],
          Txt '' '',
          Act [''VPNConfig'', ''DNS'', ''DefaultDomain''],
          Txt '' ~.''] [],
     cmd [Act [''Executables'', ''Resolvectl''],
          Txt '' default-route '',
          Act [''VPNConfig'', ''Device'', ''Name''],
          Txt '' yes''] [],
     cmd [Act [''Executables'', ''Resolvectl''], Txt '' flush-caches''] [],
     cmd [Act [''Executables'', ''Resolvectl''], Txt '' reset-server-features''] []]"

definition VPNSetupTeardown_cmds :: "Command list" where
  "VPNSetupTeardown_cmds =
    [cmd [Act [''Executables'', ''IP''],
          Txt '' link set '',
          Act [''VPNConfig'', ''Device'', ''Name''],
          Txt '' down''] [],
     cmd [Act [''Executables'', ''IP''],
          Txt '' -4 rule delete table '',
          Act [''SplitRouting'', ''RoutingTable'']] [],
     cmd [Act [''Executables'', ''IP''],
          Txt '' -4 rule delete iif '',
          Act [''VPNConfig'', ''Device'', ''Name''],
          Txt '' table main''] [],
     cmd [Act [''Executables'', ''IP''],
          Txt '' -6 rule delete table '',
          Act [''SplitRouting'', ''RoutingTable'']] [],
     cmd [Act [''Executables'', ''IP''],
          Txt '' -6 rule delete iif '',
          Act [''VPNConfig'', ''Device'', ''Name''],
          Txt '' table main''] [],
     cmd [Act [''Executables'', ''Nft''], Txt '' -f - delete table inet oc-daemon-routing''] [],
     cmd [Act [''Executables'', ''Resolvectl''],
          Txt '' revert '',
          Act [''VPNConfig'', ''Device'', ''Name'']] [],
     cmd [Act [''Executables'', ''Resolvectl''], Txt '' flush-caches''] [],
     cmd [Act [''Executables'', ''Resolvectl''], Txt '' reset-server-features''] []]"

definition VPNSetupSetExcludes_cmds :: "Command list" where
  "VPNSetupSetExcludes_cmds =
    [cmd [Act [''Executables'', ''Nft''], Txt '' -f -''] [Txt (spaces [(0, ''flush set inet oc-daemon-routing excludes4''),
             (0, ''flush set inet oc-daemon-routing excludes6''), (0, '''')]),
           RangeN [''Addresses''] [IfN [''Addr'', ''Is6''] [Txt ''add element inet oc-daemon-routing excludes6 { '',
                Act [],
                Txt (spaces [(0, '' }''), (0, '''')])] [Txt ''add element inet oc-daemon-routing excludes4 { '',
                Act [],
                Txt (spaces [(0, '' }''), (0, '''')])]] []]]"

definition VPNSetupSetDNS_cmds :: "Command list" where
  "VPNSetupSetDNS_cmds =
    [cmd [Act [''Executables'', ''Resolvectl''],
          Txt '' dns '',
          Act [''VPNConfig'', ''Device'', ''Name''],
          Txt '' '',
          Act [''DNSProxy'', ''Address'']] [],
     cmd [Act [''Executables'', ''Resolvectl''],
          Txt '' domain '',
          Act [''VPNConfig'', ''Device'', ''Name''],
          Txt '' '',
          Act [''VPNConfig'', ''DNS'', ''DefaultDomain''],
          Txt '' ~.''] [],
     cmd [Act [''Executables'', ''Resolvectl''],
          Txt '' default-route '',
          Act [''VPNConfig'', ''Device''],
          Txt '' yes''] []]"

definition VPNSetupGetDNS_cmds :: "Command list" where
  "VPNSetupGetDNS_cmds =
    [cmd [Act [''Executables'', ''Resolvectl''],
          Txt '' status '',
          Act [''VPNConfig'', ''Device'', ''Name''],
          Txt '' --no-pager''] []]"

definition VPNSetupCleanup_cmds :: "Command list" where
  "VPNSetupCleanup_cmds =
    [cmd [Act [''Executables'', ''Resolvectl''],
          Txt '' revert '',
          Act [''OpenConnect'', ''VPNDevice'']] [],
     cmd [Act [''Executables'', ''IP''],
          Txt '' link delete '',
          Act [''OpenConnect'', ''VPNDevice'']] [],
     cmd [Act [''Executables'', ''IP''],
          Txt '' -4 rule delete pref '',
          Act [''SplitRouting'', ''RulePriority1'']] [],
     cmd [Act [''Executables'', ''IP''],
          Txt '' -4 rule delete pref '',
          Act [''SplitRouting'', ''RulePriority2'']] [],
     cmd [Act [''Executables'', ''IP''],
          Txt '' -6 rule delete pref '',
          Act [''SplitRouting'', ''RulePriority1'']] [],
     cmd [Act [''Executables'', ''IP''],
          Txt '' -6 rule delete pref '',
          Act [''SplitRouting'', ''RulePriority2'']] [],
     cmd [Act [''Executables'', ''IP''],
          Txt '' -4 route flush table '',
          Act [''SplitRouting'', ''RoutingTable'']] [],
     cmd [Act [''Executables'', ''IP''],
          Txt '' -6 route flush table '',
          Act [''SplitRouting'', ''RoutingTable'']] [],
     cmd [Act [''Executables'', ''Nft''], Txt '' -f - delete table inet oc-daemon-routing''] []]"

section \<open>State of the package\<close>

text \<open>
  The variables of the package: the text of the templates loaded from file, the parsed templates,
  and the command lists by name. A command list keeps the templates it was made with.
\<close>

record cmdtmpl =
  ct_LoadedTemplates :: string
  ct_defaultTemplate :: tmpl
  ct_CommandLists :: "(string, CommandList) gomap"

definition default_list :: "string \<times> Command list \<Rightarrow> string \<times> CommandList" where
  "default_list l =
     (fst l, \<lparr>cl_Name = fst l, cl_Commands = map Some (snd l), cl_template = DefaultTemplate\<rparr>)"

definition CommandLists :: "(string, CommandList) gomap" where
  "CommandLists = map default_list
     [(''TrafPolSetFilterRules'', TrafPolSetFilterRules_cmds),
      (''TrafPolUnsetFilterRules'', TrafPolUnsetFilterRules_cmds),
      (''TrafPolSetAllowedDevices'', TrafPolSetAllowedDevices_cmds),
      (''TrafPolSetAllowedHosts'', TrafPolSetAllowedHosts_cmds),
      (''TrafPolSetAllowedPorts'', TrafPolSetAllowedPorts_cmds),
      (''TrafPolCleanup'', TrafPolCleanup_cmds),
      (''VPNSetupSetup'', VPNSetupSetup_cmds),
      (''VPNSetupTeardown'', VPNSetupTeardown_cmds),
      (''VPNSetupSetExcludes'', VPNSetupSetExcludes_cmds),
      (''VPNSetupSetDNS'', VPNSetupSetDNS_cmds),
      (''VPNSetupGetDNS'', VPNSetupGetDNS_cmds),
      (''VPNSetupCleanup'', VPNSetupCleanup_cmds)]"

definition cmdtmpl_init :: cmdtmpl where
  "cmdtmpl_init =
     \<lparr>ct_LoadedTemplates = '''', ct_defaultTemplate = DefaultTemplate, ct_CommandLists = CommandLists\<rparr>"

section \<open>Loading templates and command lists\<close>

text \<open>
  The results say whether there was no error. The first arguments are reading a file and parsing
  its text: as a set of templates, or as JSON with the names and commands of the lists, in which an
  entry can be null.
\<close>

definition LoadTemplates ::
  "(string \<Rightarrow> string option) \<Rightarrow> (string \<Rightarrow> tmpl option) \<Rightarrow> string \<Rightarrow> cmdtmpl \<Rightarrow> bool \<times> cmdtmpl" where
  "LoadTemplates readFile parse file s =
     (case readFile file of None \<Rightarrow> (False, s)
      | Some f \<Rightarrow>
        (case parse f of None \<Rightarrow> (False, s)
         | Some t \<Rightarrow> (True, s\<lparr>ct_LoadedTemplates := f, ct_defaultTemplate := tmpl_add t []\<rparr>)))"

type_synonym list_entry = "(string \<times> Command option list) option"

definition list_names :: "string list" where
  "list_names =
     [''TrafPolSetFilterRules'', ''TrafPolUnsetFilterRules'', ''TrafPolSetAllowedDevices'',
      ''TrafPolSetAllowedHosts'', ''TrafPolSetAllowedPorts'', ''TrafPolCleanup'',
      ''VPNSetupSetup'', ''VPNSetupTeardown'', ''VPNSetupSetExcludes'',
      ''VPNSetupSetDNS'', ''VPNSetupGetDNS'', ''VPNSetupCleanup'']"

text \<open>Checking the entries in their order: a null entry panics.\<close>

fun check_entries :: "list_entry list \<Rightarrow> bool outcome" where
  "check_entries [] = Returns True"
| "check_entries (None # es) = Panics"
| "check_entries (Some (name, cs) # es) =
     (if name \<in> set list_names then check_entries es else Returns False)"

fun put_entry :: "tmpl \<Rightarrow> (string, CommandList) gomap \<Rightarrow> list_entry \<Rightarrow> (string, CommandList) gomap" where
  "put_entry t m None = m"
| "put_entry t m (Some (name, cs)) =
     gm_put name \<lparr>cl_Name = name, cl_Commands = cs, cl_template = t\<rparr> m"

definition LoadCommandLists ::
  "(string \<Rightarrow> string option) \<Rightarrow> (string \<Rightarrow> list_entry list option) \<Rightarrow> string \<Rightarrow> cmdtmpl \<Rightarrow>
     (bool \<times> cmdtmpl) outcome" where
  "LoadCommandLists readFile unmarshal file s =
     (case readFile file of None \<Rightarrow> Returns (False, s)
      | Some f \<Rightarrow>
        (case unmarshal f of None \<Rightarrow> Returns (False, s)
         | Some entries \<Rightarrow>
             map_outcome
               (\<lambda>ok. if ok
                 then (True, s\<lparr>ct_CommandLists :=
                   foldl (put_entry (ct_defaultTemplate s)) (ct_CommandLists s) entries\<rparr>)
                 else (False, s))
               (check_entries entries)))"

section \<open>Commands\<close>

record Cmd =
  cmd_Cmd :: string
  cmd_Args :: "string list"
  cmd_Stdin :: string

text \<open>Running a command is \<^verbatim>\<open>RunCmd\<close>, a variable of the package and the argument here.\<close>

definition Cmd_Run :: "(string \<Rightarrow> string \<Rightarrow> string list \<Rightarrow> 'r) \<Rightarrow> Cmd \<Rightarrow> 'r" where
  "Cmd_Run runCmd c = runCmd (cmd_Cmd c) (cmd_Stdin c) (cmd_Args c)"

definition getCommandList :: "cmdtmpl \<Rightarrow> string \<Rightarrow> CommandList option" where
  "getCommandList s name = gm_get (ct_CommandLists s) name"

datatype cmd_error = NoCommandList string | LineError tmpl_error | StdinError tmpl_error

text \<open>
  The commands of a list: the first word of a line is the command and the others are its arguments;
  lines without words are left out. A null command panics.
\<close>

fun list_cmds :: "CommandList \<Rightarrow> data \<Rightarrow> Cmd list \<Rightarrow> Command option list \<Rightarrow> (cmd_error + Cmd list) outcome" where
  "list_cmds cl v commands [] = Returns (Inr commands)"
| "list_cmds cl v commands (None # cs) = Panics"
| "list_cmds cl v commands (Some c # cs) =
     (case executeTemplate cl (c_Line c) v of Inl e \<Rightarrow> Returns (Inl (LineError e))
      | Inr line \<Rightarrow>
        (case executeTemplate cl (c_Stdin c) v of Inl e \<Rightarrow> Returns (Inl (StdinError e))
         | Inr stdin \<Rightarrow>
           (case Prelude.fields line of
              [] \<Rightarrow> list_cmds cl v commands cs
            | command # args \<Rightarrow>
                list_cmds cl v (commands @ [\<lparr>cmd_Cmd = command, cmd_Args = args, cmd_Stdin = stdin\<rparr>]) cs)))"

definition GetCmds :: "cmdtmpl \<Rightarrow> string \<Rightarrow> data \<Rightarrow> (cmd_error + Cmd list) outcome" where
  "GetCmds s name v =
     (case getCommandList s name of None \<Rightarrow> Returns (Inl (NoCommandList name))
      | Some cl \<Rightarrow> list_cmds cl v [] (cl_Commands cl))"

section \<open>The configuration as data\<close>

text \<open>
  The sections of the configuration that describe the executables, the device, the routing and the
  VPN. The other sections (sockets, captive portal detection, trusted networks, the login) are not
  part of the data; no default template names them.
\<close>

fun opt_data :: "('a \<Rightarrow> data) \<Rightarrow> 'a option \<Rightarrow> data" where
  "opt_data f None = DNil"
| "opt_data f (Some x) = f x"

definition list_data :: "('a \<Rightarrow> data) \<Rightarrow> 'a list \<Rightarrow> data" where
  "list_data f xs = DList (map f xs)"

definition DNSProxyConfig_data :: "DNSProxyConfig \<Rightarrow> data" where
  "DNSProxyConfig_data c = DStruct
     [(''Address'', DStr (dp_Address c)),
      (''ListenUDP'', DBool (dp_ListenUDP c)),
      (''ListenTCP'', DBool (dp_ListenTCP c))]"

definition OpenConnect_data :: "OpenConnect \<Rightarrow> data" where
  "OpenConnect_data c = DStruct
     [(''OpenConnect'', DStr (oc_OpenConnect c)),
      (''XMLProfile'', DStr (oc_XMLProfile c)),
      (''VPNCScript'', DStr (oc_VPNCScript c)),
      (''VPNDevice'', DStr (oc_VPNDevice c)),
      (''PIDFile'', DStr (oc_PIDFile c)),
      (''PIDOwner'', DStr (oc_PIDOwner c)),
      (''PIDGroup'', DStr (oc_PIDGroup c)),
      (''PIDPermissions'', DStr (oc_PIDPermissions c)),
      (''NoProxy'', DBool (oc_NoProxy c)),
      (''ExtraEnv'', list_data DStr (slice_list (oc_ExtraEnv c))),
      (''ExtraArgs'', list_data DStr (slice_list (oc_ExtraArgs c)))]"

definition Executables_data :: "Executables \<Rightarrow> data" where
  "Executables_data c = DStruct
     [(''IP'', DStr (exe_IP c)),
      (''Nft'', DStr (exe_Nft c)),
      (''Resolvectl'', DStr (exe_Resolvectl c)),
      (''Sysctl'', DStr (exe_Sysctl c))]"

definition SplitRoutingConfig_data :: "SplitRoutingConfig \<Rightarrow> data" where
  "SplitRoutingConfig_data c = DStruct
     [(''RoutingTable'', DStr (sr_RoutingTable c)),
      (''RulePriority1'', DStr (sr_RulePriority1 c)),
      (''RulePriority2'', DStr (sr_RulePriority2 c)),
      (''FirewallMark'', DStr (sr_FirewallMark c))]"

definition VPNDevice_data :: "VPNDevice \<Rightarrow> data" where
  "VPNDevice_data d = DStruct [(''Name'', DStr (vd_Name d)), (''MTU'', DInt (vd_MTU d))]"

definition VPNConfig_data :: "VPNConfig \<Rightarrow> data" where
  "VPNConfig_data c = DStruct
     [(''Gateway'', DAddr (vpn_Gateway c)),
      (''PID'', DInt (vpn_PID c)),
      (''Timeout'', DInt (vpn_Timeout c)),
      (''Device'', VPNDevice_data (vpn_Device c)),
      (''IPv4'', DPrefix (vpn_IPv4 c)),
      (''IPv6'', DPrefix (vpn_IPv6 c)),
      (''DNS'', DStruct
        [(''DefaultDomain'', DStr (vn_DefaultDomain (vpn_DNS c))),
         (''ServersIPv4'', list_data DAddr (slice_list (vn_ServersIPv4 (vpn_DNS c)))),
         (''ServersIPv6'', list_data DAddr (slice_list (vn_ServersIPv6 (vpn_DNS c))))]),
      (''Split'', DStruct
        [(''ExcludeIPv4'', list_data DPrefix (slice_list (vs_ExcludeIPv4 (vpn_Split c)))),
         (''ExcludeIPv6'', list_data DPrefix (slice_list (vs_ExcludeIPv6 (vpn_Split c)))),
         (''ExcludeDNS'', list_data DStr (slice_list (vs_ExcludeDNS (vpn_Split c)))),
         (''ExcludeVirtualSubnetsOnlyIPv4'', DBool (vs_ExcludeVirtualSubnetsOnlyIPv4 (vpn_Split c)))]),
      (''Flags'', DStruct
        [(''DisableAlwaysOnVPN'', DBool (vf_DisableAlwaysOnVPN (vpn_Flags c)))])]"

definition config_fields :: "'t Config \<Rightarrow> (string \<times> data) list" where
  "config_fields c =
     [(''Config'', DStr (cfg_Config c)),
      (''Verbose'', DBool (cfg_Verbose c)),
      (''DNSProxy'', opt_data DNSProxyConfig_data (cfg_DNSProxy c)),
      (''OpenConnect'', opt_data OpenConnect_data (cfg_OpenConnect c)),
      (''Executables'', opt_data Executables_data (cfg_Executables c)),
      (''SplitRouting'', opt_data SplitRoutingConfig_data (cfg_SplitRouting c)),
      (''VPNConfig'', opt_data VPNConfig_data (cfg_VPNConfig c))]"

definition config_data :: "'t Config \<Rightarrow> data" where
  "config_data c = DStruct (config_fields c)"

text \<open>The structs of \<^verbatim>\<open>filter.go\<close> and \<^verbatim>\<open>handlePrefixes\<close>: the configuration, embedded, and a slice.\<close>

definition config_data_with :: "string \<Rightarrow> data \<Rightarrow> 't Config \<Rightarrow> data" where
  "config_data_with name v c =
     DStruct ((''Config'', config_data c) # (name, v) # config_fields c)"

definition devices_data :: "'t Config \<Rightarrow> string list \<Rightarrow> data" where
  "devices_data c devices = config_data_with ''Devices'' (list_data DStr devices) c"

definition allowedIPs_data :: "'t Config \<Rightarrow> prefix list \<Rightarrow> data" where
  "allowedIPs_data c ips = config_data_with ''AllowedIPs'' (list_data DPrefix ips) c"

definition ports_data :: "'t Config \<Rightarrow> u16 list \<Rightarrow> data" where
  "ports_data c ports = config_data_with ''Ports'' (list_data (\<lambda>p. DInt (uint p)) ports) c"

definition addresses_data :: "'t Config \<Rightarrow> prefix list \<Rightarrow> data" where
  "addresses_data c prefixes = config_data_with ''Addresses'' (list_data DPrefix prefixes) c"

section \<open>Command lists of the components\<close>

text \<open>
  The calls of \<^verbatim>\<open>GetCmds\<close> of the traffic policing and of the VPN setup. An effect of the VPN
  setup is applied with the configuration it was made for.
\<close>

fun tp_cmds :: "cmdtmpl \<Rightarrow> 't Config \<Rightarrow> tp_effect \<Rightarrow> (cmd_error + Cmd list) outcome" where
  "tp_cmds s c SetFilterRules = GetCmds s ''TrafPolSetFilterRules'' (config_data c)"
| "tp_cmds s c UnsetFilterRules = GetCmds s ''TrafPolUnsetFilterRules'' (config_data c)"
| "tp_cmds s c (SetAllowedDevices devices) = GetCmds s ''TrafPolSetAllowedDevices'' (devices_data c devices)"
| "tp_cmds s c (SetAllowedIPs ips) = GetCmds s ''TrafPolSetAllowedHosts'' (allowedIPs_data c ips)"
| "tp_cmds s c (SetAllowedPorts ports) = GetCmds s ''TrafPolSetAllowedPorts'' (ports_data c ports)"
| "tp_cmds s c CleanupFilterRules = GetCmds s ''TrafPolCleanup'' (config_data c)"
| "tp_cmds s c ResolveNames = Returns (Inr [])"
| "tp_cmds s c TriggerProbe = Returns (Inr [])"

fun vpn_cmds :: "cmdtmpl \<Rightarrow> 't Config \<Rightarrow> vpn_effect \<Rightarrow> (cmd_error + Cmd list) outcome" where
  "vpn_cmds s c (VPNSetupSetup vpn server) = GetCmds s ''VPNSetupSetup'' (config_data c)"
| "vpn_cmds s c VPNSetupTeardown = GetCmds s ''VPNSetupTeardown'' (config_data c)"
| "vpn_cmds s c (VPNSetupSetExcludes prefixes) = GetCmds s ''VPNSetupSetExcludes'' (addresses_data c prefixes)"
| "vpn_cmds s c (VPNSetupSetDNS vpn server) = GetCmds s ''VPNSetupSetDNS'' (config_data c)"
| "vpn_cmds s c VPNSetupCleanup = GetCmds s ''VPNSetupCleanup'' (config_data c)"

text \<open>Running the commands on the state of the system: nothing is run after an error of \<^verbatim>\<open>GetCmds\<close>.\<close>

definition run_cmds ::
  "(string \<Rightarrow> string \<Rightarrow> string list \<Rightarrow> 'st \<Rightarrow> 'st) \<Rightarrow> cmd_error + Cmd list \<Rightarrow> 'st \<Rightarrow> 'st" where
  "run_cmds runCmd r st =
     (case r of Inl e \<Rightarrow> st | Inr cmds \<Rightarrow> foldl (\<lambda>st c. Cmd_Run runCmd c st) st cmds)"

end
