(* ===== verification/JsonTypes.thy ===== *)
theory JsonTypes
  imports JsonLaws DaemonCfg VPNStatus CmdTmpl
begin

text \<open>
  More types as JSON: the daemon's configuration (\<^verbatim>\<open>Config.String\<close> and what \<^verbatim>\<open>Config.Load\<close> decodes), the
  VPN status (\<^verbatim>\<open>Status.JSON\<close>) and the entries of command lists. A file with a configuration only
  changes what it mentions; the configuration that a daemon prints is read back as it was.
\<close>

section \<open>Sections of the daemon's configuration\<close>

text \<open>A section that was null is decoded into a new struct of zero values.\<close>

definition SocketServer_zero :: SocketServer where
  "SocketServer_zero =
     \<lparr>ss_SocketFile = '''',
      ss_SocketOwner = '''',
      ss_SocketGroup = '''',
      ss_SocketPermissions = '''',
      ss_RequestTimeout = 0\<rparr>"

definition enc_SocketServer :: "SocketServer enc" where
  "enc_SocketServer c = enc_struct
     [(''SocketFile'', enc_string (ss_SocketFile c)),
      (''SocketOwner'', enc_string (ss_SocketOwner c)),
      (''SocketGroup'', enc_string (ss_SocketGroup c)),
      (''SocketPermissions'', enc_string (ss_SocketPermissions c)),
      (''RequestTimeout'', enc_int (ss_RequestTimeout c))]"

definition dec_SocketServer :: "SocketServer dec" where
  "dec_SocketServer = dec_struct
     [(''SocketFile'', at_field ss_SocketFile ss_SocketFile_update dec_string),
      (''SocketOwner'', at_field ss_SocketOwner ss_SocketOwner_update dec_string),
      (''SocketGroup'', at_field ss_SocketGroup ss_SocketGroup_update dec_string),
      (''SocketPermissions'', at_field ss_SocketPermissions ss_SocketPermissions_update dec_string),
      (''RequestTimeout'', at_field ss_RequestTimeout ss_RequestTimeout_update dec_int)]"

definition CPDConfig_zero :: CPDConfig where
  "CPDConfig_zero =
     \<lparr>cpd_Host = '''',
      cpd_HTTPTimeout = 0,
      cpd_ProbeCount = 0,
      cpd_ProbeWait = 0,
      cpd_ProbeTimer = 0,
      cpd_ProbeTimerDetected = 0,
      cpd_SetFirewallMark = False\<rparr>"

definition enc_CPDConfig :: "CPDConfig enc" where
  "enc_CPDConfig c = enc_struct
     [(''Host'', enc_string (cpd_Host c)),
      (''HTTPTimeout'', enc_int (cpd_HTTPTimeout c)),
      (''ProbeCount'', enc_int (cpd_ProbeCount c)),
      (''ProbeWait'', enc_int (cpd_ProbeWait c)),
      (''ProbeTimer'', enc_int (cpd_ProbeTimer c)),
      (''ProbeTimerDetected'', enc_int (cpd_ProbeTimerDetected c)),
      (''SetFirewallMark'', enc_bool (cpd_SetFirewallMark c))]"

definition dec_CPDConfig :: "CPDConfig dec" where
  "dec_CPDConfig = dec_struct
     [(''Host'', at_field cpd_Host cpd_Host_update dec_string),
      (''HTTPTimeout'', at_field cpd_HTTPTimeout cpd_HTTPTimeout_update dec_int),
      (''ProbeCount'', at_field cpd_ProbeCount cpd_ProbeCount_update dec_int),
      (''ProbeWait'', at_field cpd_ProbeWait cpd_ProbeWait_update dec_int),
      (''ProbeTimer'', at_field cpd_ProbeTimer cpd_ProbeTimer_update dec_int),
      (''ProbeTimerDetected'', at_field cpd_ProbeTimerDetected cpd_ProbeTimerDetected_update dec_int),
      (''SetFirewallMark'', at_field cpd_SetFirewallMark cpd_SetFirewallMark_update dec_bool)]"

definition DNSProxyConfig_zero :: DNSProxyConfig where
  "DNSProxyConfig_zero =
     \<lparr>dp_Address = '''',
      dp_ListenUDP = False,
      dp_ListenTCP = False\<rparr>"

definition enc_DNSProxyConfig :: "DNSProxyConfig enc" where
  "enc_DNSProxyConfig c = enc_struct
     [(''Address'', enc_string (dp_Address c)),
      (''ListenUDP'', enc_bool (dp_ListenUDP c)),
      (''ListenTCP'', enc_bool (dp_ListenTCP c))]"

definition dec_DNSProxyConfig :: "DNSProxyConfig dec" where
  "dec_DNSProxyConfig = dec_struct
     [(''Address'', at_field dp_Address dp_Address_update dec_string),
      (''ListenUDP'', at_field dp_ListenUDP dp_ListenUDP_update dec_bool),
      (''ListenTCP'', at_field dp_ListenTCP dp_ListenTCP_update dec_bool)]"

definition OpenConnect_zero :: OpenConnect where
  "OpenConnect_zero =
     \<lparr>oc_OpenConnect = '''',
      oc_XMLProfile = '''',
      oc_VPNCScript = '''',
      oc_VPNDevice = '''',
      oc_PIDFile = '''',
      oc_PIDOwner = '''',
      oc_PIDGroup = '''',
      oc_PIDPermissions = '''',
      oc_NoProxy = False,
      oc_ExtraEnv = None,
      oc_ExtraArgs = None\<rparr>"

definition enc_OpenConnect :: "OpenConnect enc" where
  "enc_OpenConnect c = enc_struct
     [(''OpenConnect'', enc_string (oc_OpenConnect c)),
      (''XMLProfile'', enc_string (oc_XMLProfile c)),
      (''VPNCScript'', enc_string (oc_VPNCScript c)),
      (''VPNDevice'', enc_string (oc_VPNDevice c)),
      (''PIDFile'', enc_string (oc_PIDFile c)),
      (''PIDOwner'', enc_string (oc_PIDOwner c)),
      (''PIDGroup'', enc_string (oc_PIDGroup c)),
      (''PIDPermissions'', enc_string (oc_PIDPermissions c)),
      (''NoProxy'', enc_bool (oc_NoProxy c)),
      (''ExtraEnv'', (enc_slice enc_string) (oc_ExtraEnv c)),
      (''ExtraArgs'', (enc_slice enc_string) (oc_ExtraArgs c))]"

definition dec_OpenConnect :: "OpenConnect dec" where
  "dec_OpenConnect = dec_struct
     [(''OpenConnect'', at_field oc_OpenConnect oc_OpenConnect_update dec_string),
      (''XMLProfile'', at_field oc_XMLProfile oc_XMLProfile_update dec_string),
      (''VPNCScript'', at_field oc_VPNCScript oc_VPNCScript_update dec_string),
      (''VPNDevice'', at_field oc_VPNDevice oc_VPNDevice_update dec_string),
      (''PIDFile'', at_field oc_PIDFile oc_PIDFile_update dec_string),
      (''PIDOwner'', at_field oc_PIDOwner oc_PIDOwner_update dec_string),
      (''PIDGroup'', at_field oc_PIDGroup oc_PIDGroup_update dec_string),
      (''PIDPermissions'', at_field oc_PIDPermissions oc_PIDPermissions_update dec_string),
      (''NoProxy'', at_field oc_NoProxy oc_NoProxy_update dec_bool),
      (''ExtraEnv'', at_field oc_ExtraEnv oc_ExtraEnv_update (dec_slice dec_string '''')),
      (''ExtraArgs'', at_field oc_ExtraArgs oc_ExtraArgs_update (dec_slice dec_string ''''))]"

definition Executables_zero :: Executables where
  "Executables_zero =
     \<lparr>exe_IP = '''',
      exe_Nft = '''',
      exe_Resolvectl = '''',
      exe_Sysctl = ''''\<rparr>"

definition enc_Executables :: "Executables enc" where
  "enc_Executables c = enc_struct
     [(''IP'', enc_string (exe_IP c)),
      (''Nft'', enc_string (exe_Nft c)),
      (''Resolvectl'', enc_string (exe_Resolvectl c)),
      (''Sysctl'', enc_string (exe_Sysctl c))]"

definition dec_Executables :: "Executables dec" where
  "dec_Executables = dec_struct
     [(''IP'', at_field exe_IP exe_IP_update dec_string),
      (''Nft'', at_field exe_Nft exe_Nft_update dec_string),
      (''Resolvectl'', at_field exe_Resolvectl exe_Resolvectl_update dec_string),
      (''Sysctl'', at_field exe_Sysctl exe_Sysctl_update dec_string)]"

definition SplitRoutingConfig_zero :: SplitRoutingConfig where
  "SplitRoutingConfig_zero =
     \<lparr>sr_RoutingTable = '''',
      sr_RulePriority1 = '''',
      sr_RulePriority2 = '''',
      sr_FirewallMark = ''''\<rparr>"

definition enc_SplitRoutingConfig :: "SplitRoutingConfig enc" where
  "enc_SplitRoutingConfig c = enc_struct
     [(''RoutingTable'', enc_string (sr_RoutingTable c)),
      (''RulePriority1'', enc_string (sr_RulePriority1 c)),
      (''RulePriority2'', enc_string (sr_RulePriority2 c)),
      (''FirewallMark'', enc_string (sr_FirewallMark c))]"

definition dec_SplitRoutingConfig :: "SplitRoutingConfig dec" where
  "dec_SplitRoutingConfig = dec_struct
     [(''RoutingTable'', at_field sr_RoutingTable sr_RoutingTable_update dec_string),
      (''RulePriority1'', at_field sr_RulePriority1 sr_RulePriority1_update dec_string),
      (''RulePriority2'', at_field sr_RulePriority2 sr_RulePriority2_update dec_string),
      (''FirewallMark'', at_field sr_FirewallMark sr_FirewallMark_update dec_string)]"

definition TrafficPolicing_zero :: TrafficPolicing where
  "TrafficPolicing_zero =
     \<lparr>tp_AllowedHosts = None,
      tp_PortalPorts = None,
      tp_ResolveTimeout = 0,
      tp_ResolveTries = 0,
      tp_ResolveTriesSleep = 0,
      tp_ResolveTimer = 0,
      tp_ResolveTTL = 0\<rparr>"

definition enc_TrafficPolicing :: "TrafficPolicing enc" where
  "enc_TrafficPolicing c = enc_struct
     [(''AllowedHosts'', (enc_slice enc_string) (tp_AllowedHosts c)),
      (''PortalPorts'', (enc_slice enc_uint) (tp_PortalPorts c)),
      (''ResolveTimeout'', enc_int (tp_ResolveTimeout c)),
      (''ResolveTries'', enc_int (tp_ResolveTries c)),
      (''ResolveTriesSleep'', enc_int (tp_ResolveTriesSleep c)),
      (''ResolveTimer'', enc_int (tp_ResolveTimer c)),
      (''ResolveTTL'', enc_int (tp_ResolveTTL c))]"

definition dec_TrafficPolicing :: "TrafficPolicing dec" where
  "dec_TrafficPolicing = dec_struct
     [(''AllowedHosts'', at_field tp_AllowedHosts tp_AllowedHosts_update (dec_slice dec_string '''')),
      (''PortalPorts'', at_field tp_PortalPorts tp_PortalPorts_update (dec_slice dec_uint 0)),
      (''ResolveTimeout'', at_field tp_ResolveTimeout tp_ResolveTimeout_update dec_int),
      (''ResolveTries'', at_field tp_ResolveTries tp_ResolveTries_update dec_int),
      (''ResolveTriesSleep'', at_field tp_ResolveTriesSleep tp_ResolveTriesSleep_update dec_int),
      (''ResolveTimer'', at_field tp_ResolveTimer tp_ResolveTimer_update dec_int),
      (''ResolveTTL'', at_field tp_ResolveTTL tp_ResolveTTL_update dec_int)]"

definition CommandListsConfig_zero :: CommandListsConfig where
  "CommandListsConfig_zero =
     \<lparr>cl_ListsFile = '''',
      cl_TemplatesFile = ''''\<rparr>"

definition enc_CommandListsConfig :: "CommandListsConfig enc" where
  "enc_CommandListsConfig c = enc_struct
     [(''ListsFile'', enc_string (cl_ListsFile c)),
      (''TemplatesFile'', enc_string (cl_TemplatesFile c))]"

definition dec_CommandListsConfig :: "CommandListsConfig dec" where
  "dec_CommandListsConfig = dec_struct
     [(''ListsFile'', at_field cl_ListsFile cl_ListsFile_update dec_string),
      (''TemplatesFile'', at_field cl_TemplatesFile cl_TemplatesFile_update dec_string)]"

section \<open>The daemon's configuration\<close>

text \<open>
  The configuration of the trusted network detection belongs to a library: its encoder and decoder and its
  zero value are arguments. The name of the file, the login information and the VPN configuration are
  left out.
\<close>

definition enc_daemon_Config :: "'t enc \<Rightarrow> 't Config enc" where
  "enc_daemon_Config enc_tnd c = enc_struct
     [(''Verbose'', enc_bool (cfg_Verbose c)),
      (''SocketServer'', enc_ptr enc_SocketServer (cfg_SocketServer c)),
      (''CPD'', enc_ptr enc_CPDConfig (cfg_CPD c)),
      (''DNSProxy'', enc_ptr enc_DNSProxyConfig (cfg_DNSProxy c)),
      (''OpenConnect'', enc_ptr enc_OpenConnect (cfg_OpenConnect c)),
      (''Executables'', enc_ptr enc_Executables (cfg_Executables c)),
      (''SplitRouting'', enc_ptr enc_SplitRoutingConfig (cfg_SplitRouting c)),
      (''TrafficPolicing'', enc_ptr enc_TrafficPolicing (cfg_TrafficPolicing c)),
      (''TND'', enc_ptr enc_tnd (cfg_TND c)),
      (''CommandLists'', enc_ptr enc_CommandListsConfig (cfg_CommandLists c))]"

definition dec_daemon_Config :: "'t dec \<Rightarrow> 't \<Rightarrow> 't Config dec" where
  "dec_daemon_Config dec_tnd tnd_zero = dec_struct
     [(''Verbose'', at_field cfg_Verbose cfg_Verbose_update dec_bool),
      (''SocketServer'', at_field cfg_SocketServer cfg_SocketServer_update (dec_ptr dec_SocketServer SocketServer_zero)),
      (''CPD'', at_field cfg_CPD cfg_CPD_update (dec_ptr dec_CPDConfig CPDConfig_zero)),
      (''DNSProxy'', at_field cfg_DNSProxy cfg_DNSProxy_update (dec_ptr dec_DNSProxyConfig DNSProxyConfig_zero)),
      (''OpenConnect'', at_field cfg_OpenConnect cfg_OpenConnect_update (dec_ptr dec_OpenConnect OpenConnect_zero)),
      (''Executables'', at_field cfg_Executables cfg_Executables_update (dec_ptr dec_Executables Executables_zero)),
      (''SplitRouting'', at_field cfg_SplitRouting cfg_SplitRouting_update
         (dec_ptr dec_SplitRoutingConfig SplitRoutingConfig_zero)),
      (''TrafficPolicing'', at_field cfg_TrafficPolicing cfg_TrafficPolicing_update
         (dec_ptr dec_TrafficPolicing TrafficPolicing_zero)),
      (''TND'', at_field cfg_TND cfg_TND_update (dec_ptr dec_tnd tnd_zero)),
      (''CommandLists'', at_field cfg_CommandLists cfg_CommandLists_update
         (dec_ptr dec_CommandListsConfig CommandListsConfig_zero))]"

definition Config_String :: "'t enc \<Rightarrow> 't Config \<Rightarrow> string" where
  "Config_String enc_tnd c = (case Marshal (enc_daemon_Config enc_tnd) c of None \<Rightarrow> '''' | Some b \<Rightarrow> b)"

section \<open>The VPN status\<close>

definition enc_num :: "nat \<Rightarrow> json option" where
  "enc_num n = Some (JNum (show_dec n))"

fun TrustedNetwork_num :: "TrustedNetwork \<Rightarrow> nat" where
  "TrustedNetwork_num TrustedNetworkUnknown = 0"
| "TrustedNetwork_num TrustedNetworkNotTrusted = 1"
| "TrustedNetwork_num TrustedNetworkTrusted = 2"

fun ConnectionState_num :: "ConnectionState \<Rightarrow> nat" where
  "ConnectionState_num ConnectionStateUnknown = 0"
| "ConnectionState_num ConnectionStateDisconnected = 1"
| "ConnectionState_num ConnectionStateConnecting = 2"
| "ConnectionState_num ConnectionStateConnected = 3"
| "ConnectionState_num ConnectionStateDisconnecting = 4"

fun OCRunning_num :: "OCRunning \<Rightarrow> nat" where
  "OCRunning_num OCRunningUnknown = 0"
| "OCRunning_num OCRunningNotRunning = 1"
| "OCRunning_num OCRunningRunning = 2"

fun TrafPolState_num :: "TrafPolState \<Rightarrow> nat" where
  "TrafPolState_num TrafPolStateUnknown = 0"
| "TrafPolState_num TrafPolStateInactive = 1"
| "TrafPolState_num TrafPolStateActive = 2"
| "TrafPolState_num TrafPolStateDisabled = 3"

fun CaptivePortal_num :: "CaptivePortal \<Rightarrow> nat" where
  "CaptivePortal_num CaptivePortalUnknown = 0"
| "CaptivePortal_num CaptivePortalNotDetected = 1"
| "CaptivePortal_num CaptivePortalDetected = 2"

fun TNDState_num :: "TNDState \<Rightarrow> nat" where
  "TNDState_num TNDStateUnknown = 0"
| "TNDState_num TNDStateInactive = 1"
| "TNDState_num TNDStateActive = 2"

definition enc_Status :: "Status enc" where
  "enc_Status s = enc_struct
     [(''TrustedNetwork'', enc_num (TrustedNetwork_num (st_TrustedNetwork s))),
      (''ConnectionState'', enc_num (ConnectionState_num (st_ConnectionState s))),
      (''IP'', enc_string (st_IP s)),
      (''Device'', enc_string (st_Device s)),
      (''Server'', enc_string (st_Server s)),
      (''ServerIP'', enc_string (st_ServerIP s)),
      (''ConnectedAt'', enc_int (st_ConnectedAt s)),
      (''Servers'', enc_slice enc_string (st_Servers s)),
      (''OCRunning'', enc_num (OCRunning_num (st_OCRunning s))),
      (''OCPID'', enc_uint (st_OCPID s)),
      (''TrafPolState'', enc_num (TrafPolState_num (st_TrafPolState s))),
      (''AllowedHosts'', enc_slice enc_string (st_AllowedHosts s)),
      (''CaptivePortal'', enc_num (CaptivePortal_num (st_CaptivePortal s))),
      (''TNDState'', enc_num (TNDState_num (st_TNDState s))),
      (''TNDServers'', enc_slice enc_string (st_TNDServers s)),
      (''VPNConfig'', enc_ptr enc_vc_Config (st_VPNConfig s))]"

definition Status_JSON :: "Status \<Rightarrow> string option" where
  "Status_JSON s = Marshal enc_Status s"

section \<open>Entries of command lists\<close>

text \<open>An entry with its commands as texts, and with the templates they parse to.\<close>

record command_decl =
  cd_Line :: string
  cd_Stdin :: string

record list_decl =
  ld_Name :: string
  ld_Commands :: "command_decl option slice"

definition dec_command_decl :: "command_decl dec" where
  "dec_command_decl = dec_struct
     [(''Line'', at_field cd_Line cd_Line_update dec_string),
      (''Stdin'', at_field cd_Stdin cd_Stdin_update dec_string)]"

definition dec_list_decl :: "list_decl dec" where
  "dec_list_decl = dec_struct
     [(''Name'', at_field ld_Name ld_Name_update dec_string),
      (''Commands'', at_field ld_Commands ld_Commands_update
         (dec_slice (dec_ptr dec_command_decl \<lparr>cd_Line = '''', cd_Stdin = ''''\<rparr>) None))]"

definition command_of :: "(string \<Rightarrow> tmpl option) \<Rightarrow> command_decl \<Rightarrow> Command" where
  "command_of parse c = \<lparr>c_Line = parse (cd_Line c), c_Stdin = parse (cd_Stdin c)\<rparr>"

definition entry_of :: "(string \<Rightarrow> tmpl option) \<Rightarrow> list_decl \<Rightarrow> string \<times> Command option list" where
  "entry_of parse l = (ld_Name l, map (map_option (command_of parse)) (slice_list (ld_Commands l)))"

definition UnmarshalLists :: "(string \<Rightarrow> tmpl option) \<Rightarrow> string \<Rightarrow> list_entry list option" where
  "UnmarshalLists parse b =
     map_option (\<lambda>s. map (map_option (entry_of parse)) (slice_list s))
       (from_JSON (dec_slice (dec_ptr dec_list_decl \<lparr>ld_Name = '''', ld_Commands = None\<rparr>) None) (Some []) b)"

section \<open>Laws\<close>

lemma codec_uints: "codec (enc_slice enc_uint) (dec_slice dec_uint zero) (\<lambda>_. True) (id :: 'a::len word slice \<Rightarrow> _)"
  using codec.slice [OF codec_uint, of zero] by (simp add: list.map_id0 option.map_id0 codec_def list_all_iff)

lemmas list_members = struct_member_law [OF codec_strings] struct_member_law [OF codec_uints]

definition ok_SocketServer :: "SocketServer \<Rightarrow> bool" where
  "ok_SocketServer c \<longleftrightarrow> valid_utf8 (ss_SocketFile c) \<and>
     valid_utf8 (ss_SocketOwner c) \<and>
     valid_utf8 (ss_SocketGroup c) \<and>
     valid_utf8 (ss_SocketPermissions c) \<and>
     is_int64 (ss_RequestTimeout c)"

lemma codec_SocketServer: "codec enc_SocketServer dec_SocketServer ok_SocketServer id"
  by (rule codec_struct [where fs =
      "[struct_member ''SocketFile'' ss_SocketFile ss_SocketFile_update enc_string dec_string id,
        struct_member ''SocketOwner'' ss_SocketOwner ss_SocketOwner_update enc_string dec_string id,
        struct_member ''SocketGroup'' ss_SocketGroup ss_SocketGroup_update enc_string dec_string id,
        struct_member ''SocketPermissions'' ss_SocketPermissions ss_SocketPermissions_update enc_string dec_string id,
        struct_member ''RequestTimeout'' ss_RequestTimeout ss_RequestTimeout_update enc_int dec_int id]"])
    (simp_all add: enc_SocketServer_def dec_SocketServer_def ok_SocketServer_def basic_members list_members, simp_all add: struct_member_def)

definition ok_CPDConfig :: "CPDConfig \<Rightarrow> bool" where
  "ok_CPDConfig c \<longleftrightarrow> valid_utf8 (cpd_Host c) \<and>
     is_int64 (cpd_HTTPTimeout c) \<and>
     is_int64 (cpd_ProbeCount c) \<and>
     is_int64 (cpd_ProbeWait c) \<and>
     is_int64 (cpd_ProbeTimer c) \<and>
     is_int64 (cpd_ProbeTimerDetected c)"

lemma codec_CPDConfig: "codec enc_CPDConfig dec_CPDConfig ok_CPDConfig id"
  by (rule codec_struct [where fs =
      "[struct_member ''Host'' cpd_Host cpd_Host_update enc_string dec_string id,
        struct_member ''HTTPTimeout'' cpd_HTTPTimeout cpd_HTTPTimeout_update enc_int dec_int id,
        struct_member ''ProbeCount'' cpd_ProbeCount cpd_ProbeCount_update enc_int dec_int id,
        struct_member ''ProbeWait'' cpd_ProbeWait cpd_ProbeWait_update enc_int dec_int id,
        struct_member ''ProbeTimer'' cpd_ProbeTimer cpd_ProbeTimer_update enc_int dec_int id,
        struct_member ''ProbeTimerDetected'' cpd_ProbeTimerDetected cpd_ProbeTimerDetected_update enc_int dec_int id,
        struct_member ''SetFirewallMark'' cpd_SetFirewallMark cpd_SetFirewallMark_update enc_bool dec_bool id]"])
    (simp_all add: enc_CPDConfig_def dec_CPDConfig_def ok_CPDConfig_def basic_members list_members, simp_all add: struct_member_def)

definition ok_DNSProxyConfig :: "DNSProxyConfig \<Rightarrow> bool" where
  "ok_DNSProxyConfig c \<longleftrightarrow> valid_utf8 (dp_Address c)"

lemma codec_DNSProxyConfig: "codec enc_DNSProxyConfig dec_DNSProxyConfig ok_DNSProxyConfig id"
  by (rule codec_struct [where fs =
      "[struct_member ''Address'' dp_Address dp_Address_update enc_string dec_string id,
        struct_member ''ListenUDP'' dp_ListenUDP dp_ListenUDP_update enc_bool dec_bool id,
        struct_member ''ListenTCP'' dp_ListenTCP dp_ListenTCP_update enc_bool dec_bool id]"])
    (simp_all add: enc_DNSProxyConfig_def dec_DNSProxyConfig_def ok_DNSProxyConfig_def basic_members list_members, simp_all add: struct_member_def)

definition ok_OpenConnect :: "OpenConnect \<Rightarrow> bool" where
  "ok_OpenConnect c \<longleftrightarrow> valid_utf8 (oc_OpenConnect c) \<and>
     valid_utf8 (oc_XMLProfile c) \<and>
     valid_utf8 (oc_VPNCScript c) \<and>
     valid_utf8 (oc_VPNDevice c) \<and>
     valid_utf8 (oc_PIDFile c) \<and>
     valid_utf8 (oc_PIDOwner c) \<and>
     valid_utf8 (oc_PIDGroup c) \<and>
     valid_utf8 (oc_PIDPermissions c) \<and>
     list_all valid_utf8 (slice_list (oc_ExtraEnv c)) \<and>
     list_all valid_utf8 (slice_list (oc_ExtraArgs c))"

lemma codec_OpenConnect: "codec enc_OpenConnect dec_OpenConnect ok_OpenConnect id"
  by (rule codec_struct [where fs =
      "[struct_member ''OpenConnect'' oc_OpenConnect oc_OpenConnect_update enc_string dec_string id,
        struct_member ''XMLProfile'' oc_XMLProfile oc_XMLProfile_update enc_string dec_string id,
        struct_member ''VPNCScript'' oc_VPNCScript oc_VPNCScript_update enc_string dec_string id,
        struct_member ''VPNDevice'' oc_VPNDevice oc_VPNDevice_update enc_string dec_string id,
        struct_member ''PIDFile'' oc_PIDFile oc_PIDFile_update enc_string dec_string id,
        struct_member ''PIDOwner'' oc_PIDOwner oc_PIDOwner_update enc_string dec_string id,
        struct_member ''PIDGroup'' oc_PIDGroup oc_PIDGroup_update enc_string dec_string id,
        struct_member ''PIDPermissions'' oc_PIDPermissions oc_PIDPermissions_update enc_string dec_string id,
        struct_member ''NoProxy'' oc_NoProxy oc_NoProxy_update enc_bool dec_bool id,
        struct_member ''ExtraEnv'' oc_ExtraEnv oc_ExtraEnv_update (enc_slice enc_string) (dec_slice dec_string '''') id,
        struct_member ''ExtraArgs'' oc_ExtraArgs oc_ExtraArgs_update (enc_slice enc_string) (dec_slice dec_string '''') id]"])
    (simp_all add: enc_OpenConnect_def dec_OpenConnect_def ok_OpenConnect_def basic_members list_members, simp_all add: struct_member_def)

definition ok_Executables :: "Executables \<Rightarrow> bool" where
  "ok_Executables c \<longleftrightarrow> valid_utf8 (exe_IP c) \<and>
     valid_utf8 (exe_Nft c) \<and>
     valid_utf8 (exe_Resolvectl c) \<and>
     valid_utf8 (exe_Sysctl c)"

lemma codec_Executables: "codec enc_Executables dec_Executables ok_Executables id"
  by (rule codec_struct [where fs =
      "[struct_member ''IP'' exe_IP exe_IP_update enc_string dec_string id,
        struct_member ''Nft'' exe_Nft exe_Nft_update enc_string dec_string id,
        struct_member ''Resolvectl'' exe_Resolvectl exe_Resolvectl_update enc_string dec_string id,
        struct_member ''Sysctl'' exe_Sysctl exe_Sysctl_update enc_string dec_string id]"])
    (simp_all add: enc_Executables_def dec_Executables_def ok_Executables_def basic_members list_members, simp_all add: struct_member_def)

definition ok_SplitRoutingConfig :: "SplitRoutingConfig \<Rightarrow> bool" where
  "ok_SplitRoutingConfig c \<longleftrightarrow> valid_utf8 (sr_RoutingTable c) \<and>
     valid_utf8 (sr_RulePriority1 c) \<and>
     valid_utf8 (sr_RulePriority2 c) \<and>
     valid_utf8 (sr_FirewallMark c)"

lemma codec_SplitRoutingConfig: "codec enc_SplitRoutingConfig dec_SplitRoutingConfig ok_SplitRoutingConfig id"
  by (rule codec_struct [where fs =
      "[struct_member ''RoutingTable'' sr_RoutingTable sr_RoutingTable_update enc_string dec_string id,
        struct_member ''RulePriority1'' sr_RulePriority1 sr_RulePriority1_update enc_string dec_string id,
        struct_member ''RulePriority2'' sr_RulePriority2 sr_RulePriority2_update enc_string dec_string id,
        struct_member ''FirewallMark'' sr_FirewallMark sr_FirewallMark_update enc_string dec_string id]"])
    (simp_all add: enc_SplitRoutingConfig_def dec_SplitRoutingConfig_def ok_SplitRoutingConfig_def basic_members list_members, simp_all add: struct_member_def)

definition ok_TrafficPolicing :: "TrafficPolicing \<Rightarrow> bool" where
  "ok_TrafficPolicing c \<longleftrightarrow> list_all valid_utf8 (slice_list (tp_AllowedHosts c)) \<and>
     is_int64 (tp_ResolveTimeout c) \<and>
     is_int64 (tp_ResolveTries c) \<and>
     is_int64 (tp_ResolveTriesSleep c) \<and>
     is_int64 (tp_ResolveTimer c) \<and>
     is_int64 (tp_ResolveTTL c)"

lemma codec_TrafficPolicing: "codec enc_TrafficPolicing dec_TrafficPolicing ok_TrafficPolicing id"
  by (rule codec_struct [where fs =
      "[struct_member ''AllowedHosts'' tp_AllowedHosts tp_AllowedHosts_update (enc_slice enc_string) (dec_slice dec_string '''') id,
        struct_member ''PortalPorts'' tp_PortalPorts tp_PortalPorts_update (enc_slice enc_uint) (dec_slice dec_uint 0) id,
        struct_member ''ResolveTimeout'' tp_ResolveTimeout tp_ResolveTimeout_update enc_int dec_int id,
        struct_member ''ResolveTries'' tp_ResolveTries tp_ResolveTries_update enc_int dec_int id,
        struct_member ''ResolveTriesSleep'' tp_ResolveTriesSleep tp_ResolveTriesSleep_update enc_int dec_int id,
        struct_member ''ResolveTimer'' tp_ResolveTimer tp_ResolveTimer_update enc_int dec_int id,
        struct_member ''ResolveTTL'' tp_ResolveTTL tp_ResolveTTL_update enc_int dec_int id]"])
    (simp_all add: enc_TrafficPolicing_def dec_TrafficPolicing_def ok_TrafficPolicing_def basic_members list_members, simp_all add: struct_member_def)

definition ok_CommandListsConfig :: "CommandListsConfig \<Rightarrow> bool" where
  "ok_CommandListsConfig c \<longleftrightarrow> valid_utf8 (cl_ListsFile c) \<and>
     valid_utf8 (cl_TemplatesFile c)"

lemma codec_CommandListsConfig: "codec enc_CommandListsConfig dec_CommandListsConfig ok_CommandListsConfig id"
  by (rule codec_struct [where fs =
      "[struct_member ''ListsFile'' cl_ListsFile cl_ListsFile_update enc_string dec_string id,
        struct_member ''TemplatesFile'' cl_TemplatesFile cl_TemplatesFile_update enc_string dec_string id]"])
    (simp_all add: enc_CommandListsConfig_def dec_CommandListsConfig_def ok_CommandListsConfig_def basic_members list_members, simp_all add: struct_member_def)

text \<open>Whatever a file contains, some fields of the configuration stay.\<close>

lemma Config_Unmarshal_keeps:
  fixes dec_tnd :: "'t dec" and tnd_zero :: 't
  defines "dec \<equiv> dec_daemon_Config dec_tnd tnd_zero"
  shows "cfg_Config (snd (Unmarshal dec b c)) = cfg_Config c"
    "cfg_LoginInfo (snd (Unmarshal dec b c)) = cfg_LoginInfo c"
    "cfg_VPNConfig (snd (Unmarshal dec b c)) = cfg_VPNConfig c"
  unfolding dec_def dec_daemon_Config_def
  by (rule Unmarshal_keeps [of cfg_Config] Unmarshal_keeps [of cfg_LoginInfo] Unmarshal_keeps [of cfg_VPNConfig],
      rule dec_struct_keeps, simp add: at_field_keeps)+

lemma enc_sections_not_null:
  "enc_SocketServer c1 \<noteq> Some JNull" "enc_CPDConfig c2 \<noteq> Some JNull" "enc_DNSProxyConfig c3 \<noteq> Some JNull"
  "enc_OpenConnect c4 \<noteq> Some JNull" "enc_Executables c5 \<noteq> Some JNull" "enc_SplitRoutingConfig c6 \<noteq> Some JNull"
  "enc_TrafficPolicing c7 \<noteq> Some JNull" "enc_CommandListsConfig c8 \<noteq> Some JNull"
  by (simp_all add: enc_SocketServer_def enc_CPDConfig_def enc_DNSProxyConfig_def enc_OpenConnect_def enc_Executables_def
      enc_SplitRoutingConfig_def enc_TrafficPolicing_def enc_CommandListsConfig_def enc_struct_not_null)

lemmas section_members =
  struct_member_law [OF codec.ptr [OF codec_SocketServer enc_sections_not_null(1)]]
  struct_member_law [OF codec.ptr [OF codec_CPDConfig enc_sections_not_null(2)]]
  struct_member_law [OF codec.ptr [OF codec_DNSProxyConfig enc_sections_not_null(3)]]
  struct_member_law [OF codec.ptr [OF codec_OpenConnect enc_sections_not_null(4)]]
  struct_member_law [OF codec.ptr [OF codec_Executables enc_sections_not_null(5)]]
  struct_member_law [OF codec.ptr [OF codec_SplitRoutingConfig enc_sections_not_null(6)]]
  struct_member_law [OF codec.ptr [OF codec_TrafficPolicing enc_sections_not_null(7)]]
  struct_member_law [OF codec.ptr [OF codec_CommandListsConfig enc_sections_not_null(8)]]

definition ok_daemon_Config :: "('t \<Rightarrow> bool) \<Rightarrow> 't Config \<Rightarrow> bool" where
  "ok_daemon_Config ok_tnd c \<longleftrightarrow>
     (\<forall>x \<in> set_option (cfg_SocketServer c). ok_SocketServer x) \<and>
     (\<forall>x \<in> set_option (cfg_CPD c). ok_CPDConfig x) \<and>
     (\<forall>x \<in> set_option (cfg_DNSProxy c). ok_DNSProxyConfig x) \<and>
     (\<forall>x \<in> set_option (cfg_OpenConnect c). ok_OpenConnect x) \<and>
     (\<forall>x \<in> set_option (cfg_Executables c). ok_Executables x) \<and>
     (\<forall>x \<in> set_option (cfg_SplitRouting c). ok_SplitRoutingConfig x) \<and>
     (\<forall>x \<in> set_option (cfg_TrafficPolicing c). ok_TrafficPolicing x) \<and>
     (\<forall>x \<in> set_option (cfg_TND c). ok_tnd x) \<and>
     (\<forall>x \<in> set_option (cfg_CommandLists c). ok_CommandListsConfig x)"

definition config_fields :: "'t enc \<Rightarrow> 't dec \<Rightarrow> 't \<Rightarrow> 't Config struct_field list" where
  "config_fields enc_tnd dec_tnd tnd_zero =
     [struct_member ''Verbose'' cfg_Verbose cfg_Verbose_update enc_bool dec_bool id,
      struct_member ''SocketServer'' cfg_SocketServer cfg_SocketServer_update (enc_ptr enc_SocketServer)
        (dec_ptr dec_SocketServer SocketServer_zero) (map_option id),
      struct_member ''CPD'' cfg_CPD cfg_CPD_update (enc_ptr enc_CPDConfig) (dec_ptr dec_CPDConfig CPDConfig_zero) (map_option id),
      struct_member ''DNSProxy'' cfg_DNSProxy cfg_DNSProxy_update (enc_ptr enc_DNSProxyConfig)
        (dec_ptr dec_DNSProxyConfig DNSProxyConfig_zero) (map_option id),
      struct_member ''OpenConnect'' cfg_OpenConnect cfg_OpenConnect_update (enc_ptr enc_OpenConnect)
        (dec_ptr dec_OpenConnect OpenConnect_zero) (map_option id),
      struct_member ''Executables'' cfg_Executables cfg_Executables_update (enc_ptr enc_Executables)
        (dec_ptr dec_Executables Executables_zero) (map_option id),
      struct_member ''SplitRouting'' cfg_SplitRouting cfg_SplitRouting_update (enc_ptr enc_SplitRoutingConfig)
        (dec_ptr dec_SplitRoutingConfig SplitRoutingConfig_zero) (map_option id),
      struct_member ''TrafficPolicing'' cfg_TrafficPolicing cfg_TrafficPolicing_update (enc_ptr enc_TrafficPolicing)
        (dec_ptr dec_TrafficPolicing TrafficPolicing_zero) (map_option id),
      struct_member ''TND'' cfg_TND cfg_TND_update (enc_ptr enc_tnd) (dec_ptr dec_tnd tnd_zero) (map_option id),
      struct_member ''CommandLists'' cfg_CommandLists cfg_CommandLists_update (enc_ptr enc_CommandListsConfig)
        (dec_ptr dec_CommandListsConfig CommandListsConfig_zero) (map_option id)]"

lemma daemon_Config_round_trip:
  assumes "codec enc_tnd dec_tnd ok_tnd id" "\<And>t. enc_tnd t \<noteq> Some JNull" "ok_daemon_Config ok_tnd c"
  obtains j where "enc_daemon_Config enc_tnd c = Some j" "json_ok j"
    "\<And>old. dec_daemon_Config dec_tnd tnd_zero j old = (True, c\<lparr>cfg_Config := cfg_Config old,
       cfg_LoginInfo := cfg_LoginInfo old, cfg_VPNConfig := cfg_VPNConfig old\<rparr>)"
proof -
  let ?fs = "config_fields enc_tnd dec_tnd tnd_zero"
  have "enc_daemon_Config enc_tnd c = enc_struct (enc_fields ?fs c)"
    "dec_daemon_Config dec_tnd tnd_zero = dec_struct (dec_fields ?fs)" "distinct (map fst ?fs)"
    by (simp_all add: enc_daemon_Config_def dec_daemon_Config_def config_fields_def struct_member_def)
  moreover have "list_all (field_law c) ?fs"
    using assms(3)
    by (simp add: config_fields_def ok_daemon_Config_def basic_members section_members
        struct_member_law [OF codec.ptr [OF assms(1,2)]] del: option.map_id)
  ultimately obtain j where j: "enc_daemon_Config enc_tnd c = Some j" "json_ok j"
    "\<And>old. dec_daemon_Config dec_tnd tnd_zero j old = (True, fold (\<lambda>f. snd (snd (snd f)) c) ?fs old)"
    by (rule struct_law [where enc = "enc_daemon_Config enc_tnd"]) blast
  moreover have "fold (\<lambda>f. snd (snd (snd f)) c) ?fs old = c\<lparr>cfg_Config := cfg_Config old,
       cfg_LoginInfo := cfg_LoginInfo old, cfg_VPNConfig := cfg_VPNConfig old\<rparr>" for old
    by (cases c; cases old) (simp add: config_fields_def struct_member_def option.map_id0)
  ultimately show thesis using that by simp
qed

section \<open>The configuration as text\<close>

text \<open>
  What \<open>Config.String\<close> prints of a configuration, the text the daemon logs at its start, is a configuration
  file: read over any configuration, \<open>json.Unmarshal\<close> takes all its sections, their nil pointers and nil slices
  included, and leaves only the three fields that are not part of a file. The TND section, a type of the tnd
  package, is the parameter: any codec of the library does that is not the text null.
\<close>

lemma config_text_is_a_config_file:
  assumes "codec enc_tnd dec_tnd ok_tnd id" "\<And>t. enc_tnd t \<noteq> Some JNull" "ok_daemon_Config ok_tnd c"
  shows "Unmarshal (dec_daemon_Config dec_tnd tnd_zero) (Config_String enc_tnd c) old =
        (True, c\<lparr>cfg_Config := cfg_Config old, cfg_LoginInfo := cfg_LoginInfo old, cfg_VPNConfig := cfg_VPNConfig old\<rparr>)"
proof -
  obtain j where j: "enc_daemon_Config enc_tnd c = Some j" "json_ok j"
    "\<And>old. dec_daemon_Config dec_tnd tnd_zero j old = (True, c\<lparr>cfg_Config := cfg_Config old,
       cfg_LoginInfo := cfg_LoginInfo old, cfg_VPNConfig := cfg_VPNConfig old\<rparr>)"
    by (rule daemon_Config_round_trip [OF assms, of tnd_zero]) blast
  then show ?thesis
    by (simp add: Config_String_def Marshal_def Unmarshal_def json_parse_text)
qed

text \<open>The default configuration; its TND section is written as a number here.\<close>

lemma enc_uint_not_null: "enc_uint w \<noteq> Some JNull"
  by (simp add: enc_uint_def)

end
