(* ===== verification/ClientCmd.thy ===== *)
theory ClientCmd
  imports Client JsonTypes GoFlag
begin

text \<open>
  The command line client (\<^verbatim>\<open>internal/client\<close>): its arguments, its configuration from files and options, the
  commands and the status it prints. The answers of the daemon and the formatting of times and
  configurations are outside.
\<close>

section \<open>Configuration (\<^verbatim>\<open>cmd.go\<close>)\<close>

record client_flags =
  cf_config :: string
  cf_cert :: string
  cf_key :: string
  cf_userCert :: string
  cf_userKey :: string
  cf_ca :: string
  cf_profile :: string
  cf_server :: string
  cf_user :: string
  cf_group :: string
  cf_system :: bool
  cf_command :: string
  cf_verbose :: bool
  cf_json :: bool

datatype cmd_error = ErrHelp | FlagError flag_error | LoadError string | InvalidConfig | UnknownCommand string
  | NewClientError | ServerListError | AuthError client_error | ConnectError client_error
  | DisconnectError client_error | ReconnectError | TooManyTries | GetStatusError | JSONStatusError
  | MkdirError | SaveError | SubscribeError client_error

text \<open>
  The options, those of the commands \<^verbatim>\<open>status\<close> and \<^verbatim>\<open>monitor\<close>, and what the arguments give: the version is an
  error that ends the program without a message. The options of a command are parsed from the second argument
  on, wherever the command stands.
\<close>

definition client_options :: "(string \<times> flag_kind) list" where
  "client_options =
     [(''config'', StringFlag), (''cert'', StringFlag), (''key'', StringFlag), (''user-cert'', StringFlag),
      (''user-key'', StringFlag), (''ca'', StringFlag), (''profile'', StringFlag), (''server'', StringFlag),
      (''user'', StringFlag), (''group'', StringFlag), (''system-settings'', BoolFlag), (''version'', BoolFlag)]"

definition status_options :: "(string \<times> flag_kind) list" where
  "status_options = [(''verbose'', BoolFlag), (''json'', BoolFlag)]"

definition flags_error :: "flag_error \<Rightarrow> cmd_error" where
  "flags_error e = (if e = HelpRequested then ErrHelp else FlagError e)"

definition client_args :: "string list \<Rightarrow> cmd_error + client_flags" where
  "client_args args =
     (case flag_Parse client_options Map.empty (drop 1 args) of
        Inl e \<Rightarrow> Inl (flags_error e)
      | Inr (m, rest) \<Rightarrow>
          if flag_bool m ''version'' False then Inl ErrHelp
          else
            (case (if flag_Arg rest 0 \<in> {''status'', ''monitor''} then flag_Parse status_options Map.empty (drop 2 args)
                   else Inr (Map.empty, [])) of
               Inl e \<Rightarrow> Inl (flags_error e)
             | Inr (o', _) \<Rightarrow>
                 Inr \<lparr>cf_config = flag_string m ''config'' '''', cf_cert = flag_string m ''cert'' '''',
                   cf_key = flag_string m ''key'' '''', cf_userCert = flag_string m ''user-cert'' '''',
                   cf_userKey = flag_string m ''user-key'' '''', cf_ca = flag_string m ''ca'' '''',
                   cf_profile = flag_string m ''profile'' '''', cf_server = flag_string m ''server'' '''',
                   cf_user = flag_string m ''user'' '''', cf_group = flag_string m ''group'' '''',
                   cf_system = flag_bool m ''system-settings'' False, cf_command = flag_Arg rest 0,
                   cf_verbose = flag_bool o' ''verbose'' False, cf_json = flag_bool o' ''json'' False\<rparr>))"

definition set_flags :: "client_flags \<Rightarrow> ClientConfig \<Rightarrow> ClientConfig" where
  "set_flags f config =
     (let config = (if cf_cert f \<noteq> '''' then config\<lparr>cc_ClientCertificate := cf_cert f\<rparr> else config);
          config = (if cf_key f \<noteq> '''' then config\<lparr>cc_ClientKey := cf_key f\<rparr> else config);
          config = (if cf_userCert f \<noteq> '''' then config\<lparr>cc_UserCertificate := cf_userCert f\<rparr> else config);
          config = (if cf_userKey f \<noteq> '''' then config\<lparr>cc_UserKey := cf_userKey f\<rparr> else config);
          config = (if cf_ca f \<noteq> '''' then config\<lparr>cc_CACertificate := cf_ca f\<rparr> else config);
          config = (if cf_profile f \<noteq> '''' then config\<lparr>cc_XMLProfile := cf_profile f\<rparr> else config);
          config = (if cf_server f \<noteq> '''' then config\<lparr>cc_VPNServer := cf_server f\<rparr> else config);
          config = (if cf_user f \<noteq> '''' then config\<lparr>cc_User := cf_user f\<rparr> else config);
          config = (if cf_group f \<noteq> '''' then config\<lparr>cc_UserGroup := cf_group f\<rparr> else config)
      in config)"

definition load_config :: "client_sys \<Rightarrow> client_flags \<Rightarrow> cmd_error + ClientConfig" where
  "load_config S f =
        ebind
          (if cf_config f \<noteq> '''' then
             (case LoadConfig S (cf_config f) of
                None \<Rightarrow> Inl (LoadError (cf_config f))
              | Some c \<Rightarrow> Inr (ClientConfig_Expand (cs_getenv S) c))
           else (case LoadUserSystemConfig S of None \<Rightarrow> Inr NewClientConfig | Some c \<Rightarrow> Inr c))
          (\<lambda>config.
             let config = set_flags f config in
             if cf_system f then
               (case LoadConfig S SystemConfig of
                  None \<Rightarrow> Inl (LoadError SystemConfig)
                | Some c \<Rightarrow> Inr c)
             else Inr config)"

definition setConfig :: "client_sys \<Rightarrow> string list \<Rightarrow> cmd_error + (client_flags \<times> ClientConfig)" where
  "setConfig S args = ebind (client_args args) (\<lambda>f. ebind (load_config S f) (\<lambda>config. Inr (f, config)))"

text \<open>
  The directory made and the file written, with the arguments whether making and writing them succeeds.
\<close>

definition saveConfig ::
  "client_sys \<Rightarrow> bool \<Rightarrow> bool \<Rightarrow> ClientConfig \<Rightarrow> cmd_error + (string \<times> file_op)" where
  "saveConfig S mkdirOk writeOk config =
     (let userConfig = UserConfig S; userDir = path_Dir userConfig in
      if \<not> mkdirOk then Inl MkdirError
      else (case ClientConfig_Save config userConfig of
          None \<Rightarrow> Inl SaveError
        | Some w \<Rightarrow> if writeOk then Inr (userDir, w) else Inl SaveError))"

text \<open>
  The command that the client runs, with its configuration; those that print a status with whether
  the output is verbose and JSON.
\<close>

datatype command = CmdList | CmdConnect | CmdDisconnect | CmdReconnect | CmdStatus bool bool | CmdDumpState
  | CmdMonitor bool bool | CmdSave

definition client_run :: "client_sys \<Rightarrow> string list \<Rightarrow> cmd_error + (command \<times> ClientConfig)" where
  "client_run S args =
     ebind (setConfig S args) (\<lambda>(f, config).
       if \<not> ClientConfig_Valid (Some config) then Inl InvalidConfig
       else if cf_command f = ''list'' then Inr (CmdList, config)
       else if cf_command f = '''' \<or> cf_command f = ''connect'' then Inr (CmdConnect, config)
       else if cf_command f = ''disconnect'' then Inr (CmdDisconnect, config)
       else if cf_command f = ''reconnect'' then Inr (CmdReconnect, config)
       else if cf_command f = ''status'' then Inr (CmdStatus (cf_verbose f) (cf_json f), config)
       else if cf_command f = ''dumpstate'' then Inr (CmdDumpState, config)
       else if cf_command f = ''monitor'' then Inr (CmdMonitor (cf_verbose f) (cf_json f), config)
       else if cf_command f = ''save'' then Inr (CmdSave, config)
       else Inl (UnknownCommand (cf_command f)))"

section \<open>Commands (\<^verbatim>\<open>client.go\<close>)\<close>

text \<open>What a client sees of the system: whether it gets a bus connection, and the daemon's answers.\<close>

type_synonym answer = "dbus_value list option"

definition listServers ::
  "bool \<Rightarrow> answer \<Rightarrow> ClientConfig \<Rightarrow> cmd_error + string list" where
  "listServers busOk answer config =
     (case NewDBusClient busOk (Some config) of None \<Rightarrow> Inl NewClientError
      | Some c \<Rightarrow>
          (case Query answer of Inl e \<Rightarrow> Inl ServerListError
           | Inr status \<Rightarrow>
               Inr (''Servers:'' # map (\<lambda>s. ''  - '' @ [CHR 0x22] @ s @ [CHR 0x22]) (slice_list (st_Servers status)))))"

text \<open>
  The answers are those to the queries of \<^verbatim>\<open>Authenticate\<close> and of \<^verbatim>\<open>Connect\<close>. The warning that the profile
  has changed in between is only printed.
\<close>

record connect_io =
  ci_bus :: bool
  ci_auth :: answer
  ci_environ :: "string list"
  ci_run :: "auth_Cmd \<Rightarrow> string option"
  ci_conn :: answer
  ci_call :: "dbus_call \<Rightarrow> string list option"

definition cmd_connectVPN ::
  "connect_io \<Rightarrow> ClientConfig \<Rightarrow> (dbus_call list \<times> (cmd_error + unit)) outcome" where
  "cmd_connectVPN io config =
     (case NewDBusClient (ci_bus io) (Some config) of None \<Rightarrow> Returns ([], Inl NewClientError)
      | Some c \<Rightarrow>
          obind (Authenticate (ci_auth io) (ci_environ io) (ci_run io) c) (\<lambda>(r, c).
          case r of Inl e \<Rightarrow> Returns ([], Inl (AuthError e))
          | Inr _ \<Rightarrow>
              obind (Connect (ci_conn io) (ci_call io) c) (\<lambda>(calls, r).
              Returns (calls, case r of Inl e \<Rightarrow> Inl (ConnectError e) | Inr _ \<Rightarrow> Inr ()))))"

definition cmd_disconnectVPN ::
  "bool \<Rightarrow> answer \<Rightarrow> (dbus_call \<Rightarrow> string list option) \<Rightarrow> ClientConfig \<Rightarrow>
   dbus_call list \<times> (cmd_error + unit)" where
  "cmd_disconnectVPN busOk answer call config =
     (case NewDBusClient busOk (Some config) of None \<Rightarrow> ([], Inl NewClientError)
      | Some c \<Rightarrow>
          (let (calls, r) = Disconnect answer call in
           (calls, case r of Inl e \<Rightarrow> Inl (DisconnectError e) | Inr _ \<Rightarrow> Inr ())))"

definition maxReconnectTries :: nat where
  "maxReconnectTries = 5"

text \<open>Whether the daemon is ready for a new connection.\<close>

definition reconnect_ready :: "Status \<Rightarrow> bool" where
  "reconnect_ready status \<longleftrightarrow> \<not> Trusted (st_TrustedNetwork status) \<and>
     Disconnected (st_ConnectionState status) \<and> \<not> OC_Running (st_OCRunning status)"

text \<open>The waiting loop; the result is the number of tries before the one that found the daemon ready.\<close>

function reconnect_wait :: "(nat \<Rightarrow> answer) \<Rightarrow> nat \<Rightarrow> cmd_error + nat" where
  "reconnect_wait answers try =
     (case Query (answers try) of
        Inl e \<Rightarrow> Inl ReconnectError
      | Inr status \<Rightarrow>
          if reconnect_ready status then Inr try
          else if Suc try \<ge> maxReconnectTries then Inl TooManyTries
          else reconnect_wait answers (Suc try))"
  by pat_completeness auto
termination by (relation "measure (\<lambda>(_, try). maxReconnectTries - try)") (auto simp: maxReconnectTries_def)

declare reconnect_wait.simps [simp del]

definition reconnectVPN ::
  "bool \<Rightarrow> answer \<Rightarrow> bool \<Rightarrow> answer \<Rightarrow> (dbus_call \<Rightarrow> string list option) \<Rightarrow>
   (nat \<Rightarrow> answer) \<Rightarrow> connect_io \<Rightarrow> ClientConfig \<Rightarrow> (dbus_call list \<times> (cmd_error + unit)) outcome" where
  "reconnectVPN busOk answer disBus disAnswer disCall answers io config =
     (case NewDBusClient busOk (Some config) of None \<Rightarrow> Returns ([], Inl NewClientError)
      | Some c \<Rightarrow>
          (case Query answer of Inl e \<Rightarrow> Returns ([], Inl ReconnectError)
           | Inr status \<Rightarrow>
               (let (calls, r) = (if OC_Running (st_OCRunning status)
                      then cmd_disconnectVPN disBus disAnswer disCall config else ([], Inr ())) in
                case r of Inl e \<Rightarrow> Returns (calls, Inl e)
                | Inr _ \<Rightarrow>
                    (case reconnect_wait answers 0 of
                       Inl e \<Rightarrow> Returns (calls, Inl e)
                     | Inr _ \<Rightarrow>
                         obind (cmd_connectVPN io config) (\<lambda>(calls', r). Returns (calls @ calls', r))))))"

text \<open>The lines printed for a status, in text form; lists of strings are printed in brackets.\<close>

definition show_strings :: "string slice \<Rightarrow> string" where
  "show_strings s = ''['' @ join_with CHR '' '' (slice_list s) @ '']''"

definition printStatus ::
  "(int \<Rightarrow> string) \<Rightarrow> (vc_Config \<Rightarrow> string) \<Rightarrow> bool \<Rightarrow> bool \<Rightarrow> Status \<Rightarrow> cmd_error + string list" where
  "printStatus show_time show_config json verbose status =
     (if json then (case Status_JSON status of None \<Rightarrow> Inl JSONStatusError | Some j \<Rightarrow> Inr [j])
      else Inr (
        [''Trusted Network:  '' @ TrustedNetwork_String (st_TrustedNetwork status),
         ''Connection State: '' @ ConnectionState_String (st_ConnectionState status),
         ''IP:               '' @ st_IP status,
         ''Device:           '' @ st_Device status,
         ''Current Server:   '' @ st_Server status,
         ''Server IP:        '' @ st_ServerIP status,
         if st_ConnectedAt status \<le> 0 then ''Connected At:'' else ''Connected At:     '' @ show_time (st_ConnectedAt status),
         ''Servers:''] @
        map (\<lambda>s. ''  - '' @ [CHR 0x22] @ s @ [CHR 0x22]) (slice_list (st_Servers status)) @
        [''OC Running:       '' @ OCRunning_String (st_OCRunning status)] @
        (if \<not> verbose then []
         else
           [''OC PID:           '' @ show_int (uint (st_OCPID status)),
            ''TrafPol State:    '' @ TrafPolState_String (st_TrafPolState status),
            ''Allowed Hosts:    '' @ show_strings (st_AllowedHosts status),
            ''Captive Portal:   '' @ CaptivePortal_String (st_CaptivePortal status),
            ''TND State:        '' @ TNDState_String (st_TNDState status),
            ''TND Servers:      '' @ show_strings (st_TNDServers status),
            case st_VPNConfig status of None \<Rightarrow> ''VPN Config:'' | Some c \<Rightarrow> ''VPN Config:       '' @ show_config c])))"

definition getStatus ::
  "(Status \<Rightarrow> cmd_error + string list) \<Rightarrow> bool \<Rightarrow> answer \<Rightarrow> ClientConfig \<Rightarrow>
   cmd_error + string list" where
  "getStatus pr busOk answer config =
     (case NewDBusClient busOk (Some config) of None \<Rightarrow> Inl NewClientError
      | Some c \<Rightarrow> (case Query answer of Inl e \<Rightarrow> Inl GetStatusError | Inr status \<Rightarrow> pr status))"

definition cmd_dumpState :: "bool \<Rightarrow> (dbus_call \<Rightarrow> string list option) \<Rightarrow> ClientConfig \<Rightarrow> cmd_error + string list" where
  "cmd_dumpState busOk call config =
     (case NewDBusClient busOk (Some config) of None \<Rightarrow> Inl NewClientError
      | Some c \<Rightarrow> (case snd (DumpState call) of Inl e \<Rightarrow> Inl GetStatusError | Inr state \<Rightarrow> Inr [state]))"

text \<open>
  The loop that prints the updates ends at the first error, or when the channel of updates is closed. The
  client is closed at last.
\<close>

fun print_updates :: "(Status \<Rightarrow> cmd_error + string list) \<Rightarrow> Status list \<Rightarrow> string list \<times> (cmd_error + unit)" where
  "print_updates pr [] = ([], Inr ())"
| "print_updates pr (u # us) =
     (case pr u of Inl e \<Rightarrow> ([], Inl e)
      | Inr ls \<Rightarrow> (let (ls', r) = print_updates pr us in (ls @ ls', r)))"

definition cmd_monitor ::
  "(Status \<Rightarrow> cmd_error + string list) \<Rightarrow> bool \<Rightarrow> answer \<Rightarrow> bool \<Rightarrow> dbus_signal list \<Rightarrow>
   ClientConfig \<Rightarrow> (string list \<times> (cmd_error + unit)) outcome" where
  "cmd_monitor pr busOk answer matchOk sigs config =
     (case NewDBusClient busOk (Some config) of None \<Rightarrow> Returns ([], Inl NewClientError)
      | Some c \<Rightarrow>
          (case Subscribe answer matchOk c of
             (Inl e, c) \<Rightarrow> obind (Client_Close c) (\<lambda>c. Returns ([], Inl (SubscribeError e)))
           | (Inr _, c) \<Rightarrow>
               obind (send_initial True c) (\<lambda>c.
               obind (handle_signals sigs c) (\<lambda>c.
               obind (Client_Close c) (\<lambda>c. Returns (print_updates pr (cl_updates c)))))))"

section \<open>Lemmas\<close>

text \<open>Commands run with a valid configuration only.\<close>

lemma client_run_valid: "client_run S args = Inr (k, c) \<Longrightarrow> ClientConfig_Valid (Some c)"
  by (auto simp: client_run_def ebind_Inr_iff split: if_splits)

lemma set_flags_password [simp]: "cc_Password (set_flags f c) = cc_Password c"
  by (simp add: set_flags_def Let_def)

text \<open>No file and no option sets the password.\<close>

lemma client_run_password: "client_run S args = Inr (k, c) \<Longrightarrow> cc_Password c = ''''"
proof -
  have e: "cc_Password (ClientConfig_Expand g c) = cc_Password c" for g c
    by (simp add: ClientConfig_Expand_def expandUser_def expandPaths_def)
  have u: "LoadUserSystemConfig S = Some c \<Longrightarrow> cc_Password c = ''''" for c
    by (auto simp: LoadUserSystemConfig_def e LoadConfig_password split: option.splits)
  have n: "cc_Password NewClientConfig = ''''" by (simp add: NewClientConfig_def ClientConfig_zero_def)
  have "load_config S f = Inr c \<Longrightarrow> cc_Password c = ''''" for f c
    by (auto simp: load_config_def ebind_Inr_iff Let_def LoadConfig_password e u n split: if_splits option.splits)
  then show "client_run S args = Inr (k, c) \<Longrightarrow> cc_Password c = ''''"
    by (auto simp: client_run_def setConfig_def ebind_Inr_iff split: if_splits)
qed

text \<open>Options that precede the command \<^verbatim>\<open>status\<close> hide its own: they are not read, without an error.\<close>

lemma status_options_lost:
  assumes "setting_ok client_options x" "x \<noteq> Switch ''version''" "\<And>k v. x = TextNext k v \<Longrightarrow> v = '''' \<or> v ! 0 \<noteq> CHR ''-''"
  shows "\<exists>f. client_args (prog # setting_args x @ [''status'', ''-json'']) = Inr f \<and> cf_command f = ''status'' \<and> \<not> cf_json f"
    "\<exists>f. client_args [prog, ''status'', ''-json''] = Inr f \<and> cf_command f = ''status'' \<and> cf_json f"
proof -
  let ?m = "setting_apply x Map.empty"
  have "flag_Parse client_options Map.empty (setting_args x @ [''status'', ''-json'']) = Inr (?m, [''status'', ''-json''])"
    unfolding flag_Parse_setting [OF assms(1)] by simp
  moreover have "\<not> flag_bool ?m ''version'' False" using assms(2) by (cases x) (auto simp: flag_bool_def)
  moreover have "flag_Parse status_options Map.empty (drop 1 (setting_args x @ [''status'', ''-json'']))
      = Inr (Map.empty, drop 1 (setting_args x @ [''status'', ''-json'']))"
    using assms(3) by (cases x) (auto simp: flag_Parse_stops)
  ultimately show "\<exists>f. client_args (prog # setting_args x @ [''status'', ''-json'']) = Inr f \<and> cf_command f = ''status'' \<and> \<not> cf_json f"
    by (simp add: client_args_def flag_Arg_def flag_bool_def del: flag_Parse.simps)
  show "\<exists>f. client_args [prog, ''status'', ''-json''] = Inr f \<and> cf_command f = ''status'' \<and> cf_json f"
    by (simp add: client_args_def flag_Arg_def flag_bool_def status_options_def flag_name_def flag_text_def)
qed

text \<open>Without options and files, the settings are those of the user's configuration file.\<close>

lemma client_run_file:
  assumes "LoadConfig S (UserConfig S) = Some c" "plain_settings c" "ClientConfig_Valid (Some c)"
  shows "client_run S [prog] = Inr (CmdConnect, c)"
proof -
  have "LoadUserSystemConfig S = Some c" using assms(1,2) by (simp add: LoadUserSystemConfig_def Expand_plain)
  then show ?thesis using assms(3)
    by (simp add: client_run_def setConfig_def client_args_def load_config_def set_flags_def flag_string_def flag_bool_def flag_Arg_def)
qed

text \<open>The password is passed on the standard input of OpenConnect only.\<close>

lemma password_only_on_stdin:
  assumes "cc_Password config \<noteq> ''''" "pw \<noteq> ''''"
  shows "auth_command environ env (config\<lparr>cc_Password := pw\<rparr>) = (auth_command environ env config)\<lparr>ac_stdin := Some pw\<rparr>"
proof -
  have "auth_parameters (config\<lparr>cc_Password := pw\<rparr>) = auth_parameters config"
    using assms by (cases config) (simp add: auth_parameters_def Let_def cong: if_cong)
  then show ?thesis using assms(2) by (simp add: auth_command_def)
qed

lemma scan_lines_lines:
  assumes "\<forall>l \<in> set ls. CHR 0x0A \<notin> set l \<and> length l < 65536 \<and> l \<noteq> '''' \<and> last l \<noteq> CHR 0x0D"
  shows "scan_lines (concat (map (\<lambda>l. l @ [CHR 0x0A]) ls)) = ls"
proof -
  have s: "split_char (CHR 0x0A) (concat (map (\<lambda>l. l @ [CHR 0x0A]) ls)) = ls @ ['''']"
    using assms by (induction ls) (simp_all add: split_char_append_sep split_char_free)
  have t: "takeWhile (\<lambda>l. length l < 65536) ls = ls" using assms by (simp add: takeWhile_eq_all_conv)
  have m: "map (\<lambda>l. if l \<noteq> '''' \<and> last l = CHR 0x0D then butlast l else l) ls = ls"
    using assms by (intro map_idI) auto
  show ?thesis by (simp add: scan_lines_def s t m)
qed

text \<open>The waiting loop looks at the tries in their order.\<close>

lemma reconnect_wait_result:
  assumes "try < maxReconnectTries"
  shows "case reconnect_wait answers try of
      Inr k \<Rightarrow> try \<le> k \<and> k < maxReconnectTries \<and> (\<exists>s. Query (answers k) = Inr s \<and> reconnect_ready s) \<and>
        (\<forall>i. try \<le> i \<and> i < k \<longrightarrow> (\<exists>s. Query (answers i) = Inr s \<and> \<not> reconnect_ready s))
    | Inl TooManyTries \<Rightarrow>
        \<forall>i. try \<le> i \<and> i < maxReconnectTries \<longrightarrow> (\<exists>s. Query (answers i) = Inr s \<and> \<not> reconnect_ready s)
    | Inl _ \<Rightarrow> \<exists>i < maxReconnectTries. isl (Query (answers i))"
  using assms
proof (induction answers "try" rule: reconnect_wait.induct)
  case (1 answers "try")
  show ?case
  proof (cases "Query (answers try)")
    case (Inl e)
    then show ?thesis using 1(2) by (subst reconnect_wait.simps) auto
  next
    case (Inr s)
    show ?thesis
    proof (cases "reconnect_ready s \<or> Suc try \<ge> maxReconnectTries")
      case True
      then show ?thesis using Inr 1(2) by (subst reconnect_wait.simps) (auto simp: less_Suc_eq le_less)
    next
      case False
      have "try \<le> i \<longleftrightarrow> i = try \<or> Suc try \<le> i" for i by linarith
      with 1(1) [OF Inr] False Inr show ?thesis
        by (subst reconnect_wait.simps) (auto split: sum.splits cmd_error.splits)
    qed
  qed
qed

section \<open>Properties\<close>

text \<open>
  C31: What \<^verbatim>\<open>save\<close> writes, whatever options and files the settings come from, is used by the next run
  without options: it connects with the same settings, if they are UTF-8 and the saved paths and user name have no
  variables and no home directory to expand. The file can be read by its owner only.
\<close>

theorem saved_settings_used:
  assumes "client_run S args = Inr (CmdSave, c)" "saveConfig S True True c = Inr (dir, WriteFile file b mode)"
    and "ok_ClientConfig c" "plain_settings c"
  shows "file = UserConfig S \<and> dir = path_Dir file \<and> mode = 384 \<and>
    client_run (S\<lparr>cs_ReadFile := (cs_ReadFile S)(file := Some b)\<rparr>) [prog] = Inr (CmdConnect, c)"
proof -
  have s: "ClientConfig_Save c (UserConfig S) = Some (WriteFile file b mode)" and d: "dir = path_Dir (UserConfig S)"
    using assms(2) by (auto simp: saveConfig_def Let_def split: option.splits)
  let ?S = "S\<lparr>cs_ReadFile := (cs_ReadFile S)(file := Some b)\<rparr>"
  have "cc_Password c = ''''" using assms(1) by (rule client_run_password)
  then have c: "c\<lparr>cc_Password := ''''\<rparr> = c" by simp
  have u: "UserConfig ?S = UserConfig S" by (simp add: UserConfig_def)
  have "file = UserConfig S" "mode = 384" "LoadConfig ?S file = Some c"
    using LoadConfig_saved [OF assms(3) s, where S = ?S and f' = "file"] c by simp_all
  then show ?thesis using d u client_run_file [of ?S c] assms(4) client_run_valid [OF assms(1)] by simp
qed

text \<open>A client without files, with the needed settings as options.\<close>

definition example_client_sys :: client_sys where
  "example_client_sys = \<lparr>cs_getenv = (\<lambda>_. ''''), cs_ReadFile = (\<lambda>_. None), cs_UserConfigDir = Some ''/home/u/.config''\<rparr>"

theorem saved_settings_used_witness:
  "\<exists>c b. client_run example_client_sys [''oc-client'', ''-cert'', ''c.pem'', ''--key=k.pem'', ''-server'', ''vpn'', ''save''] = Inr (CmdSave, c) \<and>
     cc_VPNServer c = ''vpn'' \<and> saveConfig example_client_sys True True c =
       Inr (''/home/u/.config/oc-daemon'', WriteFile ''/home/u/.config/oc-daemon/oc-client.json'' b 384) \<and>
     client_run (example_client_sys\<lparr>cs_ReadFile := (\<lambda>_. None)(''/home/u/.config/oc-daemon/oc-client.json'' := Some b)\<rparr>) [''oc-client''] =
       Inr (CmdConnect, c)"
proof -
  let ?S = example_client_sys
  let ?c = "NewClientConfig\<lparr>cc_ClientCertificate := ''c.pem'', cc_ClientKey := ''k.pem'', cc_VPNServer := ''vpn''\<rparr>"
  have r: "client_run ?S [''oc-client'', ''-cert'', ''c.pem'', ''--key=k.pem'', ''-server'', ''vpn'', ''save''] = Inr (CmdSave, ?c)"
    by code_simp
  have ok: "ok_ClientConfig ?c" "plain_settings ?c" by code_simp+
  have u: "UserConfig ?S = ''/home/u/.config/oc-daemon/oc-client.json''"
    "path_Dir ''/home/u/.config/oc-daemon/oc-client.json'' = ''/home/u/.config/oc-daemon''" by code_simp+
  obtain j where "enc_ClientConfig ?c = Some j" using ClientConfig_round_trip [OF ok(1)] by blast
  then have s: "saveConfig ?S True True ?c = Inr (''/home/u/.config/oc-daemon'',
      WriteFile ''/home/u/.config/oc-daemon/oc-client.json'' (json_indent 0 j) 384)"
    by (simp add: saveConfig_def ClientConfig_Save_def u)
  have "cs_ReadFile ?S = (\<lambda>_. None)" by (simp add: example_client_sys_def)
  with saved_settings_used [OF r s ok, of "''oc-client''"] r s show ?thesis by auto
qed

text \<open>
  Reconnecting waits for at most five tries: the loop ends, at the first try that finds an
  untrusted network, no connection and no OpenConnect, or with an error if all five tries find the
  daemon busy or one of them cannot ask it.
\<close>

lemma reconnect_bounded:
  "case reconnect_wait answers 0 of
     Inr k \<Rightarrow> k < 5 \<and> (\<exists>s. Query (answers k) = Inr s \<and> reconnect_ready s) \<and>
       (\<forall>i < k. \<exists>s. Query (answers i) = Inr s \<and> \<not> reconnect_ready s)
   | Inl TooManyTries \<Rightarrow> \<forall>i < 5. \<exists>s. Query (answers i) = Inr s \<and> \<not> reconnect_ready s
   | Inl _ \<Rightarrow> \<exists>i < 5. isl (Query (answers i))"
  using reconnect_wait_result [of 0 answers]
  by (auto simp: maxReconnectTries_def split: sum.splits cmd_error.splits)

text \<open>A daemon that is disconnected at the second try.\<close>

definition example_answers :: "nat \<Rightarrow> answer" where
  "example_answers i =
     (if i = 0 then Some [] else Some [Typed (PropertyConnectionState ConnectionStateDisconnected)])"

text \<open>
  C37: The client reads the login information that OpenConnect prints: when it prints the values in
  quotes, one in a line, the login information of the client consists of them and the configured
  server.
\<close>

theorem authenticate_reads_login:
  assumes "cl_config c = Some config"
    and "\<forall>v \<in> {cookie, host, url, fingerprint, res}. CHR 0x0A \<notin> set v \<and> length v < 65000"
    and "run_cmd (auth_command environ (cl_env c) config) = Some (concat (map (\<lambda>(k, v). k @ ''='' @ [CHR 0x27] @ v @ [CHR 0x27, CHR 0x0A])
      [(''COOKIE'', cookie), (''HOST'', host), (''CONNECT_URL'', url), (''FINGERPRINT'', fingerprint), (''RESOLVE'', res)]))"
  shows "authenticate environ run_cmd c = Returns (Inr (), c\<lparr>cl_login := Some \<lparr>li_Server = cc_VPNServer config,
     li_Cookie = cookie, li_Host = host, li_ConnectURL = url, li_Fingerprint = fingerprint, li_Resolve = res\<rparr>\<rparr>)"
proof -
  let ?ls = "[quoted_line ''COOKIE'' cookie, quoted_line ''HOST'' host, quoted_line ''CONNECT_URL'' url,
    quoted_line ''FINGERPRINT'' fingerprint, quoted_line ''RESOLVE'' res]"
  let ?out = "concat (map (\<lambda>(k, v). k @ ''='' @ [CHR 0x27] @ v @ [CHR 0x27, CHR 0x0A])
      [(''COOKIE'', cookie), (''HOST'', host), (''CONNECT_URL'', url), (''FINGERPRINT'', fingerprint), (''RESOLVE'', res)])"
  have out: "?out = concat (map (\<lambda>l. l @ [CHR 0x0A]) ?ls)" by (simp add: quoted_line_def)
  have lines: "scan_lines ?out = ?ls"
    unfolding out using assms(2) by (intro scan_lines_lines) (auto simp: quoted_line_def)
  have login: "ParseLines ?ls (LoginInfo_zero\<lparr>li_Server := cc_VPNServer config\<rparr>) = \<lparr>li_Server = cc_VPNServer config,
     li_Cookie = cookie, li_Host = host, li_ConnectURL = url, li_Fingerprint = fingerprint, li_Resolve = res\<rparr>"
    by (simp add: ParseLines_def ParseLine_quoted LoginInfo_zero_def)
  show ?thesis
    unfolding authenticate_def GetConfig_def GetEnv_def SetLogin_def LoginInfo_Copy_def ClientConfig_Copy_id
      slice_copy_id assms(1,3) option.case lines Let_def login by simp
qed

theorem authenticate_reads_login_witness:
  "authenticate [] (\<lambda>_. Some (concat (map (\<lambda>(k, v). k @ ''='' @ [CHR 0x27] @ v @ [CHR 0x27, CHR 0x0A])
      [(''COOKIE'', ''c=1''), (''HOST'', ''192.0.2.1''), (''CONNECT_URL'', ''''), (''FINGERPRINT'', ''fp''), (''RESOLVE'', '''')])))
     example_client = Returns (Inr (), example_client\<lparr>cl_login := Some \<lparr>li_Server = '''', li_Cookie = ''c=1'',
       li_Host = ''192.0.2.1'', li_ConnectURL = '''', li_Fingerprint = ''fp'', li_Resolve = ''''\<rparr>\<rparr>)"
proof -
  have "cl_config example_client = Some NewClientConfig" by (simp add: example_client_def)
  moreover have "cc_VPNServer NewClientConfig = ''''" by (simp add: NewClientConfig_def ClientConfig_zero_def)
  ultimately show ?thesis
    using authenticate_reads_login [of example_client NewClientConfig "''c=1''" "''192.0.2.1''" "''''" "''fp''" "''''"
        "\<lambda>_. Some (concat (map (\<lambda>(k, v). k @ ''='' @ [CHR 0x27] @ v @ [CHR 0x27, CHR 0x0A])
      [(''COOKIE'', ''c=1''), (''HOST'', ''192.0.2.1''), (''CONNECT_URL'', ''''), (''FINGERPRINT'', ''fp''), (''RESOLVE'', '''')]))" "[]"]
    by simp
qed

text \<open>
  The command \<^verbatim>\<open>monitor\<close> hangs if the daemon does not answer: the subscription fails, and closing the
  client waits for a goroutine that was never started.
\<close>

lemma monitor_hangs:
  "cmd_monitor pr True None matchOk sigs config = Blocks"
  by (simp add: cmd_monitor_def NewDBusClient_def Subscribe_def setSubscribed_def Query_def Client_Close_def)

end
