(* ===== verification/DBusTool.thy ===== *)
theory DBusTool
  imports ClientCmd
begin

text \<open>
  The tool that monitors the properties of the daemon (\<^verbatim>\<open>tools/dbusclient\<close>): it reads all properties, then
  follows the signals of the bus. The answers of the bus and the signals are arguments. What it logs and what it
  prints are kept apart; error messages are left out.
\<close>

section \<open>The tool\<close>

fun print_value :: "property \<Rightarrow> string" where
  "print_value (PropertyTrustedNetwork v) = show_dec (TrustedNetwork_num v)"
| "print_value (PropertyConnectionState v) = show_dec (ConnectionState_num v)"
| "print_value (PropertyIP v) = v"
| "print_value (PropertyDevice v) = v"
| "print_value (PropertyServer v) = v"
| "print_value (PropertyServerIP v) = v"
| "print_value (PropertyConnectedAt v) = show_int v"
| "print_value (PropertyServers v) = show_strings v"
| "print_value (PropertyOCRunning v) = show_dec (OCRunning_num v)"
| "print_value (PropertyOCPID v) = show_dec (unat v)"
| "print_value (PropertyTrafPolState v) = show_dec (TrafPolState_num v)"
| "print_value (PropertyAllowedHosts v) = show_strings v"
| "print_value (PropertyCaptivePortal v) = show_dec (CaptivePortal_num v)"
| "print_value (PropertyTNDState v) = show_dec (TNDState_num v)"
| "print_value (PropertyTNDServers v) = show_strings v"
| "print_value (PropertyVPNConfig v) = v"

definition tool_initial :: Properties where
  "tool_initial =
     \<lparr>dp_TrustedNetwork = TrustedNetworkUnknown, dp_ConnectionState = ConnectionStateUnknown,
      dp_IP = IPInvalid, dp_Device = DeviceInvalid, dp_Server = ServerInvalid,
      dp_ServerIP = ServerInvalid, dp_ConnectedAt = ConnectedAtInvalid, dp_Servers = None,
      dp_OCRunning = OCRunningUnknown, dp_OCPID = OCPIDInvalid,
      dp_TrafPolState = TrafPolStateUnknown, dp_AllowedHosts = None,
      dp_CaptivePortal = CaptivePortalUnknown, dp_TNDState = TNDStateUnknown,
      dp_TNDServers = None, dp_VPNConfig = VPNConfigInvalid\<rparr>"

definition property_names :: "string list" where
  "property_names =
     [''TrustedNetwork'', ''ConnectionState'', ''IP'', ''Device'', ''Server'', ''ServerIP'', ''ConnectedAt'', ''Servers'',
      ''OCRunning'', ''OCPID'', ''TrafPolState'', ''AllowedHosts'', ''CaptivePortal'', ''TNDState'', ''TNDServers'', ''VPNConfig'']"

text \<open>The answer for a name is the property in its type, or nothing; the first error ends the program.\<close>

fun get_properties :: "(string \<Rightarrow> property option) \<Rightarrow> string list \<Rightarrow> Properties \<Rightarrow> Properties option" where
  "get_properties get [] vars = Some vars"
| "get_properties get (n # ns) vars =
     (case get n of None \<Rightarrow> None
      | Some v \<Rightarrow> if prop_name v = n then get_properties get ns (SetMust v vars) else None)"

definition initial_lines :: "Properties \<Rightarrow> string list" where
  "initial_lines vars = map (\<lambda>v. prop_name v @ '': '' @ print_value v) (props_of vars)"

definition print_line :: "string \<Rightarrow> string" where
  "print_line s = s @ [CHR 0x0A]"

text \<open>
  A changed property: what is printed and the new values, nothing after a value of another type. For a name that
  the tool does not know, the line is not ended.
\<close>

fun tool_change :: "dbus_value \<Rightarrow> Properties \<Rightarrow> string \<times> Properties option" where
  "tool_change (Typed v) vars =
     (print_line (''Changed property: '' @ prop_name v @ '' '' @ print_value v), Some (SetMust v vars))"
| "tool_change (IllTyped name) vars = (''Changed property: '' @ name @ '' '', None)"
| "tool_change (Unknown name) vars = (''Changed property: '' @ name @ '' '', Some vars)"

fun tool_changes :: "dbus_value list \<Rightarrow> Properties \<Rightarrow> string \<times> Properties option" where
  "tool_changes [] vars = ('''', Some vars)"
| "tool_changes (c # cs) vars =
     (case tool_change c vars of
        (out, None) \<Rightarrow> (out, None)
      | (out, Some vars) \<Rightarrow> (let (out', r) = tool_changes cs vars in (out @ out', r)))"

definition tool_invalidate :: "Properties \<Rightarrow> string \<Rightarrow> Properties" where
  "tool_invalidate vars name =
     (if name = ''TrustedNetwork'' then vars\<lparr>dp_TrustedNetwork := TrustedNetworkUnknown\<rparr>
      else if name = ''ConnectionState'' then vars\<lparr>dp_ConnectionState := ConnectionStateUnknown\<rparr>
      else if name = ''IP'' then vars\<lparr>dp_IP := IPInvalid\<rparr>
      else if name = ''Device'' then vars\<lparr>dp_Device := DeviceInvalid\<rparr>
      else if name = ''Server'' then vars\<lparr>dp_Device := ServerInvalid\<rparr>
      else if name = ''ServerIP'' then vars\<lparr>dp_Device := ServerIPInvalid\<rparr>
      else if name = ''ConnectedAt'' then vars\<lparr>dp_ConnectedAt := ConnectedAtInvalid\<rparr>
      else if name = ''Servers'' then vars\<lparr>dp_Servers := None\<rparr>
      else if name = ''OCRunning'' then vars\<lparr>dp_OCRunning := OCRunningUnknown\<rparr>
      else if name = ''OCPID'' then vars\<lparr>dp_OCPID := OCPIDInvalid\<rparr>
      else if name = ''TrafPolState'' then vars\<lparr>dp_TrafPolState := TrafPolStateUnknown\<rparr>
      else if name = ''AllowedHosts'' then vars\<lparr>dp_AllowedHosts := None\<rparr>
      else if name = ''CaptivePortal'' then vars\<lparr>dp_CaptivePortal := CaptivePortalUnknown\<rparr>
      else if name = ''TNDState'' then vars\<lparr>dp_TNDState := TNDStateUnknown\<rparr>
      else if name = ''TNDServers'' then vars\<lparr>dp_TNDServers := None\<rparr>
      else if name = ''VPNConfig'' then vars\<lparr>dp_VPNConfig := VPNConfigInvalid\<rparr>
      else vars)"

datatype tool_end = ChannelClosed | FatalError | IndexPanic

text \<open>A signal: what is printed, and the end of the program or the new values.\<close>

definition tool_signal :: "dbus_signal \<Rightarrow> Properties \<Rightarrow> string \<times> (tool_end + Properties)" where
  "tool_signal s vars =
     (if sg_Path s \<noteq> dbus_Path \<or> sg_Name s \<noteq> PropertiesChanged then ('''', Inr vars)
      else (case sg_Body s of
          [] \<Rightarrow> ('''', Inl IndexPanic)
        | b0 # rest \<Rightarrow>
            if b0 \<noteq> BString dbus_Interface then ('''', Inr vars)
            else (case rest of
                [] \<Rightarrow> ('''', Inl IndexPanic)
              | BProps changed # rest \<Rightarrow>
                  (case tool_changes changed vars of
                     (out, None) \<Rightarrow> (out, Inl FatalError)
                   | (out, Some vars) \<Rightarrow>
                       (case rest of
                          [] \<Rightarrow> (out, Inl IndexPanic)
                        | BNames invalid # _ \<Rightarrow>
                            (out @ concat (map (\<lambda>n. print_line (''Invalidated property: '' @ n)) invalid),
                             Inr (foldl tool_invalidate vars invalid))
                        | _ \<Rightarrow> (out, Inr vars)))
              | _ \<Rightarrow> ('''', Inr vars))))"

fun tool_signals :: "dbus_signal list \<Rightarrow> Properties \<Rightarrow> string \<times> Properties \<times> tool_end" where
  "tool_signals [] vars = ('''', vars, ChannelClosed)"
| "tool_signals (s # ss) vars =
     (case tool_signal s vars of
        (out, Inl e) \<Rightarrow> (out, vars, e)
      | (out, Inr vars) \<Rightarrow> (let (out', r) = tool_signals ss vars in (out @ out', r)))"

text \<open>
  The lines logged at first, the text printed, and the last values with the end of the program, nothing if it ends
  before the first signal.
\<close>

definition dbusclient_main ::
  "bool \<Rightarrow> bool \<Rightarrow> (string \<Rightarrow> property option) \<Rightarrow> dbus_signal list \<Rightarrow> string list \<times> string \<times> (Properties \<times> tool_end) option" where
  "dbusclient_main busOk matchOk get sigs =
     (if \<not> busOk \<or> \<not> matchOk then ([], '''', None)
      else (case get_properties get property_names tool_initial of
          None \<Rightarrow> ([], '''', None)
        | Some vars \<Rightarrow> (let (out, r) = tool_signals sigs vars in (initial_lines vars, out, Some r))))"

section \<open>The tool shows the properties\<close>

definition same_props :: "Properties \<Rightarrow> Properties \<Rightarrow> bool" where
  "same_props v p \<longleftrightarrow> list_all2 same_prop (props_of v) (props_of p)"

lemma same_prop_iff:
  "same_prop v (PropertyTrustedNetwork a) \<longleftrightarrow> v = PropertyTrustedNetwork a"
  "same_prop v (PropertyConnectionState b) \<longleftrightarrow> v = PropertyConnectionState b"
  "same_prop v (PropertyIP c) \<longleftrightarrow> v = PropertyIP c"
  "same_prop v (PropertyDevice c) \<longleftrightarrow> v = PropertyDevice c"
  "same_prop v (PropertyServer c) \<longleftrightarrow> v = PropertyServer c"
  "same_prop v (PropertyServerIP c) \<longleftrightarrow> v = PropertyServerIP c"
  "same_prop v (PropertyConnectedAt d) \<longleftrightarrow> v = PropertyConnectedAt d"
  "same_prop v (PropertyServers e) \<longleftrightarrow> (\<exists>x. v = PropertyServers x \<and> slice_list x = slice_list e)"
  "same_prop v (PropertyOCRunning f) \<longleftrightarrow> v = PropertyOCRunning f"
  "same_prop v (PropertyOCPID g) \<longleftrightarrow> v = PropertyOCPID g"
  "same_prop v (PropertyTrafPolState h) \<longleftrightarrow> v = PropertyTrafPolState h"
  "same_prop v (PropertyAllowedHosts e) \<longleftrightarrow> (\<exists>x. v = PropertyAllowedHosts x \<and> slice_list x = slice_list e)"
  "same_prop v (PropertyCaptivePortal i) \<longleftrightarrow> v = PropertyCaptivePortal i"
  "same_prop v (PropertyTNDState j) \<longleftrightarrow> v = PropertyTNDState j"
  "same_prop v (PropertyTNDServers e) \<longleftrightarrow> (\<exists>x. v = PropertyTNDServers x \<and> slice_list x = slice_list e)"
  "same_prop v (PropertyVPNConfig c) \<longleftrightarrow> v = PropertyVPNConfig c"
  by (cases v; simp add: same_prop_def; blast)+

lemma same_props_fields:
  "same_props v p \<longleftrightarrow>
     v\<lparr>dp_Servers := None, dp_AllowedHosts := None, dp_TNDServers := None\<rparr> =
       p\<lparr>dp_Servers := None, dp_AllowedHosts := None, dp_TNDServers := None\<rparr> \<and>
     slice_list (dp_Servers v) = slice_list (dp_Servers p) \<and>
     slice_list (dp_AllowedHosts v) = slice_list (dp_AllowedHosts p) \<and>
     slice_list (dp_TNDServers v) = slice_list (dp_TNDServers p)"
  by (cases v; cases p) (auto simp: same_props_def props_of_def same_prop_iff)

lemma same_props_SetMust: "same_prop v u \<Longrightarrow> same_props x p \<Longrightarrow> same_props (SetMust v x) (SetMust u p)"
  by (cases u) (auto simp: same_prop_iff same_props_def props_of_def)

lemma get_properties_all:
  assumes "\<forall>u \<in> set (props_of p). \<exists>v. get (prop_name u) = Some v \<and> same_prop v u"
  shows "\<exists>x. get_properties get property_names tool_initial = Some x \<and> same_props x p"
proof -
  obtain s a t where l: "get ''Servers'' = Some (PropertyServers s)" "slice_list s = slice_list (dp_Servers p)"
    "get ''AllowedHosts'' = Some (PropertyAllowedHosts a)" "slice_list a = slice_list (dp_AllowedHosts p)"
    "get ''TNDServers'' = Some (PropertyTNDServers t)" "slice_list t = slice_list (dp_TNDServers p)"
    using assms by (auto simp: props_of_def same_prop_iff)
  have "list_all (\<lambda>u. (\<exists>x. u = PropertyServers x \<or> u = PropertyAllowedHosts x \<or> u = PropertyTNDServers x) \<or>
      get (prop_name u) = Some u) (props_of p)"
    using assms by (auto simp: list_all_iff props_of_def same_prop_iff)
  note g = this [unfolded props_of_def, simplified]
  have "get_properties get property_names tool_initial =
      Some (p\<lparr>dp_Servers := s, dp_AllowedHosts := a, dp_TNDServers := t\<rparr>)"
    using g l unfolding property_names_def tool_initial_def by (cases p) simp
  then show ?thesis using l by (auto simp: same_props_fields)
qed

lemma tool_signal_emits:
  assumes "emits u s"
  shows "\<exists>v. same_prop v u \<and> tool_signal s vars = (print_line (''Changed property: '' @ prop_name v @ '' '' @ print_value v), Inr (SetMust v vars))"
  using assms by (auto simp: emits_def tool_signal_def)

lemma tool_signals_track:
  assumes "list_all2 emits us sigs" "same_props x p"
  shows "\<exists>out y. tool_signals sigs x = (out, y, ChannelClosed) \<and> same_props y (set_props us p)"
  using assms
proof (induction us sigs arbitrary: x p rule: list_all2_induct)
  case (Cons u us s sigs)
  obtain v where v: "same_prop v u" "tool_signal s x = (print_line (''Changed property: '' @ prop_name v @ '' '' @ print_value v), Inr (SetMust v x))"
    using tool_signal_emits [OF Cons.hyps(1)] by blast
  obtain out y where "tool_signals sigs (SetMust v x) = (out, y, ChannelClosed)" "same_props y (set_props us (SetMust u p))"
    using Cons.IH [OF same_props_SetMust [OF v(1) Cons.prems]] by blast
  with v(2) show ?case by simp
qed simp

text \<open>
  The tool shows the properties: after it has read them and got a signal for each that was set, its values are
  those of the service, and it runs as long as the bus.
\<close>

lemma dbusclient_tracks:
  assumes "\<forall>u \<in> set (props_of p). \<exists>v. get (prop_name u) = Some v \<and> same_prop v u" "list_all2 emits us sigs"
  shows "\<exists>ls out x. dbusclient_main True True get sigs = (ls, out, Some (x, ChannelClosed)) \<and> length ls = 16 \<and>
     same_props x (set_props us p)"
proof -
  obtain x where x: "get_properties get property_names tool_initial = Some x" "same_props x p"
    using get_properties_all [OF assms(1)] by blast
  obtain out y where "tool_signals sigs x = (out, y, ChannelClosed)" "same_props y (set_props us p)"
    using tool_signals_track [OF assms(2) x(2)] by blast
  with x(1) show ?thesis by (simp add: dbusclient_main_def initial_lines_def props_of_def)
qed

text \<open>An invalid server or server address resets the device and stays as it is itself, other than in the client library.\<close>

lemma invalid_server_resets_device:
  "tool_invalidate vars ''Server'' = vars\<lparr>dp_Device := []\<rparr>" "tool_invalidate vars ''ServerIP'' = vars\<lparr>dp_Device := []\<rparr>"
  "invalidate s ''Server'' = s\<lparr>st_Server := []\<rparr>" "invalidate s ''ServerIP'' = s\<lparr>st_ServerIP := []\<rparr>"
  by (simp_all add: tool_invalidate_def invalidate_def ServerInvalid_def ServerIPInvalid_def)

end
