(* ===== verification/CmdTmplProps.thy ===== *)
theory CmdTmplProps
  imports CmdTmpl
begin

text \<open>
  Properties of the command lists: a type system for templates with the lemma that a template that
  type checks executes without error, so that the default lists give commands for every complete
  configuration; the exact commands of the lists; the refinement of the packet filter sets by the
  texts that are sent to the packet filter; and which templates a command list uses.
\<close>

section \<open>Types of template data\<close>

datatype ty = TStr | TInt | TBool | TAddr | TPrefix | TList ty | TStruct "(string \<times> ty) list"

fun has_ty :: "ty \<Rightarrow> data \<Rightarrow> bool" where
  "has_ty TStr (DStr s) = True"
| "has_ty TInt (DInt i) = True"
| "has_ty TBool (DBool b) = True"
| "has_ty TAddr (DAddr a) = True"
| "has_ty TPrefix (DPrefix p) = True"
| "has_ty (TList t) (DList xs) = list_all (has_ty t) xs"
| "has_ty (TStruct ts) (DStruct fs) =
     list_all (\<lambda>f. case map_of fs (fst f) of None \<Rightarrow> False | Some v \<Rightarrow> has_ty (snd f) v) ts"
| "has_ty t v = False"

fun ty_field :: "string \<Rightarrow> ty \<Rightarrow> ty option" where
  "ty_field x (TStruct ts) = map_of ts x"
| "ty_field x TAddr = (if x \<in> {''Is4'', ''Is6'', ''IsValid''} then Some TBool else None)"
| "ty_field x TPrefix = (if x = ''Addr'' then Some TAddr else if x = ''IsValid'' then Some TBool else None)"
| "ty_field x t = None"

fun path_ty :: "string list \<Rightarrow> ty \<Rightarrow> ty option" where
  "path_ty [] t = Some t"
| "path_ty (x # xs) t = (case ty_field x t of None \<Rightarrow> None | Some u \<Rightarrow> path_ty xs u)"

lemma has_ty_field: "has_ty t v \<Longrightarrow> ty_field x t = Some u \<Longrightarrow> \<exists>w. field x v = Some w \<and> has_ty u w"
  by (cases "(t, v)" rule: has_ty.cases)
    (fastforce simp: list_all_iff split: if_splits option.splits dest: map_of_SomeD)+

lemma has_ty_path_value:
  "has_ty t v \<Longrightarrow> path_ty path t = Some u \<Longrightarrow> \<exists>w. path_value path v = Some w \<and> has_ty u w"
proof (induction path arbitrary: t v)
  case (Cons x xs)
  then obtain t' where t': "ty_field x t = Some t'" "path_ty xs t' = Some u" by (auto split: option.splits)
  then obtain w where "field x v = Some w" "has_ty t' w" using has_ty_field Cons.prems(1) by blast
  with Cons.IH t'(2) show ?case by simp
qed simp

lemma has_ty_path: "has_ty t v \<Longrightarrow> path_ty path t = Some u \<Longrightarrow> \<exists>w. path_eval path v = Inr w \<and> has_ty u w"
  using has_ty_path_value by (fastforce simp: path_eval_def)

text \<open>Type checking a node with a bound on the depth of template calls.\<close>

function checks :: "tmpl \<Rightarrow> nat \<Rightarrow> ty \<Rightarrow> node \<Rightarrow> bool" where
  "checks T n t (Txt s) = True"
| "checks T n t (Act path) = (path_ty path t \<noteq> None)"
| "checks T n t (IfN path yes no) =
     (path_ty path t \<noteq> None \<and> list_all (checks T n t) yes \<and> list_all (checks T n t) no)"
| "checks T n t (RangeN path body none) =
     (case path_ty path t of
        Some (TList u) \<Rightarrow> list_all (checks T n u) body \<and> list_all (checks T n t) none
      | _ \<Rightarrow> False)"
| "checks T n t (CallN name path) =
     (case gm_get T name of None \<Rightarrow> False
      | Some body \<Rightarrow>
          (case path_ty path t of None \<Rightarrow> False
           | Some u \<Rightarrow> (if n = 0 then False else list_all (checks T (n - 1) u) body)))"
  by pat_completeness auto
termination
  by (relation "measures [\<lambda>(T, n, t, node). n, \<lambda>(T, n, t, node). size node]")
    (auto simp: less_Suc_eq_le intro: size_list_estimation' le_SucI trans_le_add1 trans_le_add2)

lemma emit_Inr: "(\<And>x. x \<in> set xs \<Longrightarrow> \<exists>s. f x = Inr s) \<Longrightarrow> \<exists>s. emit f xs = Inr s"
proof (induction xs)
  case (Cons x xs)
  then obtain s t where "f x = Inr s" "emit f xs = Inr t" by (metis list.set_intros)
  then show ?case by simp
qed simp

lemma emit_checks:
  assumes "list_all (checks T k t) ns" "\<And>x. x \<in> set ns \<Longrightarrow> checks T k t x \<Longrightarrow> \<exists>s. exec T n v x = Inr s"
  shows "\<exists>s. emit (exec T n v) ns = Inr s"
  by (rule emit_Inr) (use assms in \<open>simp add: list_all_iff\<close>)

text \<open>A node that type checks executes without error on data of its type.\<close>

lemma checks_exec: "checks T k t node \<Longrightarrow> has_ty t v \<Longrightarrow> k \<le> n \<Longrightarrow> \<exists>s. exec T n v node = Inr s"
proof (induction T k t node arbitrary: v n rule: checks.induct)
  case (3 T k t path yes no)
  then obtain u where "path_ty path t = Some u" by auto
  then obtain w where w: "path_eval path v = Inr w" using has_ty_path [OF 3(4)] by blast
  have c: "list_all (checks T k t) yes" "list_all (checks T k t) no" using 3(3) by auto
  have "\<exists>s. emit (exec T n v) yes = Inr s" by (rule emit_checks [OF c(1)]) (rule 3(1) [OF _ _ 3(4,5)])
  moreover have "\<exists>s. emit (exec T n v) no = Inr s" by (rule emit_checks [OF c(2)]) (rule 3(2) [OF _ _ 3(4,5)])
  ultimately show ?case using w by simp
next
  case (4 T k t path body none)
  then obtain u where u: "path_ty path t = Some (TList u)" "list_all (checks T k u) body" "list_all (checks T k t) none"
    by (auto split: option.splits ty.splits)
  then obtain w where w: "path_eval path v = Inr w" "has_ty (TList u) w" using has_ty_path 4 by blast
  then obtain xs where xs: "w = DList xs" "list_all (has_ty u) xs" by (cases w) auto
  have "\<exists>s. emit (exec T n x) body = Inr s" if "x \<in> set xs" for x
  proof (rule emit_checks [OF u(2)])
    fix b assume "b \<in> set body" "checks T k u b"
    moreover have "has_ty u x" using that xs(2) by (simp add: list_all_iff)
    ultimately show "\<exists>s. exec T n x b = Inr s" using 4(1) [OF u(1) refl] 4(5) by blast
  qed
  then have "\<exists>s. emit (\<lambda>x. emit (exec T n x) body) xs = Inr s" by (rule emit_Inr)
  moreover have "\<exists>s. emit (exec T n v) none = Inr s"
    by (rule emit_checks [OF u(3)]) (rule 4(2) [OF u(1) refl _ _ 4(4,5)])
  ultimately show ?case using w xs by simp
next
  case (5 T k t name path)
  then obtain body u where b: "gm_get T name = Some body" "path_ty path t = Some u" "k \<noteq> 0"
      "list_all (checks T (k - 1) u) body" using 5(2) by (auto split: option.splits if_splits)
  then obtain w where w: "path_eval path v = Inr w" "has_ty u w" using has_ty_path 5 by blast
  have "\<exists>s. emit (exec T (n - 1) w) body = Inr s"
    by (rule emit_checks [OF b(4)]) (rule 5(1) [OF b(1,2,3) _ _ w(2) diff_le_mono [OF 5(4)]])
  moreover have "n \<noteq> 0" using b(3) 5(4) by simp
  ultimately show ?case using b(1) w(1) by simp
next
  case (2 T k t path)
  then obtain u where "path_ty path t = Some u" by auto
  then obtain w where "path_eval path v = Inr w" using has_ty_path [OF 2(2)] by blast
  then show ?case by simp
qed simp

text \<open>Type checking a command and a command list.\<close>

definition text_checks :: "tmpl \<Rightarrow> ty \<Rightarrow> tmpl option \<Rightarrow> bool" where
  "text_checks T t text =
     (case text of None \<Rightarrow> False
      | Some new \<Rightarrow>
        (case gm_get (tmpl_add new T) ''Template'' of None \<Rightarrow> False
         | Some ns \<Rightarrow> list_all (checks (tmpl_add new T) 1 t) ns))"

definition list_checks :: "ty \<Rightarrow> CommandList \<Rightarrow> bool" where
  "list_checks t cl =
     list_all (\<lambda>c. case c of None \<Rightarrow> False
       | Some c \<Rightarrow> text_checks (cl_template cl) t (c_Line c) \<and> text_checks (cl_template cl) t (c_Stdin c))
       (cl_Commands cl)"

lemma text_checks_execute:
  assumes "text_checks (cl_template cl) t text" "has_ty t v"
  shows "\<exists>s. executeTemplate cl text v = Inr s"
proof -
  obtain new ns where t: "text = Some new" "gm_get (tmpl_add new (cl_template cl)) ''Template'' = Some ns"
      "list_all (checks (tmpl_add new (cl_template cl)) 1 t) ns"
    using assms(1) by (auto simp: text_checks_def split: option.splits)
  have "\<exists>s. emit (exec (tmpl_add new (cl_template cl)) maxExecDepth v) ns = Inr s"
    using t assms(2) by (intro emit_Inr checks_exec) (auto simp: list_all_iff maxExecDepth_def)
  with t show ?thesis by (simp add: executeTemplate_def tmpl_Execute_def)
qed

lemma list_checks_cmds:
  assumes "list_checks t cl" "has_ty t v"
  shows "\<exists>cmds. list_cmds cl v acc (cl_Commands cl) = Returns (Inr cmds)"
proof -
  have "\<exists>cmds. list_cmds cl v acc cs = Returns (Inr cmds)"
    if "\<forall>c\<in>set cs. \<exists>d. c = Some d \<and> text_checks (cl_template cl) t (c_Line d) \<and> text_checks (cl_template cl) t (c_Stdin d)"
    for cs
    using that
  proof (induction cs arbitrary: acc)
    case (Cons c cs)
    then obtain d where d: "c = Some d" "text_checks (cl_template cl) t (c_Line d)" "text_checks (cl_template cl) t (c_Stdin d)"
      by auto
    obtain l i where "executeTemplate cl (c_Line d) v = Inr l" "executeTemplate cl (c_Stdin d) v = Inr i"
      using d text_checks_execute assms(2) by metis
    with Cons d(1) show ?case by (auto split: list.split)
  qed simp
  moreover have "\<forall>c\<in>set (cl_Commands cl). \<exists>d. c = Some d \<and> text_checks (cl_template cl) t (c_Line d) \<and>
      text_checks (cl_template cl) t (c_Stdin d)"
    using assms(1) by (auto simp: list_checks_def list_all_iff split: option.splits)
  ultimately show ?thesis by blast
qed

lemma GetCmds_checks:
  "getCommandList s name = Some cl \<Longrightarrow> list_checks t cl \<Longrightarrow> has_ty t v \<Longrightarrow> \<exists>cmds. GetCmds s name v = Returns (Inr cmds)"
  unfolding GetCmds_def by (simp add: list_checks_cmds)

text \<open>The types of the configuration and of the data with an additional slice.\<close>

definition config_types :: "(string \<times> ty) list" where
  "config_types =
     [(''DNSProxy'', TStruct [(''Address'', TStr)]),
      (''OpenConnect'', TStruct [(''VPNDevice'', TStr)]),
      (''Executables'', TStruct [(''IP'', TStr), (''Nft'', TStr), (''Resolvectl'', TStr), (''Sysctl'', TStr)]),
      (''SplitRouting'', TStruct [(''RoutingTable'', TStr), (''RulePriority1'', TStr), (''RulePriority2'', TStr),
         (''FirewallMark'', TStr)]),
      (''VPNConfig'', TStruct [(''Gateway'', TAddr),
         (''Device'', TStruct [(''Name'', TStr), (''MTU'', TInt)]),
         (''IPv4'', TPrefix), (''IPv6'', TPrefix), (''DNS'', TStruct [(''DefaultDomain'', TStr)])])]"

definition has_sections :: "'t Config \<Rightarrow> bool" where
  "has_sections c \<longleftrightarrow> cfg_DNSProxy c \<noteq> None \<and> cfg_OpenConnect c \<noteq> None \<and> cfg_Executables c \<noteq> None \<and>
     cfg_SplitRouting c \<noteq> None \<and> cfg_VPNConfig c \<noteq> None"

lemmas config_data_defs = config_fields_def DNSProxyConfig_data_def OpenConnect_data_def Executables_data_def
  SplitRoutingConfig_data_def VPNConfig_data_def VPNDevice_data_def

lemma config_data_ty: "has_sections c \<Longrightarrow> has_ty (TStruct config_types) (config_data c)"
  by (auto simp: has_sections_def config_types_def config_data_def config_data_defs)

lemma has_ty_extend:
  assumes "has_ty (TStruct ts) (DStruct fs)" "has_ty t v" "name \<noteq> a" "a \<notin> fst ` set ts" "name \<notin> fst ` set ts"
  shows "has_ty (TStruct ((name, t) # ts)) (DStruct ((a, x) # (name, v) # fs))"
  using assms by (force simp: list_all_iff split: option.splits)

lemma config_data_with_ty:
  "has_sections c \<Longrightarrow> has_ty t v \<Longrightarrow> name \<notin> {''Config'', ''DNSProxy'', ''OpenConnect'', ''Executables'', ''SplitRouting'', ''VPNConfig''} \<Longrightarrow>
     has_ty (TStruct ((name, t) # config_types)) (config_data_with name v c)"
proof -
  assume c: "has_sections c" "has_ty t v" "name \<notin> {''Config'', ''DNSProxy'', ''OpenConnect'', ''Executables'', ''SplitRouting'', ''VPNConfig''}"
  have names: "fst ` set config_types = {''DNSProxy'', ''OpenConnect'', ''Executables'', ''SplitRouting'', ''VPNConfig''}"
    by (simp add: config_types_def)
  then have "''Config'' \<notin> fst ` set config_types" by simp
  then show ?thesis
    unfolding config_data_with_def
    by (intro has_ty_extend [OF config_data_ty [OF c(1), unfolded config_data_def] c(2)])
      (use c(3) names in \<open>simp_all del: has_ty.simps\<close>)
qed

lemma list_data_ty: "(\<And>x. has_ty t (f x)) \<Longrightarrow> has_ty (TList t) (list_data f xs)"
  by (simp add: list_data_def list_all_iff)

lemma gm_get_tmpl_add:
  "gm_get (tmpl_add [(''Template'', ns)] DefaultTemplate) name =
     (if name = ''Template'' then Some (if tmpl_empty ns then [] else ns) else gm_get DefaultTemplate name)"
  by (simp add: tmpl_add_def DefaultTemplate_def)

lemma DefaultTemplate_get [simp]:
  "gm_get DefaultTemplate ''TrafPolRules'' = Some TrafPolRules"
  "gm_get DefaultTemplate ''SplitRoutingRules'' = Some SplitRoutingRules"
  by (simp_all add: DefaultTemplate_def)

lemma Rules_check [simp]:
  "list_all (checks T n (TStruct config_types)) TrafPolRules"
  "list_all (checks T n (TStruct config_types)) SplitRoutingRules"
  by (simp_all add: TrafPolRules_def SplitRoutingRules_def config_types_def)

lemma text_checks_default:
  "list_all (checks (tmpl_add [(''Template'', ns)] DefaultTemplate) 1 t) ns \<Longrightarrow>
     text_checks DefaultTemplate t (Some [(''Template'', ns)])"
  by (simp add: text_checks_def gm_get_tmpl_add)

definition default_checks :: "ty \<Rightarrow> Command list \<Rightarrow> bool" where
  "default_checks t cs = list_checks t (snd (default_list ('''', cs)))"

lemma default_checks_Nil [simp]: "default_checks t []"
  by (simp add: default_checks_def default_list_def list_checks_def)

lemma default_checks_Cons:
  "list_all (checks (tmpl_add [(''Template'', line)] DefaultTemplate) 1 t) line \<Longrightarrow>
     list_all (checks (tmpl_add [(''Template'', stdin)] DefaultTemplate) 1 t) stdin \<Longrightarrow>
     default_checks t cs \<Longrightarrow> default_checks t (cmd line stdin # cs)"
  using text_checks_default [of line t] text_checks_default [of stdin t]
  unfolding default_checks_def default_list_def list_checks_def cmd_def
  by (simp del: checks.simps)

lemma default_lists_check:
  "default_checks (TStruct config_types) TrafPolSetFilterRules_cmds"
  "default_checks (TStruct config_types) TrafPolUnsetFilterRules_cmds"
  "default_checks (TStruct config_types) TrafPolCleanup_cmds"
  "default_checks (TStruct config_types) VPNSetupSetup_cmds"
  "default_checks (TStruct config_types) VPNSetupTeardown_cmds"
  "default_checks (TStruct config_types) VPNSetupSetDNS_cmds"
  "default_checks (TStruct config_types) VPNSetupGetDNS_cmds"
  "default_checks (TStruct config_types) VPNSetupCleanup_cmds"
  "default_checks (TStruct ((''Devices'', TList TStr) # config_types)) TrafPolSetAllowedDevices_cmds"
  "default_checks (TStruct ((''AllowedIPs'', TList TPrefix) # config_types)) TrafPolSetAllowedHosts_cmds"
  "default_checks (TStruct ((''Ports'', TList TInt) # config_types)) TrafPolSetAllowedPorts_cmds"
  "default_checks (TStruct ((''Addresses'', TList TPrefix) # config_types)) VPNSetupSetExcludes_cmds"
  unfolding TrafPolSetFilterRules_cmds_def TrafPolUnsetFilterRules_cmds_def TrafPolCleanup_cmds_def
    VPNSetupSetup_cmds_def VPNSetupTeardown_cmds_def VPNSetupSetDNS_cmds_def VPNSetupGetDNS_cmds_def VPNSetupCleanup_cmds_def
    TrafPolSetAllowedDevices_cmds_def TrafPolSetAllowedHosts_cmds_def TrafPolSetAllowedPorts_cmds_def VPNSetupSetExcludes_cmds_def
  by (intro default_checks_Cons default_checks_Nil; simp add: gm_get_tmpl_add; simp add: config_types_def)+

section \<open>Commands of the default lists\<close>

lemma executeTemplate_default:
  "executeTemplate \<lparr>cl_Name = n, cl_Commands = cs, cl_template = DefaultTemplate\<rparr> (Some [(''Template'', ns)]) v =
     (if tmpl_empty ns then Inr [] else emit (exec (tmpl_add [(''Template'', ns)] DefaultTemplate) maxExecDepth v) ns)"
  by (simp add: executeTemplate_def tmpl_Execute_def gm_get_tmpl_add)

text \<open>Words: what a field of a command line can be.\<close>

definition is_word :: "string \<Rightarrow> bool" where
  "is_word w \<longleftrightarrow> w \<noteq> [] \<and> list_all (\<lambda>c. \<not> ascii_space c) w"

lemma is_word_nonempty [simp]: "is_word w \<Longrightarrow> w \<noteq> []"
  by (simp add: is_word_def)

lemma fields_acc_append:
  "list_all (\<lambda>c. \<not> ascii_space c) w \<Longrightarrow> fields_acc acc (w @ s) = fields_acc (rev w @ acc) s"
  by (induction w arbitrary: acc) simp_all

lemma fields_space_append: "ascii_space c \<Longrightarrow> fields_acc acc (s @ c # t) = fields_acc acc s @ Prelude.fields t"
  by (induction acc s rule: fields_acc.induct) (simp_all add: Prelude.fields_def)

lemma fields_word [simp]: "is_word w \<Longrightarrow> Prelude.fields w = [w]"
  using fields_acc_append [of w "[]" "[]"] by (simp add: Prelude.fields_def is_word_def)

lemma fields_word_append [simp]:
  "is_word w \<Longrightarrow> Prelude.fields (w @ CHR '' '' # t) = w # Prelude.fields t"
  using fields_space_append [of "CHR '' ''" "[]" w t] fields_word [of w] by (simp add: Prelude.fields_def ascii_space_def)

lemma fields_append_space:
  "Prelude.fields (s @ CHR '' '' # t) = Prelude.fields s @ Prelude.fields t"
  using fields_space_append [of "CHR '' ''" "[]" s t] by (simp add: Prelude.fields_def ascii_space_def)

lemma fields_space [simp]: "Prelude.fields (CHR '' '' # t) = Prelude.fields t"
  by (simp add: Prelude.fields_def ascii_space_def)

text \<open>A list of one command that sends a text to the packet filter.\<close>

lemma GetCmds_nft:
  assumes "gm_get CommandLists name = Some (snd (default_list (name, [cmd [Act [''Executables'', ''Nft''], Txt '' -f -''] ns])))"
    and "path_value [''Executables'', ''Nft''] v = Some (DStr nft)" "is_word nft" "\<not> tmpl_empty ns"
    and "emit (exec (tmpl_add [(''Template'', ns)] DefaultTemplate) maxExecDepth v) ns = Inr text"
  shows "GetCmds cmdtmpl_init name v = Returns (Inr [\<lparr>cmd_Cmd = nft, cmd_Args = [''-f'', ''-''], cmd_Stdin = text\<rparr>])"
proof -
  have "\<not> tmpl_empty [Act [''Executables'', ''Nft''], Txt '' -f -'']" by (simp add: tmpl_empty_def)
  moreover have "Prelude.fields '' -f -'' = [''-f'', ''-'']" by code_simp
  moreover have "Prelude.fields (nft @ '' -f -'') = nft # Prelude.fields ''-f -''" using assms(3) by simp
  ultimately show ?thesis
    using assms(2-5)
    by (simp add: GetCmds_def getCommandList_def cmdtmpl_init_def assms(1) default_list_def cmd_def
        executeTemplate_default path_eval_def)
qed

lemma emit_map: "(\<And>x. x \<in> set xs \<Longrightarrow> f x = Inr (g x)) \<Longrightarrow> emit f xs = Inr (concat (map g xs))"
  by (induction xs) simp_all

lemma split_lines:
  "\<forall>l\<in>set ls. c \<notin> set l \<Longrightarrow> split_char c (concat (map (\<lambda>l. l @ [c]) ls)) = ls @ [[]]"
  by (induction ls) (simp_all add: go_str)

text \<open>The texts for the sets of the packet filter.\<close>

definition lines_text :: "string list \<Rightarrow> string" where
  "lines_text ls = concat (map (\<lambda>l. l @ [CHR 0x0A]) ls)"

definition device_lines :: "string list \<Rightarrow> string list" where
  "device_lines ds = ''flush set inet oc-daemon-filter allowdevs'' #
     map (\<lambda>d. ''add element inet oc-daemon-filter allowdevs { '' @ d @ '' }'') ds"

definition host_lines :: "prefix list \<Rightarrow> string list" where
  "host_lines ps =
     [''flush set inet oc-daemon-filter allowhosts4'', ''flush set inet oc-daemon-filter allowhosts6''] @
     map (\<lambda>p. if addr_Is4 (prefix_Addr p)
               then ''add element inet oc-daemon-filter allowhosts4 { '' @ prefix_String p @ '' }''
               else ''add element inet oc-daemon-filter allowhosts6 { '' @ prefix_String p @ '' }'') ps"

definition port_lines :: "u16 list \<Rightarrow> string list" where
  "port_lines ports = ''flush set inet oc-daemon-filter allowports'' #
     map (\<lambda>p. ''add element inet oc-daemon-filter allowports { '' @ show_int (uint p) @ '' }'') ports"

definition exclude_lines :: "prefix list \<Rightarrow> string list" where
  "exclude_lines ps =
     [''flush set inet oc-daemon-routing excludes4'', ''flush set inet oc-daemon-routing excludes6''] @
     map (\<lambda>p. if addr_Is6 (prefix_Addr p)
               then ''add element inet oc-daemon-routing excludes6 { '' @ prefix_String p @ '' }''
               else ''add element inet oc-daemon-routing excludes4 { '' @ prefix_String p @ '' }'') ps"

definition nft_cmd :: "'t Config \<Rightarrow> string list \<Rightarrow> Cmd list" where
  "nft_cmd c ls = (case cfg_Executables c of None \<Rightarrow> []
     | Some exe \<Rightarrow> [\<lparr>cmd_Cmd = exe_Nft exe, cmd_Args = [''-f'', ''-''], cmd_Stdin = lines_text ls\<rparr>])"

lemma path_value_nft:
  assumes "cfg_Executables c = Some exe"
  shows "path_value [''Executables'', ''Nft''] (config_data c) = Some (DStr (exe_Nft exe))"
    and "name \<noteq> ''Executables'' \<Longrightarrow>
      path_value [''Executables'', ''Nft''] (config_data_with name v c) = Some (DStr (exe_Nft exe))"
  using assms by (simp_all add: config_data_def config_data_with_def config_fields_def Executables_data_def)

lemma indented_flat: "indented ch [(0, a)] = a" "indented ch ((0, a) # l # ls) = a @ CHR 0x0A # indented ch (l # ls)"
  by (simp_all add: indented_def)

lemma CommandLists_get:
  "gm_get CommandLists ''TrafPolSetFilterRules'' = Some (snd (default_list (''TrafPolSetFilterRules'', TrafPolSetFilterRules_cmds)))"
  "gm_get CommandLists ''TrafPolUnsetFilterRules'' = Some (snd (default_list (''TrafPolUnsetFilterRules'', TrafPolUnsetFilterRules_cmds)))"
  "gm_get CommandLists ''TrafPolSetAllowedDevices'' = Some (snd (default_list (''TrafPolSetAllowedDevices'', TrafPolSetAllowedDevices_cmds)))"
  "gm_get CommandLists ''TrafPolSetAllowedHosts'' = Some (snd (default_list (''TrafPolSetAllowedHosts'', TrafPolSetAllowedHosts_cmds)))"
  "gm_get CommandLists ''TrafPolSetAllowedPorts'' = Some (snd (default_list (''TrafPolSetAllowedPorts'', TrafPolSetAllowedPorts_cmds)))"
  "gm_get CommandLists ''TrafPolCleanup'' = Some (snd (default_list (''TrafPolCleanup'', TrafPolCleanup_cmds)))"
  "gm_get CommandLists ''VPNSetupSetup'' = Some (snd (default_list (''VPNSetupSetup'', VPNSetupSetup_cmds)))"
  "gm_get CommandLists ''VPNSetupTeardown'' = Some (snd (default_list (''VPNSetupTeardown'', VPNSetupTeardown_cmds)))"
  "gm_get CommandLists ''VPNSetupSetExcludes'' = Some (snd (default_list (''VPNSetupSetExcludes'', VPNSetupSetExcludes_cmds)))"
  "gm_get CommandLists ''VPNSetupSetDNS'' = Some (snd (default_list (''VPNSetupSetDNS'', VPNSetupSetDNS_cmds)))"
  "gm_get CommandLists ''VPNSetupGetDNS'' = Some (snd (default_list (''VPNSetupGetDNS'', VPNSetupGetDNS_cmds)))"
  "gm_get CommandLists ''VPNSetupCleanup'' = Some (snd (default_list (''VPNSetupCleanup'', VPNSetupCleanup_cmds)))"
  by (simp_all add: CommandLists_def default_list_def)

lemma emit_flat [simp]: "emit (\<lambda>x. Inr (h x)) xs = Inr (concat (map h xs))"
  by (rule emit_map) simp

lemma emit_mapped [simp]: "emit f (map g xs) = emit (\<lambda>x. f (g x)) xs"
  by (induction xs) simp_all

lemmas nft_text = tmpl_empty_def path_eval_def config_data_with_def list_data_def lines_text_def indented_flat comp_def
  if_distrib [of Inr, symmetric] if_distrib [of "\<lambda>l. l @ [CHR 0x0A]"]

lemma set_lists_cmds:
  assumes "cfg_Executables c = Some exe" "is_word (exe_Nft exe)"
  shows SetAllowedDevices_cmds: "tp_cmds cmdtmpl_init c (SetAllowedDevices ds) = Returns (Inr (nft_cmd c (device_lines ds)))"
    and SetAllowedIPs_cmds: "tp_cmds cmdtmpl_init c (SetAllowedIPs ps) = Returns (Inr (nft_cmd c (host_lines ps)))"
    and SetAllowedPorts_cmds: "tp_cmds cmdtmpl_init c (SetAllowedPorts ports) = Returns (Inr (nft_cmd c (port_lines ports)))"
    and SetExcludes_cmds: "vpn_cmds cmdtmpl_init c (VPNSetupSetExcludes ps) = Returns (Inr (nft_cmd c (exclude_lines ps)))"
  unfolding tp_cmds.simps vpn_cmds.simps nft_cmd_def devices_data_def allowedIPs_data_def ports_data_def addresses_data_def
    assms(1) option.case
  subgoal by (rule GetCmds_nft [OF CommandLists_get(3) [unfolded TrafPolSetAllowedDevices_cmds_def] path_value_nft(2) [OF assms(1)] assms(2)])
      (simp_all add: nft_text device_lines_def)
  subgoal by (rule GetCmds_nft [OF CommandLists_get(4) [unfolded TrafPolSetAllowedHosts_cmds_def] path_value_nft(2) [OF assms(1)] assms(2)])
      (simp_all add: nft_text host_lines_def cong: if_cong)
  subgoal by (rule GetCmds_nft [OF CommandLists_get(5) [unfolded TrafPolSetAllowedPorts_cmds_def] path_value_nft(2) [OF assms(1)] assms(2)])
      (simp_all add: nft_text port_lines_def)
  subgoal by (rule GetCmds_nft [OF CommandLists_get(9) [unfolded VPNSetupSetExcludes_cmds_def] path_value_nft(2) [OF assms(1)] assms(2)])
      (simp_all add: nft_text exclude_lines_def cong: if_cong)
  done

lemma digit_chars_word: "c \<in> digit_chars \<Longrightarrow> \<not> ascii_space c"
  by (auto simp: digit_chars_def ascii_space_def)

lemma show_int_word [simp]: "is_word (show_int i)"
proof -
  have "list_all (\<lambda>c. \<not> ascii_space c) (show_dec n)" for n
    using show_base_chars [of 10 n] digit_chars_word by (auto simp: list_all_iff)
  then show ?thesis by (simp add: is_word_def show_int_def) (simp add: ascii_space_def)
qed

text \<open>The text of a valid prefix without zone is a word.\<close>

lemma addr_String_chars:
  assumes "addr_zone a = ''''" "a \<noteq> AddrZero"
  shows "set (addr_String a) \<subseteq> digit_chars \<union> {CHR ''.'', CHR '':''}"
proof (cases a)
  case (IP6 w z)
  have f: "CHR ''f'' \<in> digit_chars" by (simp add: digit_chars_def)
  have "set (string4 u) \<subseteq> digit_chars \<union> {CHR ''.'', CHR '':''}" for u using set_string4 [of u] by blast
  moreover have "set (groups_text g) \<subseteq> digit_chars \<union> {CHR ''.'', CHR '':''}" for g using set_groups_text [of g] by blast
  ultimately show ?thesis using IP6 assms(1) f by (simp add: zone_text_def)
next
  case (IP4 w)
  then show ?thesis using set_string4 [of w] by auto
qed (use assms in simp)

lemma prefix_String_word:
  assumes "prefix_wf p" "prefix_IsValid p"
  shows "is_word (prefix_String p)"
proof -
  have "set (addr_String (prefix_Addr p)) \<subseteq> digit_chars \<union> {CHR ''.'', CHR '':''}"
    by (rule addr_String_chars) (use assms in \<open>auto simp: prefix_wf_def prefix_IsValid_def\<close>)
  moreover have "set (show_dec n) \<subseteq> digit_chars" for n by (rule show_base_chars)
  ultimately have "set (prefix_String p) \<subseteq> digit_chars \<union> {CHR ''.'', CHR '':'', CHR ''/''}"
    using assms(2) by (fastforce simp: prefix_String_def)
  then have "\<not> ascii_space c" if "c \<in> set (prefix_String p)" for c
    using that digit_chars_word [of c] by (auto simp: ascii_space_def)
  then show ?thesis using assms(2) by (auto simp: is_word_def list_all_iff prefix_String_def)
qed

lemma word_no_newline: "is_word w \<Longrightarrow> CHR 0x0A \<notin> set w"
  by (auto simp: is_word_def list_all_iff ascii_space_def)

lemma prefix_no_newline: "prefix_wf p \<Longrightarrow> CHR 0x0A \<notin> set (prefix_String p)"
  using prefix_String_word [of p] word_no_newline [of "prefix_String p"]
  by (cases "prefix_IsValid p") (blast, simp add: prefix_String_def)

section \<open>Argument vectors\<close>

text \<open>The words of a command.\<close>

definition argv :: "Cmd \<Rightarrow> string list" where
  "argv c = cmd_Cmd c # cmd_Args c"

lemma fields_acc_Nil [simp]: "fields_acc [] s = Prelude.fields s"
  by (simp add: Prelude.fields_def)

lemma fields_literal: "\<not> ascii_space c \<Longrightarrow> Prelude.fields (c # s) = fields_acc [c] s" "Prelude.fields [] = []"
  by (simp_all add: Prelude.fields_def)

lemma fields_acc_word:
  assumes "is_word w"
  shows "acc \<noteq> [] \<Longrightarrow> fields_acc acc (w @ CHR '' '' # s) = (rev acc @ w) # Prelude.fields s"
    and "\<not> ascii_space c \<Longrightarrow> Prelude.fields (w @ c # s) = fields_acc (c # rev w) s"
proof -
  have w: "list_all (\<lambda>c. \<not> ascii_space c) w" using assms by (simp add: is_word_def)
  show "acc \<noteq> [] \<Longrightarrow> fields_acc acc (w @ CHR '' '' # s) = (rev acc @ w) # Prelude.fields s"
    using fields_acc_append [OF w] by (simp add: ascii_space_def)
  show "\<not> ascii_space c \<Longrightarrow> Prelude.fields (w @ c # s) = fields_acc (c # rev w) s"
    using fields_acc_append [OF w, of "[]"] by (simp add: Prelude.fields_def del: fields_acc_Nil)
qed

lemmas line_eval = fields_acc_word fields_append_space executeTemplate_default cmd_def default_list_def tmpl_empty_def path_eval_def
  fields_literal ascii_space_def

text \<open>
  A configuration with all sections, in which executables, routing settings, device and the
  address of the DNS proxy are words.
\<close>

definition config_words :: "'t Config \<Rightarrow> Executables \<Rightarrow> SplitRoutingConfig \<Rightarrow> DNSProxyConfig \<Rightarrow> VPNConfig \<Rightarrow> bool" where
  "config_words c exe sr dns vpn \<longleftrightarrow>
     cfg_Executables c = Some exe \<and> cfg_SplitRouting c = Some sr \<and> cfg_DNSProxy c = Some dns \<and> cfg_VPNConfig c = Some vpn \<and>
     cfg_OpenConnect c \<noteq> None \<and>
     list_all is_word [exe_IP exe, exe_Nft exe, exe_Resolvectl exe, exe_Sysctl exe, sr_RoutingTable sr, sr_RulePriority1 sr,
       sr_RulePriority2 sr, sr_FirewallMark sr, dp_Address dns, vd_Name (vpn_Device vpn)] \<and>
     prefix_wf (vpn_IPv4 vpn) \<and> prefix_wf (vpn_IPv6 vpn)"


lemmas config_eval = config_words_def line_eval config_data_def config_data_defs prefix_String_word

lemma config_words_sections: "config_words c exe sr dns vpn \<Longrightarrow> has_sections c"
  by (simp add: config_words_def has_sections_def)

text \<open>The argument vectors of the commands of a default list.\<close>

definition argvs :: "data \<Rightarrow> Command list \<Rightarrow> string list list \<Rightarrow> bool" where
  "argvs v cs r \<longleftrightarrow> (\<forall>n all acc. \<exists>cmds. list_cmds \<lparr>cl_Name = n, cl_Commands = all, cl_template = DefaultTemplate\<rparr> v acc (map Some cs) =
     Returns (Inr cmds) \<and> map argv cmds = map argv acc @ r)"

lemma argvs_Nil: "argvs v [] []"
  by (simp add: argvs_def)

lemma argvs_Cons:
  assumes "executeTemplate \<lparr>cl_Name = '''', cl_Commands = [], cl_template = DefaultTemplate\<rparr> (Some [(''Template'', line)]) v = Inr l"
    and "\<exists>i. executeTemplate \<lparr>cl_Name = '''', cl_Commands = [], cl_template = DefaultTemplate\<rparr> (Some [(''Template'', stdin)]) v = Inr i"
    and "Prelude.fields l = (if P then w else [])" "w \<noteq> []" "argvs v cs r"
  shows "argvs v (cmd line stdin # cs) ((if P then [w] else []) @ r)"
  unfolding argvs_def
proof (intro allI)
  fix n all acc
  let ?cl = "\<lparr>cl_Name = n, cl_Commands = all, cl_template = DefaultTemplate\<rparr>"
  obtain i where e: "executeTemplate ?cl (Some [(''Template'', line)]) v = Inr l" "executeTemplate ?cl (Some [(''Template'', stdin)]) v = Inr i"
    using assms(1,2) by (auto simp: executeTemplate_def)
  obtain c a where w: "w = c # a" using assms(4) by (cases w) auto
  let ?acc = "if P then acc @ [\<lparr>cmd_Cmd = c, cmd_Args = a, cmd_Stdin = i\<rparr>] else acc"
  obtain cmds where "list_cmds ?cl v ?acc (map Some cs) = Returns (Inr cmds)" "map argv cmds = map argv ?acc @ r"
    using assms(5) unfolding argvs_def by blast
  moreover have "list_cmds ?cl v acc (map Some (cmd line stdin # cs)) = list_cmds ?cl v ?acc (map Some cs)"
    using e assms(3) w by (simp add: cmd_def)
  ultimately show "\<exists>cmds. list_cmds ?cl v acc (map Some (cmd line stdin # cs)) = Returns (Inr cmds) \<and>
      map argv cmds = map argv acc @ (if P then [w] else []) @ r"
    using w by (auto simp: argv_def)
qed

lemma argvs_word:
  assumes "executeTemplate \<lparr>cl_Name = '''', cl_Commands = [], cl_template = DefaultTemplate\<rparr> (Some [(''Template'', line)]) v = Inr l"
    and "Prelude.fields l = w" "w \<noteq> []" "argvs v cs r"
  shows "argvs v (cmd line [] # cs) (w # r)"
  using argvs_Cons [of line v l "[]" True w, OF assms(1) _ _ assms(3,4)] assms(2)
  by (simp add: executeTemplate_default tmpl_empty_def)

lemma argvs_GetCmds:
  assumes "gm_get CommandLists name = Some (snd (default_list (name, cs)))" "argvs v cs r"
  shows "\<exists>cmds. GetCmds cmdtmpl_init name v = Returns (Inr cmds) \<and> map argv cmds = r"
proof -
  obtain cmds where "list_cmds (snd (default_list (name, cs))) v [] (map Some cs) = Returns (Inr cmds)" "map argv cmds = r"
    using assms(2) unfolding argvs_def by (fastforce simp: default_list_def)
  then show ?thesis by (simp add: GetCmds_def getCommandList_def cmdtmpl_init_def assms(1)) (simp add: default_list_def)
qed

lemma argvs_if:
  assumes "path_eval path v = Inr (DBool P)"
    and "P \<Longrightarrow> emit (exec (tmpl_add [(''Template'', [IfN path yes []])] DefaultTemplate) maxExecDepth v) yes = Inr l"
    and "P \<Longrightarrow> Prelude.fields l = w" "w \<noteq> []" "argvs v cs r"
  shows "argvs v (cmd [IfN path yes []] [] # cs) ((if P then [w] else []) @ r)"
proof (rule argvs_Cons)
  show "executeTemplate \<lparr>cl_Name = '''', cl_Commands = [], cl_template = DefaultTemplate\<rparr> (Some [(''Template'', [IfN path yes []])]) v =
      Inr (if P then l else [])"
    using assms(1,2) by (simp add: executeTemplate_default tmpl_empty_def)
qed (use assms(3-5) in \<open>simp_all add: executeTemplate_default tmpl_empty_def fields_literal\<close>)

lemma argvs_SplitRoutingRules:
  assumes "has_sections c" "cfg_Executables c = Some exe" "is_word (exe_Nft exe)" "argvs (config_data c) cs r"
  shows "argvs (config_data c) (cmd [Act [''Executables'', ''Nft''], Txt '' -f -''] [CallN ''SplitRoutingRules'' []] # cs)
    ([exe_Nft exe, ''-f'', ''-''] # r)"
proof -
  have "\<exists>i. executeTemplate \<lparr>cl_Name = '''', cl_Commands = [], cl_template = DefaultTemplate\<rparr> (Some [(''Template'', [CallN ''SplitRoutingRules'' []])])
      (config_data c) = Inr i"
    by (rule text_checks_execute [OF _ config_data_ty [OF assms(1)]]) (simp add: text_checks_default gm_get_tmpl_add)
  from argvs_Cons [OF _ this, of "[Act [''Executables'', ''Nft''], Txt '' -f -'']" "exe_Nft exe @ '' -f -''" True "[exe_Nft exe, ''-f'', ''-'']", OF _ _ _ assms(4)]
  show ?thesis using assms(2,3)
    by (simp add: line_eval config_data_def config_data_defs)
qed

definition dns_commands :: "Executables \<Rightarrow> DNSProxyConfig \<Rightarrow> VPNConfig \<Rightarrow> string list list" where
  "dns_commands exe dns vpn =
     [[exe_Resolvectl exe, ''dns'', vd_Name (vpn_Device vpn), dp_Address dns],
      [exe_Resolvectl exe, ''domain'', vd_Name (vpn_Device vpn)] @ Prelude.fields (vn_DefaultDomain (vpn_DNS vpn)) @ [''~.'']]"

text \<open>The commands expected of the setup.\<close>

definition setup_commands :: "Executables \<Rightarrow> SplitRoutingConfig \<Rightarrow> DNSProxyConfig \<Rightarrow> VPNConfig \<Rightarrow> string list list" where
  "setup_commands exe sr dns vpn =
     (let ip = exe_IP exe; dev = vd_Name (vpn_Device vpn); resolvectl = exe_Resolvectl exe in
      [[ip, ''link'', ''set'', dev, ''mtu'', show_int (vd_MTU (vpn_Device vpn))],
       [ip, ''link'', ''set'', dev, ''up'']] @
      (if prefix_IsValid (vpn_IPv4 vpn) then [[ip, ''address'', ''add'', prefix_String (vpn_IPv4 vpn), ''dev'', dev]] else []) @
      (if prefix_IsValid (vpn_IPv6 vpn) then [[ip, ''address'', ''add'', prefix_String (vpn_IPv6 vpn), ''dev'', dev]] else []) @
      [[exe_Nft exe, ''-f'', ''-''],
       [ip, ''-4'', ''route'', ''add'', ''0.0.0.0/0'', ''dev'', dev, ''table'', sr_RoutingTable sr],
       [ip, ''-4'', ''rule'', ''add'', ''iif'', dev, ''table'', ''main'', ''pref'', sr_RulePriority1 sr],
       [ip, ''-4'', ''rule'', ''add'', ''not'', ''fwmark'', sr_FirewallMark sr, ''table'', sr_RoutingTable sr, ''pref'', sr_RulePriority2 sr],
       [exe_Sysctl exe, ''-q'', ''net.ipv4.conf.all.src_valid_mark=1''],
       [ip, ''-6'', ''route'', ''add'', ''::/0'', ''dev'', dev, ''table'', sr_RoutingTable sr],
       [ip, ''-6'', ''rule'', ''add'', ''iif'', dev, ''table'', ''main'', ''pref'', sr_RulePriority1 sr],
       [ip, ''-6'', ''rule'', ''add'', ''not'', ''fwmark'', sr_FirewallMark sr, ''table'', sr_RoutingTable sr, ''pref'', sr_RulePriority2 sr]] @
      dns_commands exe dns vpn @
      [[resolvectl, ''default-route'', dev, ''yes''],
       [resolvectl, ''flush-caches''],
       [resolvectl, ''reset-server-features'']])"

lemma setup_argvs:
  assumes "config_words c exe sr dns vpn"
  shows "argvs (config_data c) VPNSetupSetup_cmds (setup_commands exe sr dns vpn)"
  unfolding VPNSetupSetup_cmds_def setup_commands_def dns_commands_def Let_def append.append_Cons append.append_Nil
  apply (rule argvs_word, (use assms in \<open>simp add: config_eval\<close>), (use assms in \<open>simp add: config_eval\<close>), simp)+
   apply (rule argvs_if, (use assms in \<open>simp add: config_eval\<close>), (use assms in \<open>simp add: config_eval\<close>),
      (use assms in \<open>simp add: config_eval\<close>), simp)+
   apply (rule argvs_SplitRoutingRules [OF config_words_sections [OF assms]],
      (use assms in \<open>simp add: config_words_def\<close>), (use assms in \<open>simp add: config_words_def\<close>))
  apply (rule argvs_word, (use assms in \<open>simp add: config_eval\<close>), (use assms in \<open>simp add: config_eval\<close>), simp)+
  apply (rule argvs_Nil)
  done

lemma SetDNS_argvs:
  assumes "config_words c exe sr dns vpn"
  shows "argvs (config_data c) VPNSetupSetDNS_cmds (dns_commands exe dns vpn @
    [[exe_Resolvectl exe, ''default-route'', ''{'' @ vd_Name (vpn_Device vpn), show_int (vd_MTU (vpn_Device vpn)) @ ''}'', ''yes'']])"
  unfolding VPNSetupSetDNS_cmds_def dns_commands_def append.append_Cons append.append_Nil
  apply (rule argvs_word, (use assms in \<open>simp add: config_eval\<close>), (use assms in \<open>simp add: config_eval\<close>), simp)+
  apply (rule argvs_Nil)
  done

text \<open>The commands expected of the teardown.\<close>

definition teardown_commands :: "Executables \<Rightarrow> SplitRoutingConfig \<Rightarrow> VPNConfig \<Rightarrow> string list list" where
  "teardown_commands exe sr vpn =
     (let ip = exe_IP exe; dev = vd_Name (vpn_Device vpn); resolvectl = exe_Resolvectl exe in
      [[ip, ''link'', ''set'', dev, ''down''],
       [ip, ''-4'', ''rule'', ''delete'', ''table'', sr_RoutingTable sr],
       [ip, ''-4'', ''rule'', ''delete'', ''iif'', dev, ''table'', ''main''],
       [ip, ''-6'', ''rule'', ''delete'', ''table'', sr_RoutingTable sr],
       [ip, ''-6'', ''rule'', ''delete'', ''iif'', dev, ''table'', ''main''],
       [exe_Nft exe, ''-f'', ''-'', ''delete'', ''table'', ''inet'', ''oc-daemon-routing''],
       [resolvectl, ''revert'', dev],
       [resolvectl, ''flush-caches''],
       [resolvectl, ''reset-server-features'']])"

lemma teardown_argvs:
  assumes "config_words c exe sr dns vpn"
  shows "argvs (config_data c) VPNSetupTeardown_cmds (teardown_commands exe sr vpn)"
  unfolding VPNSetupTeardown_cmds_def teardown_commands_def Let_def
  apply (rule argvs_word, (use assms in \<open>simp add: config_eval\<close>), (use assms in \<open>simp add: config_eval\<close>), simp)+
  apply (rule argvs_Nil)
  done

section \<open>Refinement of the packet filter sets\<close>

text \<open>
  What the program relies on of \<^verbatim>\<open>nft -f -\<close>: the lines of the input are executed in their order; a
  flush empties a set, and adding an element inserts it. The sets of the filter are read and changed by
  the arguments.
\<close>

definition nft_set :: "(string \<Rightarrow> 's \<Rightarrow> 's) \<Rightarrow> string \<Rightarrow> (('e set \<Rightarrow> 'e set) \<Rightarrow> 's \<Rightarrow> 's) \<Rightarrow> ('e \<Rightarrow> string) \<Rightarrow> 'e set \<Rightarrow> bool" where
  "nft_set line name upd txt elems \<longleftrightarrow>
     (\<forall>s. line (''flush set inet '' @ name) s = upd (\<lambda>_. {}) s) \<and>
     (\<forall>e\<in>elems. \<forall>s. line (''add element inet '' @ name @ '' { '' @ txt e @ '' }'') s = upd (insert e) s)"

definition nft_reads :: "(string \<Rightarrow> string \<Rightarrow> string list \<Rightarrow> 's \<Rightarrow> 's) \<Rightarrow> string \<Rightarrow> (string \<Rightarrow> 's \<Rightarrow> 's) \<Rightarrow> bool" where
  "nft_reads runCmd nft line \<longleftrightarrow>
     (\<forall>s. line '''' s = s) \<and>
     (\<forall>stdin s. runCmd nft stdin [''-f'', ''-''] s = foldl (\<lambda>s l. line l s) s (split_char (CHR 0x0A) stdin))"

lemma run_nft_cmd:
  assumes "nft_reads runCmd (exe_Nft exe) line" "cfg_Executables c = Some exe" "\<forall>l\<in>set ls. CHR 0x0A \<notin> set l"
  shows "run_cmds runCmd (Inr (nft_cmd c ls)) s = foldl (\<lambda>s l. line l s) s ls"
  using assms by (simp add: run_cmds_def nft_cmd_def Cmd_Run_def nft_reads_def lines_text_def split_lines)

text \<open>Adding the elements of a list to a set one after the other.\<close>

lemma foldl_insert_upd:
  assumes "\<And>f g s. upd f (upd g s) = upd (f \<circ> g) s" "\<And>s. upd id s = s"
  shows "foldl (\<lambda>s e. upd (insert e) s) (upd (\<lambda>_. A) s) es = upd (\<lambda>_. set es \<union> A) s"
  by (induction es arbitrary: A) (simp_all add: assms(1) comp_def)

lemma foldl_lines: "foldl (\<lambda>s l. line l s) s (map h es) = foldl (\<lambda>s e. line (h e) s) s es"
  by (induction es arbitrary: s) simp_all

text \<open>Adding elements to two sets, chosen by a condition.\<close>

lemma foldl_two_sets:
  assumes "\<And>f g s. upd1 f (upd1 g s) = upd1 (f \<circ> g) s" "\<And>f g s. upd2 f (upd2 g s) = upd2 (f \<circ> g) s"
    and "\<And>f g s. upd1 f (upd2 g s) = upd2 g (upd1 f s)"
  shows "foldl (\<lambda>s e. if P e then upd1 (insert e) s else upd2 (insert e) s) (upd2 (\<lambda>_. B) (upd1 (\<lambda>_. A) s)) es =
     upd2 (\<lambda>_. {e \<in> set es. \<not> P e} \<union> B) (upd1 (\<lambda>_. {e \<in> set es. P e} \<union> A) s)"
proof (induction es arbitrary: A B)
  case (Cons e es)
  have "foldl (\<lambda>s e. if P e then upd1 (insert e) s else upd2 (insert e) s) (upd2 (\<lambda>_. B) (upd1 (\<lambda>_. A) s)) (e # es) =
      foldl (\<lambda>s e. if P e then upd1 (insert e) s else upd2 (insert e) s)
        (upd2 (\<lambda>_. if P e then B else insert e B) (upd1 (\<lambda>_. if P e then insert e A else A) s)) es"
    by (simp add: assms comp_def)
  also have "\<dots> = upd2 (\<lambda>_. {x \<in> set es. \<not> P x} \<union> (if P e then B else insert e B))
      (upd1 (\<lambda>_. {x \<in> set es. P x} \<union> (if P e then insert e A else A)) s)"
    by (rule Cons.IH)
  also have "{x \<in> set es. \<not> P x} \<union> (if P e then B else insert e B) = {x \<in> set (e # es). \<not> P x} \<union> B" by auto
  also have "{x \<in> set es. P x} \<union> (if P e then insert e A else A) = {x \<in> set (e # es). P x} \<union> A" by auto
  finally show ?case .
qed simp

lemma nft_setD:
  "nft_set line name upd txt elems \<Longrightarrow> line (''flush set inet '' @ name) s = upd (\<lambda>_. {}) s"
  "nft_set line name upd txt elems \<Longrightarrow> e \<in> elems \<Longrightarrow>
     line (''add element inet '' @ name @ '' { '' @ txt e @ '' }'') s = upd (insert e) s"
  by (simp_all add: nft_set_def)

definition filter_sets :: "(string \<Rightarrow> Filter \<Rightarrow> Filter) \<Rightarrow> string set \<Rightarrow> prefix set \<Rightarrow> u16 set \<Rightarrow> bool" where
  "filter_sets line ds ps ports \<longleftrightarrow>
     nft_set line ''oc-daemon-filter allowdevs'' fw_devs_update (\<lambda>d. d) ds \<and>
     nft_set line ''oc-daemon-filter allowhosts4'' fw_hosts4_update prefix_String ps \<and>
     nft_set line ''oc-daemon-filter allowhosts6'' fw_hosts6_update prefix_String ps \<and>
     nft_set line ''oc-daemon-filter allowports'' fw_ports_update (\<lambda>p. show_int (uint p)) ports"

lemma filter_lines_run:
  assumes "filter_sets line (set ds) (set ps) (set ports)"
  shows "foldl (\<lambda>s l. line l s) f (device_lines ds) = fw_apply (SetAllowedDevices ds) f"
    and "foldl (\<lambda>s l. line l s) f (host_lines ps) = fw_apply (SetAllowedIPs ps) f"
    and "foldl (\<lambda>s l. line l s) f (port_lines ports) = fw_apply (SetAllowedPorts ports) f"
proof -
  note sets = assms [unfolded filter_sets_def]
  note devs = nft_setD [OF conjunct1 [OF sets], simplified]
    and hosts4 = nft_setD [OF conjunct1 [OF conjunct2 [OF sets]], simplified]
    and hosts6 = nft_setD [OF conjunct1 [OF conjunct2 [OF conjunct2 [OF sets]]], simplified]
    and allports = nft_setD [OF conjunct2 [OF conjunct2 [OF conjunct2 [OF sets]]], simplified]
  show "foldl (\<lambda>s l. line l s) f (device_lines ds) = fw_apply (SetAllowedDevices ds) f"
    using foldl_insert_upd [of fw_devs_update "{}" f ds]
    by (simp add: device_lines_def foldl_lines devs comp_def cong: foldl_cong)
  show "foldl (\<lambda>s l. line l s) f (port_lines ports) = fw_apply (SetAllowedPorts ports) f"
    using foldl_insert_upd [of fw_ports_update "{}" f ports]
    by (simp add: port_lines_def foldl_lines allports comp_def cong: foldl_cong)
  show "foldl (\<lambda>s l. line l s) f (host_lines ps) = fw_apply (SetAllowedIPs ps) f"
    using foldl_two_sets [of fw_hosts4_update fw_hosts6_update "\<lambda>p. addr_Is4 (prefix_Addr p)" "{}" "{}" f ps]
    by (simp add: host_lines_def foldl_lines hosts4 hosts6 if_distrib [of line] if_distribR comp_def
        cong: foldl_cong if_cong)
qed

definition exclude_sets :: "(string \<Rightarrow> Net \<Rightarrow> Net) \<Rightarrow> prefix set \<Rightarrow> bool" where
  "exclude_sets line ps \<longleftrightarrow>
     nft_set line ''oc-daemon-routing excludes4'' net_excl4_update prefix_String ps \<and>
     nft_set line ''oc-daemon-routing excludes6'' net_excl6_update prefix_String ps"

lemma exclude_lines_run:
  assumes "exclude_sets line (set ps)"
  shows "foldl (\<lambda>s l. line l s) n (exclude_lines ps) = net_apply (VPNSetupSetExcludes ps) n"
proof -
  note excl4 = nft_setD [OF conjunct1 [OF assms [unfolded exclude_sets_def]], simplified]
    and excl6 = nft_setD [OF conjunct2 [OF assms [unfolded exclude_sets_def]], simplified]
  have swap: "(if \<not> Q then a else b) = (if Q then b else a)" for Q and a b :: Net by simp
  show ?thesis
    using foldl_two_sets [of net_excl4_update net_excl6_update "\<lambda>p. \<not> addr_Is6 (prefix_Addr p)" "{}" "{}" n ps]
    by (simp add: exclude_lines_def foldl_lines excl4 excl6 if_distrib [of line] if_distribR comp_def swap
        cong: foldl_cong if_cong)
qed

lemma filter_lines_no_newline:
  assumes "\<forall>d\<in>set ds. CHR 0x0A \<notin> set d" "\<forall>p\<in>set ps. prefix_wf p"
  shows "\<forall>l\<in>set (device_lines ds). CHR 0x0A \<notin> set l" "\<forall>l\<in>set (host_lines ps). CHR 0x0A \<notin> set l"
    "\<forall>l\<in>set (port_lines ports). CHR 0x0A \<notin> set l" "\<forall>l\<in>set (exclude_lines ps). CHR 0x0A \<notin> set l"
  using assms
  by (simp_all add: device_lines_def host_lines_def port_lines_def exclude_lines_def prefix_no_newline
      word_no_newline del: if_image_distrib)

lemma run_nft_result:
  assumes "nft_reads runCmd (exe_Nft exe) line" "cfg_Executables c = Some exe"
    and "r = Returns (Inr (nft_cmd c ls))" "\<forall>l\<in>set ls. CHR 0x0A \<notin> set l" "foldl (\<lambda>s l. line l s) s ls = s'"
  shows "map_outcome (\<lambda>r. run_cmds runCmd r s) r = Returns s'"
  unfolding assms(3) outcome.map run_nft_cmd [OF assms(1,2,4)] assms(5) ..

section \<open>Properties\<close>


text \<open>
  The text with the routing exceptions that the VPN setup sends to the packet filter has the effect of
  its model: under the same assumptions on \<^verbatim>\<open>nft\<close>, the IPv4 and IPv6 prefixes are the elements
  of the two sets.
\<close>

lemma excludes_text_refines:
  assumes "cfg_Executables c = Some exe" "is_word (exe_Nft exe)"
    and "nft_reads runCmd (exe_Nft exe) line" "exclude_sets line (set ps)" "\<forall>p\<in>set ps. prefix_wf p"
  shows "map_outcome (\<lambda>r. run_cmds runCmd r n) (vpn_cmds cmdtmpl_init c (VPNSetupSetExcludes ps)) =
     Returns (net_apply (VPNSetupSetExcludes ps) n)"
  by (rule run_nft_result [OF assms(3,1) SetExcludes_cmds [OF assms(1,2)]
      filter_lines_no_newline(4) [of "[]", OF _ assms(5)] exclude_lines_run [OF assms(4)]]) simp

text \<open>Lines of a packet filter that knows the elements of the list by their texts.\<close>

definition set_line :: "string \<Rightarrow> (('e set \<Rightarrow> 'e set) \<Rightarrow> 's \<Rightarrow> 's) \<Rightarrow> (string \<times> 'e) list \<Rightarrow> string \<Rightarrow> 's \<Rightarrow> 's" where
  "set_line name upd es l s =
     (if l = ''flush set inet '' @ name then upd (\<lambda>_. {}) s
      else (case map_of (map (\<lambda>e. (''add element inet '' @ name @ '' { '' @ fst e @ '' }'', snd e)) es) l of
              None \<Rightarrow> s | Some e \<Rightarrow> upd (insert e) s))"

definition example_p4 :: prefix where
  "example_p4 = PrefixFrom (IP4 0x0A000000) 8"

definition example_p6 :: prefix where
  "example_p6 = PrefixFrom (IP6 0x20010DB8000000000000000000000000 '''') 32"

lemma example_prefixes:
  "prefix_String example_p4 = ''10.0.0.0/8''" "prefix_String example_p6 = ''2001:db8::/32''"
  "prefix_wf example_p4" "prefix_wf example_p6"
proof -
  show "prefix_String example_p4 = ''10.0.0.0/8''" unfolding example_p4_def by code_simp
  have "v6_groups 0x20010DB8000000000000000000000000 = [0x2001, 0xdb8, 0, 0, 0, 0, 0, 0]"
    by (simp add: v6_groups_def upt_rec)
  moreover have "zero_run [0x2001, 0xdb8, 0, 0, 0, 0, 0, 0] = Some (2, 8)" by code_simp
  then have "groups_text [0x2001, 0xdb8, 0, 0, 0, 0, 0, 0] = ''2001:db8::''"
    by (simp add: groups_text_def show_base.simps [of 16] digit_char_def)
  moreover have "show_dec 32 = ''32''" by (simp add: show_base.simps [of 10] digit_char_def)
  ultimately show "prefix_String example_p6 = ''2001:db8::/32''"
    by (simp add: example_p6_def prefix_String_def PrefixFrom_def prefix_IsValid_def w_Is4In6_def zone_text_def)
qed (simp_all add: example_p4_def example_p6_def PrefixFrom_wf)

definition example_filter_line :: "string \<Rightarrow> Filter \<Rightarrow> Filter" where
  "example_filter_line l =
     set_line ''oc-daemon-filter allowdevs'' fw_devs_update [(''tun0'', ''tun0'')] l \<circ>
     set_line ''oc-daemon-filter allowhosts4'' fw_hosts4_update [(''10.0.0.0/8'', example_p4), (''2001:db8::/32'', example_p6)] l \<circ>
     set_line ''oc-daemon-filter allowhosts6'' fw_hosts6_update [(''10.0.0.0/8'', example_p4), (''2001:db8::/32'', example_p6)] l \<circ>
     set_line ''oc-daemon-filter allowports'' fw_ports_update [(''80'', 80)] l"

definition example_exclude_line :: "string \<Rightarrow> Net \<Rightarrow> Net" where
  "example_exclude_line l =
     set_line ''oc-daemon-routing excludes4'' net_excl4_update [(''10.0.0.0/8'', example_p4), (''2001:db8::/32'', example_p6)] l \<circ>
     set_line ''oc-daemon-routing excludes6'' net_excl6_update [(''10.0.0.0/8'', example_p4), (''2001:db8::/32'', example_p6)] l"

definition run_lines :: "(string \<Rightarrow> 's \<Rightarrow> 's) \<Rightarrow> string \<Rightarrow> string \<Rightarrow> string list \<Rightarrow> 's \<Rightarrow> 's" where
  "run_lines line nft stdin args s = foldl (\<lambda>s l. line l s) s (split_char (CHR 0x0A) stdin)"

lemma example_filter_sets: "filter_sets example_filter_line {''tun0''} {example_p4, example_p6} {80}"
  by (simp add: filter_sets_def nft_set_def example_filter_line_def set_line_def example_prefixes
      show_int_def show_base.simps [of 10] digit_char_def)

lemma example_exclude_sets: "exclude_sets example_exclude_line {example_p4, example_p6}"
  by (simp add: exclude_sets_def nft_set_def example_exclude_line_def set_line_def example_prefixes)

lemma example_reads: "nft_reads (run_lines example_filter_line) nft example_filter_line"
    "nft_reads (run_lines example_exclude_line) nft example_exclude_line"
  by (simp_all add: nft_reads_def run_lines_def example_filter_line_def example_exclude_line_def set_line_def)

lemma example_nft: "cfg_Executables (NewConfig t) = Some NewExecutables" "is_word (exe_Nft NewExecutables)"
  by (simp_all add: NewConfig_def NewExecutables_def ExecutablesNft_def is_word_def ascii_space_def)


lemma GetCmds_default:
  assumes "gm_get CommandLists name = Some (snd (default_list (name, cs)))" "default_checks t cs" "has_ty t v"
  shows "\<exists>cmds. GetCmds cmdtmpl_init name v = Returns (Inr cmds)"
proof (rule GetCmds_checks [OF _ _ assms(3)])
  show "getCommandList cmdtmpl_init name = Some (snd (default_list (name, cs)))"
    using assms(1) by (simp add: getCommandList_def cmdtmpl_init_def)
  show "list_checks t (snd (default_list (name, cs)))"
    using assms(2) by (simp add: default_checks_def default_list_def list_checks_def cong: option.case_cong)
qed

lemma with_data_ty:
  assumes "has_sections c"
  shows devices_data_ty: "has_ty (TStruct ((''Devices'', TList TStr) # config_types)) (devices_data c ds)"
    and allowedIPs_data_ty: "has_ty (TStruct ((''AllowedIPs'', TList TPrefix) # config_types)) (allowedIPs_data c ps)"
    and ports_data_ty: "has_ty (TStruct ((''Ports'', TList TInt) # config_types)) (ports_data c ports)"
    and addresses_data_ty: "has_ty (TStruct ((''Addresses'', TList TPrefix) # config_types)) (addresses_data c ps)"
  unfolding devices_data_def allowedIPs_data_def ports_data_def addresses_data_def
  by (rule config_data_with_ty [OF assms list_data_ty]; simp)+

lemma tp_cmds_render:
  assumes "has_sections c"
  shows "\<exists>cmds. tp_cmds cmdtmpl_init c e = Returns (Inr cmds)"
  using GetCmds_default [OF CommandLists_get(1) default_lists_check(1) config_data_ty [OF assms]]
    GetCmds_default [OF CommandLists_get(2) default_lists_check(2) config_data_ty [OF assms]]
    GetCmds_default [OF CommandLists_get(6) default_lists_check(3) config_data_ty [OF assms]]
    GetCmds_default [OF CommandLists_get(3) default_lists_check(9) devices_data_ty [OF assms]]
    GetCmds_default [OF CommandLists_get(4) default_lists_check(10) allowedIPs_data_ty [OF assms]]
    GetCmds_default [OF CommandLists_get(5) default_lists_check(11) ports_data_ty [OF assms]]
  by (cases e) simp_all

lemma vpn_cmds_render:
  assumes "has_sections c"
  shows "\<exists>cmds. vpn_cmds cmdtmpl_init c e = Returns (Inr cmds)"
  using GetCmds_default [OF CommandLists_get(7) default_lists_check(4) config_data_ty [OF assms]]
    GetCmds_default [OF CommandLists_get(8) default_lists_check(5) config_data_ty [OF assms]]
    GetCmds_default [OF CommandLists_get(10) default_lists_check(6) config_data_ty [OF assms]]
    GetCmds_default [OF CommandLists_get(12) default_lists_check(8) config_data_ty [OF assms]]
    GetCmds_default [OF CommandLists_get(9) default_lists_check(12) addresses_data_ty [OF assms]]
  by (cases e) simp_all

text \<open>
  C12: The default templates never fail: for every configuration that has its sections, each command list
  that the traffic policing and the VPN setup run executes without error, whatever addresses, devices,
  ports and VPN settings it is given.
\<close>

theorem default_lists_render:
  assumes "has_sections c"
  shows "(\<exists>cmds. tp_cmds cmdtmpl_init c te = Returns (Inr cmds)) \<and>
    (\<exists>cmds. vpn_cmds cmdtmpl_init c ve = Returns (Inr cmds)) \<and>
    (\<exists>cmds. GetCmds cmdtmpl_init ''VPNSetupGetDNS'' (config_data c) = Returns (Inr cmds))"
  using tp_cmds_render [OF assms] vpn_cmds_render [OF assms]
    GetCmds_default [OF CommandLists_get(11) default_lists_check(7) config_data_ty [OF assms]] by blast

lemma NewConfig_has_sections: "has_sections (NewConfig t)"
  by (simp add: has_sections_def NewConfig_def)

theorem default_lists_render_witness:
  "\<exists>cmds. tp_cmds cmdtmpl_init (NewConfig ()) SetFilterRules = Returns (Inr cmds)"
  using default_lists_render [OF NewConfig_has_sections [of "()"], of SetFilterRules VPNSetupTeardown] by blast

text \<open>
  C13: Setting up and tearing down the VPN run exactly the expected commands: the device with its MTU and
  its valid addresses, the table of the packet filter, a default route and the rules for each IP version,
  and the DNS settings; and in the end the removal of device settings, rules, table and DNS settings.
\<close>

theorem vpn_setup_commands:
  assumes "config_words c exe sr dns vpn"
  shows "(\<exists>cmds. vpn_cmds cmdtmpl_init c (VPNSetupSetup vpn (dp_Address dns)) = Returns (Inr cmds) \<and>
      map argv cmds = setup_commands exe sr dns vpn) \<and>
    (\<exists>cmds. vpn_cmds cmdtmpl_init c VPNSetupTeardown = Returns (Inr cmds) \<and>
      map argv cmds = teardown_commands exe sr vpn)"
  using argvs_GetCmds [OF CommandLists_get(7) setup_argvs [OF assms]]
    argvs_GetCmds [OF CommandLists_get(8) teardown_argvs [OF assms]] by simp

definition example_vpn :: VPNConfig where
  "example_vpn = VPNConfig_zero\<lparr>vpn_Device := \<lparr>vd_Name = ''oc-daemon-tun0'', vd_MTU = 1300\<rparr>, vpn_IPv4 := example_p4\<rparr>"

lemma example_words:
  "config_words ((NewConfig ())\<lparr>cfg_VPNConfig := Some example_vpn\<rparr>) NewExecutables NewSplitRoutingConfig NewDNSProxyConfig example_vpn"
  by (simp add: config_words_def NewConfig_def NewExecutables_def ExecutablesIP_def ExecutablesNft_def ExecutablesResolvectl_def
      ExecutablesSysctl_def NewSplitRoutingConfig_def SplitRoutingRoutingTable_def SplitRoutingRulePriority1_def
      SplitRoutingRulePriority2_def SplitRoutingFirewallMark_def NewDNSProxyConfig_def DNSProxyAddress_def
      example_vpn_def VPNConfig_zero_def example_prefixes is_word_def ascii_space_def)

theorem vpn_setup_commands_witness:
  "\<exists>cmds. vpn_cmds cmdtmpl_init ((NewConfig ())\<lparr>cfg_VPNConfig := Some example_vpn\<rparr>) (VPNSetupSetup example_vpn (dp_Address NewDNSProxyConfig)) =
     Returns (Inr cmds) \<and> map argv cmds = setup_commands NewExecutables NewSplitRoutingConfig NewDNSProxyConfig example_vpn"
  using vpn_setup_commands [OF example_words] by blast

text \<open>
  C14: Resetting the DNS settings does not restore the default route of the device: instead of the command
  for it that the setup runs, the list has a command with the printed struct of the device, its name
  after a brace and its MTU before a brace as two arguments.
\<close>

theorem SetDNS_default_route:
  assumes "config_words c exe sr dns vpn"
  shows "\<exists>cmds. vpn_cmds cmdtmpl_init c (VPNSetupSetDNS vpn (dp_Address dns)) = Returns (Inr cmds) \<and>
    map argv cmds = dns_commands exe dns vpn @ [[exe_Resolvectl exe, ''default-route'', ''{'' @ vd_Name (vpn_Device vpn),
      show_int (vd_MTU (vpn_Device vpn)) @ ''}'', ''yes'']] \<and>
    [exe_Resolvectl exe, ''default-route'', vd_Name (vpn_Device vpn), ''yes''] \<in> set (setup_commands exe sr dns vpn) \<and>
    [exe_Resolvectl exe, ''default-route'', vd_Name (vpn_Device vpn), ''yes''] \<notin> set (map argv cmds)"
proof -
  obtain cmds where "vpn_cmds cmdtmpl_init c (VPNSetupSetDNS vpn (dp_Address dns)) = Returns (Inr cmds)"
    "map argv cmds = dns_commands exe dns vpn @ [[exe_Resolvectl exe, ''default-route'', ''{'' @ vd_Name (vpn_Device vpn),
      show_int (vd_MTU (vpn_Device vpn)) @ ''}'', ''yes'']]"
    using argvs_GetCmds [OF CommandLists_get(10) SetDNS_argvs [OF assms]] by auto
  then show ?thesis by (intro exI [of _ cmds]) (simp add: setup_commands_def dns_commands_def Let_def)
qed

theorem SetDNS_default_route_witness:
  "\<exists>cmds. vpn_cmds cmdtmpl_init ((NewConfig ())\<lparr>cfg_VPNConfig := Some example_vpn\<rparr>) (VPNSetupSetDNS example_vpn (dp_Address NewDNSProxyConfig)) =
     Returns (Inr cmds) \<and> [exe_Resolvectl NewExecutables, ''default-route'', ''oc-daemon-tun0'', ''yes''] \<notin> set (map argv cmds)"
  using SetDNS_default_route [OF example_words] by (auto simp: example_vpn_def)

section \<open>Loaded templates and command lists\<close>

text \<open>Loading templates changes the commands of no list: a list keeps the templates it was made with.\<close>

lemma LoadTemplates_GetCmds:
  "GetCmds (snd (LoadTemplates readFile parse file s)) name v = GetCmds s name v"
  by (simp add: LoadTemplates_def GetCmds_def getCommandList_def split: option.split)

text \<open>A null entry after valid ones ends the program.\<close>

lemma check_entries_Panics:
  "check_entries es = Panics \<longleftrightarrow> (\<exists>pre post. es = pre @ None # post \<and> (\<forall>e\<in>set pre. \<exists>n cs. e = Some (n, cs) \<and> n \<in> set list_names))"
proof (induction es rule: check_entries.induct)
  case (2 es)
  then show ?case by (auto intro: exI [of _ "[]"])
next
  case (3 name cs es)
  have "(\<exists>pre post. Some (name, cs) # es = pre @ None # post \<and> (\<forall>e\<in>set pre. \<exists>n cs. e = Some (n, cs) \<and> n \<in> set list_names)) \<longleftrightarrow>
      name \<in> set list_names \<and> (\<exists>pre post. es = pre @ None # post \<and> (\<forall>e\<in>set pre. \<exists>n cs. e = Some (n, cs) \<and> n \<in> set list_names))"
    (is "?l \<longleftrightarrow> _ \<and> ?r")
  proof
    assume ?l
    then obtain pre post where p: "Some (name, cs) # es = pre @ None # post" "\<forall>e\<in>set pre. \<exists>n cs. e = Some (n, cs) \<and> n \<in> set list_names"
      by blast
    then obtain pre' where "pre = Some (name, cs) # pre'" by (cases pre) auto
    with p show "name \<in> set list_names \<and> ?r" by auto
  next
    assume "name \<in> set list_names \<and> ?r"
    then obtain pre post where "name \<in> set list_names" "es = pre @ None # post" "\<forall>e\<in>set pre. \<exists>n cs. e = Some (n, cs) \<and> n \<in> set list_names"
      by blast
    then show ?l by (intro exI [of _ "Some (name, cs) # pre"] exI [of _ post]) auto
  qed
  with 3 show ?case by simp
qed simp

lemma map_outcome_Panics: "map_outcome f x = Panics \<longleftrightarrow> x = Panics"
  by (cases x) simp_all

lemma map_outcome_Returns: "map_outcome f x = Returns y \<longleftrightarrow> (\<exists>z. x = Returns z \<and> f z = y)"
  by (cases x) simp_all

lemma LoadCommandLists_Panics:
  "LoadCommandLists readFile unmarshal file s = Panics \<longleftrightarrow>
     (\<exists>f es. readFile file = Some f \<and> unmarshal f = Some es \<and> check_entries es = Panics)"
  by (auto simp: LoadCommandLists_def map_outcome_Panics split: option.split)

lemma put_entries_get:
  assumes "gm_get (foldl (put_entry t) m es) name = Some cl"
  shows "gm_get m name = Some cl \<or> (cl_template cl = t \<and> cl_Name cl = name \<and> Some (name, cl_Commands cl) \<in> set es)"
  using assms
proof (induction es arbitrary: m)
  case (Cons e es)
  from Cons.IH [of "put_entry t m e"] Cons.prems
  have "gm_get (put_entry t m e) name = Some cl \<or> (cl_template cl = t \<and> cl_Name cl = name \<and> Some (name, cl_Commands cl) \<in> set es)"
    by simp
  then show ?case by (cases "(t, m, e)" rule: put_entry.cases) (auto split: if_splits)
qed simp

lemma put_entries_dom: "gm_get m name \<noteq> None \<Longrightarrow> gm_get (foldl (put_entry t) m es) name \<noteq> None"
proof (induction es arbitrary: m)
  case (Cons e es)
  have "gm_get (put_entry t m e) name \<noteq> None" using Cons.prems by (cases "(t, m, e)" rule: put_entry.cases) auto
  with Cons.IH show ?case by simp
qed simp

lemma default_list_names: "name \<in> set list_names \<Longrightarrow> \<exists>cl. gm_get CommandLists name = Some cl \<and> cl_Name cl = name"
  unfolding list_names_def by (auto simp: CommandLists_get default_list_def)

lemma LoadCommandLists_Blocks: "LoadCommandLists readFile unmarshal file s \<noteq> Blocks"
proof -
  have "check_entries es \<noteq> Blocks" for es by (induction es rule: check_entries.induct) simp_all
  then have "map_outcome f (check_entries es) \<noteq> Blocks" for f :: "bool \<Rightarrow> bool \<times> cmdtmpl" and es
    by (cases "check_entries es") auto
  then show ?thesis by (simp add: LoadCommandLists_def split: option.split)
qed

text \<open>
  After the templates and the command lists were loaded, whether or not that succeeded, each name the
  program uses has a command list of this name: the default list with the default templates, or a list
  of the file, if it was valid, with the templates that were loaded before.
\<close>

lemma loaded_list:
  assumes "LoadCommandLists readFile unmarshal listsFile (snd (LoadTemplates readFile parse tmplFile cmdtmpl_init)) = Returns (ok, s)"
    and "name \<in> set list_names"
  shows "\<exists>cl. getCommandList s name = Some cl \<and> cl_Name cl = name \<and>
    (getCommandList cmdtmpl_init name = Some cl \<or> ok \<and> cl_template cl = ct_defaultTemplate s \<and>
      (\<exists>f es. readFile listsFile = Some f \<and> unmarshal f = Some es \<and> Some (name, cl_Commands cl) \<in> set es))"
proof -
  let ?s = "snd (LoadTemplates readFile parse tmplFile cmdtmpl_init)"
  have lists: "ct_CommandLists ?s = CommandLists" by (simp add: LoadTemplates_def cmdtmpl_init_def split: option.split)
  obtain cl0 where cl0: "gm_get CommandLists name = Some cl0" "cl_Name cl0 = name" using default_list_names [OF assms(2)] by blast
  show ?thesis
  proof (cases "s = ?s")
    case True
    then show ?thesis using cl0 lists by (simp add: getCommandList_def cmdtmpl_init_def)
  next
    case False
    then obtain f es where es: "readFile listsFile = Some f" "unmarshal f = Some es" "ok"
        "s = ?s\<lparr>ct_CommandLists := foldl (put_entry (ct_defaultTemplate ?s)) (ct_CommandLists ?s) es\<rparr>"
      using assms(1) by (auto simp: LoadCommandLists_def map_outcome_Returns split: option.splits if_splits)
    obtain cl where cl: "getCommandList s name = Some cl"
      using put_entries_dom [of CommandLists name "ct_defaultTemplate ?s" es] cl0(1) es(4) lists by (auto simp: getCommandList_def)
    with put_entries_get [of "ct_defaultTemplate ?s" CommandLists es name cl] es lists cl0
    show ?thesis by (auto simp: getCommandList_def cmdtmpl_init_def)
  qed
qed

lemma loaded_list_exists:
  assumes "LoadCommandLists readFile unmarshal listsFile (snd (LoadTemplates readFile parse tmplFile cmdtmpl_init)) = Returns (ok, s)"
  shows "\<forall>name\<in>set list_names. getCommandList s name \<noteq> None"
  using loaded_list [OF assms] by blast

end
