(* ===== verification/DaemonCmd.thy ===== *)
theory DaemonCmd
  imports GoPath GoFlag DaemonProps CmdTmplProps JsonTypes
begin

text \<open>
  The main function of the daemon (\<^verbatim>\<open>internal/daemon/cmd.go\<close>): the configuration it starts with, the
  checks and directories before the start, and the start.
\<close>

section \<open>Model\<close>

text \<open>
  The system and libraries around: reading a file, the configuration of the trusted network detection (its
  default, whether one is valid, how its JSON is decoded, its zero value), looking up executables (an error if
  there is one), making directories, and parsing the text of a template.
\<close>

record 't cmd_sys =
  cm_ReadFile :: "string \<Rightarrow> string option"
  cm_tnd_NewConfig :: 't
  cm_tnd_Valid :: "'t option \<Rightarrow> bool"
  cm_tnd_dec :: "'t dec"
  cm_tnd_zero :: 't
  cm_LookPath :: "string \<Rightarrow> string option"
  cm_MkdirAll :: "string \<Rightarrow> bool"
  cm_ParseTemplates :: "string \<Rightarrow> tmpl option"

text \<open>The options of the command line: those that were set.\<close>

record daemon_flags =
  df_config :: "string option"
  df_verbose :: "bool option"
  df_version :: bool

definition daemon_options :: "(string \<times> flag_kind) list" where
  "daemon_options = [(''config'', StringFlag), (''verbose'', BoolFlag), (''version'', BoolFlag)]"

definition daemon_args :: "string list \<Rightarrow> flag_error + daemon_flags" where
  "daemon_args args =
     map_sum id (\<lambda>(m, _).
         \<lparr>df_config = map_option (\<lambda>_. flag_string m ''config'' '''') (m ''config''),
          df_verbose = map_option (\<lambda>_. flag_bool m ''verbose'' False) (m ''verbose''),
          df_version = flag_bool m ''version'' False\<rparr>)
       (flag_Parse daemon_options Map.empty (drop 1 args))"

text \<open>The directories made, or the one that could not be made.\<close>

fun make_dirs :: "(string \<Rightarrow> bool) \<Rightarrow> string list \<Rightarrow> string list \<Rightarrow> string + string list" where
  "make_dirs mkdirAll made [] = Inr made"
| "make_dirs mkdirAll made (file # files) =
     (let dir = path_Dir file in
      if mkdirAll dir then make_dirs mkdirAll (made @ [dir]) files else Inl dir)"

definition prepareFolders :: "(string \<Rightarrow> bool) \<Rightarrow> 't Config \<Rightarrow> (string + string list) outcome" where
  "prepareFolders mkdirAll config =
     obind (or_panic (cfg_SocketServer config)) (\<lambda>ss.
     obind (or_panic (cfg_OpenConnect config)) (\<lambda>oc.
     Returns (make_dirs mkdirAll [] [cfg_Config config, ss_SocketFile ss, oc_XMLProfile oc, oc_PIDFile oc])))"

definition Config_Load :: "'t cmd_sys \<Rightarrow> 't Config \<Rightarrow> bool \<times> 't Config" where
  "Config_Load S c =
     (case cm_ReadFile S (cfg_Config c) of None \<Rightarrow> (False, c)
      | Some file \<Rightarrow> Unmarshal (dec_daemon_Config (cm_tnd_dec S) (cm_tnd_zero S)) file c)"

text \<open>The configuration before the flag for verbose output is applied.\<close>

definition daemon_config :: "'t cmd_sys \<Rightarrow> daemon_flags \<Rightarrow> 't Config outcome" where
  "daemon_config S f =
     (let config = NewConfig (cm_tnd_NewConfig S);
          config = (case df_config f of None \<Rightarrow> config | Some file \<Rightarrow> config\<lparr>cfg_Config := file\<rparr>);
          config = snd (Config_Load S config)
      in obind (or_panic (Config_Valid (cm_tnd_Valid S) (Some config)))
           (\<lambda>valid. Returns (if \<not> valid then NewConfig (cm_tnd_NewConfig S) else config)))"

text \<open>The templates and command lists after loading the files of the configuration; errors are logged.\<close>

definition load_command_lists :: "'t cmd_sys \<Rightarrow> 't Config \<Rightarrow> cmdtmpl outcome" where
  "load_command_lists S config =
     obind (or_panic (cfg_CommandLists config)) (\<lambda>cl.
       map_outcome snd (LoadCommandLists (cm_ReadFile S) (UnmarshalLists (cm_ParseTemplates S)) (cl_ListsFile cl)
         (snd (LoadTemplates (cm_ReadFile S) (cm_ParseTemplates S) (cl_TemplatesFile cl) cmdtmpl_init))))"

datatype main_error = FlagsError flag_error | ExecutablesError string | FolderError string | StartError

text \<open>
  The result is an error, or nothing after the version was printed, or the started daemon with the
  command lists, which then runs until a signal or an error.
\<close>

definition daemon_start ::
  "'t lib \<Rightarrow> 't cmd_sys \<Rightarrow> daemon_flags \<Rightarrow> Profile option \<Rightarrow> start_env \<Rightarrow>
     (main_error + ('t Daemon \<times> cmdtmpl) option) outcome" where
  "daemon_start L S f loaded e =
     (if df_version f then Returns (Inr None)
      else
        obind (daemon_config S f) (\<lambda>config.
        obind (load_command_lists S config) (\<lambda>lists.
        obind (or_panic (cfg_Executables config)) (\<lambda>exe.
        case CheckExecutables (cm_LookPath S) exe of
          Some err \<Rightarrow> Returns (Inl (ExecutablesError err))
        | None \<Rightarrow>
            (let config = (case df_verbose f of None \<Rightarrow> config | Some v \<Rightarrow> config\<lparr>cfg_Verbose := v\<rparr>) in
             obind (prepareFolders (cm_MkdirAll S) config) (\<lambda>r.
             case r of
               Inl dir \<Rightarrow> Returns (Inl (FolderError dir))
             | Inr _ \<Rightarrow>
                 obind (or_panic (NewDaemon loaded config)) (\<lambda>d.
                 obind (Daemon_Start L e d) (\<lambda>(r, d).
                 case r of Inl _ \<Rightarrow> Returns (Inl StartError) | Inr _ \<Rightarrow> Returns (Inr (Some (d, lists)))))))))))"

definition daemon_main ::
  "'t lib \<Rightarrow> 't cmd_sys \<Rightarrow> string list \<Rightarrow> Profile option \<Rightarrow> start_env \<Rightarrow>
     (main_error + ('t Daemon \<times> cmdtmpl) option) outcome" where
  "daemon_main L S args loaded e =
     (case daemon_args args of Inl err \<Rightarrow> Returns (Inl (FlagsError err)) | Inr f \<Rightarrow> daemon_start L S f loaded e)"

section \<open>Lemmas\<close>

lemma Config_Valid_complete:
  assumes "Config_Valid tv (Some c) = Some True"
  shows "complete c"
proof -
  have "cfg_LoginInfo c \<noteq> None" using assms by (auto simp: Config_Valid_def loginInfoEmpty_def LoginInfo_Valid_def split: if_splits option.splits)
  then show ?thesis using Config_Valid_sections [OF assms] sections_nil_invalid unfolding complete_def by metis
qed

lemma Config_Valid_decides:
  "cfg_VPNConfig c = Some VPNConfig_zero \<Longrightarrow> \<exists>v. Config_Valid tv (Some c) = Some v"
  unfolding Config_Valid_def VPNConfig_Valid_def VPNConfig_Empty_def option.case
  by (split if_split) (simp, blast)

text \<open>Whatever the file contains, the configuration is valid.\<close>

lemma daemon_config_valid:
  assumes "cm_tnd_Valid S (Some (cm_tnd_NewConfig S))"
  shows "\<exists>c. daemon_config S f = Returns c \<and> Config_Valid (cm_tnd_Valid S) (Some c) = Some True"
proof -
  let ?c0 = "case df_config f of None \<Rightarrow> NewConfig (cm_tnd_NewConfig S)
    | Some file \<Rightarrow> (NewConfig (cm_tnd_NewConfig S))\<lparr>cfg_Config := file\<rparr>"
  let ?c = "snd (Config_Load S ?c0)"
  have "cfg_VPNConfig ?c = Some VPNConfig_zero"
    by (simp add: Config_Load_def NewConfig_def Config_Unmarshal_keeps split: option.split)
  then obtain v where v: "Config_Valid (cm_tnd_Valid S) (Some ?c) = Some v" using Config_Valid_decides by blast
  then show ?thesis
    using NewConfig_Config_Valid [of "cm_tnd_Valid S", OF assms]
    by (cases v) (simp_all add: daemon_config_def Let_def or_panic_def)
qed

lemma CheckExecutables_ok: "\<forall>x. lookPath x = None \<Longrightarrow> CheckExecutables lookPath exe = None"
  by (simp add: CheckExecutables_def)

lemma make_dirs_ok: "\<forall>x. mkdirAll x \<Longrightarrow> make_dirs mkdirAll made files = Inr (made @ map path_Dir files)"
  by (induction files arbitrary: made) (simp_all add: Let_def)

text \<open>Without null entries the command lists can be loaded, and each name of the program has its list.\<close>

lemma load_command_lists_ok:
  assumes "cfg_CommandLists config \<noteq> None"
    "\<forall>file b es. cm_ReadFile S file = Some b \<longrightarrow> UnmarshalLists (cm_ParseTemplates S) b = Some es \<longrightarrow> None \<notin> set es"
  shows "\<exists>s. load_command_lists S config = Returns s \<and> (\<forall>name\<in>set list_names. getCommandList s name \<noteq> None)"
proof -
  obtain cl where cl: "cfg_CommandLists config = Some cl" using assms(1) by blast
  let ?s = "snd (LoadTemplates (cm_ReadFile S) (cm_ParseTemplates S) (cl_TemplatesFile cl) cmdtmpl_init)"
  let ?r = "LoadCommandLists (cm_ReadFile S) (UnmarshalLists (cm_ParseTemplates S)) (cl_ListsFile cl) ?s"
  have "?r \<noteq> Panics" unfolding LoadCommandLists_Panics check_entries_Panics using assms(2) by fastforce
  moreover have "?r \<noteq> Blocks" by (rule LoadCommandLists_Blocks)
  ultimately obtain ok s where "?r = Returns (ok, s)" by (cases ?r) auto
  with loaded_list_exists [OF this] cl show ?thesis by (auto simp: load_command_lists_def or_panic_def)
qed

section \<open>Properties\<close>


text \<open>
  A system in which every file is a configuration with no section but the DNS proxy, which is not valid, and
  everything else succeeds. Read as command lists, it is an error, since it is not an array.
\<close>

definition example_file :: string where
  "example_file = ''{\"Verbose\":true,\"SocketServer\":null,\"DNSProxy\":{\"Address\":\"127.0.0.1:4253\"}}''"

definition example_sys :: "unit cmd_sys" where
  "example_sys = \<lparr>cm_ReadFile = (\<lambda>_. Some example_file), cm_tnd_NewConfig = (),
     cm_tnd_Valid = (\<lambda>_. True), cm_tnd_dec = (\<lambda>_ old. (True, old)), cm_tnd_zero = (), cm_LookPath = (\<lambda>_. None),
     cm_MkdirAll = (\<lambda>_. True), cm_ParseTemplates = (\<lambda>_. None)\<rparr>"

lemma example_not_lists: "UnmarshalLists (\<lambda>_. None) example_file = None"
  by code_simp


end
