(* ===== verification/DefaultTool.thy ===== *)
theory DefaultTool
  imports DaemonCmd ClientCfg "HOL-Library.Char_ord" "HOL-Library.List_Lexorder"
begin

text \<open>
  The tool that prints the default files (\<^verbatim>\<open>tools/default\<close>): the configuration of the daemon, the command
  lists, the templates and the configuration of the client. The texts of templates, of which the model has
  the trees, and the encoding of the configuration of the trusted network detection are parameters.
\<close>

section \<open>The tool\<close>

definition printJSON :: "'a enc \<Rightarrow> 'a \<Rightarrow> string" where
  "printJSON enc a = (case enc a of None \<Rightarrow> '''' | Some j \<Rightarrow> json_indent 0 j @ [CHR 0x0A])"

definition enc_command_decl :: "command_decl enc" where
  "enc_command_decl c = enc_struct [(''Line'', enc_string (cd_Line c)), (''Stdin'', enc_string (cd_Stdin c))]"

definition enc_list_decl :: "list_decl enc" where
  "enc_list_decl l = enc_struct
     [(''Name'', enc_string (ld_Name l)), (''Commands'', enc_slice (enc_ptr enc_command_decl) (ld_Commands l))]"

text \<open>A command list with the texts of its templates.\<close>

definition command_text :: "(tmpl option \<Rightarrow> string) \<Rightarrow> Command \<Rightarrow> command_decl" where
  "command_text src c = \<lparr>cd_Line = src (c_Line c), cd_Stdin = src (c_Stdin c)\<rparr>"

definition list_text :: "(tmpl option \<Rightarrow> string) \<Rightarrow> CommandList \<Rightarrow> list_decl" where
  "list_text src cl = \<lparr>ld_Name = cl_Name cl, ld_Commands = Some (map (map_option (command_text src)) (cl_Commands cl))\<rparr>"

text \<open>What is printed for the arguments; without a known argument, the usage is printed as an error only.\<close>

definition default_main ::
  "(tmpl option \<Rightarrow> string) \<Rightarrow> string \<Rightarrow> 't enc \<Rightarrow> 't \<Rightarrow> string list \<Rightarrow> string" where
  "default_main src templates enc_tnd tnd args =
     (if length args < 2 then ''''
      else if args ! 1 = ''daemon-config'' then printJSON (enc_daemon_Config enc_tnd) (NewConfig tnd)
      else if args ! 1 = ''command-lists'' then
        printJSON (enc_slice (enc_ptr enc_list_decl))
          (Some (map (\<lambda>cl. Some (list_text src cl)) (sort_key cl_Name (map snd CommandLists))))
      else if args ! 1 = ''command-templates'' then templates @ [CHR 0x0A]
      else if args ! 1 = ''client-config'' then printJSON enc_ClientConfig NewClientConfig
      else '''')"

section \<open>Lemmas\<close>

text \<open>What is printed is read back.\<close>

lemma json_parse_line: "json_ok j \<Longrightarrow> json_parse (json_indent k j @ [CHR 0x0A]) = Some j"
proof -
  assume j: "json_ok j"
  have "json_lex (json_indent k j @ [CHR 0x0A]) = Some (json_toks j)"
    using lexes_space(2) [OF lexes_indent [OF j], of k 0]
    by (auto simp: lexes_def json_ends_def json_newline_def json_lex_Nil dest: spec [of _ "[]"])
  with j show ?thesis using parse_toks [of "[]" j "[]"] by (simp add: json_parse_def)
qed

lemma printJSON_Unmarshal: "enc x = Some j \<Longrightarrow> json_ok j \<Longrightarrow> Unmarshal dec (printJSON enc x) old = dec j old"
  by (simp add: printJSON_def Unmarshal_def json_parse_line)

lemma codec_command_decl:
  "codec enc_command_decl dec_command_decl (\<lambda>c. valid_utf8 (cd_Line c) \<and> valid_utf8 (cd_Stdin c)) id"
  by (rule codec_struct [where fs =
      "[struct_member ''Line'' cd_Line cd_Line_update enc_string dec_string id,
        struct_member ''Stdin'' cd_Stdin cd_Stdin_update enc_string dec_string id]"])
    (simp_all add: enc_command_decl_def dec_command_decl_def basic_members, simp_all add: struct_member_def)

lemma decls_not_null: "enc_command_decl c \<noteq> Some JNull" "enc_list_decl l \<noteq> Some JNull"
  by (simp_all add: enc_command_decl_def enc_list_decl_def enc_struct_not_null)

definition ok_list_decl :: "list_decl \<Rightarrow> bool" where
  "ok_list_decl l \<longleftrightarrow> valid_utf8 (ld_Name l) \<and>
     list_all (\<lambda>p. \<forall>c \<in> set_option p. valid_utf8 (cd_Line c) \<and> valid_utf8 (cd_Stdin c)) (slice_list (ld_Commands l))"

lemma norm_slice_id: "norm_slice (map_option id) = id"
  by (simp add: fun_eq_iff option.map_id0 list.map_id0)

lemma codec_list_decl: "codec enc_list_decl dec_list_decl ok_list_decl id"
  by (rule codec_struct [where fs =
      "[struct_member ''Name'' ld_Name ld_Name_update enc_string dec_string id,
        struct_member ''Commands'' ld_Commands ld_Commands_update (enc_slice (enc_ptr enc_command_decl))
          (dec_slice (dec_ptr dec_command_decl \<lparr>cd_Line = '''', cd_Stdin = ''''\<rparr>) None) (norm_slice (map_option id))]"])
    (simp_all add: enc_list_decl_def dec_list_decl_def ok_list_decl_def basic_members
      struct_member_law [OF codec.slice [OF codec.ptr [OF codec_command_decl decls_not_null(1)]]] del: option.map_id,
     simp_all add: struct_member_def norm_slice_id)

lemma ok_NewConfig: "ok_tnd t \<Longrightarrow> ok_daemon_Config ok_tnd (NewConfig t)"
proof -
  have "ok_SocketServer NewSocketServer" "ok_CPDConfig NewCPDConfig" "ok_DNSProxyConfig NewDNSProxyConfig"
    "ok_OpenConnect NewOpenConnect" "ok_Executables NewExecutables" "ok_SplitRoutingConfig NewSplitRoutingConfig"
    "ok_TrafficPolicing NewTrafficPolicing" "ok_CommandListsConfig NewCommandListsConfig" by code_simp+
  then show "ok_tnd t \<Longrightarrow> ok_daemon_Config ok_tnd (NewConfig t)"
    by (simp add: ok_daemon_Config_def NewConfig_def)
qed

text \<open>The entry that is read from the text of a list, and storing it for the list of its name.\<close>

lemma entry_of_text:
  assumes "\<forall>c \<in> set (cl_Commands cl). \<forall>x \<in> set_option c. parse (src (c_Line x)) = c_Line x \<and> parse (src (c_Stdin x)) = c_Stdin x"
  shows "entry_of parse (list_text src cl) = (cl_Name cl, cl_Commands cl)"
proof -
  have "map_option (command_of parse) (map_option (command_text src) c) = c" if "c \<in> set (cl_Commands cl)" for c
    using assms that by (cases c) (auto simp: command_of_def command_text_def)
  then show ?thesis by (simp add: entry_of_def list_text_def slice_list_def map_idI)
qed

lemma put_entries_same:
  assumes "\<forall>cl \<in> set cls. gm_get m (cl_Name cl) = Some cl \<and> cl_template cl = t"
  shows "gm_get (foldl (put_entry t) m (map (\<lambda>cl. Some (cl_Name cl, cl_Commands cl)) cls)) n = gm_get m n"
  using assms
proof (induction cls arbitrary: m)
  case (Cons cl cls)
  let ?m = "gm_put (cl_Name cl) cl m"
  have "\<lparr>cl_Name = cl_Name cl, cl_Commands = cl_Commands cl, cl_template = t\<rparr> = cl" using Cons.prems by simp
  moreover have g: "gm_get ?m k = gm_get m k" for k using Cons.prems by (simp add: gm_get_put)
  moreover have "\<forall>cl \<in> set cls. gm_get ?m (cl_Name cl) = Some cl \<and> cl_template cl = t" using Cons.prems g by simp
  ultimately show ?case using Cons.IH [of ?m] by simp
qed simp

lemma check_entries_named:
  "\<forall>cl \<in> set cls. cl_Name cl \<in> set list_names \<Longrightarrow> check_entries (map (\<lambda>cl. Some (cl_Name cl, cl_Commands cl)) cls) = Returns True"
  by (induction cls) simp_all

lemma default_lists:
  assumes "cl \<in> set (map snd CommandLists)"
  shows "gm_get CommandLists (cl_Name cl) = Some cl" "cl_template cl = DefaultTemplate" "cl_Name cl \<in> set list_names"
    "valid_utf8 (cl_Name cl)"
proof -
  have n: "\<forall>(n, cl) \<in> set CommandLists. n = cl_Name cl" "map fst CommandLists = list_names"
    by (simp_all add: CommandLists_def default_list_def list_names_def)
  have d: "distinct list_names" and "list_all (\<lambda>n. \<forall>c \<in> set n. (of_char c :: nat) < 128) list_names" by code_simp+
  then have v: "\<forall>n \<in> set list_names. valid_utf8 n" by (auto simp: list_all_iff intro: valid_utf8_ascii)
  from assms n(1) have m: "(cl_Name cl, cl) \<in> set CommandLists" by force
  with d n(2) show "gm_get CommandLists (cl_Name cl) = Some cl" by simp
  from m n(2) show "cl_Name cl \<in> set list_names" by (metis fst_conv image_eqI set_map)
  with v show "valid_utf8 (cl_Name cl)" by blast
  show "cl_template cl = DefaultTemplate" using assms by (auto simp: CommandLists_def default_list_def)
qed

section \<open>The default files\<close>

text \<open>The texts of the default templates can be written as JSON and are parsed to their trees.\<close>

definition sources_ok :: "(tmpl option \<Rightarrow> string) \<Rightarrow> (string \<Rightarrow> tmpl option) \<Rightarrow> tmpl option list \<Rightarrow> bool" where
  "sources_ok src parse ts \<longleftrightarrow> list_all (\<lambda>t. valid_utf8 (src t) \<and> parse (src t) = t) ts"

definition list_sources :: "CommandList \<Rightarrow> tmpl option list" where
  "list_sources cl = concat (map (\<lambda>c. case c of None \<Rightarrow> [] | Some x \<Rightarrow> [c_Line x, c_Stdin x]) (cl_Commands cl))"

definition default_sources :: "tmpl option list" where
  "default_sources = concat (map (\<lambda>l. list_sources (snd l)) CommandLists)"

lemma sources_okD:
  assumes "sources_ok src parse default_sources" "cl \<in> set (map snd CommandLists)" "Some x \<in> set (cl_Commands cl)" "t \<in> {c_Line x, c_Stdin x}"
  shows "valid_utf8 (src t)" "parse (src t) = t"
proof -
  have "t \<in> set (list_sources cl)" using assms(3,4) by (force simp: list_sources_def)
  then have "t \<in> set default_sources" using assms(2) by (auto simp: default_sources_def)
  with assms(1) show "valid_utf8 (src t)" "parse (src t) = t" by (auto simp: sources_ok_def list_all_iff)
qed

lemma ok_list_text:
  assumes "sources_ok src parse default_sources" "cl \<in> set (map snd CommandLists)"
  shows "ok_list_decl (list_text src cl)"
  using sources_okD(1) [OF assms] default_lists(4) [OF assms(2)]
  by (auto simp: ok_list_decl_def list_text_def slice_list_def list_all_iff command_text_def)

lemma default_lists_read:
  assumes "sources_ok src parse default_sources"
  shows "UnmarshalLists parse (default_main src templates enc_tnd tnd [prog, ''command-lists'']) =
    Some (map (\<lambda>cl. Some (cl_Name cl, cl_Commands cl)) (sort_key cl_Name (map snd CommandLists)))"
proof -
  let ?cls = "sort_key cl_Name (map snd CommandLists)"
  have s: "set ?cls = set (map snd CommandLists)" by simp
  let ?ls = "map (\<lambda>cl. Some (list_text src cl)) ?cls"
  have "codec (enc_slice (enc_ptr enc_list_decl)) (dec_slice (dec_ptr dec_list_decl \<lparr>ld_Name = [], ld_Commands = None\<rparr>) None)
      (\<lambda>s. list_all (\<lambda>p. \<forall>x \<in> set_option p. ok_list_decl x) (slice_list s)) (norm_slice (map_option id))"
    by (rule codec.slice [OF codec.ptr [OF codec_list_decl decls_not_null(2)]])
  moreover have "list_all (\<lambda>p. \<forall>x \<in> set_option p. ok_list_decl x) (slice_list (Some ?ls))"
    using ok_list_text [OF assms] s by (simp add: slice_list_def list_all_iff)
  ultimately obtain j where j: "enc_slice (enc_ptr enc_list_decl) (Some ?ls) = Some j" "json_ok j"
    "\<And>old. dec_slice (dec_ptr dec_list_decl \<lparr>ld_Name = [], ld_Commands = None\<rparr>) None j old = (True, norm_slice (map_option id) (Some ?ls))"
    by (rule codec.encoded) blast
  note u = printJSON_Unmarshal [where enc = "enc_slice (enc_ptr enc_list_decl)", OF j(1,2)]
  have "entry_of parse (list_text src cl) = (cl_Name cl, cl_Commands cl)" if "cl \<in> set ?cls" for cl
  proof (rule entry_of_text)
    have "parse (src t) = t" if "Some x \<in> set (cl_Commands cl)" "t \<in> {c_Line x, c_Stdin x}" for x t
      using sources_okD(2) [OF assms _ that] \<open>cl \<in> set ?cls\<close> s by blast
    then show "\<forall>c \<in> set (cl_Commands cl). \<forall>x \<in> set_option c. parse (src (c_Line x)) = c_Line x \<and> parse (src (c_Stdin x)) = c_Stdin x"
      by auto
  qed
  moreover have "default_main src templates enc_tnd tnd [prog, ''command-lists''] =
      printJSON (enc_slice (enc_ptr enc_list_decl)) (Some (map (\<lambda>cl. Some (list_text src cl)) ?cls))"
    by (simp add: default_main_def)
  ultimately show ?thesis
    by (simp add: UnmarshalLists_def from_JSON_def u j(3) slice_list_def del: set_map set_sort)
qed

lemma default_lists_reload:
  assumes "sources_ok src parse default_sources"
    and "readFile lf = Some (default_main src templates enc_tnd tnd [prog, ''command-lists''])"
  shows "\<exists>s. LoadCommandLists readFile (UnmarshalLists parse) lf cmdtmpl_init = Returns (True, s) \<and>
    (\<forall>n. getCommandList s n = getCommandList cmdtmpl_init n)"
proof -
  let ?cls = "sort_key cl_Name (map snd CommandLists)"
  have d: "\<forall>cl \<in> set ?cls. gm_get CommandLists (cl_Name cl) = Some cl \<and> cl_template cl = DefaultTemplate \<and> cl_Name cl \<in> set list_names"
    using default_lists by simp
  then have "gm_get (foldl (put_entry DefaultTemplate) CommandLists (map (\<lambda>cl. Some (cl_Name cl, cl_Commands cl)) ?cls)) n = gm_get CommandLists n" for n
    by (intro put_entries_same) blast
  moreover have "check_entries (map (\<lambda>cl. Some (cl_Name cl, cl_Commands cl)) ?cls) = Returns True"
    using d by (intro check_entries_named) blast
  ultimately show ?thesis
    by (simp add: LoadCommandLists_def assms(2) default_lists_read [OF assms(1)] getCommandList_def cmdtmpl_init_def)
qed

text \<open>
  C30: The default files that the tool prints change nothing: the daemon that reads its configuration file has the
  default configuration, the command lists it loads are the default ones under every name, and the client has
  the default settings. The texts of the templates are parsed to the trees of the model, and the
  configuration of the trusted network detection has a codec.
\<close>

theorem default_files_change_nothing:
  assumes "codec enc_tnd (cm_tnd_dec S) ok_tnd id" "\<And>t. enc_tnd t \<noteq> Some JNull" "ok_tnd (cm_tnd_NewConfig S)"
    and "sources_ok src (cm_ParseTemplates S) default_sources"
    and "cm_ReadFile S ConfigFile = Some (default_main src templates enc_tnd (cm_tnd_NewConfig S) [prog, ''daemon-config''])"
    and "cm_ReadFile S lf = Some (default_main src templates enc_tnd (cm_tnd_NewConfig S) [prog, ''command-lists''])"
    and "cs_ReadFile C f = Some (default_main src templates enc_tnd (cm_tnd_NewConfig S) [prog, ''client-config''])"
  shows "Config_Load S (NewConfig (cm_tnd_NewConfig S)) = (True, NewConfig (cm_tnd_NewConfig S)) \<and>
    (\<exists>s. LoadCommandLists (cm_ReadFile S) (UnmarshalLists (cm_ParseTemplates S)) lf cmdtmpl_init = Returns (True, s) \<and>
      (\<forall>n. getCommandList s n = getCommandList cmdtmpl_init n)) \<and>
    LoadConfig C f = Some NewClientConfig"
proof (intro conjI)
  let ?c = "NewConfig (cm_tnd_NewConfig S)"
  obtain j where j: "enc_daemon_Config enc_tnd ?c = Some j" "json_ok j"
    "\<And>old. dec_daemon_Config (cm_tnd_dec S) (cm_tnd_zero S) j old = (True, ?c\<lparr>cfg_Config := cfg_Config old,
       cfg_LoginInfo := cfg_LoginInfo old, cfg_VPNConfig := cfg_VPNConfig old\<rparr>)"
    by (rule daemon_Config_round_trip [OF assms(1,2) ok_NewConfig [of ok_tnd, OF assms(3)], of "cm_tnd_zero S"]) blast
  have cf: "cfg_Config ?c = ConfigFile" by (simp add: NewConfig_def)
  have "Config_Load S ?c = (True, ?c\<lparr>cfg_Config := cfg_Config ?c, cfg_LoginInfo := cfg_LoginInfo ?c, cfg_VPNConfig := cfg_VPNConfig ?c\<rparr>)"
    using assms(5)
    by (simp add: printJSON_Unmarshal [where enc = "enc_daemon_Config enc_tnd", OF j(1,2)] j(3) cf Config_Load_def default_main_def)
  then show "Config_Load S ?c = (True, ?c)" by simp
  show "\<exists>s. LoadCommandLists (cm_ReadFile S) (UnmarshalLists (cm_ParseTemplates S)) lf cmdtmpl_init = Returns (True, s) \<and>
      (\<forall>n. getCommandList s n = getCommandList cmdtmpl_init n)"
    using assms(4,6) by (rule default_lists_reload [where readFile = "cm_ReadFile S"])
  have "ok_ClientConfig NewClientConfig" by code_simp
  then obtain i where i: "enc_ClientConfig NewClientConfig = Some i" "json_ok i"
    "\<And>old. dec_ClientConfig i old = (True, NewClientConfig\<lparr>cc_Password := cc_Password old\<rparr>)"
    using ClientConfig_round_trip by blast
  show "LoadConfig C f = Some NewClientConfig"
    using assms(7)
    by (simp add: printJSON_Unmarshal [where enc = enc_ClientConfig, OF i(1,2)] i(3) LoadConfig_def from_JSON_def default_main_def)
qed

text \<open>
  A system in which the text of a template has its number as length, with files for the three outputs, and a trusted network
  detection without settings.
\<close>

definition example_src :: "tmpl option \<Rightarrow> string" where
  "example_src t = map (\<lambda>_. CHR ''x'') (takeWhile (\<lambda>x. x \<noteq> t) default_sources)"

definition example_parse :: "string \<Rightarrow> tmpl option" where
  "example_parse s = default_sources ! length s"

definition example_default :: "string \<Rightarrow> string" where
  "example_default a = default_main example_src '''' (\<lambda>_. Some (JObj [])) () [''default'', a]"

definition default_sys :: "unit cmd_sys" where
  "default_sys = example_sys\<lparr>cm_ReadFile := [ConfigFile \<mapsto> example_default ''daemon-config'', ''lists.json'' \<mapsto> example_default ''command-lists''],
     cm_ParseTemplates := example_parse\<rparr>"

lemma takeWhile_index: "t \<in> set xs \<Longrightarrow> xs ! length (takeWhile (\<lambda>x. x \<noteq> t) xs) = t"
  by (induction xs) auto

lemma example_sources: "sources_ok example_src example_parse default_sources"
  by (simp add: sources_ok_def list_all_iff example_src_def example_parse_def valid_utf8_ascii takeWhile_index)

theorem default_files_change_nothing_witness:
  "Config_Load default_sys (NewConfig ()) = (True, NewConfig ()) \<and>
    (\<exists>s. LoadCommandLists (cm_ReadFile default_sys) (UnmarshalLists example_parse) ''lists.json'' cmdtmpl_init = Returns (True, s) \<and>
      getCommandList s ''VPNSetupSetDNS'' = getCommandList cmdtmpl_init ''VPNSetupSetDNS'')"
proof -
  have c: "codec (\<lambda>_. Some (JObj [])) (cm_tnd_dec default_sys) (\<lambda>_. True) id"
    by unfold_locales (simp add: default_sys_def example_sys_def)
  have f: "ConfigFile \<noteq> ''lists.json''" by code_simp
  have "sources_ok example_src (cm_ParseTemplates default_sys) default_sources" by (simp add: default_sys_def example_sources)
  from default_files_change_nothing [OF c _ _ this, where prog = "''default''" and lf = "''lists.json''" and templates = "[]" and f = "''c.json''" and
      C = "\<lparr>cs_getenv = (\<lambda>_. []), cs_ReadFile = (\<lambda>_. Some (example_default ''client-config'')), cs_UserConfigDir = None\<rparr>"] f
  show ?thesis by (auto simp: default_sys_def example_sys_def example_default_def)
qed

end
