(* ===== verification/Spec2Isabelle.thy ===== *)
theory Spec2Isabelle
  imports VPNCScript ApiServer Bypass ProxyLife DBusTool DefaultTool
begin

text \<open>
  A verification development for OC-Daemon, the VPN daemon around OpenConnect.

  \<^bold>\<open>The program.\<close> The daemon (\<^verbatim>\<open>internal/daemon\<close>) runs one main loop over the events of its parts: D-Bus
  requests of clients (\<^verbatim>\<open>internal/dbusapi\<close>), configuration updates of the script that OpenConnect runs
  (\<^verbatim>\<open>internal/vpncscript\<close>, sent over the socket of \<^verbatim>\<open>internal/api\<close>), events of the OpenConnect runner
  (\<^verbatim>\<open>internal/ocrunner\<close>), results of the trusted network detection, sleep and profile monitors, and
  captive portal reports. Depending on the profile and the network it polices traffic (\<^verbatim>\<open>internal/trafpol\<close>
  with captive portal detection \<^verbatim>\<open>internal/cpd\<close> and a resolver of the allowed names). For a connection it
  sets up the VPN (\<^verbatim>\<open>internal/vpnsetup\<close>) with split routing (\<^verbatim>\<open>internal/splitrt\<close>) and a DNS proxy
  (\<^verbatim>\<open>internal/dnsproxy\<close>) whose reports of watched names become excludes. Its status is published as D-Bus
  properties, which the clients (\<^verbatim>\<open>pkg/client\<close>, \<^verbatim>\<open>internal/client\<close>) query and follow.

  \<^bold>\<open>How code is modelled.\<close> Structs are records, enumerations and tagged values are datatypes, one
  definition per function or method. A Go map is an association list, whose order is the order of one
  iteration; a slice is an optional list, where nil is None. Integers that wrap or are compared with
  widths are words, other \<^verbatim>\<open>int\<close> values are \<open>int\<close>. Errors are values of sum or option types. Calls
  that may panic or wait forever have the type \<open>outcome\<close> with the values \<open>Returns\<close>, \<open>Panics\<close> and
  \<open>Blocks\<close>. Goroutines with channels are step relations; their reachable states are those of \<open>reach\<close> in
  \<^verbatim>\<open>Prelude\<close>, whose locale \<open>machine\<close> gives invariants. What the operating system and libraries
  answer are arguments; the commands run with success.

  \<^bold>\<open>Theories.\<close>
  \<^item> \<^verbatim>\<open>Prelude\<close>: maps, slices, strings, numbers as text, lives of goroutines, step relations.
    \<^verbatim>\<open>Netip\<close>, \<^verbatim>\<open>NetipText\<close>, \<^verbatim>\<open>NetCIDR\<close>: addresses and prefixes, their text forms, and parsing. \<^verbatim>\<open>GoPath\<close>, \<^verbatim>\<open>GoFlag\<close>: file
    names and environment variables in strings, options of a command line. \<^verbatim>\<open>Base64\<close>: the encoding of the token.
  \<^item> \<^verbatim>\<open>Json\<close>: the texts of \<^verbatim>\<open>encoding/json\<close>, written compact or indented, the lexer and the parser, which
    reads back what was written. \<^verbatim>\<open>JsonCodec\<close>: encoding and decoding by type, the VPN configuration and the
    login information. \<^verbatim>\<open>JsonLaws\<close>: the contract of a codec as a locale, the codecs of slices, pointers and
    structs from those of their parts. \<^verbatim>\<open>ConfigUpdate\<close>: configuration updates (\<^verbatim>\<open>vpnconfigupdate.go\<close>), which
    survive the way from the script to the daemon. \<^verbatim>\<open>JsonTypes\<close>: configuration file of the daemon, status,
    entries of command lists.
  \<^item> \<^verbatim>\<open>Aging\<close>, \<^verbatim>\<open>Coalesce\<close>, \<^verbatim>\<open>Policer\<close>: interfaces as locales. A table with a periodic cleanup (dynamic
    excludes, temporary watches), a component that runs one job at a time and loses no request
    (captive portal detection, resolver), and the part of traffic policing that the daemon uses.
  \<^item> \<^verbatim>\<open>VPNConfig\<close>, \<^verbatim>\<open>LoginInfo\<close>, \<^verbatim>\<open>DaemonCfg\<close>, \<^verbatim>\<open>VPNStatus\<close>, \<^verbatim>\<open>XMLProfile\<close>, \<^verbatim>\<open>ClientCfg\<close>: the data, with copies,
    validity and conversions (\<^verbatim>\<open>pkg/vpnconfig\<close>, \<^verbatim>\<open>pkg/logininfo\<close>, \<^verbatim>\<open>internal/daemoncfg\<close>, \<^verbatim>\<open>pkg/vpnstatus\<close>,
    \<^verbatim>\<open>pkg/xmlprofile\<close>, \<^verbatim>\<open>pkg/client/config.go\<close>).
  \<^item> \<^verbatim>\<open>Monitors\<close>: \<^verbatim>\<open>devmon\<close>, \<^verbatim>\<open>addrmon\<close>, \<^verbatim>\<open>dnsmon\<close>, \<^verbatim>\<open>sleepmon\<close>, \<^verbatim>\<open>profilemon\<close>, as functions from an event to the updates.
  \<^item> \<^verbatim>\<open>Excludes\<close>, \<^verbatim>\<open>SplitRt\<close>: the excludes refine a set of addresses; the prefixes sent to the packet
    filter cover the excludes in every state, and are exact without timers; devices, local networks.
  \<^item> \<^verbatim>\<open>DNSProxy\<close>: servers by the longest suffix; every record reached from a watched name by a chain of
    aliases is reported before the reply is written, and no other. \<^verbatim>\<open>Bypass\<close>: with split routing, its address is
    excluded before the reply is written. \<^verbatim>\<open>ProxyLife\<close>: the goroutines of the proxy, which end cleanly if its
    servers were started before it is stopped.
  \<^item> \<^verbatim>\<open>CPD\<close>, \<^verbatim>\<open>Resolver\<close>, \<^verbatim>\<open>TrafPol\<close>: probes, resolving, and the packet filter, which always shows what is
    allowed; starts that fail.
  \<^item> \<^verbatim>\<open>CmdTmpl\<close>: templates as trees of nodes with their execution, the default templates and command lists of
    \<^verbatim>\<open>internal/cmdtmpl\<close>, loading, and the commands of a list. \<^verbatim>\<open>CmdTmplProps\<close>: a type system for templates, under
    which the default lists never fail; the exact commands of setup and teardown; the texts for the packet
    filter refine the sets of \<open>fw_apply\<close> and \<open>net_apply\<close>.
  \<^item> \<^verbatim>\<open>VPNSetup\<close>: setup and teardown of the network settings, installed excludes, DNS settings that are ensured.
  \<^item> \<^verbatim>\<open>OCRunner\<close>: the process, its PID file and its events. \<^verbatim>\<open>Api\<close>: messages, token, server;
    \<^verbatim>\<open>ApiServer\<close>: its loop, in which every client gets one answer and which ends when it is stopped.
    \<^verbatim>\<open>DBusApi\<close>: properties and methods.
  \<^item> \<^verbatim>\<open>Daemon\<close>: all handlers, start and shutdown, the main loop \<open>daemon_step\<close>. \<^verbatim>\<open>DaemonInv\<close>: its invariant
    \<open>run_inv\<close> (view, connection, setup, policing, detection, lives), kept by every step. \<^verbatim>\<open>DaemonLive\<close>: all
    handlers return. \<^verbatim>\<open>DaemonProps\<close>: the properties that follow. \<^verbatim>\<open>DaemonRunner\<close>: daemon and
    runner over channels without buffer. \<^verbatim>\<open>DaemonCmd\<close>: the main function.
  \<^item> \<^verbatim>\<open>VPNCScript\<close>: environment, configuration and message of the script, up to what the daemon receives.
    \<^verbatim>\<open>Client\<close>, \<^verbatim>\<open>ClientCmd\<close>: the client library and the command line client, up to what the daemon does.
    \<^verbatim>\<open>DBusTool\<close>, \<^verbatim>\<open>DefaultTool\<close>: the tools that follow the properties and print the default files.

  \<^bold>\<open>State and code.\<close> \<open>Daemon\<close> is the struct \<^verbatim>\<open>Daemon\<close> with its parts' models as fields; its packet filter is in
  the traffic policing while that exists (\<open>tc_fw\<close>), else in \<open>d_fw\<close>; \<open>d_sent\<close> are the commands
  handed to the runner. \<open>SplitRouting\<close>, \<open>trafpol\<close>, \<open>VPNSetup\<close>, \<open>Runner\<close>, \<open>Service\<close>, \<open>Server\<close>, \<open>Proxy\<close> are the structs of
  their packages; a field of type \<open>life\<close> says whether the goroutine has been started or stopped,
  which decides whether \<^verbatim>\<open>Stop\<close> returns. Counters and lists of sent values
  are added where a property speaks of the past.

  \<^bold>\<open>Bounds.\<close> Every loop of the code is a total function: recursion on lists, or on the tries left
  (\<open>reconnect_wait\<close>, at most five). Templates that call templates are executed up to the depth at which
  \<^verbatim>\<open>text/template\<close> itself gives up (\<open>maxExecDepth\<close>); the default templates need a depth of one.

  \<^bold>\<open>Not modelled.\<close> XML decoding, the D-Bus, netlink, DNS and HTTP libraries and the
  detection of trusted networks are parameters or arguments, with hypotheses where a property needs one
  (copying the configuration of the trusted network detection). Log output, usage texts, timeouts and
  sleeping are left out. The command lists of \<^verbatim>\<open>internal/cmdtmpl\<close> appear by the effect of their defaults on the
  packet filter (\<open>fw_apply\<close>) and the network settings (\<open>net_apply\<close>), when the commands succeed; that the
  texts have this effect is proved for the sets, from what \<^verbatim>\<open>nft\<close> documents of its lines. The texts of templates
  are given as the trees they parse to. The workers of one update of the resolver run in one order. The tools
  \<^verbatim>\<open>ocrunner\<close> and \<^verbatim>\<open>dnsproxy\<close> are tests by hand.
\<close>

end
